(* ===== verification/OC_Prelude.thy ===== *)
theory OC_Prelude
  imports Main "HOL-Library.Word" "HOL-Library.Char_ord" "HOL-Library.List_Lexorder"
    "HOL-Library.Product_Lexorder" "HOL-Library.Multiset"
begin

text \<open>
  The shared vocabulary of the development: machine integers, results, the string
  functions of the Rust standard library that the program uses (a string is its UTF-8 byte
  sequence, one \<open>char\<close> per byte, so \<open>length\<close> is \<open>str::len\<close>), ordered maps
  (\<open>BTreeMap\<close>) as strictly sorted association lists, UUIDs, instants, and the facts on
  lists that the components share.
\<close>

section \<open>Collections of facts\<close>

named_theorems string_simps \<open>evaluation of the string functions on literals\<close>
named_theorems row_simps \<open>what a row update leaves alone\<close>

section \<open>Machine integers\<close>

type_synonym u8 = "8 word"
type_synonym u16 = "16 word"
type_synonym u32 = "32 word"
type_synonym u64 = "64 word"
type_synonym bytes = "u8 list"

text \<open>\<open>u32::saturating_add\<close>, \<open>u32::saturating_mul\<close> and the \<open>usize\<close> version,
  on a word of any width.\<close>

definition sat_add :: "'a::len word \<Rightarrow> 'a word \<Rightarrow> 'a word" where
  "sat_add a b = (if unat a + unat b < 2 ^ LENGTH('a) then a + b else - 1)"

definition sat_mul :: "'a::len word \<Rightarrow> 'a word \<Rightarrow> 'a word" where
  "sat_mul a b = (if unat a * unat b < 2 ^ LENGTH('a) then a * b else - 1)"

lemma unat_max_word: "unat (- 1 :: 'a::len word) = 2 ^ LENGTH('a) - 1"
  by (simp only: unsigned_minus_1_eq_mask mask_eq_exp_minus_1)

lemma unat_sat_add: "unat (sat_add a b) = min (unat a + unat b) (2 ^ LENGTH('a) - 1)"
  for a b :: "'a::len word"
  by (auto simp: sat_add_def unat_word_ariths unat_max_word)

lemma unat_sat_mul: "unat (sat_mul a b) = min (unat a * unat b) (2 ^ LENGTH('a) - 1)"
  for a b :: "'a::len word"
  by (auto simp: sat_mul_def unat_word_ariths unat_max_word)

section \<open>Results\<close>

text \<open>\<open>Result<T, E>\<close>: \<open>Inl\<close> the error, \<open>Inr\<close> the value.\<close>

abbreviation Err :: "'e \<Rightarrow> 'e + 'a" where "Err \<equiv> Inl"
abbreviation Ok :: "'a \<Rightarrow> 'e + 'a" where "Ok \<equiv> Inr"

definition is_ok :: "'e + 'a \<Rightarrow> bool" where
  "is_ok r = (case r of Inl _ \<Rightarrow> False | Inr _ \<Rightarrow> True)"

lemma is_ok_simps [simp]: "is_ok (Inr x)" "\<not> is_ok (Inl e)"
  by (simp_all add: is_ok_def)

lemma is_ok_iff: "is_ok r \<longleftrightarrow> (\<exists>x. r = Inr x)"
  by (cases r) auto

definition ok_or :: "'a option \<Rightarrow> 'e \<Rightarrow> 'e + 'a" where
  "ok_or v e = (case v of None \<Rightarrow> Inl e | Some x \<Rightarrow> Inr x)"

lemma ok_or_simps [simp]: "ok_or None e = Inl e" "ok_or (Some x) e = Inr x"
  by (simp_all add: ok_or_def)

definition map_err :: "('e \<Rightarrow> 'f) \<Rightarrow> 'e + 'a \<Rightarrow> 'f + 'a" where
  "map_err f r = (case r of Inl e \<Rightarrow> Inl (f e) | Inr x \<Rightarrow> Inr x)"

lemma map_err_simps [simp]: "map_err f (Inl e) = Inl (f e)" "map_err f (Inr x) = Inr x"
  by (simp_all add: map_err_def)

section \<open>Strings\<close>

text \<open>\<open>char::is_whitespace\<close>: the code points of Unicode White_Space, UTF-8 encoded.\<close>

definition ws_seqs :: "string list" where
  "ws_seqs =
     [[CHR 0x09], [CHR 0x0A], [CHR 0x0B], [CHR 0x0C], [CHR 0x0D], [CHR 0x20],
      [CHR 0xC2, CHR 0x85], [CHR 0xC2, CHR 0xA0], [CHR 0xE1, CHR 0x9A, CHR 0x80],
      [CHR 0xE2, CHR 0x80, CHR 0x80], [CHR 0xE2, CHR 0x80, CHR 0x81],
      [CHR 0xE2, CHR 0x80, CHR 0x82], [CHR 0xE2, CHR 0x80, CHR 0x83],
      [CHR 0xE2, CHR 0x80, CHR 0x84], [CHR 0xE2, CHR 0x80, CHR 0x85],
      [CHR 0xE2, CHR 0x80, CHR 0x86], [CHR 0xE2, CHR 0x80, CHR 0x87],
      [CHR 0xE2, CHR 0x80, CHR 0x88], [CHR 0xE2, CHR 0x80, CHR 0x89],
      [CHR 0xE2, CHR 0x80, CHR 0x8A], [CHR 0xE2, CHR 0x80, CHR 0xA8],
      [CHR 0xE2, CHR 0x80, CHR 0xA9], [CHR 0xE2, CHR 0x80, CHR 0xAF],
      [CHR 0xE2, CHR 0x81, CHR 0x9F], [CHR 0xE3, CHR 0x80, CHR 0x80]]"

lemma ws_seqs_nonempty: "w \<in> set ws_seqs \<Longrightarrow> w \<noteq> []"
  by (auto simp: ws_seqs_def)

lemma find_ws_shorter:
  assumes "find (\<lambda>w. take (length (g w)) s = g w) ws_seqs = Some w"
    and "\<And>w. length (g w) = length w"
  shows "length (drop (length w) s) < length s"
proof -
  from assms(1) have "w \<in> set ws_seqs" and t: "take (length (g w)) s = g w"
    by (auto simp: find_Some_iff)
  then have "w \<noteq> []" by (simp add: ws_seqs_nonempty)
  with t assms(2) [of w] have "s \<noteq> []" by force
  with \<open>w \<noteq> []\<close> show ?thesis by simp
qed

text \<open>\<open>str::trim_start\<close>, \<open>str::trim_end\<close> and \<open>str::trim\<close>.\<close>

function trim_start :: "string \<Rightarrow> string" where
  "trim_start s =
     (case find (\<lambda>w. take (length w) s = w) ws_seqs of
        None \<Rightarrow> s
      | Some w \<Rightarrow> trim_start (drop (length w) s))"
  by pat_completeness auto
termination
  by (relation "measure length")
     (use find_ws_shorter [where g = "\<lambda>w. w"] in auto)

declare trim_start.simps [simp del]

function trim_rev :: "string \<Rightarrow> string" where
  "trim_rev s =
     (case find (\<lambda>w. take (length (rev w)) s = rev w) ws_seqs of
        None \<Rightarrow> s
      | Some w \<Rightarrow> trim_rev (drop (length w) s))"
  by pat_completeness auto
termination
  by (relation "measure length")
     (use find_ws_shorter [where g = rev] in auto)

declare trim_rev.simps [simp del]

definition trim_end :: "string \<Rightarrow> string" where
  "trim_end s = rev (trim_rev (rev s))"

definition trim :: "string \<Rightarrow> string" where
  "trim s = trim_end (trim_start s)"

text \<open>\<open>s.trim().is_empty()\<close>: every character is white space.\<close>

definition is_blank :: "string \<Rightarrow> bool" where
  "is_blank s \<longleftrightarrow> trim_start s = []"

definition graphic :: "char \<Rightarrow> bool" where
  "graphic c \<longleftrightarrow> 33 \<le> (of_char c :: nat) \<and> (of_char c :: nat) \<le> 126"

lemma ws_not_graphic: "\<forall>w \<in> set ws_seqs. \<not> graphic (hd w)"
  by code_simp

lemma graphic_no_ws:
  assumes "graphic c"
  shows "find (\<lambda>w. take (length w) (c # cs) = w) ws_seqs = None"
proof -
  have "take (length w) (c # cs) \<noteq> w" if "w \<in> set ws_seqs" for w
    using ws_not_graphic ws_seqs_nonempty [OF that] assms that by (cases w) auto
  then show ?thesis by (simp add: find_None_iff)
qed

lemma trim_start_graphic [string_simps]: "graphic c \<Longrightarrow> trim_start (c # cs) = c # cs"
  by (subst trim_start.simps) (simp add: graphic_no_ws)

lemma is_blank_Nil [simp]: "is_blank []"
  unfolding is_blank_def by (subst trim_start.simps) (simp add: ws_seqs_def)

lemma is_blank_graphic [string_simps]: "graphic c \<Longrightarrow> \<not> is_blank (c # cs)"
  by (simp add: is_blank_def trim_start_graphic)

lemma trim_rev_graphic:
  assumes "graphic c"
  shows "trim_rev (c # cs) = c # cs"
proof -
  have "take (length (rev w)) (c # cs) \<noteq> rev w" if "w \<in> set ws_seqs" for w
  proof -
    have "\<not> graphic (last w)" using that unfolding ws_seqs_def by (auto simp: graphic_def)
    then show ?thesis using assms ws_seqs_nonempty [OF that] by (cases w rule: rev_cases) auto
  qed
  then have "find (\<lambda>w. take (length (rev w)) (c # cs) = rev w) ws_seqs = None"
    by (simp add: find_None_iff)
  then show ?thesis by (subst trim_rev.simps) (simp only: option.case)
qed

lemma trim_graphic [string_simps]:
  "s \<noteq> [] \<Longrightarrow> graphic (hd s) \<Longrightarrow> graphic (last s) \<Longrightarrow> trim s = s"
proof -
  assume s: "s \<noteq> []" "graphic (hd s)" "graphic (last s)"
  then have "trim_start s = s" by (cases s) (auto simp: trim_start_graphic)
  moreover from s have "trim_rev (rev s) = rev s" by (cases s rule: rev_cases) (auto simp: trim_rev_graphic)
  ultimately show ?thesis by (simp add: trim_def trim_end_def)
qed

lemma not_blank_not_Nil: "\<not> is_blank s \<Longrightarrow> s \<noteq> []"
  by auto

text \<open>ASCII classes and case conversion of the standard library.\<close>

definition is_ascii_digit :: "char \<Rightarrow> bool" where
  "is_ascii_digit c \<longleftrightarrow> CHR ''0'' \<le> c \<and> c \<le> CHR ''9''"

definition is_ascii_lowercase :: "char \<Rightarrow> bool" where
  "is_ascii_lowercase c \<longleftrightarrow> CHR ''a'' \<le> c \<and> c \<le> CHR ''z''"

definition is_ascii_uppercase :: "char \<Rightarrow> bool" where
  "is_ascii_uppercase c \<longleftrightarrow> CHR ''A'' \<le> c \<and> c \<le> CHR ''Z''"

definition is_ascii_hexdigit :: "char \<Rightarrow> bool" where
  "is_ascii_hexdigit c \<longleftrightarrow> is_ascii_digit c \<or> (CHR ''a'' \<le> c \<and> c \<le> CHR ''f'')
     \<or> (CHR ''A'' \<le> c \<and> c \<le> CHR ''F'')"

text \<open>\<open>byte.is_ascii_digit() || (b'a'..=b'f').contains(&byte)\<close>, the test every hash and
  checksum validator of the program repeats.\<close>

definition is_lower_hex :: "char \<Rightarrow> bool" where
  "is_lower_hex c \<longleftrightarrow> is_ascii_digit c \<or> (CHR ''a'' \<le> c \<and> c \<le> CHR ''f'')"

definition ascii_upper :: "char \<Rightarrow> char" where
  "ascii_upper c = (if is_ascii_lowercase c then char_of (of_char c - 32 :: nat) else c)"

definition ascii_lower :: "char \<Rightarrow> char" where
  "ascii_lower c = (if is_ascii_uppercase c then char_of (of_char c + 32 :: nat) else c)"

definition to_ascii_uppercase :: "string \<Rightarrow> string" where
  "to_ascii_uppercase s = map ascii_upper s"

definition to_ascii_lowercase :: "string \<Rightarrow> string" where
  "to_ascii_lowercase s = map ascii_lower s"

lemma is_lower_hex_hexdigit: "is_lower_hex c \<Longrightarrow> is_ascii_hexdigit c"
  by (auto simp: is_lower_hex_def is_ascii_hexdigit_def)

section \<open>Numbers in text\<close>

text \<open>\<open>Display\<close> of an unsigned and of a signed integer.\<close>

definition digit_char :: "nat \<Rightarrow> char" where
  "digit_char d = ''0123456789abcdef'' ! d"

fun nat_str :: "nat \<Rightarrow> string" where
  "nat_str n = (if n < 10 then [digit_char n] else nat_str (n div 10) @ [digit_char (n mod 10)])"

declare nat_str.simps [simp del]

definition int_str :: "int \<Rightarrow> string" where
  "int_str i = (if i < 0 then CHR ''-'' # nat_str (nat (- i)) else nat_str (nat i))"

lemma all_below_16: "(\<forall>d < 16. P d) \<longleftrightarrow> (\<forall>d \<in> set [0..<16]. P (d::nat))"
  by auto

lemma digit_char_inj: "d < 16 \<Longrightarrow> e < 16 \<Longrightarrow> digit_char d = digit_char e \<Longrightarrow> d = e"
proof -
  have "\<forall>d \<in> set [0..<16]. \<forall>e \<in> set [0..<16]. digit_char d = digit_char e \<longrightarrow> d = e"
    by code_simp
  then show "d < 16 \<Longrightarrow> e < 16 \<Longrightarrow> digit_char d = digit_char e \<Longrightarrow> d = e" by auto
qed

lemma digit_char_lower_hex: "d < 16 \<Longrightarrow> is_lower_hex (digit_char d)"
proof -
  have "\<forall>d \<in> set [0..<16]. is_lower_hex (digit_char d)" by code_simp
  then show "d < 16 \<Longrightarrow> is_lower_hex (digit_char d)" by auto
qed

lemma digit_char_digit: "d < 10 \<Longrightarrow> is_ascii_digit (digit_char d)"
proof -
  have "\<forall>d \<in> set [0..<10]. is_ascii_digit (digit_char d)" by code_simp
  then show "d < 10 \<Longrightarrow> is_ascii_digit (digit_char d)" by auto
qed

lemma nat_str_digits: "c \<in> set (nat_str n) \<Longrightarrow> is_ascii_digit c"
proof (induction n rule: nat_str.induct)
  case (1 n)
  then show ?case
    by (subst (asm) (2) nat_str.simps) (auto simp: digit_char_digit split: if_splits)
qed

lemma nat_str_nonempty [simp]: "nat_str n \<noteq> []"
  by (subst nat_str.simps) simp

lemma nat_str_inj: "nat_str m = nat_str n \<Longrightarrow> m = n"
proof (induction m arbitrary: n rule: nat_str.induct)
  case (1 m)
  have len: "length (nat_str k) = 1 \<longleftrightarrow> k < 10" for k
    by (subst nat_str.simps) simp
  show ?case
  proof (cases "m < 10")
    case True
    with 1(2) len [of m] len [of n] have "n < 10" by simp
    with True 1(2) show ?thesis
      using digit_char_inj [of m n] by (simp add: nat_str.simps [of m] nat_str.simps [of n])
  next
    case False
    with 1(2) len [of m] len [of n] have n: "\<not> n < 10" by simp
    with False 1(2) have "nat_str (m div 10) = nat_str (n div 10)"
      and d: "digit_char (m mod 10) = digit_char (n mod 10)"
      by (simp_all add: nat_str.simps [of m] nat_str.simps [of n])
    then have "m div 10 = n div 10" using 1(1) False by blast
    moreover from d have "m mod 10 = n mod 10" by (rule digit_char_inj [rotated 2]) auto
    ultimately show ?thesis by (metis div_mult_mod_eq)
  qed
qed

lemma dash_not_digit: "\<not> is_ascii_digit (CHR ''-'')"
  by code_simp

lemma colon_not_digit: "\<not> is_ascii_digit (CHR '':'')"
  by code_simp

lemma int_str_inj: "int_str i = int_str j \<Longrightarrow> i = j"
proof -
  have no_dash: "nat_str k \<noteq> CHR ''-'' # cs" for k cs
    using nat_str_digits [of "CHR ''-''" k] dash_not_digit by auto
  assume "int_str i = int_str j"
  then show "i = j"
    using no_dash no_dash [symmetric]
    by (auto simp: int_str_def dest!: nat_str_inj split: if_splits)
qed

text \<open>\<open>format!("{:016x}", w)\<close>: sixteen lower-case hexadecimal digits, high nibble first.\<close>

definition hex16 :: "u64 \<Rightarrow> string" where
  "hex16 w = map (\<lambda>i. digit_char (unat (drop_bit (4 * (15 - i)) w) mod 16)) [0..<16]"

lemma length_hex16 [simp]: "length (hex16 w) = 16"
  by (simp add: hex16_def)

lemma hex16_lower_hex: "c \<in> set (hex16 w) \<Longrightarrow> is_lower_hex c"
  by (auto simp: hex16_def intro!: digit_char_lower_hex)

section \<open>Ordered maps\<close>

text \<open>
  A \<open>BTreeMap\<close> is the list of its entries in strictly increasing key order.
  \<open>bt_entry k f m\<close> is \<open>map.entry(k)\<close> followed by an update: \<open>f None\<close> is inserted
  where the key is vacant, \<open>f (Some v)\<close> replaces an occupied entry's value \<open>v\<close>.
\<close>

fun bt_entry :: "'k::linorder \<Rightarrow> ('v option \<Rightarrow> 'v) \<Rightarrow> ('k \<times> 'v) list \<Rightarrow> ('k \<times> 'v) list" where
  "bt_entry k f [] = [(k, f None)]"
| "bt_entry k f (e # es) =
     (if k < fst e then (k, f None) # e # es
      else if k = fst e then (k, f (Some (snd e))) # es
      else e # bt_entry k f es)"

definition bt_sorted :: "('k::linorder \<times> 'v) list \<Rightarrow> bool" where
  "bt_sorted m \<longleftrightarrow> sorted_wrt (<) (map fst m)"

lemma bt_sorted_Nil [simp]: "bt_sorted []"
  by (simp add: bt_sorted_def)

lemma bt_entry_keys: "fst ` set (bt_entry k f m) = insert k (fst ` set m)"
  by (induction m) auto

lemma bt_entry_sorted [simp]: "bt_sorted m \<Longrightarrow> bt_sorted (bt_entry k f m)"
proof (induction m)
  case (Cons e es)
  have "\<forall>x \<in> fst ` set (bt_entry k f es). fst e < x"
    if "\<not> k < fst e" "k \<noteq> fst e"
    using Cons.prems that by (auto simp: bt_sorted_def bt_entry_keys)
  with Cons show ?case by (fastforce simp: bt_sorted_def)
qed (simp add: bt_sorted_def)

lemma bt_sorted_distinct: "bt_sorted m \<Longrightarrow> distinct (map fst m)"
  by (simp add: bt_sorted_def strict_sorted_iff)

lemma bt_entry_lookup:
  "bt_sorted m \<Longrightarrow> map_of (bt_entry k f m) j = (if j = k then Some (f (map_of m k)) else map_of m j)"
proof (induction m)
  case (Cons e es)
  have "map_of es k = None" if "k < fst e"
    using Cons.prems that by (auto simp: bt_sorted_def map_of_eq_None_iff)
  with Cons show ?case by (cases e) (auto simp: bt_sorted_def)
qed simp

lemma bt_ext:
  assumes "bt_sorted m" "bt_sorted n" "map_of m = map_of n"
  shows "m = n"
proof (rule map_sorted_distinct_set_unique)
  have set_of: "set l = {(k, v). map_of l k = Some v}"
    if "bt_sorted l" for l :: "('a \<times> 'b) list"
    using bt_sorted_distinct [OF that] by (auto simp: map_of_eq_Some_iff)
  with assms show "set m = set n" by simp
  then show "inj_on fst (set m \<union> set n)"
    using bt_sorted_distinct [OF assms(1)] by (simp add: distinct_map)
  show "sorted (map fst m)" "distinct (map fst m)" "sorted (map fst n)" "distinct (map fst n)"
    using assms(1,2) by (simp_all add: bt_sorted_def strict_sorted_iff)
qed

section \<open>Identifiers, instants and JSON\<close>

text \<open>A \<open>Uuid\<close> is sixteen bytes, compared byte by byte from the first, that is, as one
  big-endian 128-bit number.\<close>

datatype uuid = Uuid (uuid_bits: "128 word")

instantiation uuid :: linorder
begin

definition less_eq_uuid :: "uuid \<Rightarrow> uuid \<Rightarrow> bool" where
  "less_eq_uuid a b \<longleftrightarrow> uuid_bits a \<le> uuid_bits b"

definition less_uuid :: "uuid \<Rightarrow> uuid \<Rightarrow> bool" where
  "less_uuid a b \<longleftrightarrow> uuid_bits a < uuid_bits b"

instance
  by standard (auto simp: less_eq_uuid_def less_uuid_def uuid.expand)

end

text \<open>Instants and durations are counted in microseconds, PostgreSQL's resolution.\<close>

type_synonym instant = int

definition seconds :: "int \<Rightarrow> int" where "seconds n = n * 1000000"
definition millis :: "int \<Rightarrow> int" where "millis n = n * 1000"
definition minutes :: "int \<Rightarrow> int" where "minutes n = seconds (60 * n)"
definition hours :: "int \<Rightarrow> int" where "hours n = minutes (60 * n)"
definition days :: "int \<Rightarrow> int" where "days n = hours (24 * n)"

lemmas duration_defs = seconds_def millis_def minutes_def hours_def days_def

datatype json =
    JNull
  | JBool bool
  | JNum int
  | JStr string
  | JArr "json list"
  | JObj "(string \<times> json) list"

text \<open>\<open>Value::get\<close> with a string index: \<open>None\<close> unless the value is an object with that
  member.\<close>

definition json_get :: "string \<Rightarrow> json \<Rightarrow> json option" where
  "json_get k v = (case v of JObj kvs \<Rightarrow> map_of kvs k | _ \<Rightarrow> None)"

section \<open>Lists as tables\<close>

text \<open>\<open>UPDATE \<dots> SET \<dots> WHERE p\<close> on a table kept as the list of its rows.\<close>

definition upd_where :: "('r \<Rightarrow> bool) \<Rightarrow> ('r \<Rightarrow> 'r) \<Rightarrow> 'r list \<Rightarrow> 'r list" where
  "upd_where p f rs = map (\<lambda>r. if p r then f r else r) rs"

lemma upd_where_Nil [simp]: "upd_where p f [] = []"
  by (simp add: upd_where_def)

lemma upd_where_Cons [simp]: "upd_where p f (r # rs) = (if p r then f r else r) # upd_where p f rs"
  by (simp add: upd_where_def)

lemma upd_where_append [simp]: "upd_where p f (rs @ qs) = upd_where p f rs @ upd_where p f qs"
  by (simp add: upd_where_def)

lemma set_upd_where: "set (upd_where p f rs) = (\<lambda>r. if p r then f r else r) ` set rs"
  by (simp add: upd_where_def)

lemma in_upd_where: "r' \<in> set (upd_where p f rs) \<longleftrightarrow>
    (\<exists>r \<in> set rs. (p r \<and> r' = f r) \<or> (\<not> p r \<and> r' = r))"
  by (auto simp: set_upd_where)

lemma length_upd_where [simp]: "length (upd_where p f rs) = length rs"
  by (simp add: upd_where_def)

lemma map_upd_where: "(\<And>r. p r \<Longrightarrow> g (f r) = g r) \<Longrightarrow> map g (upd_where p f rs) = map g rs"
  by (simp add: upd_where_def)

lemma filter_upd_where:
  "(\<And>r. p r \<Longrightarrow> q (f r) = q r) \<Longrightarrow> length (filter q (upd_where p f rs)) = length (filter q rs)"
  by (induction rs) auto

lemma find_upd_where:
  "(\<And>r. p r \<Longrightarrow> q (f r) = q r) \<Longrightarrow>
   find q (upd_where p f rs) = map_option (\<lambda>r. if p r then f r else r) (find q rs)"
  by (induction rs) auto

lemma find_SomeD: "find p xs = Some x \<Longrightarrow> x \<in> set xs \<and> p x"
  by (auto simp: find_Some_iff)

lemma find_distinct_key:
  "distinct (map k rs) \<Longrightarrow> r \<in> set rs \<Longrightarrow> find (\<lambda>r'. k r' = k r) rs = Some r"
  by (induction rs) auto

lemma distinct_key_unique:
  "distinct (map k rs) \<Longrightarrow> r \<in> set rs \<Longrightarrow> q \<in> set rs \<Longrightarrow> k r = k q \<Longrightarrow> r = q"
  by (metis find_distinct_key option.inject)

end
