(* ===== verification/Protocol.thy ===== *)
theory Protocol
  imports OC_Prelude
begin

text \<open>
  The shared protocol crate (\<open>packages/protocol/src/lib.rs\<close>): the versioned envelope and its
  two validators, and the payload types that the server, the relay and the desktop client
  exchange.  Field names carry a short prefix where the Rust structs reuse one name.
  Deserialisation (\<open>serde_json\<close>) and RFC 3339 parsing (\<open>chrono\<close>) are parameters.
\<close>

section \<open>Envelopes\<close>

definition PROTOCOL_VERSION :: string where
  "PROTOCOL_VERSION = ''1.0''"

definition MATCH_REPORT_SCHEMA_VERSION :: u8 where
  "MATCH_REPORT_SCHEMA_VERSION = 1"

definition ALPHA_FAILURE_REPORT_SCHEMA_VERSION :: u8 where
  "ALPHA_FAILURE_REPORT_SCHEMA_VERSION = 1"

definition is_supported_version :: "string \<Rightarrow> bool" where
  "is_supported_version v \<longleftrightarrow> v = ''1.0'' \<or> v = ''1''"

record borrowed_envelope =
  be_msg_type :: string
  be_version :: string
  be_request_id :: string
  be_timestamp :: string
  be_payload :: string

text \<open>\<open>BorrowedEnvelope::validate\<close>; \<open>rfc3339 s\<close> is \<open>DateTime::parse_from_rfc3339(s).is_ok()\<close>.\<close>

definition borrowed_validate :: "(string \<Rightarrow> bool) \<Rightarrow> borrowed_envelope \<Rightarrow> string + unit" where
  "borrowed_validate rfc3339 e =
     (if \<not> is_supported_version (be_version e) then Err ''unsupported protocol version''
      else if is_blank (be_msg_type e) \<or> length (be_msg_type e) > 64 then Err ''invalid message type''
      else if be_request_id e = [] \<or> length (be_request_id e) > 128 then Err ''invalid request id''
      else if \<not> rfc3339 (be_timestamp e) then Err ''invalid timestamp''
      else Ok ())"

text \<open>\<open>BorrowedEnvelope::parse\<close>; \<open>decode\<close> is \<open>serde_json::from_str\<close>.\<close>

definition borrowed_parse ::
    "(string \<Rightarrow> borrowed_envelope option) \<Rightarrow> (string \<Rightarrow> bool) \<Rightarrow> string \<Rightarrow> string + borrowed_envelope" where
  "borrowed_parse decode rfc3339 raw =
     (case decode raw of
        None \<Rightarrow> Err ''invalid envelope''
      | Some e \<Rightarrow>
          (case borrowed_validate rfc3339 e of
             Inl m \<Rightarrow> Err m
           | Inr _ \<Rightarrow> Ok e))"

record 'p envelope =
  env_msg_type :: string
  env_version :: string
  env_request_id :: string
  env_timestamp :: instant
  env_payload :: 'p

text \<open>\<open>Envelope::new\<close>, \<open>Envelope::reply\<close> and \<open>Envelope::validate\<close>; the fresh request id
  and the clock reading are arguments.\<close>

definition envelope_new :: "string \<Rightarrow> instant \<Rightarrow> string \<Rightarrow> 'p \<Rightarrow> 'p envelope" where
  "envelope_new fresh_id now msg_type payload =
     \<lparr>env_msg_type = msg_type, env_version = PROTOCOL_VERSION, env_request_id = fresh_id,
      env_timestamp = now, env_payload = payload\<rparr>"

definition envelope_reply :: "instant \<Rightarrow> string \<Rightarrow> string \<Rightarrow> json \<Rightarrow> json envelope" where
  "envelope_reply now msg_type request_id payload =
     \<lparr>env_msg_type = msg_type, env_version = PROTOCOL_VERSION, env_request_id = request_id,
      env_timestamp = now, env_payload = payload\<rparr>"

definition envelope_validate :: "'p envelope \<Rightarrow> string + unit" where
  "envelope_validate e =
     (if \<not> is_supported_version (env_version e)
      then Err (''unsupported version: '' @ env_version e)
      else if is_blank (env_msg_type e) then Err ''msg_type must not be empty''
      else Ok ())"

text \<open>What the borrowed view sees of an envelope that \<open>serde_json\<close> wrote: \<open>render_time\<close> and
  \<open>render\<close> are its timestamp and payload encoders.\<close>

definition borrow_envelope ::
    "(instant \<Rightarrow> string) \<Rightarrow> ('p \<Rightarrow> string) \<Rightarrow> 'p envelope \<Rightarrow> borrowed_envelope" where
  "borrow_envelope render_time render e =
     \<lparr>be_msg_type = env_msg_type e, be_version = env_version e,
      be_request_id = env_request_id e, be_timestamp = render_time (env_timestamp e),
      be_payload = render (env_payload e)\<rparr>"

lemma is_supported_canonical [simp]: "is_supported_version PROTOCOL_VERSION"
  by (simp add: is_supported_version_def PROTOCOL_VERSION_def)

lemma borrowed_validate_ok:
  "borrowed_validate rfc3339 e = Ok () \<longleftrightarrow>
     is_supported_version (be_version e) \<and> \<not> is_blank (be_msg_type e)
     \<and> length (be_msg_type e) \<le> 64 \<and> be_request_id e \<noteq> [] \<and> length (be_request_id e) \<le> 128
     \<and> rfc3339 (be_timestamp e)"
  by (auto simp: borrowed_validate_def)

lemma borrowed_parse_ok:
  "borrowed_parse decode rfc3339 raw = Ok e \<longleftrightarrow>
     decode raw = Some e \<and> borrowed_validate rfc3339 e = Ok ()"
  by (auto simp: borrowed_parse_def split: option.splits sum.splits)

lemma envelope_validate_ok:
  "envelope_validate e = Ok () \<longleftrightarrow>
     is_supported_version (env_version e) \<and> \<not> is_blank (env_msg_type e)"
  by (simp add: envelope_validate_def)

text \<open>The borrowed check is the stricter one: whatever it accepts, the owned check accepts.\<close>

lemma borrowed_refines_owned:
  "borrowed_validate rfc3339 (borrow_envelope rt r e) = Ok () \<Longrightarrow> envelope_validate e = Ok ()"
  by (simp add: borrowed_validate_ok envelope_validate_ok borrow_envelope_def)

section \<open>States of rooms and challenges\<close>

datatype room_state = Waiting | Ready | Challenging | Connecting | Playing | Finished | Cancelled

datatype challenge_state =
  ChallengePending | ChallengeAccepted | ChallengeDeclined | ChallengeCancelled

record room_payload =
  rp_id :: string
  rp_game_id :: string
  rp_host_id :: string
  rp_guest_id :: "string option"
  rp_state :: room_state

record challenge_payload =
  cp_challenge_id :: string
  cp_room_id :: string
  cp_game_id :: string
  cp_challenger_id :: string
  cp_challenged_id :: string
  cp_state :: challenge_state

section \<open>Messages relayed between room members\<close>

record presence_payload =
  pp_user_id :: string
  pp_rtt_ms :: u32
  pp_jitter :: u32
  pp_relay_reachable :: bool

record chat_payload =
  chat_channel :: string
  chat_body :: string
  chat_author_id :: string

record session_offer_payload =
  offer_room_id :: string
  offer_sdp :: string

record session_answer_payload =
  answer_room_id :: string
  answer_sdp :: string

record session_candidate_payload =
  cand_room_id :: string
  cand_candidate :: string
  cand_sdp_mid :: "string option"
  cand_sdp_mline_index :: "u16 option"

datatype nat_mapping_state = MappingUnknown | MappingOpen | MappingMapped

datatype match_candidate_kind = CandidateHost | CandidateReflexive

record match_endpoint_payload =
  me_room_id :: string
  me_endpoint :: string
  me_reflexive_endpoint :: "string option"
  me_nat :: nat_mapping_state
  me_nonce :: string

record match_probe_completed_payload =
  mpc_room_id :: string
  mpc_frames_received :: u32
  mpc_transcript_checksum :: string

section \<open>Evidence reports\<close>

datatype match_report_role = RoleHost | RoleGuest

datatype match_report_transport = TransportDirectUdp | TransportRelay

datatype native_route_capability = DirectLan | TcpTunnel

datatype alpha_failure_stage =
    EndpointReservation | DirectUdpStage | RelayTicketStage | RelayStage
  | PeerTranscript | RoomTransition | NativeLaunch

datatype alpha_evidence_kind = AttemptFailure

record match_report_room =
  mr_room_id :: string
  mr_game_id :: string
  mr_state :: room_state

record match_report_probe =
  pr_role :: match_report_role
  pr_transport :: match_report_transport
  pr_frames_sent :: u32
  pr_frames_received :: u32
  pr_transcript_checksum :: string
  pr_elapsed_ms :: u32
  pr_nat :: "nat_mapping_state option"
  pr_candidate :: "match_candidate_kind option"
  pr_punch_attempts :: "u8 option"

record match_report_client =
  cl_platform :: string
  cl_user_agent :: string

record match_report_compatibility =
  co_adapter :: string
  co_emulator_version :: "string option"
  co_executable_sha256 :: string
  co_core_sha256 :: string
  co_content_sha256 :: string

record match_report =
  rep_schema_version :: u8
  rep_exported_at :: instant
  rep_room :: match_report_room
  rep_probe :: match_report_probe
  rep_client :: match_report_client
  rep_compatibility :: "match_report_compatibility option"
  rep_native_route :: "native_route_capability option"

record alpha_failure_report =
  fail_schema_version :: u8
  fail_kind :: alpha_evidence_kind
  fail_exported_at :: instant
  fail_room :: match_report_room
  fail_role :: match_report_role
  fail_stage :: alpha_failure_stage
  fail_error_code :: string
  fail_transport :: "match_report_transport option"
  fail_native_route :: "native_route_capability option"
  fail_client :: match_report_client

section \<open>Preflight, launch barrier and receipts\<close>

record controller_preflight_payload =
  ctl_connected :: bool
  ctl_player_slot :: u8

record match_preflight_payload =
  pf_room_id :: string
  pf_compatibility :: match_report_compatibility
  pf_native_port_available :: bool
  pf_controller :: controller_preflight_payload

record native_route_policy_payload =
  rpo_route :: native_route_capability
  rpo_reason :: string
  rpo_evidence_attempts :: u32
  rpo_evidence_verified :: u32

record launch_barrier_payload =
  lb_room_id :: string
  lb_ready_count :: u8
  lb_required_count :: u8
  lb_launch_at :: "instant option"

record room_snapshot_payload =
  snap_room :: room_payload
  snap_revision :: int
  snap_preflight_count :: u8
  snap_compatibility_matched :: bool
  snap_controller_ready_count :: u8
  snap_barrier :: launch_barrier_payload
  snap_route :: native_route_capability
  snap_route_policy :: native_route_policy_payload

record room_invite_payload =
  inv_room_id :: string
  inv_code :: string
  inv_expires_at :: instant

record match_receipt_payload =
  rcp_receipt_id :: string
  rcp_game_id :: string
  rcp_result :: string
  rcp_route :: native_route_capability
  rcp_compatibility_verified :: bool
  rcp_created_at :: instant
  rcp_invite :: room_invite_payload

section \<open>Telemetry\<close>

datatype product_event_name =
    GameSelected | ReadinessCompleted | ReadinessBlocked
  | LobbyEntered | LaunchAttempted | LaunchSucceeded

datatype readiness_check_id = CheckDesktop | CheckControlPlane | CheckGameRuntime | CheckNativePort | CheckNetwork

record product_event_payload =
  pe_event_id :: string
  pe_anonymous_session_id :: string
  pe_event :: product_event_name
  pe_game_id :: string
  pe_blocked_checks :: "readiness_check_id list"

end
