(* ===== verification/Label_Codec.thy ===== *)
theory Label_Codec
  imports OC_Prelude
begin

text \<open>
  The interface of the program's label tables: an enumeration is written to a database column,
  a URL or a JSON field as a text label and read back by a \<open>match\<close> with an error arm.  A table
  promises that reading undoes writing and that nothing but a written label is read.
\<close>

locale label_codec =
  fixes write_label :: "'s \<Rightarrow> string"
    and read_label :: "string \<Rightarrow> 'e + 's"
  assumes read_write: "read_label (write_label s) = Inr s"
    and read_only_written: "read_label t = Inr s \<Longrightarrow> t = write_label s"
begin

lemma read_iff: "read_label t = Inr s \<longleftrightarrow> t = write_label s"
  using read_write read_only_written by blast

lemma write_inj: "write_label s = write_label s' \<longleftrightarrow> s = s'"
  by (metis read_write sum.inject(2))

lemma write_injective: "inj write_label"
  by (rule injI) (simp add: write_inj)

lemma unwritten_rejected: "t \<notin> range write_label \<Longrightarrow> \<exists>e. read_label t = Inl e"
  by (cases "read_label t") (auto dest: read_only_written)

text \<open>A query that compares the column with a written label selects the rows of that state.\<close>

lemma filter_written:
  "filter (\<lambda>r. write_label (col r) = write_label s) rows = filter (\<lambda>r. col r = s) rows"
  by (simp add: write_inj)

end

end
