(* ===== verification/Room_State.thy ===== *)
theory Room_State
  imports Protocol Label_Codec
begin

text \<open>
  The room state machine of the server (\<open>apps/server/src/room_state.rs\<close>): the events, the
  transition function, and the database labels of the states.
\<close>

datatype room_event = Accept | Start | Finish | Cancel | Decline

datatype invalid_transition = InvalidTransition (it_state: room_state) (it_event: room_event)

fun transition :: "room_state \<Rightarrow> room_event \<Rightarrow> invalid_transition + room_state" where
  "transition Waiting Accept = Ok Connecting"
| "transition Challenging Accept = Ok Connecting"
| "transition Connecting Start = Ok Playing"
| "transition Playing Finish = Ok Finished"
| "transition Waiting Cancel = Ok Cancelled"
| "transition Ready Cancel = Ok Cancelled"
| "transition Challenging Cancel = Ok Cancelled"
| "transition Connecting Cancel = Ok Cancelled"
| "transition Playing Cancel = Ok Cancelled"
| "transition Waiting Decline = Ok Cancelled"
| "transition Ready Decline = Ok Cancelled"
| "transition Challenging Decline = Ok Cancelled"
| "transition Connecting Decline = Ok Cancelled"
| "transition Playing Decline = Ok Cancelled"
| "transition state event = Err (InvalidTransition state event)"

definition from_database :: "string \<Rightarrow> string + room_state" where
  "from_database v =
     (if v = ''WAITING'' then Ok Waiting
      else if v = ''READY'' then Ok Ready
      else if v = ''CHALLENGING'' then Ok Challenging
      else if v = ''CONNECTING'' then Ok Connecting
      else if v = ''PLAYING'' then Ok Playing
      else if v = ''FINISHED'' then Ok Finished
      else if v = ''CANCELLED'' then Ok Cancelled
      else Err (''unknown room state: '' @ v))"

fun to_database :: "room_state \<Rightarrow> string" where
  "to_database Waiting = ''WAITING''"
| "to_database Ready = ''READY''"
| "to_database Challenging = ''CHALLENGING''"
| "to_database Connecting = ''CONNECTING''"
| "to_database Playing = ''PLAYING''"
| "to_database Finished = ''FINISHED''"
| "to_database Cancelled = ''CANCELLED''"

interpretation room_label: label_codec to_database from_database
proof
  show "from_database (to_database s) = Inr s" for s
    by (cases s) (simp_all add: from_database_def)
  show "from_database t = Inr s \<Longrightarrow> t = to_database s" for t s
    by (auto simp: from_database_def split: if_splits)
qed

definition terminal :: "room_state \<Rightarrow> bool" where
  "terminal s \<longleftrightarrow> s = Finished \<or> s = Cancelled"

lemma terminal_simps [simp]:
  "terminal Finished" "terminal Cancelled" "\<not> terminal Waiting" "\<not> terminal Ready"
  "\<not> terminal Challenging" "\<not> terminal Connecting" "\<not> terminal Playing"
  by (simp_all add: terminal_def)

text \<open>How far a room has got; every accepted event moves it strictly forward.\<close>

fun room_rank :: "room_state \<Rightarrow> nat" where
  "room_rank Waiting = 0"
| "room_rank Ready = 0"
| "room_rank Challenging = 0"
| "room_rank Connecting = 1"
| "room_rank Playing = 2"
| "room_rank Finished = 3"
| "room_rank Cancelled = 3"

lemma transition_rank: "transition s ev = Ok s' \<Longrightarrow> room_rank s < room_rank s'"
  by (cases s; cases ev) auto

lemma transition_terminal: "terminal s \<Longrightarrow> transition s ev = Err (InvalidTransition s ev)"
  by (cases s; cases ev) auto

text \<open>The states a room passes through when events are applied one after the other; a refused
  event leaves the state as it is (the handlers answer with a conflict).\<close>

fun run_events :: "room_state \<Rightarrow> room_event list \<Rightarrow> room_state" where
  "run_events s [] = s"
| "run_events s (ev # evs) =
     run_events (case transition s ev of Inl _ \<Rightarrow> s | Inr s' \<Rightarrow> s') evs"

lemma run_events_rank: "room_rank s \<le> room_rank (run_events s evs)"
proof (induction evs arbitrary: s)
  case (Cons ev evs)
  show ?case
  proof (cases "transition s ev")
    case (Inr s')
    with Cons [of s'] transition_rank [OF Inr] show ?thesis by simp
  qed (simp add: Cons)
qed simp

lemma run_events_terminal: "terminal s \<Longrightarrow> run_events s evs = s"
  by (induction evs) (simp_all add: transition_terminal)

text \<open>How many of the events are accepted on the way.\<close>

fun accepted_events :: "room_state \<Rightarrow> room_event list \<Rightarrow> nat" where
  "accepted_events s [] = 0"
| "accepted_events s (ev # evs) =
     (case transition s ev of
        Inl _ \<Rightarrow> accepted_events s evs
      | Inr s' \<Rightarrow> Suc (accepted_events s' evs))"

lemma accepted_bounded: "accepted_events s evs + room_rank s \<le> 3"
proof (induction evs arbitrary: s)
  case Nil
  then show ?case by (cases s) auto
next
  case (Cons ev evs)
  show ?case
  proof (cases "transition s ev")
    case (Inr s')
    with Cons [of s'] transition_rank [OF Inr] show ?thesis by simp
  qed (simp add: Cons)
qed

text \<open>The room state machine only moves forward: a room that reaches FINISHED or CANCELLED
  stays there under every further sequence of events, at most three events are ever accepted
  by one room, and FINISHED is reached only through PLAYING.\<close>

theorem room_machine_progress:
  "(terminal (run_events s evs) \<longrightarrow> run_events (run_events s evs) evs' = run_events s evs)
   \<and> accepted_events s evs \<le> 3
   \<and> (transition s' ev = Ok Finished \<longleftrightarrow> s' = Playing \<and> ev = Finish)"
  using accepted_bounded [of s evs] by (cases s'; cases ev) (auto simp: run_events_terminal)

theorem room_machine_progress_witness:
  "run_events (run_events Waiting [Accept, Start, Finish]) [Cancel, Accept] = Finished"
  using room_machine_progress
    [of Waiting "[Accept, Start, Finish]" "[Cancel, Accept]" Playing Finish]
  by simp

text \<open>The database labels of the room states are a codec: a stored label is read back as the
  state that was written, and every other text is refused with an error.\<close>

theorem room_labels_roundtrip:
  "from_database t = Ok s \<longleftrightarrow> t = to_database s"
  by (rule room_label.read_iff)

end
