(* ===== verification/Emulator_SDK.thy ===== *)
theory Emulator_SDK
  imports OC_Prelude
begin

text \<open>
  The emulator adapter SDK (\<open>packages/emulator-sdk/src/lib.rs\<close>): match descriptors and their
  validation, transport leases, adapter capabilities, the deterministic mock adapter, and the
  path confinement of launched executables.  Calls into the file system
  (\<open>Path::canonicalize\<close>) and process creation are parameters.
\<close>

section \<open>Addresses\<close>

text \<open>\<open>std::net\<close>: an address is its octets, four for IPv4 and sixteen for IPv6.\<close>

datatype ip_addr = V4 (ip_octets: bytes) | V6 (ip_octets: bytes)

datatype socket_addr = SocketAddr (sa_ip: ip_addr) (sa_port: u16)

definition wf_ip :: "ip_addr \<Rightarrow> bool" where
  "wf_ip a = (case a of V4 b \<Rightarrow> length b = 4 | V6 b \<Rightarrow> length b = 16)"

definition is_unspecified :: "ip_addr \<Rightarrow> bool" where
  "is_unspecified a \<longleftrightarrow> list_all (\<lambda>b. b = 0) (ip_octets a)"

section \<open>Errors and reports\<close>

datatype adapter_error =
    NotDetected string
  | Validation string
  | Launch string
  | MatchPreparation string
  | AdapterIo string

record detected_emulator =
  de_id :: string
  de_executable :: "string list"
  de_install_root :: "string list"
  de_version :: "string option"

record validation_report =
  vr_valid :: bool
  vr_warnings :: "string list"

definition validation_report_valid :: validation_report where
  "validation_report_valid = \<lparr>vr_valid = True, vr_warnings = []\<rparr>"

section \<open>Launching below a root\<close>

text \<open>A path is the list of its components; \<open>canon p\<close> is what \<open>Path::canonicalize\<close> answers,
  the error being the text of the I/O error.\<close>

type_synonym path = "string list"

record launch_spec =
  ls_executable :: path
  ls_current_dir :: path
  ls_args :: "path list"

definition starts_with :: "path \<Rightarrow> path \<Rightarrow> bool" where
  "starts_with p root \<longleftrightarrow> take (length root) p = root"

definition canonicalize_below ::
    "(path \<Rightarrow> string + path) \<Rightarrow> path \<Rightarrow> path \<Rightarrow> adapter_error + path" where
  "canonicalize_below canon p root =
     (case canon root of
        Inl e \<Rightarrow> Err (AdapterIo e)
      | Inr root' \<Rightarrow>
          (case canon p of
             Inl e \<Rightarrow> Err (AdapterIo e)
           | Inr p' \<Rightarrow>
               (if p' = root' \<or> \<not> starts_with p' root'
                then Err (Validation ''path must resolve below the configured root'')
                else Ok p')))"

text \<open>\<open>spawn_validated\<close>; \<open>spawn\<close> is the process launcher.\<close>

definition spawn_validated ::
    "(path \<Rightarrow> string + path) \<Rightarrow> (launch_spec \<Rightarrow> adapter_error + 'h) \<Rightarrow>
     path \<Rightarrow> path \<Rightarrow> path \<Rightarrow> path \<Rightarrow> path list \<Rightarrow> adapter_error + 'h" where
  "spawn_validated canon spawn executable executable_root rom rom_root additional_args =
     (case canonicalize_below canon executable executable_root of
        Inl e \<Rightarrow> Err e
      | Inr exe \<Rightarrow>
          (case canonicalize_below canon rom rom_root of
             Inl e \<Rightarrow> Err e
           | Inr rom' \<Rightarrow>
               (if exe = [] then Err (Validation ''emulator has no parent directory'')
                else spawn \<lparr>ls_executable = exe, ls_current_dir = butlast exe,
                            ls_args = additional_args @ [rom']\<rparr>)))"

text \<open>\<open>StdProcessLauncher\<close>: the command it builds; \<open>spawn\<close> is \<open>Command::spawn\<close>.\<close>

datatype stdio = StdioNull | StdioPiped

record process_command =
  pc_program :: path
  pc_args :: "path list"
  pc_current_dir :: path
  pc_stdin :: stdio
  pc_stdout :: stdio
  pc_stderr :: stdio

definition std_spawn :: "(process_command \<Rightarrow> string + 'h) \<Rightarrow> launch_spec \<Rightarrow> adapter_error + 'h" where
  "std_spawn spawn spec =
     map_err AdapterIo (spawn
       \<lparr>pc_program = ls_executable spec, pc_args = ls_args spec, pc_current_dir = ls_current_dir spec,
        pc_stdin = StdioNull, pc_stdout = StdioPiped, pc_stderr = StdioPiped\<rparr>)"

lemma starts_with_split: "starts_with p root \<Longrightarrow> p = root @ drop (length root) p"
  by (metis append_take_drop_id starts_with_def)

lemma canonicalize_below_ok:
  assumes "canonicalize_below canon p root = Ok q"
  shows "\<exists>r rest. canon root = Ok r \<and> canon p = Ok q \<and> q = r @ rest \<and> rest \<noteq> []"
proof -
  from assms obtain r where r: "canon root = Ok r" "canon p = Ok q" "q \<noteq> r" "starts_with q r"
    by (auto simp: canonicalize_below_def split: sum.splits if_splits)
  with starts_with_split [OF r(4)] show ?thesis by (metis append_Nil2)
qed

text \<open>Path confinement: when a launch is attempted, the executable and the ROM handed to
  the process launcher both lie strictly below the canonical forms of their configured roots,
  the working directory is the executable's directory, which is inside (or is) the executable
  root, and the ROM is the last argument after the caller's own.\<close>

theorem spawn_is_confined:
  assumes "spawn_validated canon spawn exe exe_root rom rom_root args = Ok h"
  shows "\<exists>er e rr r. canon exe_root = Ok er \<and> canon rom_root = Ok rr \<and> e \<noteq> [] \<and> r \<noteq> []
    \<and> spawn \<lparr>ls_executable = er @ e, ls_current_dir = er @ butlast e,
              ls_args = args @ [rr @ r]\<rparr> = Ok h"
proof -
  from assms obtain e' r' where
    e: "canonicalize_below canon exe exe_root = Ok e'" and
    r: "canonicalize_below canon rom rom_root = Ok r'" and
    s: "spawn \<lparr>ls_executable = e', ls_current_dir = butlast e', ls_args = args @ [r']\<rparr> = Ok h"
    by (auto simp: spawn_validated_def split: sum.splits if_splits)
  from canonicalize_below_ok [OF e] canonicalize_below_ok [OF r] s show ?thesis
    by (auto simp: butlast_append) blast
qed

definition demo_canon :: "path \<Rightarrow> string + path" where
  "demo_canon p = Ok (''srv'' # p)"

theorem spawn_is_confined_witness:
  "\<exists>er e rr r. demo_canon [''emu''] = Ok er \<and> demo_canon [''roms''] = Ok rr \<and> e \<noteq> [] \<and> r \<noteq> []
    \<and> (Ok \<lparr>ls_executable = er @ e, ls_current_dir = er @ butlast e,
              ls_args = [[''-w'']] @ [rr @ r]\<rparr> :: adapter_error + launch_spec)
       = Ok \<lparr>ls_executable = [''srv'', ''emu'', ''fbneo''], ls_current_dir = [''srv'', ''emu''],
              ls_args = [[''-w''], [''srv'', ''roms'', ''sf3.zip'']]\<rparr>"
  using spawn_is_confined [of demo_canon "\<lambda>s. Ok s" "[''emu'', ''fbneo'']" "[''emu'']"
      "[''roms'', ''sf3.zip'']" "[''roms'']" "[[''-w'']]"
      "\<lparr>ls_executable = [''srv'', ''emu'', ''fbneo''], ls_current_dir = [''srv'', ''emu''],
        ls_args = [[''-w''], [''srv'', ''roms'', ''sf3.zip'']]\<rparr>"]
  by (simp add: spawn_validated_def canonicalize_below_def starts_with_def demo_canon_def)

section \<open>Match descriptors\<close>

datatype peer_role = Host | Guest

datatype transport_kind = InMemory | DirectUdp | HolePunch | Stun | Relay

record transport_lease =
  tl_kind :: transport_kind
  tl_local_endpoint :: socket_addr
  tl_peer_endpoint :: socket_addr

definition native_process ::
    "transport_kind \<Rightarrow> socket_addr \<Rightarrow> socket_addr \<Rightarrow> adapter_error + transport_lease" where
  "native_process kind local_endpoint peer_endpoint =
     (if kind \<noteq> DirectUdp
      then Err (MatchPreparation
             ''native-process netplay requires an explicitly authorized direct route'')
      else if sa_port local_endpoint = 0 \<or> sa_port peer_endpoint = 0
      then Err (MatchPreparation ''transport lease endpoints require non-zero ports'')
      else Ok \<lparr>tl_kind = kind, tl_local_endpoint = local_endpoint,
               tl_peer_endpoint = peer_endpoint\<rparr>)"

record match_descriptor =
  md_room_id :: string
  md_game_id :: string
  md_local_user_id :: string
  md_peer_user_id :: string
  md_role :: peer_role
  md_transport :: transport_kind
  md_local_endpoint :: socket_addr
  md_peer_endpoint :: socket_addr
  md_input_delay_frames :: u8

definition descriptor_validate :: "match_descriptor \<Rightarrow> adapter_error + unit" where
  "descriptor_validate d =
     (if is_blank (md_room_id d) \<or> is_blank (md_game_id d)
         \<or> is_blank (md_local_user_id d) \<or> is_blank (md_peer_user_id d)
      then Err (MatchPreparation ''match identifiers must not be empty'')
      else if md_local_user_id d = md_peer_user_id d
      then Err (MatchPreparation ''local and peer users must be different'')
      else if md_input_delay_frames d > 15
      then Err (MatchPreparation ''input delay must be between 0 and 15 frames'')
      else Ok ())"

definition descriptor_transport_lease :: "match_descriptor \<Rightarrow> adapter_error + transport_lease" where
  "descriptor_transport_lease d =
     native_process (md_transport d) (md_local_endpoint d) (md_peer_endpoint d)"

lemma descriptor_validate_ok:
  "descriptor_validate d = Ok () \<longleftrightarrow>
     \<not> is_blank (md_room_id d) \<and> \<not> is_blank (md_game_id d) \<and> \<not> is_blank (md_local_user_id d)
     \<and> \<not> is_blank (md_peer_user_id d) \<and> md_local_user_id d \<noteq> md_peer_user_id d
     \<and> md_input_delay_frames d \<le> 15"
  by (auto simp: descriptor_validate_def)

lemma descriptor_validate_cases:
  "descriptor_validate d = Ok () \<or> (\<exists>m. descriptor_validate d = Err (MatchPreparation m))"
  by (simp add: descriptor_validate_def)

section \<open>Adapters\<close>

datatype netplay_mode = OpenCadeFrames | NativeProcess | BlockedNoPublicInterface

record adapter_capabilities =
  cap_local_play :: bool
  cap_netplay :: netplay_mode

definition supports_netplay :: "adapter_capabilities \<Rightarrow> bool" where
  "supports_netplay c \<longleftrightarrow> cap_netplay c \<noteq> BlockedNoPublicInterface"

text \<open>The default \<open>EmulatorAdapter::prepare_match\<close> of an adapter with the given id and
  capabilities, and \<open>launch_match\<close> on top of it.\<close>

definition prepare_match ::
    "string \<Rightarrow> adapter_capabilities \<Rightarrow> match_descriptor \<Rightarrow> adapter_error + unit" where
  "prepare_match adapter_id caps d =
     (case descriptor_validate d of
        Inl e \<Rightarrow> Err e
      | Inr _ \<Rightarrow>
          (if \<not> supports_netplay caps
           then Err (MatchPreparation (''adapter '' @ [CHR 0x27] @ adapter_id @ [CHR 0x27]
                       @ '' does not provide netplay''))
           else Ok ()))"

definition launch_match ::
    "(path \<Rightarrow> adapter_error + 'h) \<Rightarrow> string \<Rightarrow> adapter_capabilities \<Rightarrow> path \<Rightarrow> match_descriptor
       \<Rightarrow> adapter_error + 'h" where
  "launch_match launch adapter_id caps rom d =
     (case prepare_match adapter_id caps d of Inl e \<Rightarrow> Err e | Inr _ \<Rightarrow> launch rom)"

text \<open>\<open>MockAdapter\<close>: the prepared descriptors behind its mutex.\<close>

type_synonym mock_adapter = "match_descriptor list"

definition mock_capabilities :: adapter_capabilities where
  "mock_capabilities = \<lparr>cap_local_play = False, cap_netplay = OpenCadeFrames\<rparr>"

definition mock_prepare_match ::
    "mock_adapter \<Rightarrow> match_descriptor \<Rightarrow> (adapter_error + unit) \<times> mock_adapter" where
  "mock_prepare_match prepared d =
     (case descriptor_validate d of
        Inl e \<Rightarrow> (Err e, prepared)
      | Inr _ \<Rightarrow> (Ok (), prepared @ [d]))"

definition mock_launch :: "path \<Rightarrow> adapter_error + unit" where
  "mock_launch rom = Err (Launch ''mock adapter does not launch an external process'')"

text \<open>The mock differs from the default preparation only in what it records.\<close>

lemma mock_prepare_refines:
  "fst (mock_prepare_match prepared d) = prepare_match ''mock'' mock_capabilities d"
  by (simp add: mock_prepare_match_def prepare_match_def mock_capabilities_def
      supports_netplay_def split: sum.splits)

text \<open>The rest of the mock: nothing is looked up and nothing is started.\<close>

definition mock_id :: string where "mock_id = ''mock''"

definition mock_detect :: "path \<Rightarrow> adapter_error + detected_emulator" where
  "mock_detect install_dir =
     Ok \<lparr>de_id = mock_id, de_executable = install_dir @ [''mock-adapter''], de_install_root = install_dir,
         de_version = Some ''test''\<rparr>"

definition mock_validate :: "path \<Rightarrow> adapter_error + validation_report" where
  "mock_validate rom = Ok validation_report_valid"

definition mock_get_version :: "adapter_error + string" where
  "mock_get_version = Ok ''test''"

definition prepared_matches :: "mock_adapter \<Rightarrow> adapter_error + match_descriptor list" where
  "prepared_matches prepared = Ok prepared"

definition mock_stop :: "'h \<Rightarrow> adapter_error + unit" where
  "mock_stop child = Ok ()"

lemma launch_match_ok:
  "launch_match launch i caps rom d = Ok h \<longleftrightarrow>
     descriptor_validate d = Ok () \<and> supports_netplay caps \<and> launch rom = Ok h"
  by (auto simp: launch_match_def prepare_match_def split: sum.splits)

end
