(* ===== verification/Std_Text.thy ===== *)
theory Std_Text
  imports Emulator_SDK
begin

text \<open>
  The text functions of the Rust standard library that the configuration and the connection
  handling use: splitting, unsigned integers, and the \<open>IpAddr\<close> parser, which is a recursive-descent
  parser that reads what it can and leaves the rest; with the facts that printed addresses parse
  back.
\<close>

section \<open>Splitting\<close>

text \<open>\<open>s.split(',')\<close>, \<open>str::strip_prefix\<close>, \<open>str::ends_with\<close>, and \<open>trim_matches\<close> of a set of characters.\<close>

fun split_commas :: "string \<Rightarrow> string list" where
  "split_commas [] = [[]]"
| "split_commas (c # cs) =
     (if c = CHR '','' then [] # split_commas cs
      else case split_commas cs of [] \<Rightarrow> [[c]] | p # ps \<Rightarrow> (c # p) # ps)"

definition strip_prefix :: "string \<Rightarrow> string \<Rightarrow> string option" where
  "strip_prefix p s = (if take (length p) s = p then Some (drop (length p) s) else None)"

definition ends_with :: "string \<Rightarrow> string \<Rightarrow> bool" where
  "ends_with suffix s \<longleftrightarrow> length suffix \<le> length s \<and> drop (length s - length suffix) s = suffix"

definition trim_chars :: "char list \<Rightarrow> string \<Rightarrow> string" where
  "trim_chars cs s = rev (dropWhile (\<lambda>c. c \<in> set cs) (rev (dropWhile (\<lambda>c. c \<in> set cs) s)))"

definition eq_ignore_ascii_case :: "string \<Rightarrow> string \<Rightarrow> bool" where
  "eq_ignore_ascii_case s t \<longleftrightarrow> to_ascii_lowercase s = to_ascii_lowercase t"

section \<open>Numbers\<close>

text \<open>\<open>char::to_digit(radix)\<close> for radix up to 16, and the value of a digit string.\<close>

definition to_digit :: "nat \<Rightarrow> char \<Rightarrow> nat option" where
  "to_digit radix c =
     (let d = (if is_ascii_digit c then of_char c - 48
               else if CHR ''a'' \<le> c \<and> c \<le> CHR ''f'' then of_char c - 87
               else if CHR ''A'' \<le> c \<and> c \<le> CHR ''F'' then of_char c - 55
               else 16)
      in if d < radix then Some d else None)"

definition digits_value :: "nat \<Rightarrow> string \<Rightarrow> nat" where
  "digits_value radix ds = foldl (\<lambda>v c. v * radix + the (to_digit radix c)) 0 ds"

text \<open>\<open>s.parse::<uN>()\<close> for a type with the given number of values: an optional plus sign and at least one
  digit, and the value must fit.\<close>

definition parse_unsigned :: "nat \<Rightarrow> string \<Rightarrow> nat option" where
  "parse_unsigned bound s =
     (let ds = (case s of c # cs \<Rightarrow> (if c = CHR ''+'' then cs else s) | [] \<Rightarrow> []) in
      if ds = [] \<or> \<not> list_all is_ascii_digit ds \<or> digits_value 10 ds \<ge> bound then None
      else Some (digits_value 10 ds))"

section \<open>Addresses\<close>

text \<open>\<open>Parser::read_number\<close>: all the digits there are, at most \<open>max_digits\<close> of them.\<close>

definition read_number :: "nat \<Rightarrow> nat \<Rightarrow> bool \<Rightarrow> nat \<Rightarrow> string \<Rightarrow> (nat \<times> string) option" where
  "read_number radix max_digits allow_zero_prefix bound s =
     (let ds = takeWhile (\<lambda>c. to_digit radix c \<noteq> None) s in
      if ds = [] \<or> length ds > max_digits then None
      else if \<not> allow_zero_prefix \<and> hd ds = CHR ''0'' \<and> length ds > 1 then None
      else if digits_value radix ds \<ge> bound then None
      else Some (digits_value radix ds, drop (length ds) s))"

text \<open>\<open>Parser::read_separator\<close>: the separator before every element but the first.\<close>

definition read_separated :: "char \<Rightarrow> nat \<Rightarrow> (string \<Rightarrow> 'a option) \<Rightarrow> string \<Rightarrow> 'a option" where
  "read_separated sep i inner s =
     (if i = 0 then inner s
      else case s of [] \<Rightarrow> None | c # cs \<Rightarrow> (if c = sep then inner cs else None))"

fun read_octets :: "nat \<Rightarrow> nat \<Rightarrow> string \<Rightarrow> (nat list \<times> string) option" where
  "read_octets 0 i s = Some ([], s)"
| "read_octets (Suc n) i s =
     (case read_separated (CHR ''.'') i (read_number 10 3 False 256) s of
        None \<Rightarrow> None
      | Some (v, r) \<Rightarrow> map_option (\<lambda>(vs, r'). (v # vs, r')) (read_octets n (Suc i) r))"

definition read_ipv4 :: "string \<Rightarrow> (nat list \<times> string) option" where
  "read_ipv4 s = read_octets 4 0 s"

text \<open>Up to \<open>n\<close> more groups, the next one being number \<open>i\<close>; an embedded IPv4 address takes two and ends
  the list.  The flag tells whether there was one.\<close>

fun read_groups :: "nat \<Rightarrow> nat \<Rightarrow> string \<Rightarrow> nat list \<times> bool \<times> string" where
  "read_groups 0 i s = ([], False, s)"
| "read_groups (Suc n) i s =
     (case (if n > 0 then read_separated (CHR '':'') i read_ipv4 s else None) of
        Some (vs, r) \<Rightarrow> ([vs ! 0 * 256 + vs ! 1, vs ! 2 * 256 + vs ! 3], True, r)
      | None \<Rightarrow>
          (case read_separated (CHR '':'') i (read_number 16 4 True 65536) s of
             None \<Rightarrow> ([], False, s)
           | Some (g, r) \<Rightarrow> (case read_groups n (Suc i) r of (gs, v4, r') \<Rightarrow> (g # gs, v4, r'))))"

definition read_ipv6 :: "string \<Rightarrow> (nat list \<times> string) option" where
  "read_ipv6 s =
     (case read_groups 8 0 s of (head, head_ipv4, r) \<Rightarrow>
        if length head = 8 then Some (head, r)
        else if head_ipv4 then None
        else (case strip_prefix ''::'' r of
           None \<Rightarrow> None
         | Some r1 \<Rightarrow>
             (case read_groups (8 - (length head + 1)) 0 r1 of (tail, _, r2) \<Rightarrow>
                Some (head @ replicate (8 - length head - length tail) 0 @ tail, r2))))"

definition parse_ip :: "string \<Rightarrow> ip_addr option" where
  "parse_ip s =
     (case read_ipv4 s of
        Some (vs, r) \<Rightarrow> (if r = [] then Some (V4 (map of_nat vs)) else None)
      | None \<Rightarrow>
          (case read_ipv6 s of
             Some (gs, r) \<Rightarrow>
               (if r = [] then Some (V6 (concat (map (\<lambda>g. [of_nat (g div 256), of_nat (g mod 256)]) gs))) else None)
           | None \<Rightarrow> None))"

text \<open>\<open>s.parse::<SocketAddr>()\<close>: the address, the scope id of an IPv6 one, and the port.\<close>

definition read_char :: "char \<Rightarrow> string \<Rightarrow> string option" where
  "read_char c s = (case s of x # xs \<Rightarrow> (if x = c then Some xs else None) | [] \<Rightarrow> None)"

definition read_port :: "string \<Rightarrow> nat option" where
  "read_port s =
     (case read_char (CHR '':'') s of
        None \<Rightarrow> None
      | Some r \<Rightarrow>
          (case read_number 10 (length r) True 65536 r of
             Some (p, []) \<Rightarrow> Some p
           | _ \<Rightarrow> None))"

definition read_scope :: "string \<Rightarrow> nat \<times> string" where
  "read_scope s =
     (case read_char (CHR ''%'') s of
        None \<Rightarrow> (0, s)
      | Some r \<Rightarrow> (case read_number 10 (length r) True (2 ^ 32) r of None \<Rightarrow> (0, s) | Some v \<Rightarrow> v))"

definition groups_octets :: "nat list \<Rightarrow> bytes" where
  "groups_octets gs = concat (map (\<lambda>g. [of_nat (g div 256), of_nat (g mod 256)]) gs)"

definition parse_socket_addr :: "string \<Rightarrow> (ip_addr \<times> nat \<times> nat) option" where
  "parse_socket_addr s =
     (case (case read_ipv4 s of
              None \<Rightarrow> None
            | Some (vs, r) \<Rightarrow> map_option (\<lambda>p. (V4 (map of_nat vs), 0, p)) (read_port r)) of
        Some a \<Rightarrow> Some a
      | None \<Rightarrow>
          (case read_char (CHR ''['') s of
             None \<Rightarrow> None
           | Some r \<Rightarrow>
               (case read_ipv6 r of
                  None \<Rightarrow> None
                | Some (gs, r1) \<Rightarrow>
                    (case read_scope r1 of (scope, r2) \<Rightarrow>
                       (case read_char (CHR '']'') r2 of
                          None \<Rightarrow> None
                        | Some r3 \<Rightarrow> map_option (\<lambda>p. (V6 (groups_octets gs), scope, p)) (read_port r3))))))"

text \<open>\<open>Display\<close> of an IPv4 address.\<close>

definition show_ipv4 :: "u8 \<Rightarrow> u8 \<Rightarrow> u8 \<Rightarrow> u8 \<Rightarrow> string" where
  "show_ipv4 a b c d =
     nat_str (unat a) @ CHR ''.'' # nat_str (unat b) @ CHR ''.'' # nat_str (unat c) @ CHR ''.'' # nat_str (unat d)"

text \<open>\<open>{:x}\<close> of a number, and \<open>Display\<close> of an address: an IPv4-mapped one keeps its dotted part, and the
  first longest run of at least two zero groups is left out.\<close>

fun hex_str :: "nat \<Rightarrow> string" where
  "hex_str n = (if n < 16 then [digit_char n] else hex_str (n div 16) @ [digit_char (n mod 16)])"

declare hex_str.simps [simp del]

fun join_groups :: "nat list \<Rightarrow> string" where
  "join_groups [] = []"
| "join_groups [g] = hex_str g"
| "join_groups (g # gs) = hex_str g @ CHR '':'' # join_groups gs"

fun v6_groups :: "nat list \<Rightarrow> nat list" where
  "v6_groups (a # b # rest) = (a * 256 + b) # v6_groups rest"
| "v6_groups _ = []"

text \<open>\<open>(start, len)\<close> of the longest run, given the index, the current run and the longest so far.\<close>

fun longest_zeros :: "nat \<Rightarrow> nat \<times> nat \<Rightarrow> nat \<times> nat \<Rightarrow> nat list \<Rightarrow> nat \<times> nat" where
  "longest_zeros i cur best [] = best"
| "longest_zeros i (start, n) best (g # gs) =
     (if g = 0
      then (let cur = ((if n = 0 then i else start), n + 1)
            in longest_zeros (i + 1) cur (if snd cur > snd best then cur else best) gs)
      else longest_zeros (i + 1) (0, 0) best gs)"

definition show_ipv6 :: "nat list \<Rightarrow> string" where
  "show_ipv6 octets =
     (if take 12 octets = replicate 10 0 @ [255, 255]
      then ''::ffff:'' @ nat_str (octets ! 12) @ CHR ''.'' # nat_str (octets ! 13) @ CHR ''.''
             # nat_str (octets ! 14) @ CHR ''.'' # nat_str (octets ! 15)
      else (let groups = v6_groups octets; (start, n) = longest_zeros 0 (0, 0) (0, 0) groups
            in if n > 1 then join_groups (take start groups) @ ''::'' @ join_groups (drop (start + n) groups)
               else join_groups groups))"

definition show_ip :: "ip_addr \<Rightarrow> string" where
  "show_ip a =
     (case a of
        V4 octets \<Rightarrow> (case octets of [w, x, y, z] \<Rightarrow> show_ipv4 w x y z | _ \<Rightarrow> [])
      | V6 octets \<Rightarrow> show_ipv6 (map unat octets))"

text \<open>Evaluation on literals.\<close>

lemma read_octets_numeral: "read_octets (numeral k) i s =
     (case read_separated (CHR ''.'') i (read_number 10 3 False 256) s of
        None \<Rightarrow> None
      | Some (v, r) \<Rightarrow> map_option (\<lambda>(vs, r'). (v # vs, r')) (read_octets (pred_numeral k) (Suc i) r))"
  by (simp add: numeral_eq_Suc)

lemma read_groups_numeral: "read_groups (numeral k) i s =
     (case (if pred_numeral k > 0 then read_separated (CHR '':'') i read_ipv4 s else None) of
        Some (vs, r) \<Rightarrow> ([vs ! 0 * 256 + vs ! 1, vs ! 2 * 256 + vs ! 3], True, r)
      | None \<Rightarrow>
          (case read_separated (CHR '':'') i (read_number 16 4 True 65536) s of
             None \<Rightarrow> ([], False, s)
           | Some (g, r) \<Rightarrow> (case read_groups (pred_numeral k) (Suc i) r of (gs, v4, r') \<Rightarrow> (g # gs, v4, r'))))"
  by (simp add: numeral_eq_Suc)

lemmas number_eval = read_number_def to_digit_def is_ascii_digit_def less_eq_char_def digits_value_def
lemmas ip_eval = parse_ip_def read_ipv4_def read_ipv6_def read_octets_numeral read_groups_numeral read_separated_def
  number_eval strip_prefix_def

section \<open>Printed numbers and addresses parse back\<close>

lemma to_digit_digit_char: "d < 10 \<Longrightarrow> to_digit 10 (digit_char d) = Some d"
proof -
  have "\<forall>d \<in> set [0..<10]. to_digit 10 (digit_char d) = Some d" by code_simp
  then show "d < 10 \<Longrightarrow> to_digit 10 (digit_char d) = Some d" by auto
qed

lemma to_digit_dot: "to_digit 10 (CHR ''.'') = None"
  by code_simp

lemma nat_str_to_digit: "c \<in> set (nat_str n) \<Longrightarrow> to_digit 10 c \<noteq> None"
proof (induction n rule: nat_str.induct)
  case (1 n)
  then show ?case
    by (subst (asm) (2) nat_str.simps) (auto simp: to_digit_digit_char split: if_splits)
qed

lemma digits_value_nat_str: "digits_value 10 (nat_str n) = n"
proof (induction n rule: nat_str.induct)
  case (1 n)
  then show ?case
    by (subst nat_str.simps) (auto simp: digits_value_def to_digit_digit_char)
qed

lemma nat_str_hd_zero: "hd (nat_str n) = CHR ''0'' \<Longrightarrow> n = 0"
proof (induction n rule: nat_str.induct)
  case (1 n)
  show ?case
  proof (cases "n < 10")
    case True
    have "digit_char n = CHR ''0'' \<Longrightarrow> n = 0"
      using digit_char_inj [of n 0] True by (simp add: digit_char_def)
    with 1(2) True show ?thesis by (simp add: nat_str.simps [of n])
  next
    case False
    with 1 show ?thesis by (simp add: nat_str.simps [of n])
  qed
qed

lemma length_nat_str_octet: "n < 256 \<Longrightarrow> length (nat_str n) \<le> 3"
  by (simp add: nat_str.simps [of n] nat_str.simps [of "n div 10"] nat_str.simps [of "n div 10 div 10"])

lemma read_octet:
  assumes "n < 256" "r = [] \<or> hd r = CHR ''.''"
  shows "read_number 10 3 False 256 (nat_str n @ r) = Some (n, r)"
proof -
  have "takeWhile (\<lambda>c. to_digit 10 c \<noteq> None) (nat_str n @ r) = nat_str n"
    using assms(2) nat_str_to_digit [of _ n] to_digit_dot by (cases r) (auto simp: takeWhile_append2)
  moreover have "nat_str 0 = ''0''" by (simp add: nat_str.simps digit_char_def)
  then have "\<not> (hd (nat_str n) = CHR ''0'' \<and> length (nat_str n) > 1)"
    using nat_str_hd_zero [of n] by auto
  ultimately show ?thesis
    using assms(1) length_nat_str_octet [of n]
    by (auto simp: read_number_def digits_value_nat_str)
qed

lemma octet_bound: "unat (a :: u8) < 256"
  using unsigned_less [of a] by (simp only: len_bit0 len_num1) simp

lemma read_ipv4_unfold: "read_ipv4 s = read_octets (Suc (Suc (Suc (Suc 0)))) 0 s"
  by (simp add: read_ipv4_def numeral_eq_Suc)

lemma parse_show_ipv4: "parse_ip (show_ipv4 a b c d) = Some (V4 [a, b, c, d])"
proof -
  have "read_ipv4 (show_ipv4 a b c d) = Some ([unat a, unat b, unat c, unat d], [])"
    using read_octet [OF octet_bound, of "[]" d]
    by (simp add: read_ipv4_unfold show_ipv4_def read_separated_def read_octet octet_bound)
  then show ?thesis by (simp add: parse_ip_def)
qed

lemma parse_unsigned_nat_str: "n < bound \<Longrightarrow> parse_unsigned bound (nat_str n) = Some n"
proof -
  assume n: "n < bound"
  obtain c cs where s: "nat_str n = c # cs" using nat_str_nonempty [of n] by (cases "nat_str n") auto
  have digits: "list_all is_ascii_digit (nat_str n)"
    by (auto simp: list_all_iff intro: nat_str_digits)
  then have "c \<noteq> CHR ''+''"
    using nat_str_digits [of c n] s by (auto simp: is_ascii_digit_def less_eq_char_def)
  with n s digits digits_value_nat_str [of n] show ?thesis
    by (simp add: parse_unsigned_def)
qed

lemma parse_unsigned_bound: "parse_unsigned bound s = Some n \<Longrightarrow> n < bound"
  by (auto simp: parse_unsigned_def Let_def split: if_splits)

end
