(* ===== verification/Nat_Policy.thy ===== *)
theory Nat_Policy
  imports Std_Text
begin

text \<open>
  Transport selection: the NAT classification and fallback order of \<open>packages/networking/src/nat.rs\<close>.  The name
  resolution, the TCP handshake and what the UDP sockets did are arguments.
\<close>

datatype nat_type = NatOpen | NatCone | NatSymmetric | NatBlocked | NatUnknown

fun nat_label :: "nat_type \<Rightarrow> string" where
  "nat_label NatOpen = ''open''"
| "nat_label NatCone = ''cone''"
| "nat_label NatSymmetric = ''symmetric''"
| "nat_label NatBlocked = ''blocked''"
| "nat_label NatUnknown = ''unknown''"

record nat_traversal =
  nt_stun_host :: string
  nt_stun_port :: u16
  nt_local_addr :: socket_addr

text \<open>\<open>resolve\<close> is \<open>to_socket_addrs\<close>, \<open>tcp_connect\<close> whether \<open>TcpStream::connect_timeout\<close> with 500
  milliseconds succeeded.\<close>

definition stun_socket_addr :: "(string \<Rightarrow> string + socket_addr list) \<Rightarrow> nat_traversal \<Rightarrow> socket_addr option" where
  "stun_socket_addr resolve t =
     (case resolve (nt_stun_host t @ '':'' @ nat_str (unat (nt_stun_port t))) of
        Inl _ \<Rightarrow> None
      | Inr addrs \<Rightarrow> (case addrs of [] \<Rightarrow> None | a # _ \<Rightarrow> Some a))"

definition is_stun_reachable ::
    "(string \<Rightarrow> string + socket_addr list) \<Rightarrow> (socket_addr \<Rightarrow> bool) \<Rightarrow> nat_traversal \<Rightarrow> bool" where
  "is_stun_reachable resolve tcp_connect t =
     (case stun_socket_addr resolve t of None \<Rightarrow> False | Some addr \<Rightarrow> tcp_connect addr)"

definition classify ::
    "(string \<Rightarrow> string + socket_addr list) \<Rightarrow> (socket_addr \<Rightarrow> bool) \<Rightarrow> nat_traversal \<Rightarrow> nat_type" where
  "classify resolve tcp_connect t =
     (if \<not> is_stun_reachable resolve tcp_connect t then NatUnknown
      else if sa_port (nt_local_addr t) = nt_stun_port t then NatOpen
      else if nt_stun_host t = show_ip (sa_ip (nt_local_addr t))
              \<and> nt_stun_port t - sa_port (nt_local_addr t) > 1000 then NatSymmetric
      else NatCone)"

text \<open>What the calls of one UDP echo attempt did: the binding, the timeout setting, the send, and
  the datagram that \<open>recv_from\<close> returned, if any.\<close>

record udp_echo =
  ue_bound :: bool
  ue_timeout_set :: bool
  ue_sent :: bool
  ue_received :: "bytes option"

definition probe_text :: bytes where
  "probe_text = map (\<lambda>c. of_nat (of_char c)) ''opencade-probe''"

definition direct_udp_probe :: "udp_echo \<Rightarrow> bool" where
  "direct_udp_probe e =
     (if \<not> ue_bound e then False
      else if \<not> ue_timeout_set e then False
      else if \<not> ue_sent e then False
      else (case ue_received e of Some datagram \<Rightarrow> take 64 datagram = probe_text | None \<Rightarrow> False))"

text \<open>\<open>NatTraversal::hole_punch\<close>: the result, and the destinations of the datagrams it hands to the
  sockets that could be bound; what becomes of them is ignored.\<close>

definition hole_punch ::
    "(string \<Rightarrow> string + socket_addr list) \<Rightarrow> (socket_addr \<Rightarrow> bool) \<Rightarrow> udp_echo \<Rightarrow> (nat \<Rightarrow> bool) \<Rightarrow>
     nat_traversal \<Rightarrow> socket_addr \<Rightarrow> bool \<times> socket_addr list" where
  "hole_punch resolve tcp_connect direct bound t peer =
     (if direct_udp_probe direct then (False, [])
      else if \<not> is_stun_reachable resolve tcp_connect t then (False, [])
      else (True, map (\<lambda>_. peer) (filter bound [0..<3])))"

text \<open>A reachable server is never classified as unknown, and hole punching is only reported where the
  direct route has failed.\<close>

lemma classify_unknown_iff:
  "classify resolve tcp_connect t = NatUnknown \<longleftrightarrow> \<not> is_stun_reachable resolve tcp_connect t"
  by (simp add: classify_def)

lemma hole_punch_reported:
  "hole_punch resolve tcp_connect direct bound t peer = (True, sent) \<Longrightarrow>
     \<not> direct_udp_probe direct \<and> is_stun_reachable resolve tcp_connect t \<and> length sent \<le> 3 \<and> set sent \<subseteq> {peer}"
  using length_filter_le [of bound "[0..<3]"] by (auto simp: hole_punch_def split: if_splits)

text \<open>The answer of the echo is the probe itself, cut to the 64 bytes of the buffer.\<close>

lemma probe_text_short: "length probe_text = 14"
  by (simp add: probe_text_def)

lemma direct_udp_probe_echo: "direct_udp_probe e \<Longrightarrow> ue_received e = Some probe_text"
proof -
  assume "direct_udp_probe e"
  then obtain d where d: "ue_received e = Some d" "take 64 d = probe_text"
    by (auto simp: direct_udp_probe_def split: if_splits option.splits)
  then have "length (take 64 d) = 14" using probe_text_short by simp
  then have "take 64 d = d" by (simp add: min_def split: if_splits)
  with d show ?thesis by simp
qed

definition relay_fallback :: transport_kind where
  "relay_fallback = Relay"

definition FALLBACK_ORDER :: "transport_kind list" where
  "FALLBACK_ORDER = [DirectUdp, HolePunch, Stun, Relay]"

text \<open>\<open>iter().position(p)\<close>.\<close>

fun position :: "('a \<Rightarrow> bool) \<Rightarrow> 'a list \<Rightarrow> nat option" where
  "position p [] = None"
| "position p (x # xs) = (if p x then Some 0 else map_option Suc (position p xs))"

definition next_transport :: "transport_kind \<Rightarrow> transport_kind option" where
  "next_transport current =
     (case position (\<lambda>t. t = current) FALLBACK_ORDER of
        None \<Rightarrow> None
      | Some pos \<Rightarrow>
          (if pos + 1 < length FALLBACK_ORDER then Some (FALLBACK_ORDER ! (pos + 1)) else None))"

fun transport_for_nat :: "nat_type \<Rightarrow> transport_kind" where
  "transport_for_nat NatOpen = DirectUdp"
| "transport_for_nat NatCone = HolePunch"
| "transport_for_nat NatSymmetric = Stun"
| "transport_for_nat NatBlocked = Relay"
| "transport_for_nat NatUnknown = Relay"

text \<open>The transports tried from a given one on, following \<open>next_transport\<close>.\<close>

definition fallback_rank :: "transport_kind \<Rightarrow> nat" where
  "fallback_rank t = (case t of DirectUdp \<Rightarrow> 3 | HolePunch \<Rightarrow> 2 | Stun \<Rightarrow> 1 | Relay \<Rightarrow> 0 | InMemory \<Rightarrow> 0)"

lemma next_transport_simps [simp]:
  "next_transport DirectUdp = Some HolePunch"
  "next_transport HolePunch = Some Stun"
  "next_transport Stun = Some Relay"
  "next_transport Relay = None"
  "next_transport InMemory = None"
  by (simp_all add: next_transport_def FALLBACK_ORDER_def)

lemma next_transport_rank: "next_transport t = Some u \<Longrightarrow> fallback_rank u < fallback_rank t"
  by (cases t) (auto simp: fallback_rank_def)

function fallback_chain :: "transport_kind \<Rightarrow> transport_kind list" where
  "fallback_chain t =
     t # (case next_transport t of None \<Rightarrow> [] | Some u \<Rightarrow> fallback_chain u)"
  by pat_completeness auto
termination
  by (relation "measure fallback_rank") (simp_all add: next_transport_rank)

declare fallback_chain.simps [simp del]

lemma fallback_chain_evals:
  "fallback_chain Relay = [Relay]"
  "fallback_chain Stun = [Stun, Relay]"
  "fallback_chain HolePunch = [HolePunch, Stun, Relay]"
  "fallback_chain DirectUdp = [DirectUdp, HolePunch, Stun, Relay]"
  by (simp_all add: fallback_chain.simps)

text \<open>Transport fallback is total and ends at the relay: whatever NAT type was classified, the
  transports tried after the preferred one are a suffix of the fallback order without
  repetition, and the last of them is the relay.\<close>

theorem fallback_reaches_relay:
  "\<exists>tried. FALLBACK_ORDER = tried @ fallback_chain (transport_for_nat n)
     \<and> last (fallback_chain (transport_for_nat n)) = Relay
     \<and> distinct (fallback_chain (transport_for_nat n))"
  by (cases n) (simp_all add: fallback_chain_evals FALLBACK_ORDER_def)

end
