(* ===== verification/Channel.thy ===== *)
theory Channel
  imports OC_Prelude
begin

text \<open>
  Bounded first-in first-out queues.  The interface \<open>bounded_fifo\<close> is what the in-memory
  peer and the relay rely on; \<open>channel\<close> is the documented behaviour of
  \<open>tokio::sync::mpsc::channel\<close> as a value: the items it holds, its capacity, and whether the
  receiving and the sending half are alive.
\<close>

section \<open>The interface\<close>

datatype 'a fifo_op = Push 'a | Pop

locale bounded_fifo =
  fixes push :: "'c \<Rightarrow> 'a \<Rightarrow> 'e + 'c"
    and pop :: "'c \<Rightarrow> ('a \<times> 'c) option"
    and items :: "'c \<Rightarrow> 'a list"
    and capacity :: "'c \<Rightarrow> nat"
  assumes push_ok: "push c x = Inr c' \<Longrightarrow>
      length (items c) < capacity c \<and> items c' = items c @ [x] \<and> capacity c' = capacity c"
    and pop_some: "pop c = Some (x, c') \<Longrightarrow> items c = x # items c' \<and> capacity c' = capacity c"
    and pop_none: "pop c = None \<Longrightarrow> items c = []"
begin

text \<open>Running a sequence of operations: the queue, what was accepted, what was delivered.  A
  refused push and a pop of an empty queue change nothing.\<close>

fun run :: "'a fifo_op list \<Rightarrow> 'c \<Rightarrow> 'c \<times> 'a list \<times> 'a list" where
  "run [] c = (c, [], [])"
| "run (Push x # ops) c =
     (case push c x of
        Inl _ \<Rightarrow> run ops c
      | Inr c' \<Rightarrow> (case run ops c' of (d, acc, del) \<Rightarrow> (d, x # acc, del)))"
| "run (Pop # ops) c =
     (case pop c of
        None \<Rightarrow> run ops c
      | Some (x, c') \<Rightarrow> (case run ops c' of (d, acc, del) \<Rightarrow> (d, acc, x # del)))"

lemma run_conserves: "run ops c = (d, acc, del) \<Longrightarrow> items c @ acc = del @ items d"
proof (induction ops arbitrary: c d acc del)
  case (Cons op ops)
  show ?case
  proof (cases op)
    case (Push x)
    with Cons show ?thesis
      by (fastforce split: sum.splits prod.splits dest!: push_ok)
  next
    case Pop
    with Cons show ?thesis
      by (fastforce split: option.splits prod.splits dest!: pop_some pop_none)
  qed
qed simp

lemma run_bounded:
  "run ops c = (d, acc, del) \<Longrightarrow> length (items c) \<le> capacity c \<Longrightarrow>
   length (items d) \<le> capacity d \<and> capacity d = capacity c"
proof (induction ops arbitrary: c d acc del)
  case (Cons op ops)
  show ?case
  proof (cases op)
    case (Push x)
    with Cons.prems Cons.IH show ?thesis
      by (fastforce split: sum.splits prod.splits dest!: push_ok)
  next
    case Pop
    with Cons.prems Cons.IH show ?thesis
      by (fastforce split: option.splits prod.splits dest!: pop_some)
  qed
qed simp

end

section \<open>Channels\<close>

record 'a channel =
  ch_items :: "'a list"
  ch_capacity :: nat
  ch_receiver :: bool
  ch_sender :: bool

datatype try_send_error = ChannelFull | ChannelClosed

definition channel_new :: "nat \<Rightarrow> 'a channel" where
  "channel_new n = \<lparr>ch_items = [], ch_capacity = n, ch_receiver = True, ch_sender = True\<rparr>"

definition channel_try_send :: "'a channel \<Rightarrow> 'a \<Rightarrow> try_send_error + 'a channel" where
  "channel_try_send c x =
     (if \<not> ch_receiver c then Err ChannelClosed
      else if length (ch_items c) < ch_capacity c then Ok (c\<lparr>ch_items := ch_items c @ [x]\<rparr>)
      else Err ChannelFull)"

text \<open>A pending \<open>recv\<close> that can complete: \<open>Some None\<close> once the sender is gone and the queue
  drained, \<open>None\<close> while it has to wait.\<close>

definition channel_recv :: "'a channel \<Rightarrow> ('a option \<times> 'a channel) option" where
  "channel_recv c =
     (case ch_items c of
        x # xs \<Rightarrow> Some (Some x, c\<lparr>ch_items := xs\<rparr>)
      | [] \<Rightarrow> (if ch_sender c then None else Some (None, c)))"

definition channel_pop :: "'a channel \<Rightarrow> ('a \<times> 'a channel) option" where
  "channel_pop c =
     (case channel_recv c of
        Some (Some x, c') \<Rightarrow> Some (x, c')
      | _ \<Rightarrow> None)"

interpretation mpsc: bounded_fifo channel_try_send channel_pop ch_items ch_capacity
  by unfold_locales
    (auto simp: channel_try_send_def channel_pop_def channel_recv_def
      split: if_splits list.splits option.splits)

end
