(* ===== verification/Input_Transport.thy ===== *)
theory Input_Transport
  imports Emulator_SDK Channel
begin

text \<open>
  The data plane of \<open>packages/networking/src/lib.rs\<close>: bounded input frames, transport
  errors, the connected UDP peer as a filter in front of the datagram codec, and the
  deterministic in-memory peer, two bounded channels of 120 frames.  JSON encoding and socket
  calls are parameters; a \<open>tokio::sync::mpsc\<close> channel is the queue of what it holds with its
  capacity and whether its receiver is alive.
\<close>

section \<open>Frames and errors\<close>

definition MAX_INPUT_BYTES :: nat where "MAX_INPUT_BYTES = 256"
definition INPUT_QUEUE_CAPACITY :: nat where "INPUT_QUEUE_CAPACITY = 120"
definition MAX_DATAGRAM_BYTES :: nat where "MAX_DATAGRAM_BYTES = 2048"

record input_frame =
  if_frame :: u64
  if_player_id :: string
  if_input :: bytes

datatype transport_error =
    InvalidPlayer
  | FrameTooLarge nat
  | Backpressure
  | Closed
  | Serialization string
  | UdpIo string
  | PeerUnavailable
  | InvalidConfiguration string
  | PeerMismatch
  | Timeout (received_frames: u64) (expected_frames: u64)
  | StunTimeout
  | InvalidStunResponse string
  | HolePunchTimeout u8
  | RelayError string

definition input_frame_new :: "u64 \<Rightarrow> string \<Rightarrow> bytes \<Rightarrow> transport_error + input_frame" where
  "input_frame_new frame player_id input =
     (if is_blank player_id then Err InvalidPlayer
      else if length input > MAX_INPUT_BYTES then Err (FrameTooLarge (length input))
      else Ok \<lparr>if_frame = frame, if_player_id = player_id, if_input = input\<rparr>)"

definition wf_frame :: "input_frame \<Rightarrow> bool" where
  "wf_frame f \<longleftrightarrow> \<not> is_blank (if_player_id f) \<and> length (if_input f) \<le> MAX_INPUT_BYTES"

lemma input_frame_new_ok:
  "input_frame_new n p b = Ok f \<longleftrightarrow>
     f = \<lparr>if_frame = n, if_player_id = p, if_input = b\<rparr> \<and> wf_frame f"
  by (auto simp: input_frame_new_def wf_frame_def)

section \<open>The UDP peer\<close>

text \<open>\<open>map_udp_error\<close> on the kinds of \<open>std::io::Error\<close> that the code tells apart.\<close>

datatype io_error = ConnectionRefused | ConnectionReset | OtherIo string

definition map_udp_error :: "io_error \<Rightarrow> transport_error" where
  "map_udp_error e =
     (case e of ConnectionRefused \<Rightarrow> PeerUnavailable | ConnectionReset \<Rightarrow> PeerUnavailable
      | OtherIo m \<Rightarrow> UdpIo m)"

text \<open>Making a peer: \<open>bind_call\<close> and \<open>connect_call\<close> are the socket's system calls.\<close>

definition udp_bind_unconnected :: "(socket_addr \<Rightarrow> io_error + 's) \<Rightarrow> socket_addr \<Rightarrow> transport_error + 's" where
  "udp_bind_unconnected bind_call local_addr = map_err map_udp_error (bind_call local_addr)"

definition udp_connect :: "('s \<Rightarrow> socket_addr \<Rightarrow> io_error + unit) \<Rightarrow> 's \<Rightarrow> socket_addr \<Rightarrow> transport_error + 's" where
  "udp_connect connect_call sock peer =
     (case connect_call sock peer of Inl e \<Rightarrow> Err (map_udp_error e) | Inr _ \<Rightarrow> Ok sock)"

definition udp_bind ::
    "(socket_addr \<Rightarrow> io_error + 's) \<Rightarrow> ('s \<Rightarrow> socket_addr \<Rightarrow> io_error + unit) \<Rightarrow> socket_addr \<Rightarrow> socket_addr \<Rightarrow>
     transport_error + 's" where
  "udp_bind bind_call connect_call local_addr peer =
     (case udp_bind_unconnected bind_call local_addr of
        Inl e \<Rightarrow> Err e
      | Inr sock \<Rightarrow> udp_connect connect_call sock peer)"

definition udp_local_addr :: "io_error + socket_addr \<Rightarrow> transport_error + socket_addr" where
  "udp_local_addr answer = map_err map_udp_error answer"

text \<open>\<open>UdpPeer::send\<close>: \<open>encode\<close> is \<open>serde_json::to_vec\<close>, \<open>sock\<close> the socket's send call.\<close>

definition udp_send ::
    "(input_frame \<Rightarrow> string + bytes) \<Rightarrow> (bytes \<Rightarrow> io_error + unit) \<Rightarrow> input_frame \<Rightarrow> transport_error + unit" where
  "udp_send encode sock f =
     (if length (if_input f) > MAX_INPUT_BYTES \<or> is_blank (if_player_id f)
      then Err (Serialization ''invalid input frame'')
      else case encode f of
             Inl m \<Rightarrow> Err (Serialization m)
           | Inr b \<Rightarrow> map_err map_udp_error (sock b))"

text \<open>\<open>UdpPeer::receive\<close>: the receive call fills a buffer of \<open>MAX_DATAGRAM_BYTES\<close>, so a longer
  datagram arrives cut.\<close>

definition udp_receive ::
    "(bytes \<Rightarrow> string + input_frame) \<Rightarrow> io_error + bytes \<Rightarrow> transport_error + input_frame" where
  "udp_receive decode received =
     (case received of
        Inl e \<Rightarrow> Err (map_udp_error e)
      | Inr b \<Rightarrow>
          (case decode (take MAX_DATAGRAM_BYTES b) of
             Inl m \<Rightarrow> Err (Serialization m)
           | Inr f \<Rightarrow> input_frame_new (if_frame f) (if_player_id f) (if_input f)))"

definition udp_send_packet ::
    "('p \<Rightarrow> string + bytes) \<Rightarrow> (bytes \<Rightarrow> io_error + unit) \<Rightarrow> 'p \<Rightarrow> transport_error + unit" where
  "udp_send_packet encode sock p =
     (case encode p of
        Inl m \<Rightarrow> Err (Serialization m)
      | Inr b \<Rightarrow>
          (if length b > MAX_DATAGRAM_BYTES
           then Err (Serialization ''match probe datagram exceeds maximum size'')
           else map_err map_udp_error (sock b)))"

definition udp_receive_packet ::
    "(bytes \<Rightarrow> string + 'p) \<Rightarrow> io_error + bytes \<Rightarrow> transport_error + 'p" where
  "udp_receive_packet decode received =
     (case received of
        Inl e \<Rightarrow> Err (map_udp_error e)
      | Inr b \<Rightarrow>
          (case decode (take MAX_DATAGRAM_BYTES b) of
             Inl m \<Rightarrow> Err (Serialization m)
           | Inr p \<Rightarrow> Ok p))"

lemma udp_receive_wf: "udp_receive decode r = Ok f \<Longrightarrow> wf_frame f"
  by (auto simp: udp_receive_def input_frame_new_ok split: sum.splits)

text \<open>UDP input frames round trip: with a JSON codec that decodes what it encodes, every
  frame that \<open>InputFrame::new\<close> accepts and whose encoding fits a datagram is sent, and the
  receiver gets exactly that frame; a frame with a blank player or more than 256 input bytes
  is refused by both ends, whatever the codec does.\<close>

theorem udp_frame_roundtrip:
  assumes codec: "\<And>f b. encode f = Ok b \<Longrightarrow> decode b = Ok f"
    and enc: "encode f = Ok b" and fits: "length b \<le> MAX_DATAGRAM_BYTES"
  shows "(if wf_frame f
          then udp_send encode (\<lambda>_. Ok ()) f = Ok () \<and> udp_receive decode (Ok b) = Ok f
          else \<not> is_ok (udp_send encode (\<lambda>_. Ok ()) f) \<and> \<not> is_ok (udp_receive decode (Ok b)))"
  using codec [OF enc] enc fits
  by (auto simp: udp_send_def udp_receive_def input_frame_new_def wf_frame_def)

definition demo_codec :: "input_frame \<Rightarrow> string + bytes" where
  "demo_codec f =
     (if f = \<lparr>if_frame = 7, if_player_id = ''host'', if_input = [1, 0, 1]\<rparr> then Ok [123, 125]
      else Err ''unsupported'')"

theorem udp_frame_roundtrip_witness:
  "let f = \<lparr>if_frame = 7, if_player_id = ''host'', if_input = [1, 0, 1]\<rparr> in
   udp_send demo_codec (\<lambda>_. Ok ()) f = Ok () \<and> udp_receive (\<lambda>_. Ok f) (Ok [123, 125]) = Ok f"
proof -
  let ?f = "\<lparr>if_frame = 7, if_player_id = ''host'', if_input = [1, 0, 1 :: u8]\<rparr>"
  have "wf_frame ?f"
    by (simp add: wf_frame_def MAX_INPUT_BYTES_def is_blank_graphic graphic_def)
  moreover have "demo_codec f = Ok b \<Longrightarrow> Ok ?f = (Ok f :: string + input_frame)" for f b
    by (simp add: demo_codec_def split: if_splits)
  ultimately show ?thesis
    using udp_frame_roundtrip [of demo_codec "\<lambda>_. Ok ?f" ?f "[123, 125]"]
    by (simp add: demo_codec_def MAX_DATAGRAM_BYTES_def)
qed

section \<open>The in-memory peer\<close>

record in_memory_peer =
  im_outbound :: "input_frame channel"
  im_inbound :: "input_frame channel"

text \<open>\<open>InMemoryPeer::pair\<close>: the two channels are shared, the first peer's outbound being the
  second peer's inbound; \<open>pair_state\<close> is that shared state.\<close>

datatype side = SideA | SideB

record pair_state =
  a_to_b :: "input_frame channel"
  b_to_a :: "input_frame channel"

definition in_memory_pair :: pair_state where
  "in_memory_pair = \<lparr>a_to_b = channel_new INPUT_QUEUE_CAPACITY, b_to_a = channel_new INPUT_QUEUE_CAPACITY\<rparr>"

definition peer_view :: "side \<Rightarrow> pair_state \<Rightarrow> in_memory_peer" where
  "peer_view s p =
     (case s of
        SideA \<Rightarrow> \<lparr>im_outbound = a_to_b p, im_inbound = b_to_a p\<rparr>
      | SideB \<Rightarrow> \<lparr>im_outbound = b_to_a p, im_inbound = a_to_b p\<rparr>)"

definition put_view :: "side \<Rightarrow> in_memory_peer \<Rightarrow> pair_state" where
  "put_view s v =
     (case s of
        SideA \<Rightarrow> \<lparr>a_to_b = im_outbound v, b_to_a = im_inbound v\<rparr>
      | SideB \<Rightarrow> \<lparr>a_to_b = im_inbound v, b_to_a = im_outbound v\<rparr>)"

definition peer_try_send :: "in_memory_peer \<Rightarrow> input_frame \<Rightarrow> transport_error + in_memory_peer" where
  "peer_try_send peer frame =
     (case channel_try_send (im_outbound peer) frame of
        Inl ChannelFull \<Rightarrow> Err Backpressure
      | Inl ChannelClosed \<Rightarrow> Err Closed
      | Inr c \<Rightarrow> Ok (peer\<lparr>im_outbound := c\<rparr>))"

text \<open>\<open>None\<close> while \<open>receive\<close> is pending.\<close>

definition peer_receive ::
    "in_memory_peer \<Rightarrow> ((transport_error + input_frame) \<times> in_memory_peer) option" where
  "peer_receive peer =
     (case channel_recv (im_inbound peer) of
        None \<Rightarrow> None
      | Some (v, c) \<Rightarrow> Some (ok_or v Closed, peer\<lparr>im_inbound := c\<rparr>))"

text \<open>One side's data operations over the shared pair, with what was accepted from it and
  delivered to it.\<close>

datatype pair_op = TrySend side input_frame | Receive side

fun pair_run ::
    "pair_op list \<Rightarrow> pair_state \<Rightarrow> pair_state \<times> (side \<times> input_frame) list \<times> (side \<times> input_frame) list" where
  "pair_run [] p = (p, [], [])"
| "pair_run (TrySend s f # ops) p =
     (case peer_try_send (peer_view s p) f of
        Inl _ \<Rightarrow> pair_run ops p
      | Inr v \<Rightarrow> (case pair_run ops (put_view s v) of (q, acc, del) \<Rightarrow> (q, (s, f) # acc, del)))"
| "pair_run (Receive s # ops) p =
     (case peer_receive (peer_view s p) of
        Some (Inr f, v) \<Rightarrow>
          (case pair_run ops (put_view s v) of (q, acc, del) \<Rightarrow> (q, acc, (s, f) # del))
      | _ \<Rightarrow> pair_run ops p)"

definition sent_by :: "side \<Rightarrow> (side \<times> input_frame) list \<Rightarrow> input_frame list" where
  "sent_by s l = map snd (filter (\<lambda>e. fst e = s) l)"

lemma sent_by_simps [simp]:
  "sent_by s [] = []" "sent_by s (e # es) = (if fst e = s then [snd e] else []) @ sent_by s es"
  by (simp_all add: sent_by_def)

text \<open>What one operation does to the channel from A to B, as operations of the interface.\<close>

fun a_to_b_ops :: "pair_op list \<Rightarrow> input_frame fifo_op list" where
  "a_to_b_ops [] = []"
| "a_to_b_ops (TrySend SideA f # ops) = Push f # a_to_b_ops ops"
| "a_to_b_ops (Receive SideB # ops) = Pop # a_to_b_ops ops"
| "a_to_b_ops (_ # ops) = a_to_b_ops ops"

fun b_to_a_ops :: "pair_op list \<Rightarrow> input_frame fifo_op list" where
  "b_to_a_ops [] = []"
| "b_to_a_ops (TrySend SideB f # ops) = Push f # b_to_a_ops ops"
| "b_to_a_ops (Receive SideA # ops) = Pop # b_to_a_ops ops"
| "b_to_a_ops (_ # ops) = b_to_a_ops ops"

lemmas peer_defs = peer_try_send_def peer_receive_def peer_view_def put_view_def
  channel_pop_def ok_or_def

lemma pair_run_send:
  "pair_run (TrySend SideA f # ops) p =
     (case channel_try_send (a_to_b p) f of
        Inl _ \<Rightarrow> pair_run ops p
      | Inr c \<Rightarrow> (case pair_run ops (p\<lparr>a_to_b := c\<rparr>) of (q, acc, del) \<Rightarrow> (q, (SideA, f) # acc, del)))"
  "pair_run (TrySend SideB f # ops) p =
     (case channel_try_send (b_to_a p) f of
        Inl _ \<Rightarrow> pair_run ops p
      | Inr c \<Rightarrow> (case pair_run ops (p\<lparr>b_to_a := c\<rparr>) of (q, acc, del) \<Rightarrow> (q, (SideB, f) # acc, del)))"
  by (cases p; auto simp: peer_defs split: sum.splits try_send_error.splits)+

lemma pair_run_receive:
  "pair_run (Receive SideB # ops) p =
     (case channel_pop (a_to_b p) of
        None \<Rightarrow> pair_run ops p
      | Some (f, c) \<Rightarrow> (case pair_run ops (p\<lparr>a_to_b := c\<rparr>) of (q, acc, del) \<Rightarrow> (q, acc, (SideB, f) # del)))"
  "pair_run (Receive SideA # ops) p =
     (case channel_pop (b_to_a p) of
        None \<Rightarrow> pair_run ops p
      | Some (f, c) \<Rightarrow> (case pair_run ops (p\<lparr>b_to_a := c\<rparr>) of (q, acc, del) \<Rightarrow> (q, acc, (SideA, f) # del)))"
  by (cases p; auto simp: peer_defs split: sum.splits option.splits)+

lemmas pair_run_steps = pair_run_send pair_run_receive

declare pair_run.simps(2,3) [simp del]

lemma pair_run_a_to_b:
  "pair_run ops p = (q, acc, del) \<Longrightarrow>
   mpsc.run (a_to_b_ops ops) (a_to_b p) = (a_to_b q, sent_by SideA acc, sent_by SideB del)"
  by (induction ops arbitrary: p q acc del rule: a_to_b_ops.induct)
     (fastforce simp: pair_run_steps split: sum.splits option.splits prod.splits)+

lemma pair_run_b_to_a:
  "pair_run ops p = (q, acc, del) \<Longrightarrow>
   mpsc.run (b_to_a_ops ops) (b_to_a p) = (b_to_a q, sent_by SideB acc, sent_by SideA del)"
  by (induction ops arbitrary: p q acc del rule: b_to_a_ops.induct)
     (fastforce simp: pair_run_steps split: sum.splits option.splits prod.splits)+

text \<open>The in-memory transport is reliable, ordered and bounded: over any interleaving of
  sends and receives of the two peers, the frames a peer's sends were accepted for are exactly
  the frames the other peer received followed by those still queued, in order, and neither
  queue ever holds more than 120 frames.\<close>

theorem in_memory_pair_fifo:
  assumes "pair_run ops in_memory_pair = (p, acc, del)"
  shows "sent_by SideA acc = sent_by SideB del @ ch_items (a_to_b p)
    \<and> sent_by SideB acc = sent_by SideA del @ ch_items (b_to_a p)
    \<and> length (ch_items (a_to_b p)) \<le> 120 \<and> length (ch_items (b_to_a p)) \<le> 120"
  using mpsc.run_conserves [OF pair_run_a_to_b [OF assms]] mpsc.run_bounded [OF pair_run_a_to_b [OF assms]]
    mpsc.run_conserves [OF pair_run_b_to_a [OF assms]] mpsc.run_bounded [OF pair_run_b_to_a [OF assms]]
  by (auto simp: in_memory_pair_def channel_new_def INPUT_QUEUE_CAPACITY_def)

theorem in_memory_pair_fifo_witness:
  "let f = \<lparr>if_frame = 0, if_player_id = ''host'', if_input = [0]\<rparr>;
       (p, acc, del) = pair_run [TrySend SideA f, TrySend SideA f, Receive SideB] in_memory_pair
   in sent_by SideA acc = [f, f] \<and> sent_by SideB del = [f] \<and> ch_items (a_to_b p) = [f]"
  using in_memory_pair_fifo
    [of "[TrySend SideA \<lparr>if_frame = 0, if_player_id = ''host'', if_input = [0]\<rparr>,
          TrySend SideA \<lparr>if_frame = 0, if_player_id = ''host'', if_input = [0]\<rparr>, Receive SideB]"]
  by (simp add: pair_run_steps channel_pop_def in_memory_pair_def channel_new_def
      channel_try_send_def channel_recv_def INPUT_QUEUE_CAPACITY_def)

end
