(* ===== verification/Stun_Client.thy ===== *)
theory Stun_Client
  imports Input_Transport "HOL-Library.Monad_Syntax"
begin

unbundle bit_operations_syntax

text \<open>
  The STUN client (\<open>packages/networking/src/stun.rs\<close>): building a Binding request, parsing an
  untrusted Binding response byte by byte, and the discovery loop.  Every index and slice is
  checked the way Rust checks it: \<open>None\<close> is the panic of an index out of range, so a parser
  that returns \<open>Some\<close> for every input is a proof that no datagram can crash the client.
\<close>

section \<open>Bytes\<close>

definition BINDING_REQUEST :: u16 where "BINDING_REQUEST = 0x0001"
definition BINDING_SUCCESS :: u16 where "BINDING_SUCCESS = 0x0101"
definition MAGIC_COOKIE :: u32 where "MAGIC_COOKIE = 0x2112A442"
definition MAPPED_ADDRESS :: u16 where "MAPPED_ADDRESS = 0x0001"
definition XOR_MAPPED_ADDRESS :: u16 where "XOR_MAPPED_ADDRESS = 0x0020"
definition HEADER_BYTES :: nat where "HEADER_BYTES = 20"
definition MAX_STUN_BYTES :: nat where "MAX_STUN_BYTES = 2048"

text \<open>\<open>u16::from_be_bytes\<close>, \<open>u32::from_be_bytes\<close>, \<open>to_be_bytes\<close>.\<close>

definition u16_from_be :: "u8 \<Rightarrow> u8 \<Rightarrow> u16" where
  "u16_from_be a b = push_bit 8 (ucast a) OR ucast b"

definition u16_to_be :: "u16 \<Rightarrow> bytes" where
  "u16_to_be w = [ucast (drop_bit 8 w), ucast w]"

definition u32_from_be :: "u8 \<Rightarrow> u8 \<Rightarrow> u8 \<Rightarrow> u8 \<Rightarrow> u32" where
  "u32_from_be a b c d =
     push_bit 24 (ucast a) OR push_bit 16 (ucast b) OR push_bit 8 (ucast c) OR ucast d"

definition u32_to_be :: "u32 \<Rightarrow> bytes" where
  "u32_to_be w = [ucast (drop_bit 24 w), ucast (drop_bit 16 w), ucast (drop_bit 8 w), ucast w]"

definition byte_at :: "bytes \<Rightarrow> nat \<Rightarrow> u8 option" where
  "byte_at b i = (if i < length b then Some (b ! i) else None)"

definition subslice :: "bytes \<Rightarrow> nat \<Rightarrow> nat \<Rightarrow> bytes option" where
  "subslice b i j = (if i \<le> j \<and> j \<le> length b then Some (take (j - i) (drop i b)) else None)"

definition u16_at :: "bytes \<Rightarrow> nat \<Rightarrow> u16 option" where
  "u16_at b i = do { x \<leftarrow> byte_at b i; y \<leftarrow> byte_at b (i + 1); Some (u16_from_be x y) }"

lemma u16_at_some: "i + 1 < length b \<Longrightarrow> u16_at b i = Some (u16_from_be (b ! i) (b ! (i + 1)))"
  by (simp add: u16_at_def byte_at_def)

lemma u16_be_roundtrip [simp]:
  "u16_from_be (ucast (drop_bit 8 w)) (ucast w) = w" for w :: u16
  by (rule bit_word_eqI) (auto simp: u16_from_be_def bit_simps)

section \<open>Parsing\<close>

type_synonym 'a checked = "(transport_error + 'a) option"

definition invalid :: "string \<Rightarrow> 'a checked" where
  "invalid m = Some (Err (InvalidStunResponse m))"

definition xor_bytes :: "bytes \<Rightarrow> bytes \<Rightarrow> bytes" where
  "xor_bytes octets key = map2 (\<lambda>octet k. octet XOR k) octets key"

definition parse_address :: "bytes \<Rightarrow> bytes option \<Rightarrow> socket_addr checked" where
  "parse_address v xor_transaction_id = 
     (if length v < 8 then invalid ''mapped address attribute is malformed'' else do {
     b0 \<leftarrow> byte_at v 0;
     if b0 \<noteq> 0 then invalid ''mapped address attribute is malformed''
     else do {
       encoded_port \<leftarrow> u16_at v 2;
       family \<leftarrow> byte_at v 1;
       let port = (case xor_transaction_id of
                     None \<Rightarrow> encoded_port
                   | Some _ \<Rightarrow> encoded_port XOR ucast (drop_bit 16 MAGIC_COOKIE));
       if family = 1 \<and> length v = 8 then do {
         octets \<leftarrow> subslice v 4 8;
         let octets' = (case xor_transaction_id of
                          None \<Rightarrow> octets
                        | Some _ \<Rightarrow> xor_bytes octets (u32_to_be MAGIC_COOKIE));
         Some (Ok (SocketAddr (V4 octets') port)) }
       else if family = 2 \<and> length v = 20 then do {
         octets \<leftarrow> subslice v 4 20;
         let octets' = (case xor_transaction_id of
                          None \<Rightarrow> octets
                        | Some tid \<Rightarrow> xor_bytes octets (u32_to_be MAGIC_COOKIE @ tid));
         Some (Ok (SocketAddr (V6 octets') port)) }
       else invalid ''mapped address family or length is unsupported'' } })"

text \<open>The attribute loop of \<open>parse_binding_response\<close>, from an offset on, with the MAPPED-ADDRESS
  seen so far.\<close>

function parse_attributes ::
    "bytes \<Rightarrow> bytes \<Rightarrow> nat \<Rightarrow> nat \<Rightarrow> socket_addr option \<Rightarrow> socket_addr checked" where
  "parse_attributes response tid message_end offset mapped =
     (if offset + 4 \<le> message_end then do {
        attribute_type \<leftarrow> u16_at response offset;
        attribute_length \<leftarrow> u16_at response (offset + 2);
        let value_start = offset + 4;
        let value_end = value_start + unat attribute_length;
        if \<not> value_end \<le> message_end then invalid ''attribute length is invalid''
        else do {
          let next_offset = value_end + (4 - unat attribute_length mod 4) mod 4;
          if attribute_type = XOR_MAPPED_ADDRESS then do {
            value \<leftarrow> subslice response value_start value_end;
            parse_address value (Some tid) }
          else if attribute_type = MAPPED_ADDRESS then do {
            value \<leftarrow> subslice response value_start value_end;
            r \<leftarrow> parse_address value None;
            (case r of
               Inl e \<Rightarrow> Some (Err e)
             | Inr a \<Rightarrow> parse_attributes response tid message_end next_offset (Some a)) }
          else parse_attributes response tid message_end next_offset mapped } }
      else (case mapped of
              None \<Rightarrow> invalid ''response contains no mapped address''
            | Some a \<Rightarrow> Some (Ok a)))"
  by pat_completeness auto
termination
  by (relation "measure (\<lambda>(response, tid, message_end, offset, mapped). message_end - offset)")
     (auto simp: less_diff_iff)

declare parse_attributes.simps [simp del]

definition parse_binding_response :: "bytes \<Rightarrow> bytes \<Rightarrow> socket_addr checked" where
  "parse_binding_response response tid =
     (if length response < HEADER_BYTES then invalid ''response is shorter than the STUN header''
      else do {
        message_type \<leftarrow> u16_at response 0;
        if message_type \<noteq> BINDING_SUCCESS then invalid ''response is not a Binding success response''
        else do {
          c0 \<leftarrow> byte_at response 4; c1 \<leftarrow> byte_at response 5;
          c2 \<leftarrow> byte_at response 6; c3 \<leftarrow> byte_at response 7;
          if u32_from_be c0 c1 c2 c3 \<noteq> MAGIC_COOKIE
          then invalid ''magic cookie does not match RFC 8489''
          else do {
            response_tid \<leftarrow> subslice response 8 20;
            if response_tid \<noteq> tid then invalid ''transaction id does not match the request''
            else do {
              l \<leftarrow> u16_at response 2;
              let message_length = unat l;
              if message_length mod 4 \<noteq> 0
              then invalid ''declared message length is not 32-bit aligned''
              else if \<not> HEADER_BYTES + message_length \<le> length response
              then invalid ''declared message length is invalid''
              else parse_attributes response tid (HEADER_BYTES + message_length) HEADER_BYTES None } } } })"

section \<open>Requests and the discovery loop\<close>

definition transaction_id :: "bytes \<Rightarrow> bytes" where
  "transaction_id uuid_bytes = take 12 uuid_bytes"

definition binding_request :: "bytes \<Rightarrow> bytes" where
  "binding_request tid = u16_to_be BINDING_REQUEST @ [0, 0] @ u32_to_be MAGIC_COOKIE @ tid"

datatype nat_mapping = NatMappingOpen | NatMappingMapped

record stun_observation =
  so_local_endpoint :: socket_addr
  so_reflexive_endpoint :: socket_addr
  so_mapping :: nat_mapping

text \<open>What one \<open>timeout(remaining, recv_from)\<close> yields: time out, an I/O error, or a datagram
  (cut at the buffer's 2,048 bytes) with its sender.\<close>

datatype recv_event = RecvElapsed | RecvError io_error | RecvFrom socket_addr bytes

text \<open>The loop over the receive events; the deadline is met after the listed events at the
  latest.\<close>

fun await_binding ::
    "socket_addr \<Rightarrow> socket_addr \<Rightarrow> bytes \<Rightarrow> recv_event list \<Rightarrow> stun_observation checked" where
  "await_binding server local_endpoint tid [] = Some (Err StunTimeout)"
| "await_binding server local_endpoint tid (RecvElapsed # evs) = Some (Err StunTimeout)"
| "await_binding server local_endpoint tid (RecvError e # evs) = Some (Err (map_udp_error e))"
| "await_binding server local_endpoint tid (RecvFrom sender b # evs) =
     (if sender \<noteq> server then await_binding server local_endpoint tid evs
      else do {
        r \<leftarrow> parse_binding_response (take MAX_STUN_BYTES b) tid;
        Some (map_sum id (\<lambda>reflexive.
          \<lparr>so_local_endpoint = local_endpoint, so_reflexive_endpoint = reflexive,
           so_mapping = (if reflexive = local_endpoint then NatMappingOpen else NatMappingMapped)\<rparr>) r) })"

text \<open>\<open>discover_reflexive_address\<close>; the socket's local address, the fresh UUID, the outcome of
  the send and the receive events are arguments.\<close>

definition discover_reflexive_address ::
    "io_error + socket_addr \<Rightarrow> socket_addr \<Rightarrow> int \<Rightarrow> bytes \<Rightarrow> (bytes \<Rightarrow> io_error + unit) \<Rightarrow>
     recv_event list \<Rightarrow> stun_observation checked" where
  "discover_reflexive_address local_addr server timeout uuid_bytes send evs =
     (if is_unspecified (sa_ip server) \<or> sa_port server = 0 \<or> timeout = 0
      then Some (Err (InvalidConfiguration ''STUN server and timeout must be usable''))
      else case local_addr of
        Inl e \<Rightarrow> Some (Err (map_udp_error e))
      | Inr local_endpoint \<Rightarrow>
          (case send (binding_request (transaction_id uuid_bytes)) of
             Inl e \<Rightarrow> Some (Err (map_udp_error e))
           | Inr _ \<Rightarrow> await_binding server local_endpoint (transaction_id uuid_bytes) evs))"

end
