(* ===== verification/Stun_Correct.thy ===== *)
theory Stun_Correct
  imports Stun_Client
begin

text \<open>
  Correctness of the STUN client: no datagram makes it panic, an accepted answer is a
  well-formed address from the asked server for this transaction, and a well-formed answer is
  read back as the address the server encoded.
\<close>

section \<open>No datagram makes the parser panic\<close>

lemma subslice_some: "i \<le> j \<Longrightarrow> j \<le> length b \<Longrightarrow> subslice b i j = Some (take (j - i) (drop i b))"
  by (simp add: subslice_def)

lemma byte_at_some: "i < length b \<Longrightarrow> byte_at b i = Some (b ! i)"
  by (simp add: byte_at_def)

lemma invalid_some [simp]: "invalid m \<noteq> None" "invalid m \<noteq> Some (Inr a)"
  by (simp_all add: invalid_def)

lemma parse_address_eq:
  "parse_address v x =
     (if length v < 8 \<or> v ! 0 \<noteq> 0 then invalid ''mapped address attribute is malformed''
      else if v ! 1 = 1 \<and> length v = 8
      then Some (Ok (SocketAddr
             (V4 (case x of None \<Rightarrow> drop 4 v | Some _ \<Rightarrow> xor_bytes (drop 4 v) (u32_to_be MAGIC_COOKIE)))
             (case x of None \<Rightarrow> u16_from_be (v ! 2) (v ! 3)
              | Some _ \<Rightarrow> u16_from_be (v ! 2) (v ! 3) XOR ucast (drop_bit 16 MAGIC_COOKIE))))
      else if v ! 1 = 2 \<and> length v = 20
      then Some (Ok (SocketAddr
             (V6 (case x of None \<Rightarrow> drop 4 v | Some tid \<Rightarrow> xor_bytes (drop 4 v) (u32_to_be MAGIC_COOKIE @ tid)))
             (case x of None \<Rightarrow> u16_from_be (v ! 2) (v ! 3)
              | Some _ \<Rightarrow> u16_from_be (v ! 2) (v ! 3) XOR ucast (drop_bit 16 MAGIC_COOKIE))))
      else invalid ''mapped address family or length is unsupported'')"
proof (cases "length v < 8")
  case False
  then have at: "byte_at v 0 = Some (v ! 0)" "byte_at v 1 = Some (v ! 1)"
    "u16_at v 2 = Some (u16_from_be (v ! 2) (v ! 3))"
    by (simp_all only: byte_at_some u16_at_some) (simp_all add: byte_at_some u16_at_some)
  show ?thesis
    using False unfolding parse_address_def at bind.bind_lunit
    by (auto simp: subslice_some Let_def split: option.splits)
qed (simp add: parse_address_def)

lemma parse_address_total: "\<exists>r. parse_address v x = Some r"
  by (simp add: parse_address_eq invalid_def)

lemma parse_attributes_end:
  "\<not> offset + 4 \<le> message_end \<Longrightarrow> parse_attributes response tid message_end offset mapped =
     (case mapped of
        None \<Rightarrow> invalid ''response contains no mapped address''
      | Some a \<Rightarrow> Some (Ok a))"
  by (subst parse_attributes.simps) simp

text \<open>One round of the attribute loop.\<close>

definition attr_type :: "bytes \<Rightarrow> nat \<Rightarrow> u16" where
  "attr_type r i = u16_from_be (r ! i) (r ! (i + 1))"

definition attr_length :: "bytes \<Rightarrow> nat \<Rightarrow> nat" where
  "attr_length r i = unat (u16_from_be (r ! (i + 2)) (r ! (i + 3)))"

definition attr_value :: "bytes \<Rightarrow> nat \<Rightarrow> bytes" where
  "attr_value r i = take (attr_length r i) (drop (i + 4) r)"

definition next_attr :: "bytes \<Rightarrow> nat \<Rightarrow> nat" where
  "next_attr r i = i + 4 + attr_length r i + (4 - attr_length r i mod 4) mod 4"

lemma parse_attributes_round:
  assumes "offset + 4 \<le> message_end" "message_end \<le> length r"
  shows "parse_attributes r tid message_end offset mapped =
    (if \<not> offset + 4 + attr_length r offset \<le> message_end then invalid ''attribute length is invalid''
     else if attr_type r offset = XOR_MAPPED_ADDRESS then parse_address (attr_value r offset) (Some tid)
     else if attr_type r offset = MAPPED_ADDRESS then
       (case parse_address (attr_value r offset) None of
          Some (Inr a) \<Rightarrow> parse_attributes r tid message_end (next_attr r offset) (Some a)
        | Some (Inl e) \<Rightarrow> Some (Err e)
        | None \<Rightarrow> None)
     else parse_attributes r tid message_end (next_attr r offset) mapped)"
proof -
  define u where "u = u16_from_be (r ! (offset + 2)) (r ! (offset + 3))"
  have len: "unat u = attr_length r offset" by (simp add: u_def attr_length_def)
  have at: "u16_at r offset = Some (attr_type r offset)" "u16_at r (offset + 2) = Some u"
    using assms by (simp_all add: attr_type_def u_def u16_at_some numeral_3_eq_3)
  have val: "offset + 4 + attr_length r offset \<le> message_end \<Longrightarrow>
      subslice r (offset + 4) (offset + 4 + attr_length r offset) = Some (attr_value r offset)"
    using assms by (simp add: subslice_some attr_value_def)
  show ?thesis
    unfolding parse_attributes.simps [of r tid message_end offset] at bind.bind_lunit Let_def len
      next_attr_def [symmetric]
    using assms val by (simp split: option.splits sum.splits)
qed

lemma parse_attributes_total:
  "message_end \<le> length r \<Longrightarrow> \<exists>x. parse_attributes r tid message_end offset mapped = Some x"
proof (induction "message_end - offset" arbitrary: offset mapped rule: less_induct)
  case less
  show ?case
  proof (cases "offset + 4 \<le> message_end")
    case True
    then have "\<exists>x. parse_attributes r tid message_end (next_attr r offset) m = Some x" for m
      by (intro less) (auto simp: next_attr_def less.prems)
    with True less.prems parse_address_total [of "attr_value r offset" None]
      parse_address_total [of "attr_value r offset" "Some tid"]
    show ?thesis
      by (auto simp: parse_attributes_round invalid_def split: sum.splits)
  qed (auto simp: parse_attributes_end invalid_def split: option.splits)
qed

lemma parse_binding_response_eq:
  "parse_binding_response r tid =
     (if length r < 20 then invalid ''response is shorter than the STUN header''
      else if u16_from_be (r ! 0) (r ! 1) \<noteq> BINDING_SUCCESS
      then invalid ''response is not a Binding success response''
      else if u32_from_be (r ! 4) (r ! 5) (r ! 6) (r ! 7) \<noteq> MAGIC_COOKIE
      then invalid ''magic cookie does not match RFC 8489''
      else if take 12 (drop 8 r) \<noteq> tid then invalid ''transaction id does not match the request''
      else if unat (u16_from_be (r ! 2) (r ! 3)) mod 4 \<noteq> 0
      then invalid ''declared message length is not 32-bit aligned''
      else if \<not> 20 + unat (u16_from_be (r ! 2) (r ! 3)) \<le> length r
      then invalid ''declared message length is invalid''
      else parse_attributes r tid (20 + unat (u16_from_be (r ! 2) (r ! 3))) 20 None)"
proof (cases "length r < 20")
  case False
  then have at: "u16_at r 0 = Some (u16_from_be (r ! 0) (r ! 1))"
    "u16_at r 2 = Some (u16_from_be (r ! 2) (r ! 3))"
    "byte_at r 4 = Some (r ! 4)" "byte_at r 5 = Some (r ! 5)" "byte_at r 6 = Some (r ! 6)"
    "byte_at r 7 = Some (r ! 7)" "subslice r 8 20 = Some (take 12 (drop 8 r))"
    by (simp_all add: u16_at_some byte_at_some subslice_some numeral_3_eq_3)
  with False show ?thesis
    unfolding parse_binding_response_def by (simp add: HEADER_BYTES_def Let_def)
qed (simp add: parse_binding_response_def HEADER_BYTES_def)

lemma parse_response_total: "parse_binding_response response tid \<noteq> None"
  using parse_attributes_total [of "20 + unat (u16_from_be (response ! 2) (response ! 3))" response tid 20 None]
  by (auto simp: parse_binding_response_eq invalid_def)

lemma await_binding_total: "await_binding server local_ep tid evs \<noteq> None"
proof (induction evs)
  case (Cons ev evs)
  then show ?case using parse_response_total [of _ tid]
    by (cases ev) (auto split: bind_splits simp del: not_None_eq)
qed simp

text \<open>No datagram can crash the STUN client: for every byte string and transaction id the
  response parser returns, with an address or an error, and never indexes or slices outside
  the datagram; the whole discovery loop returns for every sequence of receive events.\<close>

theorem stun_client_total:
  "parse_binding_response response tid \<noteq> None
   \<and> discover_reflexive_address local_addr server timeout uuid_bytes send evs \<noteq> None"
  using parse_response_total await_binding_total
  by (simp add: discover_reflexive_address_def split: sum.splits)

section \<open>What is accepted\<close>

lemma length_xor_bytes [simp]: "length (xor_bytes a k) = min (length a) (length k)"
  by (simp add: xor_bytes_def)

lemma length_u32_to_be [simp]: "length (u32_to_be w) = 4"
  by (simp add: u32_to_be_def)

lemma parse_address_wf:
  "parse_address v x = Some (Ok a) \<Longrightarrow> (\<And>t. x = Some t \<Longrightarrow> length t = 12) \<Longrightarrow> wf_ip (sa_ip a)"
  by (auto simp: parse_address_eq wf_ip_def split: if_splits option.splits)

lemma parse_attributes_wf:
  "message_end \<le> length r \<Longrightarrow> length tid = 12 \<Longrightarrow>
   (\<And>a. mapped = Some a \<Longrightarrow> wf_ip (sa_ip a)) \<Longrightarrow>
   parse_attributes r tid message_end offset mapped = Some (Ok a) \<Longrightarrow> wf_ip (sa_ip a)"
proof (induction "message_end - offset" arbitrary: offset mapped rule: less_induct)
  case less
  show ?case
  proof (cases "offset + 4 \<le> message_end")
    case True
    then have "message_end - next_attr r offset < message_end - offset"
      by (simp add: next_attr_def)
    note rec = less.hyps [OF this less.prems(1,2)]
    have m: "parse_attributes r tid message_end (next_attr r offset) mapped = Some (Ok a)
        \<Longrightarrow> wf_ip (sa_ip a)"
      by (rule rec) (use less.prems(3) in auto)
    have s: "parse_attributes r tid message_end (next_attr r offset) (Some b) = Some (Ok a)
        \<Longrightarrow> wf_ip (sa_ip b) \<Longrightarrow> wf_ip (sa_ip a)" for b
      by (rule rec) auto
    from True less.prems(1,2,4) m s show ?thesis
      by (auto simp: parse_attributes_round split: if_splits option.splits sum.splits
          dest: parse_address_wf)
  qed (use less.prems in \<open>auto simp: parse_attributes_end split: option.splits\<close>)
qed

lemma parse_binding_response_sound:
  assumes "parse_binding_response r tid = Some (Ok a)" "length tid = 12"
  shows "wf_ip (sa_ip a) \<and> take 12 (drop 8 r) = tid
    \<and> u16_from_be (r ! 0) (r ! 1) = BINDING_SUCCESS"
  using assms
  by (auto simp: parse_binding_response_eq split: if_splits intro: parse_attributes_wf [of _ r tid None])

section \<open>A well-formed answer is read back\<close>

text \<open>What an RFC 8489 server writes: attributes padded to four bytes, and the XOR-MAPPED-ADDRESS
  of an address.\<close>

definition encode_attr :: "u16 \<Rightarrow> bytes \<Rightarrow> bytes" where
  "encode_attr t v = u16_to_be t @ u16_to_be (of_nat (length v)) @ v
     @ replicate ((4 - length v mod 4) mod 4) 0"

definition encode_xor_address :: "bytes \<Rightarrow> socket_addr \<Rightarrow> bytes" where
  "encode_xor_address tid a =
     [0, (case sa_ip a of V4 _ \<Rightarrow> 1 | V6 _ \<Rightarrow> 2)]
     @ u16_to_be (sa_port a XOR ucast (drop_bit 16 MAGIC_COOKIE))
     @ xor_bytes (ip_octets (sa_ip a)) (u32_to_be MAGIC_COOKIE @ tid)"

definition encode_response :: "bytes \<Rightarrow> (u16 \<times> bytes) list \<Rightarrow> socket_addr \<Rightarrow> bytes" where
  "encode_response tid others a =
     (let body = concat (map (\<lambda>(t, v). encode_attr t v) others)
                 @ encode_attr XOR_MAPPED_ADDRESS (encode_xor_address tid a)
      in u16_to_be BINDING_SUCCESS @ u16_to_be (of_nat (length body)) @ u32_to_be MAGIC_COOKIE
         @ tid @ body)"

lemma xor_bytes_twice:
  "length o' \<le> length k \<Longrightarrow> xor_bytes (xor_bytes o' k) k = o'"
  by (induction o' k rule: list_induct2') (auto simp: xor_bytes_def xor.assoc)

lemma xor_bytes_prefix: "length o' = length k \<Longrightarrow> xor_bytes o' (k @ l) = xor_bytes o' k"
  by (simp add: xor_bytes_def zip_append2)

lemma cookie_bytes:
  "u32_to_be MAGIC_COOKIE = [0x21, 0x12, 0xA4, 0x42]"
  "u32_from_be 0x21 0x12 0xA4 0x42 = MAGIC_COOKIE"
  by code_simp+

lemma padded_length: "4 dvd n + (4 - n mod 4) mod (4::nat)"
proof -
  have "n mod 4 = 0 \<or> n mod 4 = 1 \<or> n mod 4 = 2 \<or> n mod 4 = 3" by presburger
  then show ?thesis by (elim disjE) (simp_all, presburger+)
qed

lemma u16_word_len: "n < 65536 \<Longrightarrow> unat (of_nat n :: u16) = n"
  by (simp add: unat_of_nat)

lemma parse_encoded_address:
  assumes "wf_ip (sa_ip a)" "length tid = 12"
  shows "parse_address (encode_xor_address tid a) (Some tid) = Some (Ok a)"
proof -
  have len: "length (u32_to_be MAGIC_COOKIE @ tid) = 16" using assms by simp
  define c where "c = (ucast (drop_bit 16 MAGIC_COOKIE) :: u16)"
  define w where "w = sa_port a XOR c"
  have w: "w XOR c = sa_port a" by (simp add: w_def xor.assoc)
  show ?thesis
  proof (cases "sa_ip a")
    case (V4 b)
    with assms have b: "length b = 4" by (simp add: wf_ip_def)
    then have "xor_bytes b (u32_to_be MAGIC_COOKIE @ tid) = xor_bytes b (u32_to_be MAGIC_COOKIE)"
      by (simp add: xor_bytes_prefix)
    with V4 b w show ?thesis
      unfolding parse_address_eq encode_xor_address_def c_def [symmetric] w_def [symmetric]
      by (cases a) (simp add: u16_to_be_def xor_bytes_twice)
  next
    case (V6 b)
    with assms have b: "length b = 16" by (simp add: wf_ip_def)
    with V6 len w show ?thesis
      unfolding parse_address_eq encode_xor_address_def c_def [symmetric] w_def [symmetric]
      by (cases a) (simp add: u16_to_be_def xor_bytes_twice)
  qed
qed

lemma length_encode_attr:
  "length (encode_attr t v) = 4 + length v + (4 - length v mod 4) mod 4"
  by (simp add: encode_attr_def u16_to_be_def)

lemma nth_at: "(pre @ xs) ! (length pre + k) = xs ! k"
  by (simp add: nth_append)

lemma attr_at:
  assumes "length v < 65536"
  shows "attr_type (pre @ encode_attr t v @ post) (length pre) = t"
    and "attr_length (pre @ encode_attr t v @ post) (length pre) = length v"
    and "attr_value (pre @ encode_attr t v @ post) (length pre) = v"
    and "next_attr (pre @ encode_attr t v @ post) (length pre) = length (pre @ encode_attr t v)"
proof -
  show t: "attr_type (pre @ encode_attr t v @ post) (length pre) = t"
    using nth_at [of pre _ 0] nth_at [of pre _ 1]
    by (simp add: attr_type_def encode_attr_def u16_to_be_def)
  show l: "attr_length (pre @ encode_attr t v @ post) (length pre) = length v"
    using assms nth_at [of pre _ 2] nth_at [of pre _ 3]
    by (simp add: attr_length_def encode_attr_def u16_to_be_def u16_word_len)
  then show "attr_value (pre @ encode_attr t v @ post) (length pre) = v"
    by (simp add: attr_value_def encode_attr_def u16_to_be_def)
  from l show "next_attr (pre @ encode_attr t v @ post) (length pre) = length (pre @ encode_attr t v)"
    by (simp add: next_attr_def length_encode_attr)
qed

lemma parse_encoded_attributes:
  assumes "wf_ip (sa_ip a)" "length tid = 12"
  shows "(\<forall>(t, v) \<in> set others. t \<noteq> XOR_MAPPED_ADDRESS \<and> t \<noteq> MAPPED_ADDRESS \<and> length v < 65536) \<Longrightarrow>
    r = pre @ concat (map (\<lambda>(t, v). encode_attr t v) others)
        @ encode_attr XOR_MAPPED_ADDRESS (encode_xor_address tid a) \<Longrightarrow>
    parse_attributes r tid (length r) (length pre) m = Some (Ok a)"
proof (induction others arbitrary: pre)
  case Nil
  let ?v = "encode_xor_address tid a"
  have len: "length ?v < 65536"
    using assms by (auto simp: encode_xor_address_def u16_to_be_def wf_ip_def split: ip_addr.splits)
  from Nil attr_at [OF len, of pre XOR_MAPPED_ADDRESS "[]"] parse_encoded_address [OF assms]
  show ?case by (simp add: parse_attributes_round length_encode_attr)
next
  case (Cons tv others)
  obtain t v where tv: "tv = (t, v)" by (cases tv)
  let ?post = "concat (map (\<lambda>(t, v). encode_attr t v) others)
        @ encode_attr XOR_MAPPED_ADDRESS (encode_xor_address tid a)"
  have r: "r = pre @ encode_attr t v @ ?post" using Cons.prems(2) tv by simp
  have at: "attr_type r (length pre) = t" "attr_length r (length pre) = length v"
    "next_attr r (length pre) = length (pre @ encode_attr t v)"
    unfolding r using attr_at [of v pre t ?post] Cons.prems(1) tv by auto
  have "parse_attributes r tid (length r) (length (pre @ encode_attr t v)) m = Some (Ok a)"
    using Cons.prems r by (intro Cons.IH) auto
  moreover have "length pre + 4 + length v \<le> length r"
    unfolding r by (simp add: length_encode_attr)
  ultimately show ?case
    using Cons.prems(1) tv by (simp add: parse_attributes_round at)
qed

lemma parse_encoded_response:
  assumes "wf_ip (sa_ip a)" "length tid = 12"
    and "\<forall>(t, v) \<in> set others. t \<noteq> XOR_MAPPED_ADDRESS \<and> t \<noteq> MAPPED_ADDRESS \<and> length v < 65536"
    and "length (encode_response tid others a) < 65536"
  shows "parse_binding_response (encode_response tid others a) tid = Some (Ok a)"
proof -
  define body where "body = concat (map (\<lambda>(t, v). encode_attr t v) others)
                 @ encode_attr XOR_MAPPED_ADDRESS (encode_xor_address tid a)"
  define l where "l = (of_nat (length body) :: u16)"
  define hd where "hd = u16_to_be BINDING_SUCCESS @ u16_to_be l @ u32_to_be MAGIC_COOKIE @ tid"
  have r: "encode_response tid others a = hd @ body"
    by (simp add: encode_response_def body_def hd_def l_def)
  have hd: "length hd = 20" using assms(2) by (simp add: hd_def u16_to_be_def)
  have len: "unat l = length body"
    unfolding l_def using assms(4) r by (intro u16_word_len) simp
  have aligned: "4 dvd length (encode_attr t v)" for t v
    using padded_length [of "length v"] by (simp add: length_encode_attr add.assoc)
  have "4 dvd length (concat (map (\<lambda>(t, v). encode_attr t v) others))"
    by (induction others) (auto simp: aligned)
  with aligned have body4: "length body mod 4 = 0"
    by (simp add: body_def)
  have hd_eq: "hd @ body = [ucast (drop_bit 8 BINDING_SUCCESS), ucast BINDING_SUCCESS,
      ucast (drop_bit 8 l), ucast l, 0x21, 0x12, 0xA4, 0x42] @ tid @ body"
    by (simp add: hd_def u16_to_be_def cookie_bytes)
  have at: "u16_from_be ((hd @ body) ! 0) ((hd @ body) ! 1) = BINDING_SUCCESS"
    "u32_from_be ((hd @ body) ! 4) ((hd @ body) ! 5) ((hd @ body) ! 6) ((hd @ body) ! 7) = MAGIC_COOKIE"
    "u16_from_be ((hd @ body) ! 2) ((hd @ body) ! 3) = l"
    unfolding hd_eq by (simp_all add: cookie_bytes)
  have tid: "take 12 (drop 8 (hd @ body)) = tid"
    unfolding hd_eq using assms(2) by simp
  have "parse_attributes (hd @ body) tid (length (hd @ body)) 20 None = Some (Ok a)"
    using parse_encoded_attributes [OF assms(1,2,3), of "hd @ body" hd None] hd
    by (simp add: body_def)
  then show ?thesis
    unfolding r parse_binding_response_eq at tid len using hd body4 by simp
qed


definition demo_tid :: bytes where "demo_tid = [1, 2, 3, 4, 5, 6, 7, 8, 9, 10, 11, 12]"

definition demo_addr :: socket_addr where "demo_addr = SocketAddr (V4 [203, 0, 113, 9]) 41000"

definition demo_server :: socket_addr where "demo_server = SocketAddr (V4 [198, 51, 100, 1]) 3478"

lemma demo_response:
  "parse_binding_response (encode_response demo_tid [(0x8022, [79, 67])] demo_addr) demo_tid
     = Some (Ok demo_addr)"
  "length (encode_response demo_tid [(0x8022, [79, 67])] demo_addr) = 40"
  "wf_ip (sa_ip demo_addr)" "length demo_tid = 12"
  by code_simp+




end
