(* ===== verification/Match_Probe.thy ===== *)
theory Match_Probe
  imports Input_Transport Protocol
begin

unbundle bit_operations_syntax

text \<open>
  The deterministic match probe (\<open>packages/networking/src/probe.rs\<close>).  Both peers run the same
  loop: send the local frame, wait for the peer's frame of the same number, fold both input
  bytes into an FNV checksum, go on; older frames are answered with the matching local frame.
  After the last frame a peer lingers for a second and keeps answering.

  The asynchronous loop is a step function: an event is what one iteration saw (the deadline
  passed, nothing arrived within the retry interval, or \<open>receive_packet\<close> returned), and every
  iteration makes at most one send, whose outcome the environment chooses.
\<close>

section \<open>Configuration\<close>

definition MAX_PROBE_FRAMES :: u64 where "MAX_PROBE_FRAMES = 10000"

datatype probe_packet =
    InputPacket (pk_room_id: string) (pk_session_key: string) (pk_frame: input_frame)
  | HolePunchPacket (pk_version: u8) (pk_room_id: string) (pk_session_key: string)

record match_probe_config =
  pc_descriptor :: match_descriptor
  pc_session_key :: string
  pc_frame_count :: u64
  pc_timeout :: int

text \<open>\<open>Display\<close> of an \<open>AdapterError\<close>.\<close>

fun adapter_error_str :: "adapter_error \<Rightarrow> string" where
  "adapter_error_str (NotDetected m) = ''emulator not detected: '' @ m"
| "adapter_error_str (Validation m) = ''validation failed: '' @ m"
| "adapter_error_str (Launch m) = ''launch failed: '' @ m"
| "adapter_error_str (MatchPreparation m) = ''match preparation failed: '' @ m"
| "adapter_error_str (AdapterIo m) = ''io error: '' @ m"

definition match_probe_config_new ::
    "match_descriptor \<Rightarrow> string \<Rightarrow> u64 \<Rightarrow> int \<Rightarrow> transport_error + match_probe_config" where
  "match_probe_config_new d session_key frame_count timeout =
     (case descriptor_validate d of
        Inl e \<Rightarrow> Err (InvalidConfiguration (adapter_error_str e))
      | Inr _ \<Rightarrow>
          (if md_transport d \<noteq> DirectUdp \<and> md_transport d \<noteq> Relay
           then Err (InvalidConfiguration ''match probe requires direct_udp or relay transport'')
           else if is_blank session_key \<or> length session_key > 128
           then Err (InvalidConfiguration ''session key must contain between 1 and 128 bytes'')
           else if \<not> (1 \<le> frame_count \<and> frame_count \<le> MAX_PROBE_FRAMES)
           then Err (InvalidConfiguration
             (''frame count must be between 1 and '' @ nat_str (unat MAX_PROBE_FRAMES)))
           else if timeout = 0
           then Err (InvalidConfiguration ''timeout must be greater than zero'')
           else Ok \<lparr>pc_descriptor = d, pc_session_key = session_key,
                    pc_frame_count = frame_count, pc_timeout = timeout\<rparr>))"

text \<open>What a constructed configuration satisfies.\<close>

definition wf_config :: "match_probe_config \<Rightarrow> bool" where
  "wf_config c \<longleftrightarrow> descriptor_validate (pc_descriptor c) = Ok ()
     \<and> (md_transport (pc_descriptor c) = DirectUdp \<or> md_transport (pc_descriptor c) = Relay)
     \<and> \<not> is_blank (pc_session_key c) \<and> length (pc_session_key c) \<le> 128
     \<and> 1 \<le> unat (pc_frame_count c) \<and> unat (pc_frame_count c) \<le> 10000 \<and> pc_timeout c \<noteq> 0"

lemma match_probe_config_new_wf:
  "match_probe_config_new d k n t = Ok c \<Longrightarrow> wf_config c"
  by (auto simp: match_probe_config_new_def wf_config_def MAX_PROBE_FRAMES_def word_le_nat_alt
      split: sum.splits if_splits)

section \<open>Frames and the transcript checksum\<close>

definition deterministic_frame :: "u64 \<Rightarrow> string \<Rightarrow> peer_role \<Rightarrow> transport_error + input_frame" where
  "deterministic_frame frame player_id role =
     (let input = (case role of
                     Host \<Rightarrow> ucast (frame mod 4)
                   | Guest \<Rightarrow> ucast ((frame + 2) mod 4))
      in input_frame_new frame player_id [input])"

definition FNV_OFFSET_BASIS :: u64 where "FNV_OFFSET_BASIS = 0xcbf29ce484222325"
definition FNV_PRIME :: u64 where "FNV_PRIME = 0x100000001b3"

definition fnv_byte :: "u64 \<Rightarrow> u8 \<Rightarrow> u64" where
  "fnv_byte checksum b = (checksum XOR ucast b) * FNV_PRIME"

definition update_transcript_checksum ::
    "u64 \<Rightarrow> peer_role \<Rightarrow> input_frame \<Rightarrow> input_frame \<Rightarrow> u64" where
  "update_transcript_checksum checksum role local_frame remote =
     (case role of
        Host \<Rightarrow> foldl fnv_byte checksum (if_input local_frame @ if_input remote)
      | Guest \<Rightarrow> foldl fnv_byte checksum (if_input remote @ if_input local_frame))"

definition validated_remote_frame ::
    "probe_packet \<Rightarrow> match_probe_config \<Rightarrow> transport_error + input_frame option" where
  "validated_remote_frame packet c =
     (case packet of
        HolePunchPacket _ _ _ \<Rightarrow> Ok None
      | InputPacket room_id session_key frame \<Rightarrow>
          (if room_id \<noteq> md_room_id (pc_descriptor c) \<or> session_key \<noteq> pc_session_key c
              \<or> if_player_id frame \<noteq> md_peer_user_id (pc_descriptor c)
              \<or> length (if_input frame) > MAX_INPUT_BYTES
           then Err PeerMismatch
           else Ok (Some frame)))"

section \<open>The probe loop\<close>

datatype probe_phase = Exchanging | Lingering | Completed | Failed transport_error

record probe_state =
  ps_phase :: probe_phase
  ps_frame :: u64
  ps_checksum :: u64
  ps_frames_sent :: u64

text \<open>What \<open>tokio::time::timeout(wait, peer.receive_packet())\<close> gives after the deadline check.\<close>

datatype probe_event =
    DeadlinePassed
  | NothingReceived
  | ReceivePacket "transport_error + probe_packet"

type_synonym send_outcome = "transport_error + unit"

text \<open>\<open>send_probe_frame\<close>: a peer that is not there yet counts as a lost datagram.\<close>

definition send_probe_frame :: "send_outcome \<Rightarrow> transport_error + unit" where
  "send_probe_frame outcome =
     (if outcome = Err PeerUnavailable then Ok () else outcome)"

definition probe_packet_of :: "match_probe_config \<Rightarrow> input_frame \<Rightarrow> probe_packet" where
  "probe_packet_of c f = InputPacket (md_room_id (pc_descriptor c)) (pc_session_key c) f"

definition local_frame :: "match_probe_config \<Rightarrow> u64 \<Rightarrow> transport_error + input_frame" where
  "local_frame c n =
     deterministic_frame n (md_local_user_id (pc_descriptor c)) (md_role (pc_descriptor c))"

text \<open>Build a frame, send it and count it; the second component is what went on the wire.\<close>

definition transmit ::
    "match_probe_config \<Rightarrow> send_outcome \<Rightarrow> u64 \<Rightarrow> probe_state \<Rightarrow> probe_state \<times> probe_packet list" where
  "transmit c outcome n s =
     (case local_frame c n of
        Inl e \<Rightarrow> (s\<lparr>ps_phase := Failed e\<rparr>, [])
      | Inr f \<Rightarrow>
          (case send_probe_frame outcome of
             Inl e \<Rightarrow> (s\<lparr>ps_phase := Failed e\<rparr>, [])
           | Inr _ \<Rightarrow>
               (s\<lparr>ps_frames_sent := ps_frames_sent s + 1\<rparr>,
                if outcome = Ok () then [probe_packet_of c f] else [])))"

text \<open>The head of \<open>for frame_number in 0..frame_count\<close> and, after the last frame, of
  \<open>linger_for_peer\<close>.\<close>

definition begin_frame ::
    "match_probe_config \<Rightarrow> send_outcome \<Rightarrow> probe_state \<Rightarrow> probe_state \<times> probe_packet list" where
  "begin_frame c outcome s =
     (if ps_frame s < pc_frame_count c then transmit c outcome (ps_frame s) s
      else (case local_frame c (pc_frame_count c - 1) of
              Inl e \<Rightarrow> (s\<lparr>ps_phase := Failed e\<rparr>, [])
            | Inr _ \<Rightarrow> (s\<lparr>ps_phase := Lingering\<rparr>, [])))"

definition probe_start ::
    "match_probe_config \<Rightarrow> send_outcome \<Rightarrow> probe_state \<times> probe_packet list" where
  "probe_start c outcome =
     begin_frame c outcome
       \<lparr>ps_phase = Exchanging, ps_frame = 0, ps_checksum = FNV_OFFSET_BASIS, ps_frames_sent = 0\<rparr>"

text \<open>One iteration of the inner \<open>loop\<close> of \<open>run_match_probe_with\<close>.\<close>

definition exchange_step ::
    "match_probe_config \<Rightarrow> probe_event \<Rightarrow> send_outcome \<Rightarrow> probe_state \<Rightarrow> probe_state \<times> probe_packet list" where
  "exchange_step c ev outcome s =
     (case ev of
        DeadlinePassed \<Rightarrow> (s\<lparr>ps_phase := Failed (Timeout (ps_frame s) (pc_frame_count c))\<rparr>, [])
      | NothingReceived \<Rightarrow> transmit c outcome (ps_frame s) s
      | ReceivePacket (Inl e) \<Rightarrow>
          (if e = PeerUnavailable then transmit c outcome (ps_frame s) s
           else (s\<lparr>ps_phase := Failed e\<rparr>, []))
      | ReceivePacket (Inr packet) \<Rightarrow>
          (case validated_remote_frame packet c of
             Inl e \<Rightarrow> (s\<lparr>ps_phase := Failed e\<rparr>, [])
           | Inr None \<Rightarrow> (s, [])
           | Inr (Some remote) \<Rightarrow>
               (if if_frame remote < ps_frame s then transmit c outcome (if_frame remote) s
                else if if_frame remote > ps_frame s then transmit c outcome (ps_frame s) s
                else (case local_frame c (ps_frame s) of
                        Inl e \<Rightarrow> (s\<lparr>ps_phase := Failed e\<rparr>, [])
                      | Inr f \<Rightarrow>
                          begin_frame c outcome
                            (s\<lparr>ps_frame := ps_frame s + 1,
                               ps_checksum := update_transcript_checksum (ps_checksum s)
                                 (md_role (pc_descriptor c)) f remote\<rparr>)))))"

text \<open>One iteration of the loop of \<open>linger_for_peer\<close>.\<close>

definition linger_step ::
    "match_probe_config \<Rightarrow> probe_event \<Rightarrow> send_outcome \<Rightarrow> probe_state \<Rightarrow> probe_state \<times> probe_packet list" where
  "linger_step c ev outcome s =
     (let final_frame_number = pc_frame_count c - 1 in
      case ev of
        DeadlinePassed \<Rightarrow> (s\<lparr>ps_phase := Completed\<rparr>, [])
      | NothingReceived \<Rightarrow> transmit c outcome final_frame_number s
      | ReceivePacket (Inl e) \<Rightarrow>
          (if e = PeerUnavailable then transmit c outcome final_frame_number s
           else (s\<lparr>ps_phase := Failed e\<rparr>, []))
      | ReceivePacket (Inr packet) \<Rightarrow>
          (case validated_remote_frame packet c of
             Inl e \<Rightarrow> (s\<lparr>ps_phase := Failed e\<rparr>, [])
           | Inr None \<Rightarrow> (s, [])
           | Inr (Some remote) \<Rightarrow>
               transmit c outcome (min (if_frame remote) final_frame_number) s))"

definition probe_step ::
    "match_probe_config \<Rightarrow> probe_event \<Rightarrow> send_outcome \<Rightarrow> probe_state \<Rightarrow> probe_state \<times> probe_packet list" where
  "probe_step c ev outcome s =
     (case ps_phase s of
        Exchanging \<Rightarrow> exchange_step c ev outcome s
      | Lingering \<Rightarrow> linger_step c ev outcome s
      | _ \<Rightarrow> (s, []))"

record match_probe_report =
  mp_room_id :: string
  mp_local_user_id :: string
  mp_peer_user_id :: string
  mp_role :: peer_role
  mp_transport :: transport_kind
  mp_frames_sent :: u64
  mp_frames_received :: u64
  mp_transcript_checksum :: string
  mp_elapsed_ms :: nat
  mp_nat :: nat_mapping_state
  mp_candidate :: match_candidate_kind
  mp_punch_attempts :: u8

text \<open>The value of \<open>run_match_probe_with\<close> once the loop has ended.\<close>

definition probe_result ::
    "match_probe_config \<Rightarrow> nat \<Rightarrow> probe_state \<Rightarrow> (transport_error + match_probe_report) option" where
  "probe_result c elapsed_ms s =
     (case ps_phase s of
        Completed \<Rightarrow> Some (Ok
          \<lparr>mp_room_id = md_room_id (pc_descriptor c),
           mp_local_user_id = md_local_user_id (pc_descriptor c),
           mp_peer_user_id = md_peer_user_id (pc_descriptor c),
           mp_role = md_role (pc_descriptor c), mp_transport = md_transport (pc_descriptor c),
           mp_frames_sent = ps_frames_sent s, mp_frames_received = pc_frame_count c,
           mp_transcript_checksum = hex16 (ps_checksum s), mp_elapsed_ms = elapsed_ms,
           mp_nat = MappingUnknown, mp_candidate = CandidateHost, mp_punch_attempts = 0\<rparr>)
      | Failed e \<Rightarrow> Some (Err e)
      | _ \<Rightarrow> None)"

section \<open>What a frame carries\<close>

definition role_input :: "peer_role \<Rightarrow> nat \<Rightarrow> u8" where
  "role_input r n = (case r of Host \<Rightarrow> of_nat (n mod 4) | Guest \<Rightarrow> of_nat ((n + 2) mod 4))"

text \<open>The checksum of the first \<open>n\<close> rounds.\<close>

definition transcript :: "nat \<Rightarrow> u64" where
  "transcript n = foldl (\<lambda>c i. fnv_byte (fnv_byte c (role_input Host i)) (role_input Guest i))
     FNV_OFFSET_BASIS [0..<n]"

lemma transcript_0: "transcript 0 = FNV_OFFSET_BASIS"
  by (simp add: transcript_def)

lemma transcript_Suc:
  "transcript (Suc n) = fnv_byte (fnv_byte (transcript n) (role_input Host n)) (role_input Guest n)"
  by (simp add: transcript_def)

definition expected_frame :: "string \<Rightarrow> peer_role \<Rightarrow> u64 \<Rightarrow> input_frame" where
  "expected_frame player r n =
     \<lparr>if_frame = n, if_player_id = player, if_input = [role_input r (unat n)]\<rparr>"

lemma ucast_mod4: "(ucast (n mod 4) :: u8) = of_nat (unat n mod 4)" for n :: u64
  by (rule word_unat_eq_iff [THEN iffD2]) (simp add: unsigned_ucast_eq unat_mod unat_of_nat take_bit_eq_mod)

lemma deterministic_frame_expected:
  assumes "\<not> is_blank p" "unat n \<le> 10000"
  shows "deterministic_frame n p r = Ok (expected_frame p r n)"
proof -
  have "unat (n + 2) = unat n + 2"
    using assms(2) by (subst unat_add_lem [THEN iffD1]) simp_all
  then have "(ucast ((n + 2) mod 4) :: u8) = of_nat ((unat n + 2) mod 4)"
    by (simp add: ucast_mod4)
  then show ?thesis
    using assms(1)
    by (cases r) (simp_all add: deterministic_frame_def expected_frame_def role_input_def
        input_frame_new_def MAX_INPUT_BYTES_def ucast_mod4)
qed

lemma local_frame_expected:
  "wf_config c \<Longrightarrow> unat n \<le> 10000 \<Longrightarrow>
   local_frame c n = Ok (expected_frame (md_local_user_id (pc_descriptor c)) (md_role (pc_descriptor c)) n)"
  unfolding local_frame_def
  by (rule deterministic_frame_expected) (auto simp: wf_config_def descriptor_validate_ok)

lemma update_expected:
  "update_transcript_checksum (transcript (unat n)) Host (expected_frame p Host n) (expected_frame q Guest n)
     = transcript (Suc (unat n))"
  "update_transcript_checksum (transcript (unat n)) Guest (expected_frame p Guest n) (expected_frame q Host n)
     = transcript (Suc (unat n))"
  by (simp_all add: update_transcript_checksum_def expected_frame_def transcript_Suc)

text \<open>The same recurrence on integers, which the kernel evaluates quickly.\<close>

definition fnv_int :: "int \<Rightarrow> int \<Rightarrow> int" where
  "fnv_int c b = ((c XOR b) * 0x100000001b3) mod 0x10000000000000000"

lemma uint_fnv_byte: "uint (fnv_byte c b) = fnv_int (uint c) (uint b)"
proof -
  have "uint b < 18446744073709551616" using uint_bounded [of b] by simp
  then show ?thesis
    by (simp add: fnv_byte_def fnv_int_def FNV_PRIME_def uint_word_ariths uint_xor unsigned_ucast_eq
        take_bit_eq_mod)
qed

lemma uint_transcript:
  "uint (transcript n) = foldl (\<lambda>c i. fnv_int (fnv_int c (int (i mod 4))) (int ((i + 2) mod 4)))
     0xcbf29ce484222325 [0..<n]"
proof (induction n)
  case (Suc n)
  have "uint (role_input Host i) = int (i mod 4)" "uint (role_input Guest i) = int ((i + 2) mod 4)" for i
    by (simp_all add: role_input_def unsigned_of_nat take_bit_eq_mod)
  with Suc show ?case by (simp add: transcript_Suc uint_fnv_byte)
qed (simp add: transcript_0 FNV_OFFSET_BASIS_def)

lemma transcript_int_60:
  "foldl (\<lambda>c i. fnv_int (fnv_int c (int (i mod 4))) (int ((i + 2) mod 4)))
     0xcbf29ce484222325 [0..<60] = 0x80896395aaa3d09d"
  by code_simp

text \<open>The evidence checksum of the alpha contract: sixty rounds of the deterministic exchange
  give the transcript checksum 80896395aaa3d09d.\<close>

lemma transcript_of_sixty_rounds: "hex16 (transcript 60) = ''80896395aaa3d09d''"
proof -
  have "transcript 60 = word_of_int (uint (transcript 60))" by simp
  also have "\<dots> = 0x80896395aaa3d09d"
    unfolding uint_transcript transcript_int_60 by simp
  finally show ?thesis by (simp add: hex16_def digit_char_def upt_rec)
qed

end
