(* ===== verification/Probe_Network.thy ===== *)
theory Probe_Network
  imports Match_Probe Reachability
begin

text \<open>
  Two probe peers over an unreliable network: every packet ever sent may be delivered any
  number of times, in any order, or never; stray hole-punch packets may arrive at any time;
  sends and receives may fail.  The invariant ties each peer's checksum to the number of
  rounds it has completed.
\<close>

section \<open>The two-party system\<close>

record probe_net =
  host_state :: probe_state
  guest_state :: probe_state
  host_wire :: "probe_packet set"
  guest_wire :: "probe_packet set"

text \<open>What the environment may hand to a peer whose opposite has sent \<open>wire\<close>.\<close>

definition possible_event :: "probe_packet set \<Rightarrow> probe_event \<Rightarrow> bool" where
  "possible_event wire ev =
     (case ev of
        ReceivePacket (Inr (InputPacket r k f)) \<Rightarrow> InputPacket r k f \<in> wire
      | ReceivePacket (Inl e) \<Rightarrow> e \<noteq> PeerMismatch
      | _ \<Rightarrow> True)"

definition possible_outcome :: "send_outcome \<Rightarrow> bool" where
  "possible_outcome r \<longleftrightarrow> r \<noteq> Err PeerMismatch"

inductive net_step :: "match_probe_config \<Rightarrow> match_probe_config \<Rightarrow> probe_net \<Rightarrow> probe_net \<Rightarrow> bool"
  for hc gc :: match_probe_config where
  host_step: "possible_event (guest_wire s) ev \<Longrightarrow> possible_outcome r \<Longrightarrow>
     probe_step hc ev r (host_state s) = (h, out) \<Longrightarrow>
     net_step hc gc s (s\<lparr>host_state := h, host_wire := host_wire s \<union> set out\<rparr>)"
| guest_step: "possible_event (host_wire s) ev \<Longrightarrow> possible_outcome r \<Longrightarrow>
     probe_step gc ev r (guest_state s) = (g, out) \<Longrightarrow>
     net_step hc gc s (s\<lparr>guest_state := g, guest_wire := guest_wire s \<union> set out\<rparr>)"

definition net_init :: "match_probe_config \<Rightarrow> match_probe_config \<Rightarrow> probe_net \<Rightarrow> bool" where
  "net_init hc gc s \<longleftrightarrow>
     (\<exists>r q. possible_outcome r \<and> possible_outcome q
        \<and> (host_state s, host_wire s) = map_prod id set (probe_start hc r)
        \<and> (guest_state s, guest_wire s) = map_prod id set (probe_start gc q))"

text \<open>The two configurations of one match.\<close>

definition paired :: "match_probe_config \<Rightarrow> match_probe_config \<Rightarrow> bool" where
  "paired hc gc \<longleftrightarrow> wf_config hc \<and> wf_config gc
     \<and> md_role (pc_descriptor hc) = Host \<and> md_role (pc_descriptor gc) = Guest
     \<and> md_room_id (pc_descriptor hc) = md_room_id (pc_descriptor gc)
     \<and> pc_session_key hc = pc_session_key gc
     \<and> pc_frame_count hc = pc_frame_count gc
     \<and> md_local_user_id (pc_descriptor hc) = md_peer_user_id (pc_descriptor gc)
     \<and> md_peer_user_id (pc_descriptor hc) = md_local_user_id (pc_descriptor gc)"

section \<open>One side\<close>

text \<open>Rounds completed, and what a side with that progress may have put on the wire.\<close>

definition rounds :: "probe_state \<Rightarrow> nat" where
  "rounds s = unat (ps_frame s)"

definition own_packet :: "match_probe_config \<Rightarrow> nat \<Rightarrow> probe_packet" where
  "own_packet c k =
     probe_packet_of c (expected_frame (md_local_user_id (pc_descriptor c)) (md_role (pc_descriptor c)) (of_nat k))"

definition total :: "match_probe_config \<Rightarrow> nat" where
  "total c = unat (pc_frame_count c)"

definition wire_ok :: "match_probe_config \<Rightarrow> nat \<Rightarrow> probe_packet set \<Rightarrow> bool" where
  "wire_ok c n wire \<longleftrightarrow> (\<forall>p \<in> wire. \<exists>k. p = own_packet c k \<and> k \<le> n \<and> k < total c)"

definition side_ok :: "match_probe_config \<Rightarrow> probe_state \<Rightarrow> probe_packet set \<Rightarrow> bool" where
  "side_ok c s wire \<longleftrightarrow> ps_checksum s = transcript (rounds s) \<and> rounds s \<le> total c
     \<and> (ps_phase s = Exchanging \<longrightarrow> rounds s < total c)
     \<and> (ps_phase s \<in> {Lingering, Completed} \<longrightarrow> rounds s = total c)
     \<and> ps_phase s \<noteq> Failed PeerMismatch
     \<and> wire_ok c (rounds s) wire"

lemma total_bounds: "wf_config c \<Longrightarrow> 1 \<le> total c \<and> total c \<le> 10000"
  by (simp add: wf_config_def total_def)

lemma wire_ok_mono: "wire_ok c n w \<Longrightarrow> n \<le> m \<Longrightarrow> wire_ok c m w"
  unfolding wire_ok_def by (meson order_trans)

lemma wire_ok_Un [simp]: "wire_ok c n (v \<union> w) \<longleftrightarrow> wire_ok c n v \<and> wire_ok c n w"
  by (auto simp: wire_ok_def)

text \<open>What a transmission of frame \<open>k\<close> does.\<close>

lemma transmit_ok:
  assumes "wf_config c" "unat k < total c" "transmit c r k s = (s', out)" "possible_outcome r"
  shows "ps_frame s' = ps_frame s \<and> ps_checksum s' = ps_checksum s
    \<and> (ps_phase s' = ps_phase s \<or> (\<exists>e. ps_phase s' = Failed e \<and> e \<noteq> PeerMismatch))
    \<and> set out \<subseteq> {own_packet c (unat k)}"
proof -
  from assms have f: "local_frame c k = Ok (expected_frame (md_local_user_id (pc_descriptor c))
      (md_role (pc_descriptor c)) k)"
    by (intro local_frame_expected) (auto dest: total_bounds)
  show ?thesis
    using assms(3,4) f
    by (auto simp: transmit_def send_probe_frame_def own_packet_def possible_outcome_def
        split: sum.splits if_splits)
qed

lemma transmit_side_ok:
  assumes "wf_config c" "side_ok c s wire" "transmit c r k s = (s', out)" "possible_outcome r"
    and "unat k \<le> rounds s" "unat k < total c"
  shows "side_ok c s' (wire \<union> set out) \<and> rounds s' = rounds s"
  using transmit_ok [OF assms(1,6,3,4)] assms(2,5,6)
  by (auto simp: side_ok_def rounds_def wire_ok_def)

lemma begin_frame_side_ok:
  assumes "wf_config c" "begin_frame c r s = (s', out)" "possible_outcome r"
    and "ps_phase s = Exchanging" "ps_checksum s = transcript (rounds s)" "rounds s \<le> total c"
    and "wire_ok c (rounds s) wire"
  shows "side_ok c s' (wire \<union> set out) \<and> rounds s' = rounds s"
proof (cases "rounds s < total c")
  case True
  then have "side_ok c s wire" using assms by (simp add: side_ok_def)
  with True assms show ?thesis
    by (intro transmit_side_ok [of c s wire r "ps_frame s"])
       (simp_all add: begin_frame_def rounds_def total_def word_less_nat_alt)
next
  case False
  have "unat (pc_frame_count c - 1) \<le> 10000"
    using total_bounds [OF assms(1)] by (auto simp: total_def unat_sub word_le_nat_alt)
  with False assms local_frame_expected [OF assms(1) this] show ?thesis
    by (auto simp: begin_frame_def side_ok_def rounds_def total_def word_less_nat_alt)
qed

lemma probe_start_side_ok:
  assumes "wf_config c" "probe_start c r = (s, out)" "possible_outcome r"
  shows "side_ok c s (set out) \<and> rounds s = 0"
  using begin_frame_side_ok [OF assms(1) assms(2) [unfolded probe_start_def] assms(3), of "{}"]
  by (simp add: rounds_def transcript_0 wire_ok_def)

text \<open>What validation lets through from an honest opposite.\<close>

definition opposite :: "match_probe_config \<Rightarrow> match_probe_config \<Rightarrow> bool" where
  "opposite c d \<longleftrightarrow> paired c d \<or> paired d c"

lemma validated_honest:
  assumes "opposite c d"
  shows "validated_remote_frame (own_packet d k) c =
    Ok (Some (expected_frame (md_peer_user_id (pc_descriptor c)) (md_role (pc_descriptor d)) (of_nat k)))"
  using assms
  by (auto simp: opposite_def paired_def own_packet_def probe_packet_of_def validated_remote_frame_def
      expected_frame_def MAX_INPUT_BYTES_def)

lemma update_matches:
  assumes "opposite c d"
  shows "update_transcript_checksum (transcript (unat n)) (md_role (pc_descriptor c))
     (expected_frame p (md_role (pc_descriptor c)) n) (expected_frame q (md_role (pc_descriptor d)) n)
   = transcript (Suc (unat n))"
  using assms by (auto simp: opposite_def paired_def update_expected)

lemma opposite_simps:
  "opposite c d \<Longrightarrow> wf_config c" "opposite c d \<Longrightarrow> wf_config d" "opposite c d \<Longrightarrow> total c = total d"
  by (auto simp: opposite_def paired_def total_def)

lemma unat_of_nat_u64: "k \<le> 10000 \<Longrightarrow> unat (of_nat k :: u64) = k"
  by (simp add: unat_of_nat)

lemma unat_Suc_u64: "unat (n :: u64) < 10000 \<Longrightarrow> unat (n + 1) = Suc (unat n)"
  by (subst unat_add_lem [THEN iffD1]) simp_all

text \<open>A packet of the honest opposite in the exchange phase.\<close>

lemma exchange_receive_ok:
  assumes opp: "opposite c d" and s: "side_ok c s wire" "ps_phase s = Exchanging"
    and k: "k < total d" and r: "possible_outcome r"
    and step: "exchange_step c (ReceivePacket (Inr (own_packet d k))) r s = (s', out)"
  shows "side_ok c s' (wire \<union> set out)
    \<and> (rounds s' = rounds s \<or> (rounds s' = Suc (rounds s) \<and> k = rounds s))"
proof -
  have c: "wf_config c" and t: "total d = total c" using opp opposite_simps by auto
  have bound: "total c \<le> 10000" and n: "rounds s < total c"
    using total_bounds [OF c] s by (auto simp: side_ok_def)
  have kk: "unat (of_nat k :: u64) = k" using k t bound by (simp add: unat_of_nat_u64)
  consider (old) "k < rounds s" | (new) "k > rounds s" | (match) "k = rounds s" by linarith
  then show ?thesis
  proof cases
    case old
    with step validated_honest [OF opp] have "transmit c r (of_nat k) s = (s', out)"
      by (simp add: exchange_step_def expected_frame_def word_less_nat_alt kk rounds_def)
    from transmit_side_ok [OF c s(1) this r] old k t show ?thesis by (simp add: kk)
  next
    case new
    with step validated_honest [OF opp] have "transmit c r (ps_frame s) s = (s', out)"
      by (simp add: exchange_step_def expected_frame_def word_less_nat_alt kk rounds_def)
    from transmit_side_ok [OF c s(1) this r] n show ?thesis by (simp add: rounds_def)
  next
    case match
    let ?f = "expected_frame (md_local_user_id (pc_descriptor c)) (md_role (pc_descriptor c)) (ps_frame s)"
    let ?g = "expected_frame (md_peer_user_id (pc_descriptor c)) (md_role (pc_descriptor d)) (ps_frame s)"
    let ?s = "s\<lparr>ps_frame := ps_frame s + 1, ps_checksum := transcript (Suc (rounds s))\<rparr>"
    have k': "of_nat k = ps_frame s" using match by (simp add: rounds_def)
    have f: "local_frame c (ps_frame s) = Ok ?f"
      using n bound by (intro local_frame_expected c) (simp add: rounds_def)
    have u: "update_transcript_checksum (ps_checksum s) (md_role (pc_descriptor c)) ?f ?g
        = transcript (Suc (rounds s))"
      using update_matches [OF opp] s(1) by (simp add: side_ok_def rounds_def)
    have "begin_frame c r ?s = (s', out)"
      using step validated_honest [OF opp, of k] u f
      by (simp add: exchange_step_def k') (simp add: expected_frame_def)
    moreover have "rounds ?s = Suc (rounds s)"
      using n bound by (simp add: rounds_def unat_Suc_u64)
    ultimately have "side_ok c s' (wire \<union> set out) \<and> rounds s' = rounds ?s"
      using n s r by (intro begin_frame_side_ok [OF c]) (auto simp: side_ok_def intro: wire_ok_mono)
    with \<open>rounds ?s = _\<close> match show ?thesis by simp
  qed
qed

lemma fail_side_ok:
  "side_ok c s wire \<Longrightarrow> e \<noteq> PeerMismatch \<Longrightarrow> side_ok c (s\<lparr>ps_phase := Failed e\<rparr>) wire"
  by (simp add: side_ok_def rounds_def)

lemma final_frame:
  assumes "wf_config c"
  shows "unat (pc_frame_count c - 1) = total c - 1" "total c - 1 < total c"
  using total_bounds [OF assms] by (auto simp: total_def unat_sub word_le_nat_alt)

text \<open>Every step of one side against an honest opposite whose progress is at most \<open>m\<close>.\<close>

lemma side_step:
  assumes opp: "opposite c d" and s: "side_ok c s wire" and other: "wire_ok d m w"
    and ev: "possible_event w ev" and r: "possible_outcome r"
    and step: "probe_step c ev r s = (s', out)"
  shows "side_ok c s' (wire \<union> set out)
    \<and> (rounds s' = rounds s \<or> (rounds s' = Suc (rounds s) \<and> rounds s \<le> m))"
proof -
  have c: "wf_config c" and t: "total d = total c" using opp opposite_simps by auto
  note fin = final_frame [OF c]
  have honest: "\<exists>k. InputPacket rm ky f = own_packet d k \<and> k \<le> m \<and> k < total d"
    if "ev = ReceivePacket (Inr (InputPacket rm ky f))" for rm ky f
    using ev other that by (auto simp: possible_event_def wire_ok_def)
  consider (ex) "ps_phase s = Exchanging" | (li) "ps_phase s = Lingering"
    | (stop) "ps_phase s = Completed \<or> (\<exists>e. ps_phase s = Failed e)"
    by (cases "ps_phase s") auto
  then show ?thesis
  proof cases
    case stop
    with step s show ?thesis by (auto simp: probe_step_def)
  next
    case ex
    with step have x: "exchange_step c ev r s = (s', out)" by (simp add: probe_step_def)
    have n: "rounds s < total c" using s ex by (simp add: side_ok_def)
    have again: "transmit c r (ps_frame s) s = (s', out) \<Longrightarrow> ?thesis"
      using transmit_side_ok [OF c s _ r, of "ps_frame s"] n by (simp add: rounds_def)
    show ?thesis
    proof (cases ev)
      case DeadlinePassed
      with x fail_side_ok [OF s] show ?thesis by (auto simp: exchange_step_def rounds_def)
    next
      case NothingReceived
      with x again show ?thesis by (simp add: exchange_step_def)
    next
      case (ReceivePacket p)
      show ?thesis
      proof (cases p)
        case (Inl e)
        have "e \<noteq> PeerMismatch" using ev ReceivePacket Inl by (simp add: possible_event_def)
        with x again fail_side_ok [OF s] ReceivePacket Inl show ?thesis
          by (auto simp: exchange_step_def rounds_def split: if_splits)
      next
        case (Inr q)
        show ?thesis
        proof (cases q)
          case (InputPacket rm ky f)
          with honest ReceivePacket Inr obtain k where k: "q = own_packet d k" "k \<le> m" "k < total d"
            by blast
          with exchange_receive_ok [OF opp s ex k(3) r] x ReceivePacket Inr show ?thesis by auto
        next
          case (HolePunchPacket v rm ky)
          with x s ReceivePacket Inr show ?thesis
            by (simp add: exchange_step_def validated_remote_frame_def)
        qed
      qed
    qed
  next
    case li
    with step have x: "linger_step c ev r s = (s', out)" by (simp add: probe_step_def)
    have n: "rounds s = total c" using s li by (simp add: side_ok_def)
    have again: "transmit c r k s = (s', out) \<Longrightarrow> unat k < total c \<Longrightarrow> ?thesis" for k
      using transmit_side_ok [OF c s _ r, of k] n by simp
    show ?thesis
    proof (cases ev)
      case DeadlinePassed
      with x s n show ?thesis by (auto simp: linger_step_def side_ok_def rounds_def)
    next
      case NothingReceived
      with x again fin show ?thesis by (simp add: linger_step_def)
    next
      case (ReceivePacket p)
      show ?thesis
      proof (cases p)
        case (Inl e)
        have "e \<noteq> PeerMismatch" using ev ReceivePacket Inl by (simp add: possible_event_def)
        with x again fin fail_side_ok [OF s] ReceivePacket Inl show ?thesis
          by (auto simp: linger_step_def rounds_def split: if_splits)
      next
        case (Inr q)
        show ?thesis
        proof (cases q)
          case (InputPacket rm ky f)
          with honest ReceivePacket Inr obtain k where k: "q = own_packet d k" "k < total d"
            by blast
          have "unat (min (of_nat k) (pc_frame_count c - 1)) < total c"
            using fin by (simp add: min_def word_le_nat_alt)
          with again x ReceivePacket Inr k validated_honest [OF opp, of k] show ?thesis
            by (simp add: linger_step_def expected_frame_def)
        next
          case (HolePunchPacket v rm ky)
          with x s ReceivePacket Inr show ?thesis
            by (simp add: linger_step_def validated_remote_frame_def)
        qed
      qed
    qed
  qed
qed

section \<open>Both sides\<close>

definition net_inv :: "match_probe_config \<Rightarrow> match_probe_config \<Rightarrow> probe_net \<Rightarrow> bool" where
  "net_inv hc gc s \<longleftrightarrow> paired hc gc
     \<and> side_ok hc (host_state s) (host_wire s) \<and> side_ok gc (guest_state s) (guest_wire s)
     \<and> rounds (host_state s) \<le> Suc (rounds (guest_state s))
     \<and> rounds (guest_state s) \<le> Suc (rounds (host_state s))"

lemma net_inv_init:
  assumes "paired hc gc" "net_init hc gc s"
  shows "net_inv hc gc s"
proof -
  from assms(2) obtain r q h hw g gw where
    "possible_outcome r" "possible_outcome q" "probe_start hc r = (h, hw)" "probe_start gc q = (g, gw)"
    "host_state s = h" "host_wire s = set hw" "guest_state s = g" "guest_wire s = set gw"
    unfolding net_init_def by (metis map_prod_simp id_apply prod.inject surj_pair)
  moreover have "wf_config hc" "wf_config gc" using assms(1) by (auto simp: paired_def)
  ultimately show ?thesis
    using probe_start_side_ok [of hc r h hw] probe_start_side_ok [of gc q g gw] assms(1)
    by (simp add: net_inv_def)
qed

lemma net_inv_step:
  assumes "net_inv hc gc s" "net_step hc gc s s'"
  shows "net_inv hc gc s'"
  using assms(2)
proof cases
  case (host_step ev r h out)
  from assms(1) have "opposite hc gc" "side_ok hc (host_state s) (host_wire s)"
    "wire_ok gc (rounds (guest_state s)) (guest_wire s)"
    by (auto simp: net_inv_def opposite_def side_ok_def)
  from side_step [OF this host_step(2,3,4)] assms(1) host_step(1) show ?thesis
    by (auto simp: net_inv_def)
next
  case (guest_step ev r g out)
  from assms(1) have "opposite gc hc" "side_ok gc (guest_state s) (guest_wire s)"
    "wire_ok hc (rounds (host_state s)) (host_wire s)"
    by (auto simp: net_inv_def opposite_def side_ok_def)
  from side_step [OF this guest_step(2,3,4)] assms(1) guest_step(1) show ?thesis
    by (auto simp: net_inv_def)
qed

interpretation probe_pair: invariant_system
  "\<lambda>s. paired hc gc \<and> net_init hc gc s" "net_step hc gc" "net_inv hc gc" for hc gc
  by unfold_locales (auto intro: net_inv_init net_inv_step)

definition probe_reachable :: "match_probe_config \<Rightarrow> match_probe_config \<Rightarrow> probe_net \<Rightarrow> bool" where
  "probe_reachable hc gc s \<longleftrightarrow> reachable (\<lambda>s. paired hc gc \<and> net_init hc gc s) (net_step hc gc) s"

lemma probe_reachable_inv: "probe_reachable hc gc s \<Longrightarrow> net_inv hc gc s"
  unfolding probe_reachable_def by (rule probe_pair.reachable_inv)

end
