(* ===== verification/Probe_Liveness.thy ===== *)
theory Probe_Liveness
  imports Probe_Network
begin

text \<open>
  The two guarantees of the probe.  Agreement: two completed peers report the same transcript.
  Liveness: as long as neither peer has failed or given up waiting, delivering the retransmissions of
  the code brings both to completion.  This is where the answers to older frames matter.
\<close>

definition active :: "probe_state \<Rightarrow> bool" where
  "active s \<longleftrightarrow> ps_phase s = Exchanging \<or> ps_phase s = Lingering"

definition swap_net :: "probe_net \<Rightarrow> probe_net" where
  "swap_net s = \<lparr>host_state = guest_state s, guest_state = host_state s,
                host_wire = guest_wire s, guest_wire = host_wire s\<rparr>"

lemma swap_net_simps [simp]:
  "host_state (swap_net s) = guest_state s" "guest_state (swap_net s) = host_state s"
  "host_wire (swap_net s) = guest_wire s" "guest_wire (swap_net s) = host_wire s"
  "swap_net (swap_net s) = s"
  by (simp_all add: swap_net_def)

lemma swap_step: "net_step hc gc s s' \<Longrightarrow> net_step gc hc (swap_net s) (swap_net s')"
proof (induction rule: net_step.induct)
  case (host_step s ev r h out)
  from net_step.guest_step [of "swap_net s" ev r hc h out gc] host_step
  show ?case by (simp add: swap_net_def)
next
  case (guest_step s ev r g out)
  from net_step.host_step [of "swap_net s" ev r gc g out hc] guest_step
  show ?case by (simp add: swap_net_def)
qed

lemma swap_steps: "(net_step hc gc)\<^sup>*\<^sup>* s s' \<Longrightarrow> (net_step gc hc)\<^sup>*\<^sup>* (swap_net s) (swap_net s')"
  by (induction rule: rtranclp_induct) (auto intro: swap_step rtranclp.rtrancl_into_rtrancl)

section \<open>Single successful steps\<close>

lemma sent_count_simps [simp]:
  "rounds (s\<lparr>ps_frames_sent := v\<rparr>) = rounds s"
  "active (s\<lparr>ps_frames_sent := v\<rparr>) = active s"
  "side_ok c (s\<lparr>ps_frames_sent := v\<rparr>) w = side_ok c s w"
  by (simp_all add: rounds_def active_def side_ok_def)

lemma transmit_success:
  assumes "wf_config c" "unat k < total c"
  shows "transmit c (Ok ()) k s = (s\<lparr>ps_frames_sent := ps_frames_sent s + 1\<rparr>, [own_packet c (unat k)])"
proof -
  have "local_frame c k = Ok (expected_frame (md_local_user_id (pc_descriptor c))
      (md_role (pc_descriptor c)) k)"
    using assms by (intro local_frame_expected) (auto dest: total_bounds)
  then show ?thesis by (simp add: transmit_def send_probe_frame_def own_packet_def)
qed

text \<open>An active side whose frame is outstanding repeats it when nothing arrives.\<close>

lemma repeat_frame:
  assumes "wf_config c" "side_ok c s wire" "ps_phase s = Exchanging"
  shows "probe_step c NothingReceived (Ok ()) s =
     (s\<lparr>ps_frames_sent := ps_frames_sent s + 1\<rparr>, [own_packet c (rounds s)])"
  using assms transmit_success [OF assms(1), of "ps_frame s" s]
  by (simp add: probe_step_def exchange_step_def side_ok_def rounds_def)

text \<open>An active side that is one round ahead answers the old frame with its own.\<close>

lemma answer_old_frame:
  assumes opp: "opposite c d" and s: "side_ok c s wire" "active s" and k: "rounds s = Suc k"
  shows "probe_step c (ReceivePacket (Inr (own_packet d k))) (Ok ()) s =
     (s\<lparr>ps_frames_sent := ps_frames_sent s + 1\<rparr>, [own_packet c k])"
proof -
  have c: "wf_config c" using opp opposite_simps by auto
  have kt: "k < total c" and tb: "total c \<le> 10000"
    using s k total_bounds [OF c] by (auto simp: side_ok_def)
  then have kk: "unat (of_nat k :: u64) = k" by (simp add: unat_of_nat_u64)
  note tx = transmit_success [OF c, of "of_nat k" s]
  show ?thesis
  proof (cases "ps_phase s = Exchanging")
    case True
    with kk k kt tx validated_honest [OF opp, of k] show ?thesis
      by (simp add: probe_step_def exchange_step_def expected_frame_def word_less_nat_alt rounds_def)
  next
    case False
    with s have li: "ps_phase s = Lingering" by (simp add: active_def)
    then have "total c = Suc k" using s k by (simp add: side_ok_def)
    then have "pc_frame_count c - 1 = of_nat k"
      using final_frame [OF c] kk by (simp add: word_unat_eq_iff)
    with li kk kt tx validated_honest [OF opp, of k] show ?thesis
      by (simp add: probe_step_def linger_step_def expected_frame_def)
  qed
qed

lemma complete_round:
  assumes opp: "opposite c d" and s: "side_ok c s wire" "ps_phase s = Exchanging"
    and step: "probe_step c (ReceivePacket (Inr (own_packet d (rounds s)))) (Ok ()) s = (s', out)"
  shows "active s' \<and> rounds s' = Suc (rounds s)
    \<and> (Suc (rounds s) < total c \<longrightarrow> set out = {own_packet c (Suc (rounds s))})"
proof -
  have c: "wf_config c" using opp opposite_simps by auto
  have n: "rounds s < total c" and tb: "total c \<le> 10000"
    using s total_bounds [OF c] by (auto simp: side_ok_def)
  let ?f = "expected_frame (md_local_user_id (pc_descriptor c)) (md_role (pc_descriptor c)) (ps_frame s)"
  let ?s = "s\<lparr>ps_frame := ps_frame s + 1, ps_checksum := update_transcript_checksum (ps_checksum s)
      (md_role (pc_descriptor c)) ?f
      (expected_frame (md_peer_user_id (pc_descriptor c)) (md_role (pc_descriptor d)) (ps_frame s))\<rparr>"
  have f: "local_frame c (ps_frame s) = Ok ?f"
    using n tb by (intro local_frame_expected c) (simp add: rounds_def)
  have fin: "local_frame c (pc_frame_count c - 1) \<noteq> Err e" for e
    using tb final_frame [OF c] by (subst local_frame_expected [OF c]) auto
  have "begin_frame c (Ok ()) ?s = (s', out)"
    using step s validated_honest [OF opp, of "rounds s"] f
    by (simp add: probe_step_def exchange_step_def rounds_def) (simp add: expected_frame_def)
  moreover have "rounds ?s = Suc (rounds s)"
    using n tb by (simp add: rounds_def unat_Suc_u64)
  ultimately show ?thesis
    using s(2) fin transmit_success [OF c, of "ps_frame s + 1" ?s] n tb
    by (auto simp: begin_frame_def active_def rounds_def total_def word_less_nat_alt unat_Suc_u64
        split: sum.splits if_splits)
qed

section \<open>The side that is behind catches up\<close>

lemma host_catches_up:
  assumes opp: "opposite hc gc"
    and h: "side_ok hc (host_state s) (host_wire s)" and g: "side_ok gc (guest_state s) (guest_wire s)"
    and act: "ps_phase (host_state s) = Exchanging" "active (guest_state s)"
    and lag: "rounds (guest_state s) = rounds (host_state s) \<or> rounds (guest_state s) = Suc (rounds (host_state s))"
  shows "\<exists>s'. (net_step hc gc)\<^sup>*\<^sup>* s s' \<and> active (host_state s') \<and> active (guest_state s')
    \<and> rounds (host_state s') = Suc (rounds (host_state s)) \<and> rounds (guest_state s') = rounds (guest_state s)"
proof -
  define n where "n = rounds (host_state s)"
  have hc: "wf_config hc" and gc: "wf_config gc" and opp': "opposite gc hc" and t: "total gc = total hc"
    using opp by (auto simp: opposite_def paired_def total_def)
  have n: "n < total hc" using h act by (simp add: side_ok_def n_def)
  text \<open>First the frame the host waits for is put on the wire.\<close>
  have "\<exists>s1. (net_step hc gc)\<^sup>*\<^sup>* s s1 \<and> own_packet gc n \<in> guest_wire s1
      \<and> side_ok hc (host_state s1) (host_wire s1) \<and> ps_phase (host_state s1) = Exchanging
      \<and> rounds (host_state s1) = n \<and> active (guest_state s1)
      \<and> rounds (guest_state s1) = rounds (guest_state s)"
    using lag
  proof
    assume eq: "rounds (guest_state s) = rounds (host_state s)"
    then have ex: "ps_phase (guest_state s) = Exchanging"
      using g act(2) n t by (auto simp: side_ok_def active_def n_def)
    let ?b = "s\<lparr>guest_state := (guest_state s)\<lparr>ps_frames_sent := ps_frames_sent (guest_state s) + 1\<rparr>,
        guest_wire := guest_wire s \<union> set [own_packet gc n]\<rparr>"
    have "net_step hc gc s ?b"
      using net_step.guest_step [of s NothingReceived "Ok ()" gc _ _ hc, OF _ _ repeat_frame [OF gc g ex]]
      by (simp add: possible_event_def possible_outcome_def n_def eq)
    with h act n_def show ?thesis
      by (intro exI [of _ ?b]) auto
  next
    assume ahead: "rounds (guest_state s) = Suc (rounds (host_state s))"
    let ?h = "(host_state s)\<lparr>ps_frames_sent := ps_frames_sent (host_state s) + 1\<rparr>"
    let ?a = "s\<lparr>host_state := ?h, host_wire := host_wire s \<union> set [own_packet hc n]\<rparr>"
    have a: "net_step hc gc s ?a"
      using net_step.host_step [of s NothingReceived "Ok ()" hc _ _ gc, OF _ _ repeat_frame [OF hc h act(1)]]
      by (simp add: possible_event_def possible_outcome_def n_def)
    have ha: "side_ok hc (host_state ?a) (host_wire ?a)"
      using h n by (auto simp: side_ok_def rounds_def wire_ok_def n_def)
    have pe: "possible_event (host_wire ?a) (ReceivePacket (Inr (own_packet hc n)))"
      by (simp add: possible_event_def own_packet_def probe_packet_of_def)
    have "probe_step gc (ReceivePacket (Inr (own_packet hc n))) (Ok ()) (guest_state ?a) =
       ((guest_state s)\<lparr>ps_frames_sent := ps_frames_sent (guest_state s) + 1\<rparr>, [own_packet gc n])"
      using answer_old_frame [OF opp' g act(2) ahead] by (simp add: n_def)
    from net_step.guest_step [of ?a _ "Ok ()" gc _ _ hc, OF pe _ this]
    have "net_step hc gc ?a (?a\<lparr>guest_state := (guest_state s)\<lparr>ps_frames_sent := ps_frames_sent (guest_state s) + 1\<rparr>,
        guest_wire := guest_wire ?a \<union> set [own_packet gc n]\<rparr>)"
      by (simp add: possible_outcome_def)
    with a have "(net_step hc gc)\<^sup>*\<^sup>* s (?a\<lparr>guest_state := (guest_state s)\<lparr>ps_frames_sent := ps_frames_sent (guest_state s) + 1\<rparr>,
        guest_wire := guest_wire ?a \<union> set [own_packet gc n]\<rparr>)"
      by (meson converse_rtranclp_into_rtranclp r_into_rtranclp)
    with ha act n_def show ?thesis
      by (intro exI conjI) (assumption, auto)
  qed
  then obtain s1 where s1: "(net_step hc gc)\<^sup>*\<^sup>* s s1" "own_packet gc n \<in> guest_wire s1"
    "side_ok hc (host_state s1) (host_wire s1)" "ps_phase (host_state s1) = Exchanging"
    "rounds (host_state s1) = n" "active (guest_state s1)"
    "rounds (guest_state s1) = rounds (guest_state s)" by blast
  obtain h' out where st: "probe_step hc (ReceivePacket (Inr (own_packet gc n))) (Ok ()) (host_state s1) = (h', out)"
    by fastforce
  have pe: "possible_event (guest_wire s1) (ReceivePacket (Inr (own_packet gc n)))"
    using s1(2) by (simp add: possible_event_def own_packet_def probe_packet_of_def)
  from net_step.host_step [OF pe _ st] s1(1)
  have "(net_step hc gc)\<^sup>*\<^sup>* s (s1\<lparr>host_state := h', host_wire := host_wire s1 \<union> set out\<rparr>)"
    by (auto simp: possible_outcome_def intro: rtranclp.rtrancl_into_rtrancl)
  moreover have "active h' \<and> rounds h' = Suc n"
    using complete_round [OF opp s1(3,4)] st s1(5) by simp
  ultimately show ?thesis
    using s1 by (intro exI conjI) (assumption, auto simp: n_def)
qed

lemma one_catches_up:
  assumes inv: "net_inv hc gc s" and act: "active (host_state s)" "active (guest_state s)"
    and unfinished: "rounds (host_state s) < total hc \<or> rounds (guest_state s) < total hc"
  shows "\<exists>s'. (net_step hc gc)\<^sup>*\<^sup>* s s' \<and> active (host_state s') \<and> active (guest_state s')
    \<and> rounds (host_state s') + rounds (guest_state s') = Suc (rounds (host_state s) + rounds (guest_state s))"
proof -
  from inv have opp: "opposite hc gc" "opposite gc hc" and t: "total gc = total hc"
    and h: "side_ok hc (host_state s) (host_wire s)" and g: "side_ok gc (guest_state s) (guest_wire s)"
    and near: "rounds (host_state s) \<le> Suc (rounds (guest_state s))"
      "rounds (guest_state s) \<le> Suc (rounds (host_state s))"
    by (auto simp: net_inv_def opposite_def paired_def total_def)
  show ?thesis
  proof (cases "rounds (host_state s) \<le> rounds (guest_state s)")
    case True
    then have "ps_phase (host_state s) = Exchanging"
      using h g act unfinished t by (auto simp: active_def side_ok_def)
    from host_catches_up [OF opp(1) h g this act(2)] True near show ?thesis by fastforce
  next
    case False
    then have "ps_phase (guest_state s) = Exchanging"
      using h g act unfinished t by (auto simp: active_def side_ok_def)
    from host_catches_up [of gc hc "swap_net s"] opp h g this act False near
    obtain s' where s': "(net_step gc hc)\<^sup>*\<^sup>* (swap_net s) s'" "active (host_state s')" "active (guest_state s')"
      "rounds (host_state s') = Suc (rounds (guest_state s))" "rounds (guest_state s') = rounds (host_state s)"
      by auto
    from swap_steps [OF s'(1)] have "(net_step hc gc)\<^sup>*\<^sup>* s (swap_net s')" by simp
    with s' show ?thesis by (intro exI [of _ "swap_net s'"]) simp
  qed
qed

lemma both_reach_the_end:
  assumes "net_inv hc gc s" "active (host_state s)" "active (guest_state s)"
  shows "\<exists>s'. (net_step hc gc)\<^sup>*\<^sup>* s s' \<and> ps_phase (host_state s') = Lingering
    \<and> ps_phase (guest_state s') = Lingering"
  using assms
proof (induction "2 * total hc - (rounds (host_state s) + rounds (guest_state s))"
    arbitrary: s rule: less_induct)
  case less
  from less.prems have le: "rounds (host_state s) \<le> total hc" "rounds (guest_state s) \<le> total hc"
    by (auto simp: net_inv_def side_ok_def paired_def total_def)
  show ?case
  proof (cases "rounds (host_state s) < total hc \<or> rounds (guest_state s) < total hc")
    case True
    from one_catches_up [OF less.prems True] obtain s1 where s1: "(net_step hc gc)\<^sup>*\<^sup>* s s1"
      "active (host_state s1)" "active (guest_state s1)"
      "rounds (host_state s1) + rounds (guest_state s1) = Suc (rounds (host_state s) + rounds (guest_state s))"
      by blast
    have "net_inv hc gc s1" using probe_pair.steps_inv less.prems(1) s1(1) by blast
    moreover have "2 * total hc - (rounds (host_state s1) + rounds (guest_state s1))
        < 2 * total hc - (rounds (host_state s) + rounds (guest_state s))"
      using s1(4) le True by linarith
    ultimately obtain s2 where "(net_step hc gc)\<^sup>*\<^sup>* s1 s2" "ps_phase (host_state s2) = Lingering"
      "ps_phase (guest_state s2) = Lingering"
      using less.hyps s1(2,3) by blast
    with s1(1) show ?thesis by (meson rtranclp_trans)
  next
    case False
    moreover have "total gc = total hc" "side_ok hc (host_state s) (host_wire s)"
      "side_ok gc (guest_state s) (guest_wire s)"
      using less.prems(1) by (simp_all add: net_inv_def paired_def total_def)
    ultimately have "ps_phase (host_state s) \<noteq> Exchanging" "ps_phase (guest_state s) \<noteq> Exchanging"
      by (simp_all add: side_ok_def)
    with less.prems(2,3) have "ps_phase (host_state s) = Lingering" "ps_phase (guest_state s) = Lingering"
      by (simp_all add: active_def)
    then show ?thesis by blast
  qed
qed

lemma both_complete:
  assumes "probe_reachable hc gc s" "active (host_state s)" "active (guest_state s)"
  shows "\<exists>s' hr gr. (net_step hc gc)\<^sup>*\<^sup>* s s'
    \<and> probe_result hc t (host_state s') = Some (Ok hr) \<and> probe_result gc u (guest_state s') = Some (Ok gr)"
proof -
  from both_reach_the_end [OF probe_reachable_inv [OF assms(1)] assms(2,3)]
  obtain s1 where s1: "(net_step hc gc)\<^sup>*\<^sup>* s s1" "ps_phase (host_state s1) = Lingering"
    "ps_phase (guest_state s1) = Lingering" by blast
  let ?h = "(host_state s1)\<lparr>ps_phase := Completed\<rparr>" and ?g = "(guest_state s1)\<lparr>ps_phase := Completed\<rparr>"
  let ?a = "s1\<lparr>host_state := ?h\<rparr>"
  have "net_step hc gc s1 (s1\<lparr>host_state := ?h, host_wire := host_wire s1 \<union> set []\<rparr>)"
    by (rule net_step.host_step [where ev = DeadlinePassed and r = "Ok ()"])
       (simp_all add: possible_event_def possible_outcome_def probe_step_def linger_step_def s1)
  moreover have "net_step hc gc ?a (?a\<lparr>guest_state := ?g, guest_wire := guest_wire ?a \<union> set []\<rparr>)"
    by (rule net_step.guest_step [where ev = DeadlinePassed and r = "Ok ()"])
       (simp_all add: possible_event_def possible_outcome_def probe_step_def linger_step_def s1)
  ultimately have "(net_step hc gc)\<^sup>*\<^sup>* s (s1\<lparr>host_state := ?h, guest_state := ?g\<rparr>)"
    using s1(1) by (simp add: rtranclp.rtrancl_into_rtrancl)
  then show ?thesis by (intro exI conjI) (assumption, auto simp: probe_result_def)
qed

section \<open>The properties of the probe\<close>

text \<open>C1 Transcript agreement over a lossy, duplicating, reordering network: whenever both
  peers of a match have a result and it is a report, the two reports carry the same checksum,
  namely that of exactly \<open>frame_count\<close> rounds, and report the same number of frames; neither
  peer ever rejects the other as a mismatch, and at every moment the two loops are at most one
  frame apart.\<close>

theorem probe_transcripts_agree:
  assumes "probe_reachable hc gc s"
  shows "(case (probe_result hc t (host_state s), probe_result gc u (guest_state s)) of
            (Some (Inr hr), Some (Inr gr)) \<Rightarrow>
              mp_transcript_checksum hr = mp_transcript_checksum gr
              \<and> mp_transcript_checksum hr = hex16 (transcript (unat (pc_frame_count hc)))
              \<and> mp_frames_received hr = pc_frame_count hc \<and> mp_frames_received gr = pc_frame_count hc
          | _ \<Rightarrow> True)
    \<and> probe_result hc t (host_state s) \<noteq> Some (Err PeerMismatch)
    \<and> probe_result gc u (guest_state s) \<noteq> Some (Err PeerMismatch)
    \<and> unat (ps_frame (host_state s)) \<le> Suc (unat (ps_frame (guest_state s)))
    \<and> unat (ps_frame (guest_state s)) \<le> Suc (unat (ps_frame (host_state s)))"
  using probe_reachable_inv [OF assms]
  by (auto simp: net_inv_def side_ok_def rounds_def total_def paired_def probe_result_def
      split: probe_phase.splits)

definition demo_descriptor :: "peer_role \<Rightarrow> string \<Rightarrow> string \<Rightarrow> match_descriptor" where
  "demo_descriptor role me you =
     \<lparr>md_room_id = ''room-1'', md_game_id = ''sfiii3'', md_local_user_id = me,
      md_peer_user_id = you, md_role = role, md_transport = DirectUdp,
      md_local_endpoint = SocketAddr (V4 [127, 0, 0, 1]) 41000,
      md_peer_endpoint = SocketAddr (V4 [127, 0, 0, 1]) 41001, md_input_delay_frames = 2\<rparr>"

definition demo_config :: "peer_role \<Rightarrow> string \<Rightarrow> string \<Rightarrow> match_probe_config" where
  "demo_config role me you =
     \<lparr>pc_descriptor = demo_descriptor role me you, pc_session_key = ''session-1'',
      pc_frame_count = 60, pc_timeout = 1000000\<rparr>"

abbreviation "demo_host \<equiv> demo_config Host ''host'' ''guest''"
abbreviation "demo_guest \<equiv> demo_config Guest ''guest'' ''host''"

lemma demo_paired: "paired demo_host demo_guest"
  by (simp add: paired_def wf_config_def demo_config_def demo_descriptor_def descriptor_validate_ok
      is_blank_graphic graphic_def)

lemma paired_start:
  assumes "paired hc gc"
  shows "\<exists>s. probe_reachable hc gc s \<and> active (host_state s) \<and> active (guest_state s)"
proof -
  have wf: "wf_config hc" "wf_config gc" using assms by (simp_all add: paired_def)
  obtain h hw where h: "probe_start hc (Ok ()) = (h, hw)" by fastforce
  obtain g gw where g: "probe_start gc (Ok ()) = (g, gw)" by fastforce
  let ?s = "\<lparr>host_state = h, guest_state = g, host_wire = set hw, guest_wire = set gw\<rparr>"
  have "net_init hc gc ?s"
    unfolding net_init_def using h g by (intro exI [of _ "Ok ()"]) (simp add: possible_outcome_def)
  with assms have "probe_reachable hc gc ?s"
    unfolding probe_reachable_def by (intro reach_init) simp
  moreover have "active h" "active g"
    using h g transmit_success [OF wf(1), of 0] transmit_success [OF wf(2), of 0]
      total_bounds [OF wf(1)] total_bounds [OF wf(2)]
    by (auto simp: probe_start_def begin_frame_def active_def total_def word_less_nat_alt)
  ultimately show ?thesis by (intro exI [of _ ?s]) simp
qed

lemma demo_start:
  "\<exists>s. probe_reachable demo_host demo_guest s \<and> active (host_state s) \<and> active (guest_state s)"
  by (rule paired_start [OF demo_paired])

lemma reachable_steps:
  assumes "probe_reachable hc gc s" "(net_step hc gc)\<^sup>*\<^sup>* s s'"
  shows "probe_reachable hc gc s'"
  using assms(2,1) unfolding probe_reachable_def
  by (induction rule: rtranclp_induct) (auto intro: reach_step)

theorem probe_transcripts_agree_witness:
  "\<exists>s hr gr. probe_reachable demo_host demo_guest s
     \<and> probe_result demo_host 5 (host_state s) = Some (Ok hr)
     \<and> probe_result demo_guest 7 (guest_state s) = Some (Ok gr)
     \<and> mp_transcript_checksum hr = mp_transcript_checksum gr
     \<and> mp_transcript_checksum hr = ''80896395aaa3d09d''"
proof -
  from demo_start both_complete reachable_steps obtain s hr gr where
    s: "probe_reachable demo_host demo_guest s"
    and r: "probe_result demo_host 5 (host_state s) = Some (Ok hr)"
      "probe_result demo_guest 7 (guest_state s) = Some (Ok gr)" by metis
  have "unat (pc_frame_count demo_host) = 60" by (simp add: demo_config_def)
  with r probe_transcripts_agree [OF s, of 5 7] have
    "mp_transcript_checksum hr = mp_transcript_checksum gr \<and> mp_transcript_checksum hr = ''80896395aaa3d09d''"
    by (simp add: transcript_of_sixty_rounds) (elim conjE, simp)
  with s r show ?thesis by blast
qed

text \<open>C2 The exchange can always be finished: from every reachable state in which neither peer
  has failed or ended its grace period, the code's own retransmissions, once delivered, take
  both peers to a successful report; no order of losses, duplicates and reorderings deadlocks
  the probe.\<close>

theorem probe_never_stuck:
  assumes "probe_reachable hc gc s" "active (host_state s)" "active (guest_state s)"
  shows "\<exists>s' hr gr. (net_step hc gc)\<^sup>*\<^sup>* s s'
    \<and> probe_result hc t (host_state s') = Some (Ok hr) \<and> probe_result gc u (guest_state s') = Some (Ok gr)"
  using assms by (rule both_complete)

theorem probe_never_stuck_witness:
  "\<exists>s s' hr gr. probe_reachable demo_host demo_guest s \<and> (net_step demo_host demo_guest)\<^sup>*\<^sup>* s s'
    \<and> probe_result demo_host 5 (host_state s') = Some (Ok hr)
    \<and> probe_result demo_guest 7 (guest_state s') = Some (Ok gr)"
  using demo_start probe_never_stuck by metis

end
