(* ===== verification/Report_Verifier.thy ===== *)
theory Report_Verifier
  imports Protocol
begin

text \<open>
  The evidence verifier (\<open>packages/networking/src/report.rs\<close>, first half): reading bounded
  report files, validating one report, and deciding whether two reports are the two sides of
  one completed match.  File access and JSON decoding are parameters.
\<close>

section \<open>Reading evidence files\<close>

definition ALPHA_MATCH_FRAMES :: u32 where "ALPHA_MATCH_FRAMES = 60"
definition MAX_REPORT_BYTES :: nat where "MAX_REPORT_BYTES = 64 * 1024"

datatype report_read_error = Unreadable | TooLarge | InvalidReport

fun read_error_code :: "report_read_error \<Rightarrow> string" where
  "read_error_code Unreadable = ''report_unreadable''"
| "read_error_code TooLarge = ''report_too_large''"
| "read_error_code InvalidReport = ''report_invalid''"

text \<open>\<open>read_bounded_bytes\<close>: the first argument is the file's content, \<open>None\<close> when it cannot be
  opened or read; at most one byte more than the limit is read.\<close>

definition read_bounded_bytes :: "bytes option \<Rightarrow> report_read_error + bytes" where
  "read_bounded_bytes file =
     (case file of
        None \<Rightarrow> Err Unreadable
      | Some content \<Rightarrow>
          (let b = take (MAX_REPORT_BYTES + 1) content in
           if length b > MAX_REPORT_BYTES then Err TooLarge else Ok b))"

definition read_match_report ::
    "(bytes \<Rightarrow> match_report option) \<Rightarrow> bytes option \<Rightarrow> report_read_error + match_report" where
  "read_match_report decode file =
     (case read_bounded_bytes file of
        Inl e \<Rightarrow> Err e
      | Inr b \<Rightarrow> ok_or (decode b) InvalidReport)"

datatype campaign_evidence =
    EvidenceMatch match_report
  | EvidenceFailure alpha_failure_report

definition read_campaign_evidence ::
    "(bytes \<Rightarrow> json option) \<Rightarrow> (json \<Rightarrow> match_report option) \<Rightarrow> (json \<Rightarrow> alpha_failure_report option) \<Rightarrow>
     bytes option \<Rightarrow> report_read_error + campaign_evidence" where
  "read_campaign_evidence parse to_match to_failure file =
     (case read_bounded_bytes file of
        Inl e \<Rightarrow> Err e
      | Inr b \<Rightarrow>
          (case parse b of
             None \<Rightarrow> Err InvalidReport
           | Some v \<Rightarrow>
               (case json_get ''kind'' v of
                  None \<Rightarrow> ok_or (map_option EvidenceMatch (to_match v)) InvalidReport
                | Some (JStr kind) \<Rightarrow>
                    (if kind = ''attempt_failure''
                     then ok_or (map_option EvidenceFailure (to_failure v)) InvalidReport
                     else Err InvalidReport)
                | Some _ \<Rightarrow> Err InvalidReport)))"

text \<open>An exact size bound: a file is accepted by the reader only up to 64 KiB, and then in
  full.\<close>

lemma read_bounded_bytes_ok:
  "read_bounded_bytes file = Ok b \<longleftrightarrow> file = Some b \<and> length b \<le> 64 * 1024"
  by (auto simp: read_bounded_bytes_def MAX_REPORT_BYTES_def Let_def split: option.splits if_splits)

section \<open>Verifying a pair of reports\<close>

record match_verification =
  mv_schema_version :: u8
  mv_verified :: bool
  mv_room_id :: string
  mv_game_id :: string
  mv_transport :: match_report_transport
  mv_frames_received :: u32
  mv_transcript_checksum :: string

datatype report_verification_error =
    PairSize nat
  | UnsupportedSchema string u8
  | RoomNotFinished string
  | EmptyCorrelation string
  | IncompleteTranscript string
  | InvalidFrameCounts string
  | InvalidChecksum string
  | RoomMismatch
  | GameMismatch
  | RoleMismatch
  | ChecksumMismatch
  | TransportMismatch
  | CompatibilityMismatch
  | CompatibilityMissing string
  | InvalidCompatibility string

fun verification_error_code :: "report_verification_error \<Rightarrow> string" where
  "verification_error_code (PairSize _) = ''report_pair_invalid''"
| "verification_error_code (UnsupportedSchema _ _) = ''schema_unsupported''"
| "verification_error_code (RoomNotFinished _) = ''room_not_finished''"
| "verification_error_code (EmptyCorrelation _) = ''correlation_missing''"
| "verification_error_code (IncompleteTranscript _) = ''transcript_incomplete''"
| "verification_error_code (InvalidFrameCounts _) = ''frame_counts_invalid''"
| "verification_error_code (InvalidChecksum _) = ''checksum_invalid''"
| "verification_error_code RoomMismatch = ''room_mismatch''"
| "verification_error_code GameMismatch = ''game_mismatch''"
| "verification_error_code RoleMismatch = ''role_mismatch''"
| "verification_error_code ChecksumMismatch = ''checksum_mismatch''"
| "verification_error_code TransportMismatch = ''transport_mismatch''"
| "verification_error_code CompatibilityMismatch = ''compatibility_mismatch''"
| "verification_error_code (CompatibilityMissing _) = ''compatibility_missing''"
| "verification_error_code (InvalidCompatibility _) = ''compatibility_invalid''"

definition valid_sha256 :: "string \<Rightarrow> bool" where
  "valid_sha256 hash \<longleftrightarrow> length hash = 64 \<and> list_all is_lower_hex hash"

definition validate_report :: "string \<Rightarrow> match_report \<Rightarrow> report_verification_error + unit" where
  "validate_report label r =
     (if rep_schema_version r \<noteq> MATCH_REPORT_SCHEMA_VERSION
      then Err (UnsupportedSchema label (rep_schema_version r))
      else if mr_state (rep_room r) \<noteq> Finished then Err (RoomNotFinished label)
      else if is_blank (mr_room_id (rep_room r)) \<or> is_blank (mr_game_id (rep_room r))
      then Err (EmptyCorrelation label)
      else if pr_frames_received (rep_probe r) \<noteq> ALPHA_MATCH_FRAMES
      then Err (IncompleteTranscript label)
      else if pr_frames_sent (rep_probe r) < pr_frames_received (rep_probe r)
      then Err (InvalidFrameCounts label)
      else if length (pr_transcript_checksum (rep_probe r)) \<noteq> 16
           \<or> \<not> list_all is_lower_hex (pr_transcript_checksum (rep_probe r))
      then Err (InvalidChecksum label)
      else (case rep_compatibility r of
              None \<Rightarrow> Ok ()
            | Some c \<Rightarrow>
                (if is_blank (co_adapter c)
                    \<or> (case co_emulator_version c of None \<Rightarrow> False | Some v \<Rightarrow> is_blank v)
                    \<or> \<not> list_all valid_sha256
                        [co_executable_sha256 c, co_core_sha256 c, co_content_sha256 c]
                 then Err (InvalidCompatibility label)
                 else Ok ())))"

definition verify_match_reports ::
    "match_report \<Rightarrow> match_report \<Rightarrow> report_verification_error + match_verification" where
  "verify_match_reports a b =
     (case validate_report ''first'' a of
        Inl e \<Rightarrow> Err e
      | Inr _ \<Rightarrow>
     (case validate_report ''second'' b of
        Inl e \<Rightarrow> Err e
      | Inr _ \<Rightarrow>
     (if mr_room_id (rep_room a) \<noteq> mr_room_id (rep_room b) then Err RoomMismatch
      else if mr_game_id (rep_room a) \<noteq> mr_game_id (rep_room b) then Err GameMismatch
      else if pr_role (rep_probe a) = pr_role (rep_probe b) then Err RoleMismatch
      else if pr_transcript_checksum (rep_probe a) \<noteq> pr_transcript_checksum (rep_probe b)
      then Err ChecksumMismatch
      else if pr_transport (rep_probe a) \<noteq> pr_transport (rep_probe b) then Err TransportMismatch
      else if rep_compatibility a \<noteq> rep_compatibility b then Err CompatibilityMismatch
      else Ok \<lparr>mv_schema_version = MATCH_REPORT_SCHEMA_VERSION, mv_verified = True,
               mv_room_id = mr_room_id (rep_room a), mv_game_id = mr_game_id (rep_room a),
               mv_transport = pr_transport (rep_probe a), mv_frames_received = ALPHA_MATCH_FRAMES,
               mv_transcript_checksum = pr_transcript_checksum (rep_probe a)\<rparr>)))"

definition verify_playable_match_reports ::
    "match_report \<Rightarrow> match_report \<Rightarrow> report_verification_error + match_verification" where
  "verify_playable_match_reports a b =
     (if rep_compatibility a = None then Err (CompatibilityMissing ''first'')
      else if rep_compatibility b = None then Err (CompatibilityMissing ''second'')
      else verify_match_reports a b)"

section \<open>Facts\<close>

text \<open>Validity of one report does not depend on the label it is checked under.\<close>

definition valid_report :: "match_report \<Rightarrow> bool" where
  "valid_report r \<longleftrightarrow> validate_report [] r = Ok ()"

lemma validate_report_label: "validate_report l r = Ok () \<longleftrightarrow> valid_report r"
  by (auto simp: valid_report_def validate_report_def split: option.splits)

lemma validate_report_cases: "validate_report l r = Ok () \<or> (\<exists>e. validate_report l r = Err e)"
  by (cases "validate_report l r") auto

lemma valid_report_iff:
  "valid_report r \<longleftrightarrow>
     rep_schema_version r = 1 \<and> mr_state (rep_room r) = Finished
     \<and> \<not> is_blank (mr_room_id (rep_room r)) \<and> \<not> is_blank (mr_game_id (rep_room r))
     \<and> pr_frames_received (rep_probe r) = 60 \<and> 60 \<le> pr_frames_sent (rep_probe r)
     \<and> length (pr_transcript_checksum (rep_probe r)) = 16
     \<and> list_all is_lower_hex (pr_transcript_checksum (rep_probe r))
     \<and> (\<forall>c. rep_compatibility r = Some c \<longrightarrow>
          \<not> is_blank (co_adapter c) \<and> (\<forall>v. co_emulator_version c = Some v \<longrightarrow> \<not> is_blank v)
          \<and> valid_sha256 (co_executable_sha256 c) \<and> valid_sha256 (co_core_sha256 c)
          \<and> valid_sha256 (co_content_sha256 c))"
  by (auto simp: valid_report_def validate_report_def MATCH_REPORT_SCHEMA_VERSION_def
      ALPHA_MATCH_FRAMES_def linorder_not_less split: option.splits)

text \<open>Two reports that agree on everything the two sides must agree on.\<close>

definition corresponding :: "match_report \<Rightarrow> match_report \<Rightarrow> bool" where
  "corresponding a b \<longleftrightarrow>
     mr_room_id (rep_room a) = mr_room_id (rep_room b)
     \<and> mr_game_id (rep_room a) = mr_game_id (rep_room b)
     \<and> {pr_role (rep_probe a), pr_role (rep_probe b)} = {RoleHost, RoleGuest}
     \<and> pr_transcript_checksum (rep_probe a) = pr_transcript_checksum (rep_probe b)
     \<and> pr_transport (rep_probe a) = pr_transport (rep_probe b)
     \<and> rep_compatibility a = rep_compatibility b"

lemma roles_opposite: "{x, y} = {RoleHost, RoleGuest} \<longleftrightarrow> x \<noteq> y"
  by (cases x; cases y) auto

definition verification_of :: "match_report \<Rightarrow> match_verification" where
  "verification_of a =
     \<lparr>mv_schema_version = 1, mv_verified = True, mv_room_id = mr_room_id (rep_room a),
      mv_game_id = mr_game_id (rep_room a), mv_transport = pr_transport (rep_probe a),
      mv_frames_received = 60, mv_transcript_checksum = pr_transcript_checksum (rep_probe a)\<rparr>"

lemma verify_ok_iff:
  "verify_match_reports a b = Ok v \<longleftrightarrow>
     valid_report a \<and> valid_report b \<and> corresponding a b \<and> v = verification_of a"
proof -
  consider (bad1) "\<not> valid_report a" | (bad2) "valid_report a" "\<not> valid_report b"
    | (good) "valid_report a" "valid_report b" by blast
  then show ?thesis
  proof cases
    case bad1
    then obtain e where "validate_report ''first'' a = Err e"
      using validate_report_cases validate_report_label by blast
    with bad1 show ?thesis by (simp add: verify_match_reports_def)
  next
    case bad2
    then obtain e where "validate_report ''second'' b = Err e"
      using validate_report_cases validate_report_label by blast
    with bad2 show ?thesis
      by (auto simp: verify_match_reports_def split: sum.splits)
  next
    case good
    then have "validate_report ''first'' a = Ok ()" "validate_report ''second'' b = Ok ()"
      by (simp_all add: validate_report_label)
    with good show ?thesis
      by (auto simp: verify_match_reports_def corresponding_def roles_opposite verification_of_def
          MATCH_REPORT_SCHEMA_VERSION_def ALPHA_MATCH_FRAMES_def)
  qed
qed

lemma corresponding_sym: "corresponding a b \<Longrightarrow> corresponding b a"
  by (auto simp: corresponding_def insert_commute)

lemma corresponding_verification: "corresponding a b \<Longrightarrow> verification_of a = verification_of b"
  by (simp add: corresponding_def verification_of_def)

section \<open>The verifier interface\<close>

text \<open>What a campaign relies on: the verdict does not depend on which side is called first.  A
  stricter verifier accepts only what the basic one accepts.\<close>

locale report_verifier =
  fixes verify :: "'r \<Rightarrow> 'r \<Rightarrow> 'e + 'v"
  assumes verify_sym: "verify a b = Inr v \<Longrightarrow> verify b a = Inr v"
begin

definition pair_verifies :: "'r list \<Rightarrow> bool" where
  "pair_verifies rs \<longleftrightarrow> (\<exists>a b. rs = [a, b] \<and> is_ok (verify a b))"

lemma ok_sym: "is_ok (verify a b) \<longleftrightarrow> is_ok (verify b a)"
  by (auto simp: is_ok_iff dest: verify_sym)

lemma pair_verifies_mset:
  assumes "mset rs = mset rs'"
  shows "pair_verifies rs \<longleftrightarrow> pair_verifies rs'"
proof -
  have dir: "pair_verifies q" if "pair_verifies p" and m: "mset p = mset q" for p q
  proof -
    from that obtain a b where p: "p = [a, b]" and ok: "is_ok (verify a b)"
      by (auto simp: pair_verifies_def)
    from m p have "length q = 2" using mset_eq_length by fastforce
    then obtain c d where q: "q = [c, d]" by (auto simp: length_Suc_conv numeral_2_eq_2)
    from m p q have "(a = c \<and> b = d) \<or> (a = d \<and> b = c)"
      by (auto simp: add_eq_conv_ex)
    with q ok ok_sym show ?thesis by (auto simp: pair_verifies_def)
  qed
  from dir assms show ?thesis by metis
qed

end

locale stricter_verifier = basic: report_verifier verify + strict: report_verifier strict
  for verify :: "'r \<Rightarrow> 'r \<Rightarrow> 'e + 'v" and strict :: "'r \<Rightarrow> 'r \<Rightarrow> 'e + 'v" +
  assumes strict_accepts: "strict a b = Inr v \<Longrightarrow> verify a b = Inr v"
begin

lemma strict_pair: "strict.pair_verifies rs \<Longrightarrow> basic.pair_verifies rs"
  by (auto simp: strict.pair_verifies_def basic.pair_verifies_def is_ok_iff dest: strict_accepts)

end

lemma verify_sym: "verify_match_reports a b = Ok v \<Longrightarrow> verify_match_reports b a = Ok v"
  using corresponding_sym corresponding_verification by (metis verify_ok_iff)

lemma playable_ok_iff:
  "verify_playable_match_reports a b = Ok v \<longleftrightarrow>
     verify_match_reports a b = Ok v \<and> rep_compatibility a \<noteq> None"
  by (auto simp: verify_playable_match_reports_def verify_ok_iff corresponding_def)

lemma verify_same_compatibility:
  "verify_match_reports a b = Ok v \<Longrightarrow> rep_compatibility a = rep_compatibility b"
  by (simp add: verify_ok_iff corresponding_def)

lemma playable_sym:
  "verify_playable_match_reports a b = Ok v \<Longrightarrow> verify_playable_match_reports b a = Ok v"
  using verify_sym verify_same_compatibility by (metis playable_ok_iff)

interpretation playable: stricter_verifier verify_match_reports verify_playable_match_reports
  by unfold_locales (blast intro: verify_sym playable_sym playable_ok_iff [THEN iffD1, THEN conjunct1])+


end
