(* ===== verification/Campaign.thy ===== *)
theory Campaign
  imports Report_Verifier Complex_Main
begin

text \<open>
  The campaign summary (\<open>packages/networking/src/report.rs\<close>, second half): evidence is grouped
  by room, every room is one attempt, an attempt is verified when its two reports verify and
  nobody reported a failure, and the alpha gate asks for ten attempts and a success rate of
  80 per cent.  The rate is the exact quotient: for counts below \<open>2^53\<close> the comparison of the
  code's rounded \<open>f64\<close> quotient with \<open>0.8\<close> has the same outcome.
\<close>

section \<open>Failure reports\<close>

datatype failure_evidence_error = FailureUnsupportedSchema | FailureEmptyCorrelation | FailureInvalidCode

fun failure_error_code :: "failure_evidence_error \<Rightarrow> string" where
  "failure_error_code FailureUnsupportedSchema = ''schema_unsupported''"
| "failure_error_code FailureEmptyCorrelation = ''correlation_missing''"
| "failure_error_code FailureInvalidCode = ''failure_code_invalid''"

definition validate_failure_report :: "alpha_failure_report \<Rightarrow> failure_evidence_error + unit" where
  "validate_failure_report r =
     (if fail_schema_version r \<noteq> ALPHA_FAILURE_REPORT_SCHEMA_VERSION then Err FailureUnsupportedSchema
      else if is_blank (mr_room_id (fail_room r)) \<or> is_blank (mr_game_id (fail_room r))
      then Err FailureEmptyCorrelation
      else if \<not> (3 \<le> length (fail_error_code r) \<and> length (fail_error_code r) \<le> 64
              \<and> list_all (\<lambda>b. is_ascii_lowercase b \<or> is_ascii_digit b \<or> b = CHR ''_'') (fail_error_code r))
      then Err FailureInvalidCode
      else Ok ())"

text \<open>The loop \<open>for report in failures { validate_failure_report(report)? }\<close>.\<close>

fun validate_failures :: "alpha_failure_report list \<Rightarrow> string + unit" where
  "validate_failures [] = Ok ()"
| "validate_failures (r # rs) =
     (case validate_failure_report r of
        Inl e \<Rightarrow> Err (failure_error_code e)
      | Inr _ \<Rightarrow> validate_failures rs)"

text \<open>\<open>iter().min()\<close>.\<close>

fun min_string :: "string list \<Rightarrow> string option" where
  "min_string [] = None"
| "min_string (s # ss) = (case min_string ss of None \<Rightarrow> Some s | Some t \<Rightarrow> Some (min s t))"

definition failure_result ::
    "match_report list \<Rightarrow> alpha_failure_report list \<Rightarrow> string + unit" where
  "failure_result matches failures =
     (if matches \<noteq> [] then Err ''evidence_conflict''
      else case validate_failures failures of
        Inl e \<Rightarrow> Err e
      | Inr _ \<Rightarrow>
          (if length (remdups (map (\<lambda>r. mr_game_id (fail_room r)) failures)) \<noteq> 1
           then Err ''evidence_conflict''
           else Err (case min_string (map fail_error_code failures) of
                       None \<Rightarrow> ''attempt_failed'' | Some c \<Rightarrow> c)))"

section \<open>Labels\<close>

fun transport_label :: "match_report_transport \<Rightarrow> string" where
  "transport_label TransportDirectUdp = ''direct_udp''"
| "transport_label TransportRelay = ''relay''"

definition optional_transport_label :: "match_report_transport option \<Rightarrow> string" where
  "optional_transport_label v = (case v of None \<Rightarrow> ''not_selected'' | Some t \<Rightarrow> transport_label t)"

definition nat_state_label :: "nat_mapping_state option \<Rightarrow> string" where
  "nat_state_label v =
     (case v of Some MappingOpen \<Rightarrow> ''open'' | Some MappingMapped \<Rightarrow> ''mapped'' | _ \<Rightarrow> ''unknown'')"

definition candidate_label :: "match_candidate_kind option \<Rightarrow> string" where
  "candidate_label v =
     (case v of Some CandidateHost \<Rightarrow> ''host'' | Some CandidateReflexive \<Rightarrow> ''reflexive''
      | None \<Rightarrow> ''unknown'')"

section \<open>The summary\<close>

type_synonym compatibility_key = "string \<times> string \<times> string \<times> string \<times> string"
type_synonym compatibility_table = "(compatibility_key \<times> nat \<times> nat) list"

record campaign_failure =
  cf_room_id :: string
  cf_code :: string

record compatibility_result =
  cr_game_id :: string
  cr_platform :: string
  cr_transport :: string
  cr_nat :: string
  cr_candidate :: string
  cr_attempts :: nat
  cr_verified :: nat

record campaign_summary =
  su_schema_version :: u8
  su_reports :: nat
  su_attempts :: nat
  su_verified :: nat
  su_failed :: nat
  su_success_rate :: rat
  su_gate_passed :: bool
  su_failures :: "campaign_failure list"
  su_compatibility :: "compatibility_result list"

text \<open>\<open>rooms.entry(id).or_default().push(report)\<close> over all reports.\<close>

definition group_by_room :: "('r \<Rightarrow> string) \<Rightarrow> 'r list \<Rightarrow> (string \<times> 'r list) list" where
  "group_by_room room rs =
     foldl (\<lambda>m r. bt_entry (room r) (\<lambda>v. case v of None \<Rightarrow> [r] | Some l \<Rightarrow> l @ [r]) m) [] rs"

definition slice_of :: "string \<Rightarrow> (string \<times> 'r list) list \<Rightarrow> 'r list" where
  "slice_of room_id m = (case map_of m room_id of None \<Rightarrow> [] | Some l \<Rightarrow> l)"

abbreviation report_room :: "match_report \<Rightarrow> string" where
  "report_room r \<equiv> mr_room_id (rep_room r)"

abbreviation failure_room :: "alpha_failure_report \<Rightarrow> string" where
  "failure_room r \<equiv> mr_room_id (fail_room r)"

definition room_result :: "match_report list \<Rightarrow> alpha_failure_report list \<Rightarrow> string + unit" where
  "room_result pair abandoned =
     (if abandoned \<noteq> [] then failure_result pair abandoned
      else (case pair of
              [a, b] \<Rightarrow>
                (case verify_match_reports a b of
                   Inl e \<Rightarrow> Err (verification_error_code e)
                 | Inr _ \<Rightarrow> Ok ())
            | _ \<Rightarrow> Err ''report_pair_invalid''))"

definition match_key :: "match_report \<Rightarrow> compatibility_key" where
  "match_key r =
     (mr_game_id (rep_room r), cl_platform (rep_client r), transport_label (pr_transport (rep_probe r)),
      nat_state_label (pr_nat (rep_probe r)), candidate_label (pr_candidate (rep_probe r)))"

definition failure_key :: "alpha_failure_report \<Rightarrow> compatibility_key" where
  "failure_key r =
     (mr_game_id (fail_room r), cl_platform (fail_client r), optional_transport_label (fail_transport r),
      ''unknown'', ''unknown'')"

text \<open>\<open>if seen.insert(key) { counts.0 += 1; if is_verified { counts.1 += 1 } }\<close>.\<close>

definition bump :: "bool \<Rightarrow> (nat \<times> nat) option \<Rightarrow> nat \<times> nat" where
  "bump verified v =
     (case v of
        None \<Rightarrow> (1, if verified then 1 else 0)
      | Some (a, b) \<Rightarrow> (a + 1, if verified then b + 1 else b))"

fun note_keys ::
    "bool \<Rightarrow> compatibility_key list \<Rightarrow> compatibility_key list \<times> compatibility_table \<Rightarrow>
     compatibility_key list \<times> compatibility_table" where
  "note_keys verified [] acc = acc"
| "note_keys verified (k # ks) (seen, t) =
     (if k \<in> set seen then note_keys verified ks (seen, t)
      else note_keys verified ks (k # seen, bt_entry k (bump verified) t))"

record campaign_state =
  cs_verified :: nat
  cs_failures :: "campaign_failure list"
  cs_compatibility :: compatibility_table

text \<open>One round of \<open>for room_id in &room_ids\<close>.\<close>

definition campaign_room ::
    "(string \<times> match_report list) list \<Rightarrow> (string \<times> alpha_failure_report list) list \<Rightarrow>
     campaign_state \<Rightarrow> string \<Rightarrow> campaign_state" where
  "campaign_room rooms failure_rooms st room_id =
     (let pair = slice_of room_id rooms;
          abandoned = slice_of room_id failure_rooms;
          result = room_result pair abandoned;
          matched = note_keys (is_ok result) (map match_key pair) ([], cs_compatibility st);
          noted = note_keys False (map failure_key abandoned) matched
      in \<lparr>cs_verified = (if is_ok result then cs_verified st + 1 else cs_verified st),
          cs_failures = (case result of
                           Inl code \<Rightarrow> cs_failures st @ [\<lparr>cf_room_id = room_id, cf_code = code\<rparr>]
                         | Inr _ \<Rightarrow> cs_failures st),
          cs_compatibility = snd noted\<rparr>)"

definition campaign_rooms :: "match_report list \<Rightarrow> alpha_failure_report list \<Rightarrow> string list" where
  "campaign_rooms reports failure_reports =
     sort (remdups (map fst (group_by_room report_room reports)
                  @ map fst (group_by_room failure_room failure_reports)))"

definition compatibility_row :: "compatibility_key \<times> nat \<times> nat \<Rightarrow> compatibility_result" where
  "compatibility_row e =
     (case e of ((game_id, platform, transport, nat', candidate), attempts, verified) \<Rightarrow>
        \<lparr>cr_game_id = game_id, cr_platform = platform, cr_transport = transport, cr_nat = nat',
         cr_candidate = candidate, cr_attempts = attempts, cr_verified = verified\<rparr>)"

definition summarize_campaign_evidence ::
    "match_report list \<Rightarrow> alpha_failure_report list \<Rightarrow> campaign_summary" where
  "summarize_campaign_evidence reports failure_reports =
     (let rooms = group_by_room report_room reports;
          failure_rooms = group_by_room failure_room failure_reports;
          room_ids = campaign_rooms reports failure_reports;
          st = foldl (campaign_room rooms failure_rooms)
                 \<lparr>cs_verified = 0, cs_failures = [], cs_compatibility = []\<rparr> room_ids;
          attempts = length room_ids;
          success_rate = (if attempts = 0 then 0 else of_nat (cs_verified st) / of_nat attempts)
      in \<lparr>su_schema_version = 1,
          su_reports = length reports + length failure_reports,
          su_attempts = attempts, su_verified = cs_verified st,
          su_failed = attempts - cs_verified st,
          su_success_rate = success_rate,
          su_gate_passed = (attempts \<ge> 10 \<and> success_rate \<ge> 4 / 5),
          su_failures = cs_failures st,
          su_compatibility = map compatibility_row (cs_compatibility st)\<rparr>)"

definition summarize_match_reports :: "match_report list \<Rightarrow> campaign_summary" where
  "summarize_match_reports reports = summarize_campaign_evidence reports []"

section \<open>What the summary computes\<close>

text \<open>The evidence of one room, in input order.\<close>

definition room_reports :: "match_report list \<Rightarrow> string \<Rightarrow> match_report list" where
  "room_reports reports room_id = filter (\<lambda>r. report_room r = room_id) reports"

definition room_failures :: "alpha_failure_report list \<Rightarrow> string \<Rightarrow> alpha_failure_report list" where
  "room_failures fs room_id = filter (\<lambda>r. failure_room r = room_id) fs"

definition group_lookup :: "('r \<Rightarrow> string) \<Rightarrow> 'r list \<Rightarrow> string \<Rightarrow> 'r list option" where
  "group_lookup room rs i =
     (if filter (\<lambda>r. room r = i) rs = [] then None else Some (filter (\<lambda>r. room r = i) rs))"

lemma group_by_room_snoc:
  "group_by_room room (rs @ [r]) =
     bt_entry (room r) (\<lambda>v. case v of None \<Rightarrow> [r] | Some l \<Rightarrow> l @ [r]) (group_by_room room rs)"
  by (simp add: group_by_room_def)

lemma group_by_room_sorted: "bt_sorted (group_by_room room rs)"
  by (induction rs rule: rev_induct) (simp_all add: group_by_room_snoc, simp add: group_by_room_def)

lemma group_by_room_lookup: "map_of (group_by_room room rs) i = group_lookup room rs i"
proof (induction rs rule: rev_induct)
  case (snoc r rs)
  then show ?case
    by (auto simp: group_by_room_snoc bt_entry_lookup group_by_room_sorted group_lookup_def)
qed (simp add: group_by_room_def group_lookup_def)

lemma slice_of_group: "slice_of i (group_by_room room rs) = filter (\<lambda>r. room r = i) rs"
  by (simp add: slice_of_def group_by_room_lookup group_lookup_def)

lemma group_by_room_keys: "set (map fst (group_by_room room rs)) = room ` set rs"
proof -
  have "set (map fst (group_by_room room rs)) = dom (map_of (group_by_room room rs))"
    by (simp add: dom_map_of_conv_image_fst)
  also have "\<dots> = room ` set rs"
    by (auto simp: dom_def group_by_room_lookup group_lookup_def filter_empty_conv)
  finally show ?thesis .
qed

lemma set_campaign_rooms:
  "set (campaign_rooms reports fs) = report_room ` set reports \<union> failure_room ` set fs"
  using group_by_room_keys [of report_room reports] group_by_room_keys [of failure_room fs]
  by (simp add: campaign_rooms_def)

lemma campaign_rooms_sorted: "sorted_wrt (<) (campaign_rooms reports fs)"
  by (simp add: campaign_rooms_def strict_sorted_iff)

lemma campaign_rooms_cong:
  assumes "set reports = set reports'" "set fs = set fs'"
  shows "campaign_rooms reports fs = campaign_rooms reports' fs'"
proof (rule sorted_distinct_set_unique)
  show "set (campaign_rooms reports fs) = set (campaign_rooms reports' fs')"
    by (simp add: set_campaign_rooms assms)
qed (use campaign_rooms_sorted in \<open>auto simp: strict_sorted_iff\<close>)

text \<open>One attempt.\<close>

definition attempt_result :: "match_report list \<Rightarrow> alpha_failure_report list \<Rightarrow> string \<Rightarrow> string + unit" where
  "attempt_result reports fs i = room_result (room_reports reports i) (room_failures fs i)"

definition attempt_verified :: "match_report list \<Rightarrow> alpha_failure_report list \<Rightarrow> string \<Rightarrow> bool" where
  "attempt_verified reports fs i \<longleftrightarrow>
     room_failures fs i = [] \<and> playable.basic.pair_verifies (room_reports reports i)"

lemma failure_result_err: "\<not> is_ok (failure_result ms fs)"
  by (simp add: failure_result_def split: sum.splits)

lemma attempt_result_ok: "is_ok (attempt_result reports fs i) = attempt_verified reports fs i"
proof -
  have "is_ok (room_result pair []) = playable.basic.pair_verifies pair" for pair
    by (auto simp: room_result_def playable.basic.pair_verifies_def is_ok_iff
        split: list.splits sum.splits)
  then show ?thesis
    by (auto simp: attempt_result_def attempt_verified_def room_result_def failure_result_err)
qed

definition attempt_keys :: "match_report list \<Rightarrow> alpha_failure_report list \<Rightarrow> string \<Rightarrow> compatibility_key set" where
  "attempt_keys reports fs i =
     match_key ` set (room_reports reports i) \<union> failure_key ` set (room_failures fs i)"

section \<open>The compatibility table\<close>

lemma note_keys_spec:
  "bt_sorted t \<Longrightarrow> note_keys v ks (seen, t) = (seen', t') \<Longrightarrow>
   bt_sorted t' \<and> set seen' = set seen \<union> set ks
   \<and> (\<forall>k. map_of t' k = (if k \<in> set ks \<and> k \<notin> set seen then Some (bump v (map_of t k)) else map_of t k))"
proof (induction ks arbitrary: seen t)
  case (Cons k ks)
  show ?case
  proof (cases "k \<in> set seen")
    case True
    with Cons show ?thesis by auto
  next
    case False
    with Cons.prems have "note_keys v ks (k # seen, bt_entry k (bump v) t) = (seen', t')" by simp
    from Cons.IH [OF _ this] Cons.prems(1) False show ?thesis
      by (auto simp: bt_entry_lookup)
  qed
qed simp

definition count_rooms :: "(string \<Rightarrow> bool) \<Rightarrow> string list \<Rightarrow> nat" where
  "count_rooms p is = length (filter p is)"

text \<open>The entry of a key after some rooms: how many of them mention it, and how many of these
  are verified.\<close>

definition table_entry ::
    "match_report list \<Rightarrow> alpha_failure_report list \<Rightarrow> string list \<Rightarrow> compatibility_key \<Rightarrow> (nat \<times> nat) option" where
  "table_entry reports fs is k =
     (let n = count_rooms (\<lambda>i. k \<in> attempt_keys reports fs i) is in
      if n = 0 then None
      else Some (n, count_rooms (\<lambda>i. k \<in> attempt_keys reports fs i \<and> attempt_verified reports fs i) is))"

definition campaign_run ::
    "match_report list \<Rightarrow> alpha_failure_report list \<Rightarrow> string list \<Rightarrow> campaign_state" where
  "campaign_run reports fs is =
     foldl (campaign_room (group_by_room report_room reports) (group_by_room failure_room fs))
       \<lparr>cs_verified = 0, cs_failures = [], cs_compatibility = []\<rparr> is"

lemma campaign_run_snoc:
  "campaign_run reports fs (is @ [i]) =
     campaign_room (group_by_room report_room reports) (group_by_room failure_room fs)
       (campaign_run reports fs is) i"
  by (simp add: campaign_run_def)

lemma campaign_run_verified:
  "cs_verified (campaign_run reports fs is) = count_rooms (attempt_verified reports fs) is"
proof (induction "is" rule: rev_induct)
  case (snoc i "is")
  then show ?case
    by (simp add: campaign_run_snoc campaign_room_def Let_def slice_of_group count_rooms_def
        attempt_result_ok [unfolded attempt_result_def room_reports_def room_failures_def])
qed (simp add: campaign_run_def count_rooms_def)

lemma campaign_run_failures:
  "map cf_room_id (cs_failures (campaign_run reports fs is))
     = filter (\<lambda>i. \<not> attempt_verified reports fs i) is"
proof (induction "is" rule: rev_induct)
  case (snoc i "is")
  have "is_ok (room_result (slice_of i (group_by_room report_room reports))
          (slice_of i (group_by_room failure_room fs))) = attempt_verified reports fs i"
    by (simp add: slice_of_group attempt_result_ok [unfolded attempt_result_def room_reports_def room_failures_def])
  with snoc show ?case
    by (auto simp: campaign_run_snoc campaign_room_def Let_def split: sum.splits)
qed (simp add: campaign_run_def)

lemma campaign_run_table:
  "bt_sorted (cs_compatibility (campaign_run reports fs is))
   \<and> map_of (cs_compatibility (campaign_run reports fs is)) = table_entry reports fs is"
proof (induction "is" rule: rev_induct)
  case Nil
  then show ?case
    by (auto simp: campaign_run_def table_entry_def count_rooms_def)
next
  case (snoc i "is")
  let ?t = "cs_compatibility (campaign_run reports fs is)"
  let ?pair = "room_reports reports i" and ?ab = "room_failures fs i"
  let ?ok = "attempt_verified reports fs i"
  obtain seen t1 where t1: "note_keys ?ok (map match_key ?pair) ([], ?t) = (seen, t1)" by fastforce
  obtain seen' t2 where t2: "note_keys False (map failure_key ?ab) (seen, t1) = (seen', t2)" by fastforce
  have res: "cs_compatibility (campaign_run reports fs (is @ [i])) = t2"
    using t1 t2 attempt_result_ok [of reports fs i]
    by (simp add: campaign_run_snoc campaign_room_def Let_def slice_of_group room_reports_def
        room_failures_def attempt_result_def)
  from note_keys_spec [OF _ t1] snoc have s1: "bt_sorted t1" "set seen = match_key ` set ?pair"
    "\<And>k. map_of t1 k = (if k \<in> match_key ` set ?pair then Some (bump ?ok (map_of ?t k)) else map_of ?t k)"
    by (simp_all del: split_paired_All)
  from note_keys_spec [OF s1(1) t2] s1(2) have s2: "bt_sorted t2"
    "\<And>k. map_of t2 k = (if k \<in> failure_key ` set ?ab \<and> k \<notin> match_key ` set ?pair
        then Some (bump False (map_of t1 k)) else map_of t1 k)"
    by (simp_all del: split_paired_All)
  have ab: "?ok \<Longrightarrow> ?ab = []" by (simp add: attempt_verified_def)
  have "map_of t2 k = table_entry reports fs (is @ [i]) k" for k
  proof -
    have "map_of t2 k = (if k \<in> attempt_keys reports fs i then Some (bump ?ok (map_of ?t k)) else map_of ?t k)"
      using ab by (cases ?ok) (auto simp: s2(2) s1(3) attempt_keys_def)
    then show ?thesis
      using snoc by (auto simp: table_entry_def count_rooms_def bump_def Let_def filter_empty_conv)
  qed
  with s2(1) res show ?case by auto
qed

section \<open>The properties of the summary\<close>

lemma summary_fields:
  "su_attempts (summarize_campaign_evidence reports fs) = length (campaign_rooms reports fs)"
  "su_verified (summarize_campaign_evidence reports fs)
     = count_rooms (attempt_verified reports fs) (campaign_rooms reports fs)"
  "map cf_room_id (su_failures (summarize_campaign_evidence reports fs))
     = filter (\<lambda>i. \<not> attempt_verified reports fs i) (campaign_rooms reports fs)"
  "su_failed (summarize_campaign_evidence reports fs)
     = length (campaign_rooms reports fs) - count_rooms (attempt_verified reports fs) (campaign_rooms reports fs)"
  "su_compatibility (summarize_campaign_evidence reports fs) =
     map compatibility_row (cs_compatibility (campaign_run reports fs (campaign_rooms reports fs)))"
  using campaign_run_verified [of reports fs "campaign_rooms reports fs"]
    campaign_run_failures [of reports fs "campaign_rooms reports fs"]
  by (simp_all add: summarize_campaign_evidence_def Let_def campaign_run_def)

lemma summary_rate:
  "su_success_rate (summarize_campaign_evidence reports fs) =
     (if su_attempts (summarize_campaign_evidence reports fs) = 0 then 0
      else of_nat (su_verified (summarize_campaign_evidence reports fs))
           / of_nat (su_attempts (summarize_campaign_evidence reports fs)))"
  "su_gate_passed (summarize_campaign_evidence reports fs) \<longleftrightarrow>
     su_attempts (summarize_campaign_evidence reports fs) \<ge> 10
     \<and> su_success_rate (summarize_campaign_evidence reports fs) \<ge> 4 / 5"
  "su_schema_version (summarize_campaign_evidence reports fs) = 1"
  "su_reports (summarize_campaign_evidence reports fs) = length reports + length fs"
  by (simp_all add: summarize_campaign_evidence_def Let_def)

lemma gate_quotient:
  "0 < a \<Longrightarrow> ((of_nat v / of_nat a :: rat) \<ge> 4 / 5) = (4 * a \<le> 5 * v)"
proof -
  assume "0 < a"
  then have "((of_nat v / of_nat a :: rat) \<ge> 4 / 5) = ((of_nat (4 * a) :: rat) \<le> of_nat (5 * v))"
    by (simp add: field_simps)
  then show ?thesis by (simp only: of_nat_le_iff)
qed

lemma count_filter_split: "count_rooms p is + length (filter (\<lambda>i. \<not> p i) is) = length is"
  unfolding count_rooms_def by (rule sum_length_filter_compl)

lemma count_rooms_card: "distinct is \<Longrightarrow> count_rooms p is = card {i \<in> set is. p i}"
  by (simp add: count_rooms_def distinct_length_filter Int_def conj_commute)

lemma rooms_distinct: "distinct (campaign_rooms reports fs)"
  using campaign_rooms_sorted by (simp add: strict_sorted_iff)

text \<open>C9 The campaign ledger is exact: an attempt is a room that any evidence names; it counts as
  verified exactly if nobody reported a failure and its reports are a pair that verifies; the
  failures list every other room once, in room order; verified and failed add up to the
  attempts; and the gate opens exactly from ten attempts on with four of five verified.\<close>

theorem campaign_ledger:
  "let s = summarize_campaign_evidence reports fs;
       rooms = report_room ` set reports \<union> failure_room ` set fs in
   su_attempts s = card rooms
   \<and> su_verified s = card {i \<in> rooms. attempt_verified reports fs i}
   \<and> set (map cf_room_id (su_failures s)) = {i \<in> rooms. \<not> attempt_verified reports fs i}
   \<and> sorted_wrt (<) (map cf_room_id (su_failures s))
   \<and> su_verified s + su_failed s = su_attempts s \<and> su_failed s = length (su_failures s)
   \<and> su_gate_passed s = (10 \<le> su_attempts s \<and> 4 * su_attempts s \<le> 5 * su_verified s)"
proof -
  let ?rooms = "campaign_rooms reports fs"
  let ?s = "summarize_campaign_evidence reports fs"
  have len: "length (su_failures ?s) = length (filter (\<lambda>i. \<not> attempt_verified reports fs i) ?rooms)"
    using arg_cong [OF summary_fields(3), of length] by simp
  have "sorted_wrt (<) (map cf_room_id (su_failures ?s))"
    unfolding summary_fields(3) by (rule sorted_wrt_filter [OF campaign_rooms_sorted])
  moreover have "su_gate_passed ?s = (10 \<le> su_attempts ?s \<and> 4 * su_attempts ?s \<le> 5 * su_verified ?s)"
    using gate_quotient [of "su_attempts ?s" "su_verified ?s"] by (auto simp: summary_rate)
  moreover have "length ?rooms = card (set ?rooms)" by (simp add: distinct_card rooms_distinct)
  moreover have "set (filter p ?rooms) = {i \<in> set ?rooms. p i}" for p by auto
  ultimately show ?thesis
    using count_filter_split [of "attempt_verified reports fs" ?rooms] len
    unfolding Let_def summary_fields(1,2,3,4) set_campaign_rooms [symmetric]
    by (simp add: rooms_distinct count_rooms_card)
qed

lemma attempt_verified_mset:
  assumes "mset reports = mset reports'" "mset fs = mset fs'"
  shows "attempt_verified reports fs = attempt_verified reports' fs'"
proof
  fix i
  have "mset (room_reports reports i) = mset (room_reports reports' i)"
    "mset (room_failures fs i) = mset (room_failures fs' i)"
    using assms by (simp_all add: room_reports_def room_failures_def)
  then show "attempt_verified reports fs i = attempt_verified reports' fs' i"
    using playable.basic.pair_verifies_mset unfolding attempt_verified_def
    by (metis mset_zero_iff)
qed

lemma attempt_keys_mset:
  assumes "mset reports = mset reports'" "mset fs = mset fs'"
  shows "attempt_keys reports fs = attempt_keys reports' fs'"
  using assms [THEN mset_eq_setD]
  by (auto simp: attempt_keys_def room_reports_def room_failures_def fun_eq_iff)

text \<open>The summary does not depend on the order of the evidence files: any permutation of the
  reports and of the failure reports gives the same attempts, verified and failed counts,
  success rate, gate decision, failed rooms and compatibility table.\<close>

theorem campaign_order_independent:
  assumes "mset reports = mset reports'" "mset fs = mset fs'"
  shows "let s = summarize_campaign_evidence reports fs; s' = summarize_campaign_evidence reports' fs' in
    su_reports s = su_reports s' \<and> su_attempts s = su_attempts s' \<and> su_verified s = su_verified s'
    \<and> su_failed s = su_failed s' \<and> su_success_rate s = su_success_rate s'
    \<and> su_gate_passed s = su_gate_passed s'
    \<and> map cf_room_id (su_failures s) = map cf_room_id (su_failures s')
    \<and> su_compatibility s = su_compatibility s'"
proof -
  note v = attempt_verified_mset [OF assms]
  have r: "campaign_rooms reports fs = campaign_rooms reports' fs'"
    using assms [THEN mset_eq_setD] by (rule campaign_rooms_cong)
  have "table_entry reports fs (campaign_rooms reports fs)
      = table_entry reports' fs' (campaign_rooms reports' fs')"
    unfolding table_entry_def v r attempt_keys_mset [OF assms] by (rule refl)
  then have "cs_compatibility (campaign_run reports fs (campaign_rooms reports fs))
      = cs_compatibility (campaign_run reports' fs' (campaign_rooms reports' fs'))"
    using campaign_run_table by (metis bt_ext)
  then show ?thesis
    using assms [THEN mset_eq_length]
    by (simp add: Let_def summary_fields summary_rate v r)
qed

definition demo_report :: "match_report_role \<Rightarrow> match_report" where
  "demo_report role =
     \<lparr>rep_schema_version = 1, rep_exported_at = 0,
      rep_room = \<lparr>mr_room_id = ''room-1'', mr_game_id = ''sfiii3'', mr_state = Finished\<rparr>,
      rep_probe = \<lparr>pr_role = role, pr_transport = TransportDirectUdp, pr_frames_sent = 62,
        pr_frames_received = 60, pr_transcript_checksum = ''80896395aaa3d09d'', pr_elapsed_ms = 900,
        pr_nat = Some MappingUnknown, pr_candidate = Some CandidateHost, pr_punch_attempts = Some 0\<rparr>,
      rep_client = \<lparr>cl_platform = ''linux'', cl_user_agent = ''test''\<rparr>,
      rep_compatibility = None, rep_native_route = None\<rparr>"

theorem campaign_order_independent_witness:
  "su_verified (summarize_campaign_evidence [demo_report RoleHost, demo_report RoleGuest] [])
   = su_verified (summarize_campaign_evidence [demo_report RoleGuest, demo_report RoleHost] [])"
  using campaign_order_independent
    [of "[demo_report RoleHost, demo_report RoleGuest]" "[demo_report RoleGuest, demo_report RoleHost]" "[]" "[]"]
  by (simp add: Let_def add_mset_commute)

text \<open>Every row of the compatibility table counts rooms: for its game, platform, transport,
  NAT and candidate label it holds the number of rooms with such evidence, never zero, and how
  many of these rooms were verified; no label combination has two rows.\<close>

theorem compatibility_rows_count_rooms:
  "let rows = map (\<lambda>r. ((cr_game_id r, cr_platform r, cr_transport r, cr_nat r, cr_candidate r), r))
                (su_compatibility (summarize_campaign_evidence reports fs)) in
   distinct (map fst rows)
   \<and> (\<forall>k. map_option (\<lambda>r. (cr_attempts r, cr_verified r)) (map_of rows k) =
        (let n = card {i \<in> report_room ` set reports \<union> failure_room ` set fs. k \<in> attempt_keys reports fs i} in
         if n = 0 then None
         else Some (n, card {i \<in> report_room ` set reports \<union> failure_room ` set fs.
                k \<in> attempt_keys reports fs i \<and> attempt_verified reports fs i})))"
proof -
  let ?rooms = "campaign_rooms reports fs"
  let ?t = "cs_compatibility (campaign_run reports fs ?rooms)"
  let ?row = "\<lambda>r. ((cr_game_id r, cr_platform r, cr_transport r, cr_nat r, cr_candidate r), r)"
  have row: "?row (compatibility_row e) = (fst e, compatibility_row e)"
    "(cr_attempts (compatibility_row e), cr_verified (compatibility_row e)) = snd e" for e
    by (simp_all add: compatibility_row_def split: prod.splits)
  have rows: "map ?row (su_compatibility (summarize_campaign_evidence reports fs))
      = map (\<lambda>e. (fst e, compatibility_row e)) ?t"
    by (simp add: summary_fields row(1))
  have look: "map_option (\<lambda>r. (cr_attempts r, cr_verified r))
      (map_of (map (\<lambda>e. (fst e, compatibility_row e)) l) k) = map_of l k" for l k
    using row(2) by (induction l) auto
  have d: "distinct (map fst ?t)"
    using campaign_run_table bt_sorted_distinct by blast
  have m: "map_of ?t k = table_entry reports fs ?rooms k" for k
    using campaign_run_table by metis
  show ?thesis
    unfolding Let_def rows look m
    using d by (simp add: table_entry_def Let_def count_rooms_card rooms_distinct comp_def
        set_campaign_rooms del: split_paired_All)
qed

end
