(* ===== verification/Proof_Of_Match.thy ===== *)
theory Proof_Of_Match
  imports Match_Probe Reachability Report_Verifier
begin

text \<open>
  The proof-of-match runner (\<open>crates/proof-of-match/src/lib.rs\<close>): two sides drive sixty
  deterministic frames over the in-memory transport, and the two redacted reports are handed to
  the verifier.  The crate repeats the probe's frame and checksum code; the copies are
  translated on their own and proved equal to the originals.

  The two sides run as one task (\<open>tokio::join!\<close>) over a shared pair of channels, so a run is an
  interleaving of their loop iterations.  The send counter of a side is kept as a number and
  wrapped to 32 bits in its outcome.
\<close>

unbundle bit_operations_syntax

section \<open>The mirrored frame and checksum code\<close>

definition PROOF_FRAMES :: u64 where "PROOF_FRAMES = 60"
definition pm_fnv_offset_basis :: u64 where "pm_fnv_offset_basis = 0xcbf29ce484222325"
definition pm_fnv_prime :: u64 where "pm_fnv_prime = 0x100000001b3"

definition pm_deterministic_frame :: "u64 \<Rightarrow> string \<Rightarrow> peer_role \<Rightarrow> transport_error + input_frame" where
  "pm_deterministic_frame frame player_id role =
     (let input = (case role of
                     Host \<Rightarrow> ucast (frame mod 4)
                   | Guest \<Rightarrow> ucast ((frame + 2) mod 4))
      in input_frame_new frame player_id [input])"

definition pm_update_transcript_checksum ::
    "peer_role \<Rightarrow> input_frame \<Rightarrow> input_frame \<Rightarrow> u64 \<Rightarrow> u64" where
  "pm_update_transcript_checksum role local_input remote checksum =
     (let (host, guest) = (case role of Host \<Rightarrow> (local_input, remote) | Guest \<Rightarrow> (remote, local_input))
      in foldl (\<lambda>c b. (c XOR ucast b) * pm_fnv_prime) checksum (if_input host @ if_input guest))"

lemma pm_frame_eq: "pm_deterministic_frame n p r = deterministic_frame n p r"
  by (cases r) (simp_all add: pm_deterministic_frame_def deterministic_frame_def)

lemma pm_update_eq: "pm_update_transcript_checksum r lf rf c = update_transcript_checksum c r lf rf"
  by (cases r) (simp_all add: pm_update_transcript_checksum_def update_transcript_checksum_def
      fnv_byte_def [abs_def] pm_fnv_prime_def FNV_PRIME_def)

lemma pm_basis_eq: "pm_fnv_offset_basis = FNV_OFFSET_BASIS"
  by (simp add: pm_fnv_offset_basis_def FNV_OFFSET_BASIS_def)

text \<open>The mirrored code is the probe's code: for every frame number, player, role, pair of
  frames and checksum, the proof-of-match copies of the frame generator and of the transcript
  checksum compute what the originals in the networking crate compute.\<close>

theorem proof_of_match_mirrors_probe:
  "pm_deterministic_frame n p r = deterministic_frame n p r
   \<and> pm_update_transcript_checksum r lf rf c = update_transcript_checksum c r lf rf
   \<and> pm_fnv_offset_basis = FNV_OFFSET_BASIS"
  by (simp add: pm_frame_eq pm_update_eq pm_basis_eq)

section \<open>Driving one side\<close>

datatype proof_error =
    Preparation string
  | TransportFailed string
  | FrameInvalid string
  | VerificationRejected (rejected_code: string) (rejected_message: string)

fun proof_error_code :: "proof_error \<Rightarrow> string" where
  "proof_error_code (Preparation _) = ''preparation_failed''"
| "proof_error_code (TransportFailed _) = ''transport_failed''"
| "proof_error_code (FrameInvalid _) = ''frame_invalid''"
| "proof_error_code (VerificationRejected code _) = code"

text \<open>\<open>Display\<close> of the transport errors.\<close>

fun transport_error_str :: "transport_error \<Rightarrow> string" where
  "transport_error_str InvalidPlayer = ''player id must not be empty''"
| "transport_error_str (FrameTooLarge n) =
     ''input frame contains '' @ nat_str n @ '' bytes; maximum is 256''"
| "transport_error_str Backpressure = ''peer input queue is full''"
| "transport_error_str Closed = ''peer transport is closed''"
| "transport_error_str (Serialization m) = ''datagram serialization failed: '' @ m"
| "transport_error_str (UdpIo m) = ''udp transport failed: '' @ m"
| "transport_error_str PeerUnavailable = ''udp peer is temporarily unavailable''"
| "transport_error_str (InvalidConfiguration m) = ''invalid match probe configuration: '' @ m"
| "transport_error_str PeerMismatch = ''received a datagram for a different match or peer''"
| "transport_error_str (Timeout r e) = ''match probe timed out after receiving '' @ nat_str (unat r)
     @ '' of '' @ nat_str (unat e) @ '' frames''"
| "transport_error_str StunTimeout = ''STUN discovery timed out''"
| "transport_error_str (InvalidStunResponse m) = ''invalid STUN response: '' @ m"
| "transport_error_str (HolePunchTimeout n) =
     ''UDP hole punch timed out after '' @ nat_str (unat n) @ '' attempts''"
| "transport_error_str (RelayError m) = ''relay transport failed: '' @ m"

datatype drive_phase = Driving | Drove | DriveFailed proof_error

record drive_state =
  ds_phase :: drive_phase
  ds_frame :: u64
  ds_frames_sent :: nat
  ds_frames_received :: u32
  ds_checksum :: u64

record drive_outcome =
  do_frames_sent :: u32
  do_frames_received :: u32
  do_checksum :: u64

text \<open>\<open>try_send(frame)?; frames_sent += 1\<close>, the frame being a result itself.\<close>

definition drive_send ::
    "transport_error + input_frame \<Rightarrow> drive_state \<Rightarrow> in_memory_peer \<Rightarrow> drive_state \<times> in_memory_peer" where
  "drive_send frame s peer =
     (case frame of
        Inl e \<Rightarrow> (s\<lparr>ds_phase := DriveFailed (FrameInvalid (transport_error_str e))\<rparr>, peer)
      | Inr f \<Rightarrow>
          (case peer_try_send peer f of
             Inl e \<Rightarrow> (s\<lparr>ds_phase := DriveFailed (TransportFailed (transport_error_str e))\<rparr>, peer)
           | Inr peer' \<Rightarrow> (s\<lparr>ds_frames_sent := ds_frames_sent s + 1\<rparr>, peer')))"

text \<open>The head of \<open>for frame_number in 0..PROOF_FRAMES\<close>.\<close>

definition drive_begin ::
    "peer_role \<Rightarrow> string \<Rightarrow> drive_state \<Rightarrow> in_memory_peer \<Rightarrow> drive_state \<times> in_memory_peer" where
  "drive_begin role local_user_id s peer =
     (if ds_frame s < PROOF_FRAMES
      then drive_send (pm_deterministic_frame (ds_frame s) local_user_id role) s peer
      else (s\<lparr>ds_phase := Drove\<rparr>, peer))"

definition drive_start ::
    "peer_role \<Rightarrow> string \<Rightarrow> in_memory_peer \<Rightarrow> drive_state \<times> in_memory_peer" where
  "drive_start role local_user_id peer =
     drive_begin role local_user_id
       \<lparr>ds_phase = Driving, ds_frame = 0, ds_frames_sent = 0, ds_frames_received = 0,
        ds_checksum = pm_fnv_offset_basis\<rparr> peer"

datatype drive_event = DriveDeadline | DriveSilence | DriveReceive

text \<open>One iteration of the inner loop of \<open>drive_side\<close>; a receive on an empty channel is
  pending and changes nothing.\<close>

definition drive_step ::
    "peer_role \<Rightarrow> string \<Rightarrow> drive_event \<Rightarrow> drive_state \<Rightarrow> in_memory_peer \<Rightarrow> drive_state \<times> in_memory_peer" where
  "drive_step role local_user_id ev s peer =
     (if ds_phase s \<noteq> Driving then (s, peer)
      else
        let frame = ds_frame s; local_frame = pm_deterministic_frame frame local_user_id role in
        case ev of
          DriveDeadline \<Rightarrow>
            (s\<lparr>ds_phase := DriveFailed (TransportFailed (''timed out after receiving ''
                @ nat_str (unat (ds_frames_received s)) @ '' of 60 frames''))\<rparr>, peer)
        | DriveSilence \<Rightarrow> drive_send local_frame s peer
        | DriveReceive \<Rightarrow>
            (case peer_receive peer of
               None \<Rightarrow> (s, peer)
             | Some (Inl e, peer') \<Rightarrow>
                 (s\<lparr>ds_phase := DriveFailed (TransportFailed (transport_error_str e))\<rparr>, peer')
             | Some (Inr remote, peer') \<Rightarrow>
                 (if if_frame remote < frame
                  then drive_send (pm_deterministic_frame (if_frame remote) local_user_id role) s peer'
                  else if if_frame remote > frame then drive_send local_frame s peer'
                  else (case local_frame of
                          Inl e \<Rightarrow> (s\<lparr>ds_phase := DriveFailed (FrameInvalid (transport_error_str e))\<rparr>, peer')
                        | Inr f \<Rightarrow>
                            drive_begin role local_user_id
                              (s\<lparr>ds_checksum := pm_update_transcript_checksum role f remote (ds_checksum s),
                                 ds_frames_received := ds_frames_received s + 1,
                                 ds_frame := frame + 1\<rparr>) peer'))))"

definition drive_result :: "drive_state \<Rightarrow> (proof_error + drive_outcome) option" where
  "drive_result s =
     (case ds_phase s of
        Driving \<Rightarrow> None
      | Drove \<Rightarrow> Some (Ok \<lparr>do_frames_sent = of_nat (ds_frames_sent s),
                         do_frames_received = ds_frames_received s, do_checksum = ds_checksum s\<rparr>)
      | DriveFailed e \<Rightarrow> Some (Err e))"

section \<open>The run\<close>

record proof_config =
  po_room_id :: string
  po_game_id :: string
  po_host_user_id :: string
  po_guest_user_id :: string
  po_host_endpoint :: socket_addr
  po_guest_endpoint :: socket_addr
  po_input_delay_frames :: u8
  po_platform :: string

record proof_report =
  po_host :: match_report
  po_guest :: match_report
  po_verification :: match_verification

definition host_descriptor :: "proof_config \<Rightarrow> match_descriptor" where
  "host_descriptor c =
     \<lparr>md_room_id = po_room_id c, md_game_id = po_game_id c, md_local_user_id = po_host_user_id c,
      md_peer_user_id = po_guest_user_id c, md_role = Host, md_transport = DirectUdp,
      md_local_endpoint = po_host_endpoint c, md_peer_endpoint = po_guest_endpoint c,
      md_input_delay_frames = po_input_delay_frames c\<rparr>"

definition guest_descriptor :: "proof_config \<Rightarrow> match_descriptor" where
  "guest_descriptor c =
     \<lparr>md_room_id = po_room_id c, md_game_id = po_game_id c, md_local_user_id = po_guest_user_id c,
      md_peer_user_id = po_host_user_id c, md_role = Guest, md_transport = DirectUdp,
      md_local_endpoint = po_guest_endpoint c, md_peer_endpoint = po_host_endpoint c,
      md_input_delay_frames = po_input_delay_frames c\<rparr>"

definition build_report ::
    "instant \<Rightarrow> string \<Rightarrow> string \<Rightarrow> string \<Rightarrow> string \<Rightarrow> peer_role \<Rightarrow> drive_outcome \<Rightarrow> u32 \<Rightarrow> match_report" where
  "build_report now room_id game_id platform user_agent role outcome elapsed_ms =
     \<lparr>rep_schema_version = 1, rep_exported_at = now,
      rep_room = \<lparr>mr_room_id = room_id, mr_game_id = game_id, mr_state = Finished\<rparr>,
      rep_probe =
        \<lparr>pr_role = (case role of Host \<Rightarrow> RoleHost | Guest \<Rightarrow> RoleGuest),
         pr_transport = TransportDirectUdp, pr_frames_sent = do_frames_sent outcome,
         pr_frames_received = do_frames_received outcome,
         pr_transcript_checksum = hex16 (do_checksum outcome), pr_elapsed_ms = elapsed_ms,
         pr_nat = Some MappingUnknown, pr_candidate = Some CandidateHost, pr_punch_attempts = Some 0\<rparr>,
      rep_client = \<lparr>cl_platform = platform, cl_user_agent = user_agent\<rparr>,
      rep_compatibility = Some
        \<lparr>co_adapter = ''retroarch_test'', co_emulator_version = Some ''1.0.0'',
         co_executable_sha256 = ''2a7066c2ccd88471c389b60fd5a868430edf65605448c42f86a9ca60dcbc8f55'',
         co_core_sha256 = ''a3b9dddd4ff1ac77db085cfff1c8302792506f7960ac8926d3f281d8fd16b5c6'',
         co_content_sha256 = ''5691c5aaff35e13a2fb2e863685b6d2f4c4a519656f67904f5271e4ba5804994''\<rparr>,
      rep_native_route = Some DirectLan\<rparr>"

text \<open>What the environment contributes to a run: clock readings, the package version, and the
  text of a verification error.\<close>

record proof_env =
  en_host_now :: instant
  en_guest_now :: instant
  en_host_elapsed :: u32
  en_guest_elapsed :: u32
  en_version :: string
  en_error_text :: "report_verification_error \<Rightarrow> string"

text \<open>\<open>run_proof\<close> after \<open>tokio::join!\<close>, given what the two sides returned.\<close>

definition run_proof ::
    "proof_env \<Rightarrow> proof_config \<Rightarrow> proof_error + drive_outcome \<Rightarrow> proof_error + drive_outcome \<Rightarrow>
     proof_error + proof_report" where
  "run_proof env c host_outcome guest_outcome =
     (case fst (mock_prepare_match [] (host_descriptor c)) of
        Inl e \<Rightarrow> Err (Preparation (adapter_error_str e))
      | Inr _ \<Rightarrow>
     (case fst (mock_prepare_match (snd (mock_prepare_match [] (host_descriptor c))) (guest_descriptor c)) of
        Inl e \<Rightarrow> Err (Preparation (adapter_error_str e))
      | Inr _ \<Rightarrow>
     (case host_outcome of
        Inl e \<Rightarrow> Err e
      | Inr host \<Rightarrow>
     (case guest_outcome of
        Inl e \<Rightarrow> Err e
      | Inr guest \<Rightarrow>
     (let user_agent = ''opencade-proof-of-match/'' @ en_version env;
          host_report = build_report (en_host_now env) (po_room_id c) (po_game_id c) (po_platform c)
            user_agent Host host (en_host_elapsed env);
          guest_report = build_report (en_guest_now env) (po_room_id c) (po_game_id c) (po_platform c)
            user_agent Guest guest (en_guest_elapsed env)
      in case verify_match_reports host_report guest_report of
           Inl e \<Rightarrow> Err (VerificationRejected (verification_error_code e) (en_error_text env e))
         | Inr v \<Rightarrow> Ok \<lparr>po_host = host_report, po_guest = guest_report, po_verification = v\<rparr>)))))"

section \<open>The joint run\<close>

record drive_pair =
  dp_host :: drive_state
  dp_guest :: drive_state
  dp_channels :: pair_state

inductive drive_pair_step :: "proof_config \<Rightarrow> drive_pair \<Rightarrow> drive_pair \<Rightarrow> bool" for c :: proof_config where
  drive_host: "drive_step Host (po_host_user_id c) ev (dp_host s) (peer_view SideA (dp_channels s)) = (h, v) \<Longrightarrow>
    drive_pair_step c s (s\<lparr>dp_host := h, dp_channels := put_view SideA v\<rparr>)"
| drive_guest: "drive_step Guest (po_guest_user_id c) ev (dp_guest s) (peer_view SideB (dp_channels s)) = (g, v) \<Longrightarrow>
    drive_pair_step c s (s\<lparr>dp_guest := g, dp_channels := put_view SideB v\<rparr>)"

definition drive_pair_init :: "proof_config \<Rightarrow> drive_pair" where
  "drive_pair_init c =
     (let (h, v) = drive_start Host (po_host_user_id c) (peer_view SideA in_memory_pair);
          (g, w) = drive_start Guest (po_guest_user_id c) (peer_view SideB (put_view SideA v))
      in \<lparr>dp_host = h, dp_guest = g, dp_channels = put_view SideB w\<rparr>)"

text \<open>What one side keeps true about itself and its outbound channel.\<close>

definition honest_frames :: "string \<Rightarrow> peer_role \<Rightarrow> input_frame list \<Rightarrow> bool" where
  "honest_frames p r fs \<longleftrightarrow> (\<forall>f \<in> set fs. \<exists>n. f = expected_frame p r n \<and> unat n < 60)"

definition drive_ok :: "drive_state \<Rightarrow> bool" where
  "drive_ok s \<longleftrightarrow> ds_checksum s = transcript (unat (ds_frame s)) \<and> unat (ds_frame s) \<le> 60
     \<and> unat (ds_frames_received s) = unat (ds_frame s)
     \<and> (ds_phase s = Driving \<longrightarrow> unat (ds_frame s) < 60 \<and> unat (ds_frame s) < ds_frames_sent s)
     \<and> (ds_phase s = Drove \<longrightarrow> unat (ds_frame s) = 60 \<and> 60 \<le> ds_frames_sent s)"

text \<open>What a step of one side does to its view: the frames it queues are its own, and it only
  consumes from its inbound queue.\<close>

definition view_ok :: "string \<Rightarrow> peer_role \<Rightarrow> in_memory_peer \<Rightarrow> in_memory_peer \<Rightarrow> bool" where
  "view_ok p r v w \<longleftrightarrow> set (ch_items (im_inbound w)) \<subseteq> set (ch_items (im_inbound v))
     \<and> (honest_frames p r (ch_items (im_outbound v)) \<longrightarrow> honest_frames p r (ch_items (im_outbound w)))"

lemma honest_append [simp]:
  "honest_frames p r (xs @ ys) \<longleftrightarrow> honest_frames p r xs \<and> honest_frames p r ys"
  "honest_frames p r []"
  "honest_frames p r (x # xs) \<longleftrightarrow> (\<exists>n. x = expected_frame p r n \<and> unat n < 60) \<and> honest_frames p r xs"
  by (auto simp: honest_frames_def)

lemma honest_subset: "honest_frames p r xs \<Longrightarrow> set ys \<subseteq> set xs \<Longrightarrow> honest_frames p r ys"
  by (auto simp: honest_frames_def)

lemma pm_frame_expected:
  "\<not> is_blank p \<Longrightarrow> unat n < 60 \<Longrightarrow> pm_deterministic_frame n p r = Ok (expected_frame p r n)"
  by (simp add: pm_frame_eq deterministic_frame_expected)

lemma peer_try_send_ok:
  "peer_try_send v f = Ok w \<Longrightarrow>
     im_inbound w = im_inbound v \<and> ch_items (im_outbound w) = ch_items (im_outbound v) @ [f]"
  by (auto simp: peer_try_send_def channel_try_send_def split: if_splits)

lemma honest_expected [simp]:
  "unat n < 60 \<Longrightarrow> \<exists>m. expected_frame p r n = expected_frame p r m \<and> unat m < 60"
  by blast

lemma drive_send_ok:
  assumes "\<not> is_blank p" "unat n < 60" "drive_send (pm_deterministic_frame n p r) s v = (s', w)"
  shows "view_ok p r v w \<and> ((\<exists>e. s' = s\<lparr>ds_phase := DriveFailed e\<rparr>) \<or> s' = s\<lparr>ds_frames_sent := ds_frames_sent s + 1\<rparr>)"
proof (cases "peer_try_send v (expected_frame p r n)")
  case (Inl e)
  with assms(3) pm_frame_expected [OF assms(1,2), of r] show ?thesis
    by (auto simp: drive_send_def view_ok_def)
next
  case (Inr w')
  with assms(3) pm_frame_expected [OF assms(1,2), of r] peer_try_send_ok [OF Inr] assms(2)
  show ?thesis by (auto simp: drive_send_def view_ok_def)
qed

lemma drive_ok_failed: "drive_ok s \<Longrightarrow> drive_ok (s\<lparr>ds_phase := DriveFailed e\<rparr>)"
  by (simp add: drive_ok_def)

lemma drive_ok_sent: "drive_ok s \<Longrightarrow> drive_ok (s\<lparr>ds_frames_sent := ds_frames_sent s + 1\<rparr>)"
  by (auto simp: drive_ok_def)

lemma drive_send_keeps:
  assumes "\<not> is_blank p" "unat n < 60" "drive_ok s" "drive_send (pm_deterministic_frame n p r) s v = (s', w)"
  shows "drive_ok s' \<and> view_ok p r v w"
  using drive_send_ok [OF assms(1,2,4)] drive_ok_failed [OF assms(3)] drive_ok_sent [OF assms(3)] by auto

lemma drive_begin_keeps:
  assumes p: "\<not> is_blank p" and step: "drive_begin r p s v = (s', w)"
    and s: "ds_phase s = Driving" "ds_checksum s = transcript (unat (ds_frame s))" "unat (ds_frame s) \<le> 60"
      "unat (ds_frames_received s) = unat (ds_frame s)" "unat (ds_frame s) \<le> ds_frames_sent s"
  shows "drive_ok s' \<and> view_ok p r v w"
proof (cases "unat (ds_frame s) < 60")
  case True
  with step have "drive_send (pm_deterministic_frame (ds_frame s) p r) s v = (s', w)"
    by (simp add: drive_begin_def PROOF_FRAMES_def word_less_nat_alt)
  from drive_send_ok [OF p True this] True s show ?thesis
    by (auto simp: drive_ok_def)
next
  case False
  with step s show ?thesis
    by (auto simp: drive_begin_def PROOF_FRAMES_def word_less_nat_alt drive_ok_def view_ok_def)
qed

lemma peer_receive_cases:
  "peer_receive v = Some (r, w) \<Longrightarrow>
     im_outbound w = im_outbound v
     \<and> (case r of
          Inr f \<Rightarrow> ch_items (im_inbound v) = f # ch_items (im_inbound w)
        | Inl e \<Rightarrow> e = Closed \<and> ch_items (im_inbound w) = ch_items (im_inbound v))"
  by (auto simp: peer_receive_def channel_recv_def ok_or_def split: list.splits if_splits)

definition other_role :: "peer_role \<Rightarrow> peer_role" where
  "other_role r = (case r of Host \<Rightarrow> Guest | Guest \<Rightarrow> Host)"

lemma drive_match_update:
  "pm_update_transcript_checksum r (expected_frame p r n) (expected_frame q (other_role r) n)
     (transcript (unat n)) = transcript (Suc (unat n))"
  by (cases r) (simp_all add: other_role_def pm_update_eq update_expected)

lemma view_ok_receive:
  "im_outbound w = im_outbound v \<Longrightarrow> set (ch_items (im_inbound w)) \<subseteq> set (ch_items (im_inbound v)) \<Longrightarrow>
   view_ok p r w u \<Longrightarrow> view_ok p r v u"
  by (auto simp: view_ok_def)

lemma drive_step_keeps:
  assumes p: "\<not> is_blank p" and s: "drive_ok s"
    and inb: "honest_frames q (other_role r) (ch_items (im_inbound v))"
    and step: "drive_step r p ev s v = (s', w)"
  shows "drive_ok s' \<and> view_ok p r v w"
proof (cases "ds_phase s = Driving")
  case False
  with step s show ?thesis by (simp add: drive_step_def view_ok_def)
next
  case True
  then have n: "unat (ds_frame s) < 60" using s by (simp add: drive_ok_def)
  note frame = pm_frame_expected [OF p n, of r]
  show ?thesis
  proof (cases ev)
    case DriveDeadline
    with True step drive_ok_failed [OF s] show ?thesis
      by (auto simp: drive_step_def Let_def view_ok_def)
  next
    case DriveSilence
    with True step drive_send_keeps [OF p n s] show ?thesis
      by (simp add: drive_step_def Let_def)
  next
    case DriveReceive
    show ?thesis
    proof (cases "peer_receive v")
      case None
      with True DriveReceive step s show ?thesis by (simp add: drive_step_def Let_def view_ok_def)
    next
      case (Some x)
      obtain res u where x: "x = (res, u)" by (cases x)
      from peer_receive_cases [OF Some [unfolded x]] have out: "im_outbound u = im_outbound v"
        and sub: "set (ch_items (im_inbound u)) \<subseteq> set (ch_items (im_inbound v))"
        by (auto split: sum.splits)
      show ?thesis
      proof (cases res)
        case (Inl e)
        with True DriveReceive Some x step drive_ok_failed [OF s] out sub show ?thesis
          by (auto simp: drive_step_def Let_def view_ok_def)
      next
        case (Inr f)
        with peer_receive_cases [OF Some [unfolded x]] inb
        obtain m where f: "f = expected_frame q (other_role r) m" and m: "unat m < 60" by auto
        have fm: "if_frame f = m" by (simp add: f expected_frame_def)
        consider (old) "m < ds_frame s" | (new) "m > ds_frame s" | (same) "m = ds_frame s"
          by fastforce
        then have "drive_ok s' \<and> view_ok p r u w"
        proof cases
          case old
          with True DriveReceive Some x Inr step fm drive_send_keeps [OF p m s] show ?thesis
            by (simp add: drive_step_def Let_def)
        next
          case new
          then have "\<not> m < ds_frame s" by simp
          with new True DriveReceive Some x Inr step fm drive_send_keeps [OF p n s] show ?thesis
            by (simp add: drive_step_def Let_def)
        next
          case same
          let ?s = "s\<lparr>ds_checksum := transcript (Suc (unat (ds_frame s))),
             ds_frames_received := ds_frames_received s + 1, ds_frame := ds_frame s + 1\<rparr>"
          have "drive_begin r p ?s u = (s', w)"
            using True DriveReceive Some x Inr step fm same frame f s drive_match_update [of r p "ds_frame s" q]
            by (simp add: drive_step_def Let_def drive_ok_def)
          moreover have nx: "unat (ds_frame s + 1) = Suc (unat (ds_frame s))"
            using n by (subst unat_add_lem [THEN iffD1]) simp_all
          moreover have "unat (ds_frames_received s + 1) = Suc (unat (ds_frames_received s))"
            using n s by (subst unat_add_lem [THEN iffD1]) (simp_all add: drive_ok_def)
          ultimately show ?thesis
            using p n s True by (intro drive_begin_keeps [of p r ?s]) (auto simp: drive_ok_def)
        qed
        with out sub show ?thesis by (blast intro: view_ok_receive)
      qed
    qed
  qed
qed

definition wf_players :: "proof_config \<Rightarrow> bool" where
  "wf_players c \<longleftrightarrow> \<not> is_blank (po_host_user_id c) \<and> \<not> is_blank (po_guest_user_id c)"

definition drive_pair_inv :: "proof_config \<Rightarrow> drive_pair \<Rightarrow> bool" where
  "drive_pair_inv c s \<longleftrightarrow> wf_players c \<and> drive_ok (dp_host s) \<and> drive_ok (dp_guest s)
     \<and> honest_frames (po_host_user_id c) Host (ch_items (a_to_b (dp_channels s)))
     \<and> honest_frames (po_guest_user_id c) Guest (ch_items (b_to_a (dp_channels s)))"

lemma view_channels [simp]:
  "im_outbound (peer_view SideA p) = a_to_b p" "im_inbound (peer_view SideA p) = b_to_a p"
  "im_outbound (peer_view SideB p) = b_to_a p" "im_inbound (peer_view SideB p) = a_to_b p"
  "a_to_b (put_view SideA v) = im_outbound v" "b_to_a (put_view SideA v) = im_inbound v"
  "a_to_b (put_view SideB v) = im_inbound v" "b_to_a (put_view SideB v) = im_outbound v"
  by (simp_all add: peer_view_def put_view_def)

lemma other_role_simps [simp]: "other_role Host = Guest" "other_role Guest = Host"
  by (simp_all add: other_role_def)

lemma drive_pair_inv_step:
  assumes "drive_pair_inv c s" "drive_pair_step c s s'"
  shows "drive_pair_inv c s'"
  using assms(2)
proof cases
  case (drive_host ev h v)
  from assms(1) drive_step_keeps [of "po_host_user_id c" "dp_host s" "po_guest_user_id c" Host
      "peer_view SideA (dp_channels s)" ev h v] drive_host(2)
  have "drive_ok h \<and> view_ok (po_host_user_id c) Host (peer_view SideA (dp_channels s)) v"
    by (simp add: drive_pair_inv_def wf_players_def)
  with assms(1) drive_host(1) show ?thesis
    by (auto simp: drive_pair_inv_def view_ok_def intro: honest_subset)
next
  case (drive_guest ev g v)
  from assms(1) drive_step_keeps [of "po_guest_user_id c" "dp_guest s" "po_host_user_id c" Guest
      "peer_view SideB (dp_channels s)" ev g v] drive_guest(2)
  have "drive_ok g \<and> view_ok (po_guest_user_id c) Guest (peer_view SideB (dp_channels s)) v"
    by (simp add: drive_pair_inv_def wf_players_def)
  with assms(1) drive_guest(1) show ?thesis
    by (auto simp: drive_pair_inv_def view_ok_def intro: honest_subset)
qed

lemma drive_start_keeps:
  assumes "\<not> is_blank p" "drive_start r p v = (s, w)"
  shows "drive_ok s \<and> view_ok p r v w"
  using drive_begin_keeps [OF assms(1) assms(2) [unfolded drive_start_def]]
  by (simp add: transcript_0 pm_basis_eq)

lemma drive_pair_inv_init:
  assumes "wf_players c"
  shows "drive_pair_inv c (drive_pair_init c)"
proof -
  obtain h v where h: "drive_start Host (po_host_user_id c) (peer_view SideA in_memory_pair) = (h, v)"
    by fastforce
  obtain g w where g: "drive_start Guest (po_guest_user_id c) (peer_view SideB (put_view SideA v)) = (g, w)"
    by fastforce
  have items: "ch_items (a_to_b in_memory_pair) = []" "ch_items (b_to_a in_memory_pair) = []"
    by (simp_all add: in_memory_pair_def channel_new_def)
  from drive_start_keeps [OF _ h] drive_start_keeps [OF _ g] assms show ?thesis
    by (auto simp: drive_pair_init_def h g drive_pair_inv_def wf_players_def view_ok_def items
        intro: honest_subset)
qed

interpretation drive_pairs: invariant_system
  "\<lambda>s. wf_players c \<and> s = drive_pair_init c" "drive_pair_step c" "drive_pair_inv c" for c
  by unfold_locales (auto intro: drive_pair_inv_init drive_pair_inv_step)

text \<open>The states of a run of \<open>c\<close>.\<close>

definition drive_reachable :: "proof_config \<Rightarrow> drive_pair \<Rightarrow> bool" where
  "drive_reachable c s \<longleftrightarrow> (drive_pair_step c)\<^sup>*\<^sup>* (drive_pair_init c) s"

lemma drive_reachable_inv: "wf_players c \<Longrightarrow> drive_reachable c s \<Longrightarrow> drive_pair_inv c s"
  unfolding drive_reachable_def using drive_pair_inv_init drive_pairs.steps_inv by blast

section \<open>The evidence always verifies\<close>

lemma sha_literals:
  "valid_sha256 ''2a7066c2ccd88471c389b60fd5a868430edf65605448c42f86a9ca60dcbc8f55''"
  "valid_sha256 ''a3b9dddd4ff1ac77db085cfff1c8302792506f7960ac8926d3f281d8fd16b5c6''"
  "valid_sha256 ''5691c5aaff35e13a2fb2e863685b6d2f4c4a519656f67904f5271e4ba5804994''"
  by code_simp+

definition sixty_outcome :: "u32 \<Rightarrow> drive_outcome" where
  "sixty_outcome sent = \<lparr>do_frames_sent = sent, do_frames_received = 60, do_checksum = transcript 60\<rparr>"

lemma drive_ok_result:
  assumes "drive_ok s" "drive_result s = Some (Ok d)" "ds_frames_sent s < 2 ^ 32"
  shows "\<exists>sent. 60 \<le> sent \<and> d = sixty_outcome sent"
proof -
  from assms(1,2) have s: "unat (ds_frame s) = 60" "60 \<le> ds_frames_sent s"
      "ds_checksum s = transcript 60" "unat (ds_frames_received s) = 60"
      "d = \<lparr>do_frames_sent = of_nat (ds_frames_sent s), do_frames_received = ds_frames_received s,
            do_checksum = ds_checksum s\<rparr>"
    by (auto simp: drive_result_def drive_ok_def split: drive_phase.splits)
  have "ds_frames_received s = 60" using s(4) by (simp add: word_unat_eq_iff)
  moreover have "(60 :: u32) \<le> of_nat (ds_frames_sent s)"
    using s(2) assms(3) by (simp add: word_le_nat_alt unat_of_nat)
  ultimately show ?thesis using s by (auto simp: sixty_outcome_def)
qed

lemma built_report_valid:
  assumes "\<not> is_blank room" "\<not> is_blank game" "60 \<le> sent"
  shows "valid_report (build_report now room game platform agent r (sixty_outcome sent) e)"
  using assms hex16_lower_hex
  by (auto simp: valid_report_iff build_report_def sixty_outcome_def sha_literals list_all_iff
      is_blank_graphic graphic_def)

lemma built_reports_correspond:
  "corresponding (build_report now room game platform agent Host (sixty_outcome sent) e)
     (build_report now' room game platform agent Guest (sixty_outcome sent') e')"
  by (auto simp: corresponding_def build_report_def sixty_outcome_def)

section \<open>A run that completes\<close>

lemma receive_match:
  assumes p: "\<not> is_blank p" and s: "ds_phase s = Driving" "ds_frame s = n" "unat n < 60"
    and inb: "ch_items (im_inbound v) = expected_frame q r' n # rest"
    and out: "ch_receiver (im_outbound v)" "length (ch_items (im_outbound v)) < ch_capacity (im_outbound v)"
  shows "\<exists>s' w. drive_step r p DriveReceive s v = (s', w) \<and> ds_frame s' = n + 1
    \<and> im_inbound w = (im_inbound v)\<lparr>ch_items := rest\<rparr>
    \<and> (if unat n + 1 < 60
       then ds_phase s' = Driving \<and> ds_frames_sent s' = ds_frames_sent s + 1
            \<and> im_outbound w = (im_outbound v)\<lparr>ch_items := ch_items (im_outbound v) @ [expected_frame p r (n + 1)]\<rparr>
       else ds_phase s' = Drove \<and> ds_frames_sent s' = ds_frames_sent s \<and> im_outbound w = im_outbound v)"
proof -
  have nx: "unat (n + 1) = Suc (unat n)"
    using s(3) by (subst unat_add_lem [THEN iffD1]) simp_all
  have rc: "peer_receive v = Some (Ok (expected_frame q r' n), v\<lparr>im_inbound := (im_inbound v)\<lparr>ch_items := rest\<rparr>\<rparr>)"
    using inb by (simp add: peer_receive_def channel_recv_def)
  have fn: "if_frame (expected_frame q r' n) = n" by (simp add: expected_frame_def)
  show ?thesis
  proof (cases "unat n + 1 < 60")
    case True
    then have "pm_deterministic_frame (n + 1) p r = Ok (expected_frame p r (n + 1))"
      using p nx by (intro pm_frame_expected) simp_all
    with True s out pm_frame_expected [OF p s(3), of r] nx show ?thesis
      by (simp add: drive_step_def Let_def rc fn drive_begin_def PROOF_FRAMES_def word_less_nat_alt
          drive_send_def peer_try_send_def channel_try_send_def)
  next
    case False
    with s pm_frame_expected [OF p s(3), of r] nx show ?thesis
      by (simp add: drive_step_def Let_def rc fn drive_begin_def PROOF_FRAMES_def word_less_nat_alt)
  qed
qed

text \<open>Both sides wait for frame \<open>n\<close>, and each has it in its inbound queue.\<close>

definition in_lockstep :: "proof_config \<Rightarrow> nat \<Rightarrow> drive_pair \<Rightarrow> bool" where
  "in_lockstep c n s \<longleftrightarrow>
     ds_phase (dp_host s) = Driving \<and> ds_frame (dp_host s) = of_nat n \<and> ds_frames_sent (dp_host s) = n + 1
     \<and> ds_phase (dp_guest s) = Driving \<and> ds_frame (dp_guest s) = of_nat n \<and> ds_frames_sent (dp_guest s) = n + 1
     \<and> a_to_b (dp_channels s) = (channel_new 120)\<lparr>ch_items := [expected_frame (po_host_user_id c) Host (of_nat n)]\<rparr>
     \<and> b_to_a (dp_channels s) = (channel_new 120)\<lparr>ch_items := [expected_frame (po_guest_user_id c) Guest (of_nat n)]\<rparr>"

lemma in_lockstep_init:
  assumes "wf_players c"
  shows "in_lockstep c 0 (drive_pair_init c)"
proof -
  have "pm_deterministic_frame 0 (po_host_user_id c) Host = Ok (expected_frame (po_host_user_id c) Host 0)"
    "pm_deterministic_frame 0 (po_guest_user_id c) Guest = Ok (expected_frame (po_guest_user_id c) Guest 0)"
    using assms by (simp_all add: wf_players_def pm_frame_expected)
  then show ?thesis
    by (simp add: in_lockstep_def drive_pair_init_def drive_start_def drive_begin_def PROOF_FRAMES_def
        drive_send_def peer_try_send_def channel_try_send_def in_memory_pair_def channel_new_def
        INPUT_QUEUE_CAPACITY_def)
qed

lemma lockstep_round:
  assumes c: "wf_players c" and l: "in_lockstep c n s" and n: "n < 60"
  shows "\<exists>s'. (drive_pair_step c)\<^sup>*\<^sup>* s s'
    \<and> (if n + 1 < 60 then in_lockstep c (n + 1) s'
       else ds_phase (dp_host s') = Drove \<and> ds_phase (dp_guest s') = Drove
            \<and> ds_frames_sent (dp_host s') = 60 \<and> ds_frames_sent (dp_guest s') = 60)"
proof -
  have un: "unat (of_nat n :: u64) = n" using n by (simp add: unat_of_nat)
  note l' = l [unfolded in_lockstep_def]
  have ph: "\<not> is_blank (po_host_user_id c)" "\<not> is_blank (po_guest_user_id c)"
    and un60: "unat (of_nat n :: u64) < 60"
    and chan: "ch_receiver (a_to_b (dp_channels s))" "ch_receiver (b_to_a (dp_channels s))"
      "length (ch_items (a_to_b (dp_channels s))) < ch_capacity (a_to_b (dp_channels s))"
      "ch_items (b_to_a (dp_channels s)) = [expected_frame (po_guest_user_id c) Guest (of_nat n)]"
      "ch_capacity (b_to_a (dp_channels s)) = 120"
    using c l' n un by (simp_all add: wf_players_def channel_new_def)
  from receive_match [OF ph(1), of "dp_host s" "of_nat n" "peer_view SideA (dp_channels s)", unfolded un view_channels,
      OF _ _ n chan(4) chan(1) chan(3), of Host] l'
  obtain h v where h: "drive_step Host (po_host_user_id c) DriveReceive (dp_host s) (peer_view SideA (dp_channels s)) = (h, v)"
    "ds_frame h = of_nat n + 1" "im_inbound v = (b_to_a (dp_channels s))\<lparr>ch_items := []\<rparr>"
    "if n + 1 < 60
     then ds_phase h = Driving \<and> ds_frames_sent h = ds_frames_sent (dp_host s) + 1
          \<and> im_outbound v = (a_to_b (dp_channels s))\<lparr>ch_items := ch_items (a_to_b (dp_channels s))
                 @ [expected_frame (po_host_user_id c) Host (of_nat n + 1)]\<rparr>
     else ds_phase h = Drove \<and> ds_frames_sent h = ds_frames_sent (dp_host s) \<and> im_outbound v = a_to_b (dp_channels s)"
    by blast
  define s1 where "s1 = s\<lparr>dp_host := h, dp_channels := put_view SideA v\<rparr>"
  have step1: "drive_pair_step c s s1" unfolding s1_def by (rule drive_pair_step.drive_host [OF h(1)])
  have in1: "ch_items (a_to_b (dp_channels s1)) = expected_frame (po_host_user_id c) Host (of_nat n)
      # (if n + 1 < 60 then [expected_frame (po_host_user_id c) Host (of_nat n + 1)] else [])"
    using h(4) l' by (auto simp: s1_def)
  have out1: "ch_receiver (b_to_a (dp_channels s1))"
      "length (ch_items (b_to_a (dp_channels s1))) < ch_capacity (b_to_a (dp_channels s1))"
      "ds_phase (dp_guest s1) = Driving" "ds_frame (dp_guest s1) = of_nat n"
    using h(3) chan l' by (simp_all add: s1_def)
  from receive_match [OF ph(2) out1(3,4), of "peer_view SideB (dp_channels s1)", unfolded un view_channels,
      OF n in1 out1(1,2), of Guest]
  obtain g w where g: "drive_step Guest (po_guest_user_id c) DriveReceive (dp_guest s1) (peer_view SideB (dp_channels s1)) = (g, w)"
    "ds_frame g = of_nat n + 1"
    "im_inbound w = (a_to_b (dp_channels s1))\<lparr>ch_items :=
          (if n + 1 < 60 then [expected_frame (po_host_user_id c) Host (of_nat n + 1)] else [])\<rparr>"
    "if n + 1 < 60
     then ds_phase g = Driving \<and> ds_frames_sent g = ds_frames_sent (dp_guest s1) + 1
          \<and> im_outbound w = (b_to_a (dp_channels s1))\<lparr>ch_items := ch_items (b_to_a (dp_channels s1))
                 @ [expected_frame (po_guest_user_id c) Guest (of_nat n + 1)]\<rparr>
     else ds_phase g = Drove \<and> ds_frames_sent g = ds_frames_sent (dp_guest s1) \<and> im_outbound w = b_to_a (dp_channels s1)"
    by blast
  define s2 where "s2 = s1\<lparr>dp_guest := g, dp_channels := put_view SideB w\<rparr>"
  have "drive_pair_step c s1 s2" unfolding s2_def by (rule drive_pair_step.drive_guest [OF g(1)])
  with step1 have "(drive_pair_step c)\<^sup>*\<^sup>* s s2"
    by (meson converse_rtranclp_into_rtranclp r_into_rtranclp)
  moreover have "if n + 1 < 60 then in_lockstep c (n + 1) s2
       else ds_phase (dp_host s2) = Drove \<and> ds_phase (dp_guest s2) = Drove
            \<and> ds_frames_sent (dp_host s2) = 60 \<and> ds_frames_sent (dp_guest s2) = 60"
    using h(2,3,4) g(2,3,4) l' n
    by (auto simp: s2_def s1_def in_lockstep_def channel_new_def add.commute)
  ultimately show ?thesis by blast
qed

lemma lockstep_reachable:
  "wf_players c \<Longrightarrow> n < 60 \<Longrightarrow> \<exists>s. drive_reachable c s \<and> in_lockstep c n s"
proof (induction n)
  case 0
  then show ?case using in_lockstep_init unfolding drive_reachable_def by blast
next
  case (Suc n)
  then obtain s where s: "drive_reachable c s" "in_lockstep c n s" by auto
  from lockstep_round [OF Suc.prems(1) s(2)] Suc.prems(2)
  obtain s' where "(drive_pair_step c)\<^sup>*\<^sup>* s s'" "in_lockstep c (Suc n) s'" by auto
  with s(1) show ?case unfolding drive_reachable_def by (meson rtranclp_trans)
qed

lemma proof_can_complete:
  assumes "wf_players c"
  shows "\<exists>s h g. drive_reachable c s \<and> drive_result (dp_host s) = Some (Ok h)
    \<and> drive_result (dp_guest s) = Some (Ok g)
    \<and> ds_frames_sent (dp_host s) = 60 \<and> ds_frames_sent (dp_guest s) = 60"
proof -
  from lockstep_reachable [OF assms, of 59] obtain s where
    s: "drive_reachable c s" "in_lockstep c 59 s" by auto
  from lockstep_round [OF assms s(2)] obtain s' where "(drive_pair_step c)\<^sup>*\<^sup>* s s'"
    "ds_phase (dp_host s') = Drove" "ds_phase (dp_guest s') = Drove"
    "ds_frames_sent (dp_host s') = 60" "ds_frames_sent (dp_guest s') = 60" by auto
  with s(1) show ?thesis
    unfolding drive_reachable_def
    by (intro exI [of _ s'] exI conjI) (auto simp: drive_result_def)
qed

text \<open>C10 A completed proof of match always produces accepted evidence: for a configuration whose
  descriptors validate, in every interleaving of the two sides in which both drive functions
  return successfully with fewer than \<open>2^32\<close> sends, the run ends with two reports that
  the verifier and the stricter playable verifier accept, for the configured room and game,
  with the checksum of sixty rounds.\<close>

theorem proof_evidence_verifies:
  assumes "descriptor_validate (host_descriptor c) = Ok ()"
    and "drive_reachable c s"
    and "drive_result (dp_host s) = Some (Ok h)" "drive_result (dp_guest s) = Some (Ok g)"
    and "ds_frames_sent (dp_host s) < 2 ^ 32" "ds_frames_sent (dp_guest s) < 2 ^ 32"
  shows "\<exists>rep. run_proof env c (Ok h) (Ok g) = Ok rep
    \<and> verify_match_reports (po_host rep) (po_guest rep) = Ok (po_verification rep)
    \<and> verify_playable_match_reports (po_host rep) (po_guest rep) = Ok (po_verification rep)
    \<and> mv_room_id (po_verification rep) = po_room_id c \<and> mv_game_id (po_verification rep) = po_game_id c
    \<and> mv_transcript_checksum (po_verification rep) = ''80896395aaa3d09d''"
proof -
  have wf: "wf_players c" "\<not> is_blank (po_room_id c)" "\<not> is_blank (po_game_id c)"
    and gd: "descriptor_validate (guest_descriptor c) = Ok ()"
    using assms(1)
    by (auto simp: descriptor_validate_ok host_descriptor_def guest_descriptor_def wf_players_def)
  from drive_reachable_inv [OF wf(1) assms(2)] have inv: "drive_ok (dp_host s)" "drive_ok (dp_guest s)"
    by (simp_all add: drive_pair_inv_def)
  from drive_ok_result [OF inv(1) assms(3,5)] obtain hs where h: "60 \<le> hs" "h = sixty_outcome hs" by blast
  from drive_ok_result [OF inv(2) assms(4,6)] obtain gs where g: "60 \<le> gs" "g = sixty_outcome gs" by blast
  define agent where "agent = ''opencade-proof-of-match/'' @ en_version env"
  define hr where "hr = build_report (en_host_now env) (po_room_id c) (po_game_id c) (po_platform c)
      agent Host (sixty_outcome hs) (en_host_elapsed env)"
  define gr where "gr = build_report (en_guest_now env) (po_room_id c) (po_game_id c) (po_platform c)
      agent Guest (sixty_outcome gs) (en_guest_elapsed env)"
  have "valid_report hr" "valid_report gr" "corresponding hr gr"
    unfolding hr_def gr_def using wf h(1) g(1)
    by (auto intro: built_report_valid built_reports_correspond)
  then have v: "verify_match_reports hr gr = Ok (verification_of hr)"
    using verify_ok_iff by blast
  then have p: "verify_playable_match_reports hr gr = Ok (verification_of hr)"
    by (simp add: playable_ok_iff) (simp add: hr_def build_report_def)
  have "mv_transcript_checksum (verification_of hr) = ''80896395aaa3d09d''"
    by (simp add: verification_of_def hr_def build_report_def sixty_outcome_def transcript_of_sixty_rounds)
  moreover have "run_proof env c (Ok h) (Ok g)
      = Ok \<lparr>po_host = hr, po_guest = gr, po_verification = verification_of hr\<rparr>"
    using v assms(1) gd
    by (simp add: run_proof_def mock_prepare_match_def h g Let_def hr_def gr_def agent_def)
  ultimately show ?thesis
    using v p by (intro exI conjI) (assumption, simp_all add: verification_of_def hr_def build_report_def)
qed

definition demo_proof :: proof_config where
  "demo_proof = \<lparr>po_room_id = ''room-1'', po_game_id = ''sfiii3'', po_host_user_id = ''host'',
     po_guest_user_id = ''guest'', po_host_endpoint = SocketAddr (V4 [127, 0, 0, 1]) 41000,
     po_guest_endpoint = SocketAddr (V4 [127, 0, 0, 1]) 41001, po_input_delay_frames = 2,
     po_platform = ''linux''\<rparr>"

definition demo_env :: proof_env where
  "demo_env = \<lparr>en_host_now = 0, en_guest_now = 1, en_host_elapsed = 12, en_guest_elapsed = 13,
     en_version = ''0.1.0'', en_error_text = verification_error_code\<rparr>"

theorem proof_evidence_verifies_witness:
  "\<exists>s h g rep. drive_reachable demo_proof s
     \<and> drive_result (dp_host s) = Some (Ok h) \<and> drive_result (dp_guest s) = Some (Ok g)
     \<and> run_proof demo_env demo_proof (Ok h) (Ok g) = Ok rep
     \<and> mv_transcript_checksum (po_verification rep) = ''80896395aaa3d09d''"
proof -
  have d: "descriptor_validate (host_descriptor demo_proof) = Ok ()"
    by (simp add: host_descriptor_def demo_proof_def descriptor_validate_ok is_blank_graphic graphic_def)
  have "wf_players demo_proof"
    by (simp add: wf_players_def demo_proof_def is_blank_graphic graphic_def)
  from proof_can_complete [OF this] obtain s h g where
    s: "drive_reachable demo_proof s" "drive_result (dp_host s) = Some (Ok h)"
      "drive_result (dp_guest s) = Some (Ok g)"
      "ds_frames_sent (dp_host s) = 60" "ds_frames_sent (dp_guest s) = 60" by blast
  have "ds_frames_sent (dp_host s) < 2 ^ 32" "ds_frames_sent (dp_guest s) < 2 ^ 32"
    using s(4,5) by simp_all
  from proof_evidence_verifies [OF d s(1,2,3) this, of demo_env] s show ?thesis by blast
qed

end
