(* ===== verification/Proof_Liveness.thy ===== *)
theory Proof_Liveness
  imports Proof_Of_Match
begin

text \<open>
  Progress of the proof-of-match run (\<open>crates/proof-of-match/src/lib.rs\<close>): while neither side's
  retry timer nor its deadline fires, every iteration that does something completes one round of
  one side, so the run ends after exactly 120 of them with both sides returning.  The invariant
  says where each side is in its loop and which frames each channel holds.
\<close>

section \<open>Rounds of one side\<close>

text \<open>The side with role \<open>r\<close> takes the next item of its inbound channel.\<close>

definition quiet_next :: "proof_config \<Rightarrow> peer_role \<Rightarrow> drive_pair \<Rightarrow> drive_pair" where
  "quiet_next c r s =
     (case r of
        Host \<Rightarrow>
          (let (h, v) = drive_step Host (po_host_user_id c) DriveReceive (dp_host s) (peer_view SideA (dp_channels s))
           in s\<lparr>dp_host := h, dp_channels := put_view SideA v\<rparr>)
      | Guest \<Rightarrow>
          (let (g, v) = drive_step Guest (po_guest_user_id c) DriveReceive (dp_guest s) (peer_view SideB (dp_channels s))
           in s\<lparr>dp_guest := g, dp_channels := put_view SideB v\<rparr>))"

inductive quiet_step :: "proof_config \<Rightarrow> drive_pair \<Rightarrow> drive_pair \<Rightarrow> bool" for c :: proof_config where
  quiet: "quiet_next c r s \<noteq> s \<Longrightarrow> quiet_step c s (quiet_next c r s)"

inductive_cases quiet_stepE: "quiet_step c s s'"
inductive_simps quiet_step_simps: "quiet_step c s s'"

lemma quiet_next_drive: "drive_pair_step c s (quiet_next c r s)"
  by (cases r) (auto simp: quiet_next_def split: prod.splits intro: drive_pair_step.intros)

lemma quiet_steps_reachable: "(quiet_step c ^^ n) (drive_pair_init c) s \<Longrightarrow> drive_reachable c s"
proof (induction n arbitrary: s)
  case 0
  then show ?case by (simp add: drive_reachable_def)
next
  case (Suc n)
  then obtain t where "drive_reachable c t" "quiet_step c t s" by auto
  then show ?case unfolding drive_reachable_def
    by (metis quiet_stepE quiet_next_drive rtranclp.rtrancl_into_rtrancl)
qed

definition side_at :: "nat \<Rightarrow> drive_state \<Rightarrow> bool" where
  "side_at m s \<longleftrightarrow> m \<le> 60 \<and> ds_frame s = of_nat m \<and> ds_frames_sent s = min (Suc m) 60
     \<and> ds_phase s = (if m < 60 then Driving else Drove)"

text \<open>The channel that holds the frames \<open>a\<close> to \<open>b - 1\<close> of a player.\<close>

definition frame_queue :: "string \<Rightarrow> peer_role \<Rightarrow> nat \<Rightarrow> nat \<Rightarrow> input_frame channel" where
  "frame_queue p r a b =
     (channel_new 120)\<lparr>ch_items := map (\<lambda>i. expected_frame p r (of_nat i)) [a..<b]\<rparr>"

lemma frame_queue_simps [simp]:
  "ch_items (frame_queue p r a b) = map (\<lambda>i. expected_frame p r (of_nat i)) [a..<b]"
  "ch_receiver (frame_queue p r a b)" "ch_sender (frame_queue p r a b)"
  "ch_capacity (frame_queue p r a b) = 120"
  by (simp_all add: frame_queue_def channel_new_def)

lemma frame_queue_pop:
  "a < b \<Longrightarrow> (frame_queue p r a b)\<lparr>ch_items := map (\<lambda>i. expected_frame p r (of_nat i)) [Suc a..<b]\<rparr>
     = frame_queue p r (Suc a) b"
  by (simp add: frame_queue_def)

lemma frame_queue_push:
  "a \<le> b \<Longrightarrow> (frame_queue p r a b)\<lparr>ch_items := ch_items (frame_queue p r a b) @ [expected_frame p r (of_nat b)]\<rparr>
     = frame_queue p r a (Suc b)"
  by (simp add: frame_queue_def)

lemma side_receive:
  assumes p: "\<not> is_blank p" and s: "side_at m s" and m: "m < 60" "m < k" "g \<le> Suc m" "m \<le> Suc g"
    and v: "im_inbound v = frame_queue q r' m k" "im_outbound v = frame_queue p r g (Suc m)"
  shows "\<exists>s' w. drive_step r p DriveReceive s v = (s', w) \<and> side_at (Suc m) s'
    \<and> im_inbound w = frame_queue q r' (Suc m) k
    \<and> im_outbound w = frame_queue p r g (min (Suc (Suc m)) 60)"
proof -
  have um: "unat (of_nat m :: u64) = m" using m(1) by (simp add: unat_of_nat)
  have n: "unat (of_nat m :: u64) < 60" using m(1) um by simp
  have ph: "ds_phase s = Driving" "ds_frame s = of_nat m" "ds_frames_sent s = Suc m"
    using s m(1) by (simp_all add: side_at_def)
  have inb: "ch_items (im_inbound v) = expected_frame q r' (of_nat m)
      # map (\<lambda>i. expected_frame q r' (of_nat i)) [Suc m..<k]"
    using m(2) by (simp add: v upt_conv_Cons)
  have out: "ch_receiver (im_outbound v)" "length (ch_items (im_outbound v)) < ch_capacity (im_outbound v)"
    using m(1) by (auto simp: v)
  have push: "(frame_queue p r g (Suc m))\<lparr>ch_items := ch_items (frame_queue p r g (Suc m))
      @ [expected_frame p r (of_nat m + 1)]\<rparr> = frame_queue p r g (Suc (Suc m))"
    using frame_queue_push [OF m(3), of p r] by (simp add: add.commute)
  from receive_match [OF p ph(1,2) n inb out, of r] obtain s' w where
    w: "drive_step r p DriveReceive s v = (s', w)" "ds_frame s' = of_nat m + 1"
      "im_inbound w = frame_queue q r' (Suc m) k"
      "if m + 1 < 60 then ds_phase s' = Driving \<and> ds_frames_sent s' = Suc (Suc m)
         \<and> im_outbound w = frame_queue p r g (Suc (Suc m))
       else ds_phase s' = Drove \<and> ds_frames_sent s' = Suc m \<and> im_outbound w = frame_queue p r g (Suc m)"
    unfolding um v ph(3) push frame_queue_pop [OF m(2)] by auto
  moreover have "m < 59 \<or> m = 59" using m(1) by auto
  ultimately have "side_at (Suc m) s'" "im_outbound w = frame_queue p r g (min (Suc (Suc m)) 60)"
    by (auto simp: side_at_def add.commute)
  with w(1,3) show ?thesis by blast
qed

lemma side_idle:
  assumes "side_at m s" "m = 60 \<or> k \<le> m" "im_inbound v = frame_queue q r' m k"
  shows "drive_step r p DriveReceive s v = (s, v)"
  using assms by (auto simp: drive_step_def side_at_def Let_def peer_receive_def channel_recv_def)

section \<open>The two sides\<close>

text \<open>The host has completed \<open>h\<close> rounds, the guest \<open>g\<close>, and each channel holds the frames its
  sender has queued and its receiver has not taken.\<close>

definition rounds_at :: "proof_config \<Rightarrow> nat \<Rightarrow> nat \<Rightarrow> drive_pair \<Rightarrow> bool" where
  "rounds_at c h g s \<longleftrightarrow> side_at h (dp_host s) \<and> side_at g (dp_guest s) \<and> h \<le> Suc g \<and> g \<le> Suc h
     \<and> a_to_b (dp_channels s) = frame_queue (po_host_user_id c) Host g (min (Suc h) 60)
     \<and> b_to_a (dp_channels s) = frame_queue (po_guest_user_id c) Guest h (min (Suc g) 60)"

lemma rounds_at_init: "wf_players c \<Longrightarrow> rounds_at c 0 0 (drive_pair_init c)"
  using in_lockstep_init [of c]
  by (simp add: in_lockstep_def rounds_at_def side_at_def frame_queue_def)

lemma put_peer_view [simp]: "put_view sd (peer_view sd ch) = ch"
  by (cases sd) (simp_all add: put_view_def peer_view_def)

lemma quiet_host:
  assumes c: "wf_players c" and s: "rounds_at c h g s"
  shows "if h < 60 \<and> h \<le> g then rounds_at c (Suc h) g (quiet_next c Host s) else quiet_next c Host s = s"
proof (cases "h < 60 \<and> h \<le> g")
  case True
  have p: "\<not> is_blank (po_host_user_id c)" using c by (simp add: wf_players_def)
  have m: "h < 60" "h < min (Suc g) 60" "g \<le> Suc h" "h \<le> Suc g"
    and hs: "side_at h (dp_host s)"
    and q: "im_inbound (peer_view SideA (dp_channels s)) = frame_queue (po_guest_user_id c) Guest h (min (Suc g) 60)"
      "im_outbound (peer_view SideA (dp_channels s)) = frame_queue (po_host_user_id c) Host g (Suc h)"
    using s True by (auto simp: rounds_at_def)
  from side_receive [OF p hs m q] obtain h' v where "drive_step Host (po_host_user_id c) DriveReceive (dp_host s)
        (peer_view SideA (dp_channels s)) = (h', v)"
      "side_at (Suc h) h'" "im_inbound v = frame_queue (po_guest_user_id c) Guest (Suc h) (min (Suc g) 60)"
      "im_outbound v = frame_queue (po_host_user_id c) Host g (min (Suc (Suc h)) 60)"
    by blast
  with s True show ?thesis by (simp add: rounds_at_def quiet_next_def)
next
  case False
  then have "h = 60 \<or> min (Suc g) 60 \<le> h" using s by (auto simp: rounds_at_def side_at_def)
  with s have "drive_step Host (po_host_user_id c) DriveReceive (dp_host s)
      (peer_view SideA (dp_channels s)) = (dp_host s, peer_view SideA (dp_channels s))"
    by (intro side_idle [of h _ "min (Suc g) 60" _ "po_guest_user_id c" Guest]) (simp_all add: rounds_at_def)
  with False show ?thesis by (auto simp: quiet_next_def)
qed

lemma quiet_guest:
  assumes c: "wf_players c" and s: "rounds_at c h g s"
  shows "if g < 60 \<and> g \<le> h then rounds_at c h (Suc g) (quiet_next c Guest s) else quiet_next c Guest s = s"
proof (cases "g < 60 \<and> g \<le> h")
  case True
  have p: "\<not> is_blank (po_guest_user_id c)" using c by (simp add: wf_players_def)
  have m: "g < 60" "g < min (Suc h) 60" "h \<le> Suc g" "g \<le> Suc h"
    and gs: "side_at g (dp_guest s)"
    and q: "im_inbound (peer_view SideB (dp_channels s)) = frame_queue (po_host_user_id c) Host g (min (Suc h) 60)"
      "im_outbound (peer_view SideB (dp_channels s)) = frame_queue (po_guest_user_id c) Guest h (Suc g)"
    using s True by (auto simp: rounds_at_def)
  from side_receive [OF p gs m q] obtain g' v where "drive_step Guest (po_guest_user_id c) DriveReceive (dp_guest s)
        (peer_view SideB (dp_channels s)) = (g', v)"
      "side_at (Suc g) g'" "im_inbound v = frame_queue (po_host_user_id c) Host (Suc g) (min (Suc h) 60)"
      "im_outbound v = frame_queue (po_guest_user_id c) Guest h (min (Suc (Suc g)) 60)"
    by blast
  with s True show ?thesis by (simp add: rounds_at_def quiet_next_def)
next
  case False
  then have "g = 60 \<or> min (Suc h) 60 \<le> g" using s by (auto simp: rounds_at_def side_at_def)
  with s have "drive_step Guest (po_guest_user_id c) DriveReceive (dp_guest s)
      (peer_view SideB (dp_channels s)) = (dp_guest s, peer_view SideB (dp_channels s))"
    by (intro side_idle [of g _ "min (Suc h) 60" _ "po_host_user_id c" Host]) (simp_all add: rounds_at_def)
  with False show ?thesis by (auto simp: quiet_next_def)
qed

lemma side_at_unique:
  assumes "side_at m s" "side_at n s"
  shows "m = n"
proof -
  have "(of_nat m :: u64) = of_nat n" "m \<le> 60" "n \<le> 60" using assms by (auto simp: side_at_def)
  then have "unat (of_nat m :: u64) = unat (of_nat n :: u64)" by simp
  with \<open>m \<le> 60\<close> \<open>n \<le> 60\<close> show ?thesis by (simp add: unat_of_nat)
qed

lemma rounds_at_moved:
  "rounds_at c h g s \<Longrightarrow> rounds_at c h' g' t \<Longrightarrow> h \<noteq> h' \<or> g \<noteq> g' \<Longrightarrow> t \<noteq> s"
  unfolding rounds_at_def using side_at_unique by blast

text \<open>A quiet step completes one round of one side.\<close>

lemma quiet_step_round:
  assumes "wf_players c" "rounds_at c h g s" "quiet_step c s s'"
  shows "rounds_at c (Suc h) g s' \<or> rounds_at c h (Suc g) s'"
  using assms(3)
proof cases
  case (quiet r)
  then show ?thesis
    using quiet_host [OF assms(1,2)] quiet_guest [OF assms(1,2)] by (cases r) (auto split: if_splits)
qed

text \<open>One of the sides can always take a step until both have completed sixty rounds.\<close>

lemma quiet_step_possible:
  assumes c: "wf_players c" and s: "rounds_at c h g s"
  shows "(\<exists>s'. quiet_step c s s') \<longleftrightarrow> h + g < 120"
proof
  assume "\<exists>s'. quiet_step c s s'"
  then obtain s' where "quiet_step c s s'" by blast
  from quiet_step_round [OF c s this] show "h + g < 120"
    by (auto simp: rounds_at_def side_at_def)
next
  assume "h + g < 120"
  then consider "h < 60 \<and> h \<le> g" | "g < 60 \<and> g \<le> h" by linarith
  then show "\<exists>s'. quiet_step c s s'"
  proof cases
    case 1
    then have "rounds_at c (Suc h) g (quiet_next c Host s)" using quiet_host [OF c s] by simp
    from rounds_at_moved [OF s this] have "quiet_next c Host s \<noteq> s" by simp
    then show ?thesis by (blast intro: quiet_step.quiet)
  next
    case 2
    then have "rounds_at c h (Suc g) (quiet_next c Guest s)" using quiet_guest [OF c s] by simp
    from rounds_at_moved [OF s this] have "quiet_next c Guest s \<noteq> s" by simp
    then show ?thesis by (blast intro: quiet_step.quiet)
  qed
qed

lemma quiet_steps_rounds:
  "wf_players c \<Longrightarrow> (quiet_step c ^^ n) (drive_pair_init c) s \<Longrightarrow> \<exists>h g. h + g = n \<and> rounds_at c h g s"
proof (induction n arbitrary: s)
  case 0
  then show ?case using rounds_at_init by fastforce
next
  case (Suc n)
  then obtain t where t: "(quiet_step c ^^ n) (drive_pair_init c) t" "quiet_step c t s" by auto
  from Suc.IH [OF Suc.prems(1) t(1)] obtain h g where "h + g = n" "rounds_at c h g t" by blast
  with t(2) quiet_step_round [OF Suc.prems(1)] show ?case by (metis add_Suc add_Suc_right)
qed

lemma quiet_steps_exist:
  "wf_players c \<Longrightarrow> n \<le> 120 \<Longrightarrow> \<exists>s. (quiet_step c ^^ n) (drive_pair_init c) s"
proof (induction n)
  case (Suc n)
  then obtain s where s: "(quiet_step c ^^ n) (drive_pair_init c) s" by auto
  from quiet_steps_rounds [OF Suc.prems(1) s] quiet_step_possible [OF Suc.prems(1)] Suc.prems(2)
  have "\<exists>s'. quiet_step c s s'" by fastforce
  with s show ?case by auto
qed simp

lemma drove_result:
  assumes "side_at 60 s" "drive_ok s"
  shows "drive_result s = Some (Ok (sixty_outcome 60))"
proof -
  have "ds_frames_received s = 60" "unat (ds_frame s) = 60"
    using assms by (auto simp: side_at_def drive_ok_def word_unat_eq_iff)
  with assms show ?thesis by (simp add: drive_result_def side_at_def sixty_outcome_def drive_ok_def)
qed

lemma driving_result: "side_at m s \<Longrightarrow> m < 60 \<Longrightarrow> drive_result s = None"
  by (simp add: side_at_def drive_result_def)

text \<open>C11 The drive loop of the proof of match terminates: when no timer fires, a run of the two
  sides, interleaved in any order, makes at most 120 effective receives, it can always make
  another one until it has made 120 (no interleaving gets stuck on the bounded channels), and
  exactly then both sides have returned successfully, each with sixty frames sent, sixty
  received and the checksum of sixty rounds.\<close>

theorem proof_drive_terminates:
  assumes "wf_players c" and "(quiet_step c ^^ n) (drive_pair_init c) s"
  shows "n \<le> 120 \<and> ((\<exists>s'. quiet_step c s s') = (n < 120))
    \<and> ((n = 120) = (drive_result (dp_host s) = Some (Ok (sixty_outcome 60))
          \<and> drive_result (dp_guest s) = Some (Ok (sixty_outcome 60))))"
proof -
  from quiet_steps_rounds [OF assms] obtain h g where n: "h + g = n" and s: "rounds_at c h g s" by blast
  from drive_reachable_inv [OF assms(1) quiet_steps_reachable [OF assms(2)]]
  have ok: "drive_ok (dp_host s)" "drive_ok (dp_guest s)" by (simp_all add: drive_pair_inv_def)
  have hg: "side_at h (dp_host s)" "side_at g (dp_guest s)" "h \<le> 60" "g \<le> 60"
    using s by (simp_all add: rounds_at_def side_at_def)
  have res: "(n = 120) = (drive_result (dp_host s) = Some (Ok (sixty_outcome 60))
      \<and> drive_result (dp_guest s) = Some (Ok (sixty_outcome 60)))"
  proof (cases "n = 120")
    case True
    then have "h = 60" "g = 60" using n hg by auto
    with True hg ok show ?thesis by (simp add: drove_result)
  next
    case False
    then have "h < 60 \<or> g < 60" using n hg by auto
    with False hg driving_result show ?thesis by fastforce
  qed
  have "n \<le> 120" using n hg by simp
  with res quiet_step_possible [OF assms(1) s] n show ?thesis by simp
qed

theorem proof_drive_terminates_witness:
  "\<exists>s. (quiet_step demo_proof ^^ 120) (drive_pair_init demo_proof) s
     \<and> \<not> (\<exists>s'. quiet_step demo_proof s s')
     \<and> drive_result (dp_host s) = Some (Ok (sixty_outcome 60))
     \<and> drive_result (dp_guest s) = Some (Ok (sixty_outcome 60))"
proof -
  have c: "wf_players demo_proof"
    by (simp add: wf_players_def demo_proof_def is_blank_graphic graphic_def)
  from quiet_steps_exist [OF this, of 120] obtain s where
    s: "(quiet_step demo_proof ^^ 120) (drive_pair_init demo_proof) s" by auto
  from proof_drive_terminates [OF c s] s show ?thesis by (intro exI [of _ s]) simp
qed

end
