(* ===== verification/Relay_Ticket.thy ===== *)
theory Relay_Ticket
  imports OC_Prelude
begin

text \<open>
  Relay tickets (\<open>packages/shared/src/lib.rs\<close>): signed, short-lived, capability-scoped
  claims.  HMAC-SHA256, the hexadecimal codec and the text form of a UUID are third-party code:
  \<open>mac secret message\<close>, \<open>enc\<close>/\<open>dec\<close> and \<open>show_uuid\<close>.  Timestamps are \<open>i64\<close> seconds; the
  difference taken by \<open>verify\<close> cannot overflow for a clock reading that is not negative.
\<close>

definition MAX_RELAY_TICKET_LIFETIME_SECONDS :: int where
  "MAX_RELAY_TICKET_LIFETIME_SECONDS = 300"

datatype relay_capability = Probe | NativeTcpTunnel

fun capability_str :: "relay_capability \<Rightarrow> string" where
  "capability_str Probe = ''probe''"
| "capability_str NativeTcpTunnel = ''native_tcp_tunnel''"

record relay_ticket =
  rt_room_id :: string
  rt_user_id :: string
  rt_expires_at :: int
  rt_capability :: relay_capability
  rt_nonce :: uuid
  rt_signature :: string

datatype relay_ticket_error =
  EmptyIdentifier | WeakSecret | Expired | ExcessiveLifetime | InvalidSignature

definition validate_inputs :: "string \<Rightarrow> string \<Rightarrow> string \<Rightarrow> relay_ticket_error + unit" where
  "validate_inputs secret room_id user_id =
     (if length secret < 32 then Err WeakSecret
      else if is_blank room_id \<or> is_blank user_id then Err EmptyIdentifier
      else Ok ())"

definition canonical_claims ::
    "(uuid \<Rightarrow> string) \<Rightarrow> string \<Rightarrow> string \<Rightarrow> int \<Rightarrow> relay_capability \<Rightarrow> uuid \<Rightarrow> string" where
  "canonical_claims show_uuid room_id user_id expires_at capability nonce =
     nat_str (length room_id) @ '':'' @ room_id @ '':'' @ nat_str (length user_id) @ '':'' @ user_id
     @ '':'' @ int_str expires_at @ '':'' @ capability_str capability @ '':'' @ show_uuid nonce"

text \<open>\<open>relay_mac\<close> with \<open>signature\<close>: HMAC takes a key of any length, so the \<open>map_err\<close> to
  \<open>WeakSecret\<close> never fires.\<close>

definition signature ::
    "(string \<Rightarrow> string \<Rightarrow> bytes) \<Rightarrow> (uuid \<Rightarrow> string) \<Rightarrow> string \<Rightarrow> string \<Rightarrow> string \<Rightarrow> int \<Rightarrow>
     relay_capability \<Rightarrow> uuid \<Rightarrow> relay_ticket_error + bytes" where
  "signature mac show_uuid secret room_id user_id expires_at capability nonce =
     Ok (mac secret (canonical_claims show_uuid room_id user_id expires_at capability nonce))"

definition issue_scoped ::
    "(string \<Rightarrow> string \<Rightarrow> bytes) \<Rightarrow> (bytes \<Rightarrow> string) \<Rightarrow> (uuid \<Rightarrow> string) \<Rightarrow> uuid \<Rightarrow>
     string \<Rightarrow> string \<Rightarrow> string \<Rightarrow> int \<Rightarrow> relay_capability \<Rightarrow> relay_ticket_error + relay_ticket" where
  "issue_scoped mac enc show_uuid nonce secret room_id user_id expires_at capability =
     (case validate_inputs secret room_id user_id of
        Inl e \<Rightarrow> Err e
      | Inr _ \<Rightarrow>
          (case signature mac show_uuid secret room_id user_id expires_at capability nonce of
             Inl e \<Rightarrow> Err e
           | Inr sig \<Rightarrow>
               Ok \<lparr>rt_room_id = room_id, rt_user_id = user_id, rt_expires_at = expires_at,
                   rt_capability = capability, rt_nonce = nonce, rt_signature = enc sig\<rparr>))"

definition issue ::
    "(string \<Rightarrow> string \<Rightarrow> bytes) \<Rightarrow> (bytes \<Rightarrow> string) \<Rightarrow> (uuid \<Rightarrow> string) \<Rightarrow> uuid \<Rightarrow>
     string \<Rightarrow> string \<Rightarrow> string \<Rightarrow> int \<Rightarrow> relay_ticket_error + relay_ticket" where
  "issue mac enc show_uuid nonce secret room_id user_id expires_at =
     issue_scoped mac enc show_uuid nonce secret room_id user_id expires_at Probe"

definition ticket_claims :: "(uuid \<Rightarrow> string) \<Rightarrow> relay_ticket \<Rightarrow> string" where
  "ticket_claims show_uuid t =
     canonical_claims show_uuid (rt_room_id t) (rt_user_id t) (rt_expires_at t) (rt_capability t) (rt_nonce t)"

definition ticket_verify ::
    "(string \<Rightarrow> string \<Rightarrow> bytes) \<Rightarrow> (string \<Rightarrow> bytes option) \<Rightarrow> (uuid \<Rightarrow> string) \<Rightarrow>
     string \<Rightarrow> int \<Rightarrow> relay_ticket \<Rightarrow> relay_ticket_error + unit" where
  "ticket_verify mac dec show_uuid secret now t =
     (case validate_inputs secret (rt_room_id t) (rt_user_id t) of
        Inl e \<Rightarrow> Err e
      | Inr _ \<Rightarrow>
          (if rt_expires_at t < now then Err Expired
           else if rt_expires_at t - now > MAX_RELAY_TICKET_LIFETIME_SECONDS then Err ExcessiveLifetime
           else case dec (rt_signature t) of
                  None \<Rightarrow> Err InvalidSignature
                | Some provided \<Rightarrow>
                    (if provided = mac secret (ticket_claims show_uuid t) then Ok ()
                     else Err InvalidSignature)))"

section \<open>The signed text determines the claims\<close>

text \<open>A decimal prefix ends at the first colon.\<close>

lemma colon_split:
  assumes "CHR '':'' \<notin> set a" "CHR '':'' \<notin> set b" "a @ CHR '':'' # x = b @ CHR '':'' # y"
  shows "a = b \<and> x = y"
  using assms
proof (induction a arbitrary: b)
  case Nil
  then show ?case by (cases b) auto
next
  case (Cons c a)
  then show ?case by (cases b) auto
qed

lemma nat_str_no_colon: "CHR '':'' \<notin> set (nat_str n)"
  using nat_str_digits colon_not_digit by blast

lemma int_str_no_colon: "CHR '':'' \<notin> set (int_str i)"
  using nat_str_no_colon by (auto simp: int_str_def)

lemma capability_no_colon: "CHR '':'' \<notin> set (capability_str c)"
  by (cases c) auto

lemma capability_str_inj: "capability_str c = capability_str d \<Longrightarrow> c = d"
  by (cases c; cases d) auto

lemma length_prefixed_inj:
  assumes "nat_str (length a) @ CHR '':'' # a @ CHR '':'' # x
         = nat_str (length b) @ CHR '':'' # b @ CHR '':'' # y"
  shows "a = b \<and> x = y"
proof -
  from colon_split [OF nat_str_no_colon nat_str_no_colon assms]
  have "nat_str (length a) = nat_str (length b)" "a @ CHR '':'' # x = b @ CHR '':'' # y" by auto
  then show ?thesis by (auto dest!: nat_str_inj)
qed

lemma canonical_claims_inj:
  assumes "canonical_claims show_uuid r u e c n = canonical_claims show_uuid r' u' e' c' n'"
  shows "r = r' \<and> u = u' \<and> e = e' \<and> c = c' \<and> show_uuid n = show_uuid n'"
proof -
  have "r = r' \<and> nat_str (length u) @ CHR '':'' # u @ CHR '':'' # int_str e @ CHR '':'' # capability_str c @ CHR '':'' # show_uuid n
     = nat_str (length u') @ CHR '':'' # u' @ CHR '':'' # int_str e' @ CHR '':'' # capability_str c' @ CHR '':'' # show_uuid n'"
    using assms unfolding canonical_claims_def by (intro length_prefixed_inj) simp
  moreover from this have "u = u' \<and> int_str e @ CHR '':'' # capability_str c @ CHR '':'' # show_uuid n
     = int_str e' @ CHR '':'' # capability_str c' @ CHR '':'' # show_uuid n'"
    by (intro length_prefixed_inj) simp
  moreover from this have "int_str e = int_str e' \<and>
      capability_str c @ CHR '':'' # show_uuid n = capability_str c' @ CHR '':'' # show_uuid n'"
    by (intro colon_split int_str_no_colon) simp
  moreover from this have "capability_str c = capability_str c' \<and> show_uuid n = show_uuid n'"
    by (intro colon_split capability_no_colon) simp
  ultimately show ?thesis using int_str_inj capability_str_inj by blast
qed

lemma ticket_verify_ok:
  "ticket_verify mac dec show_uuid secret now t = Ok () \<longleftrightarrow>
     32 \<le> length secret \<and> \<not> is_blank (rt_room_id t) \<and> \<not> is_blank (rt_user_id t)
     \<and> now \<le> rt_expires_at t \<and> rt_expires_at t \<le> now + 300
     \<and> dec (rt_signature t) = Some (mac secret (ticket_claims show_uuid t))"
  by (auto simp: ticket_verify_def validate_inputs_def MAX_RELAY_TICKET_LIFETIME_SECONDS_def
      split: option.splits if_splits)

lemma issue_scoped_ok:
  "issue_scoped mac enc show_uuid nonce secret room user exp cap = Ok t \<longleftrightarrow>
     32 \<le> length secret \<and> \<not> is_blank room \<and> \<not> is_blank user
     \<and> t = \<lparr>rt_room_id = room, rt_user_id = user, rt_expires_at = exp, rt_capability = cap,
            rt_nonce = nonce, rt_signature = enc (mac secret (canonical_claims show_uuid room user exp cap nonce))\<rparr>"
  by (auto simp: issue_scoped_def validate_inputs_def signature_def)

section \<open>Properties\<close>

text \<open>Issued tickets verify exactly during their lifetime: with a hexadecimal codec that
  decodes what it encodes, a ticket issued under a secret verifies under that secret at time
  \<open>now\<close> exactly if it has not expired and expires within 300 seconds.\<close>

theorem ticket_roundtrip:
  assumes codec: "\<And>b. dec (enc b) = Some b"
    and issued: "issue_scoped mac enc show_uuid nonce secret room user exp cap = Ok t"
  shows "(ticket_verify mac dec show_uuid secret now t = Ok ()) = (now \<le> exp \<and> exp \<le> now + 300)"
  using issued by (auto simp: issue_scoped_ok ticket_verify_ok codec ticket_claims_def)

text \<open>Concrete stand-ins for the cryptographic parameters.\<close>

definition demo_mac :: "string \<Rightarrow> string \<Rightarrow> bytes" where
  "demo_mac secret message = map (\<lambda>c. of_nat (of_char c)) (secret @ message)"

definition demo_enc :: "bytes \<Rightarrow> string" where "demo_enc b = map (\<lambda>w. char_of (unat w)) b"
definition demo_dec :: "string \<Rightarrow> bytes option" where "demo_dec s = Some (map (\<lambda>c. of_nat (of_char c)) s)"

definition demo_show :: "uuid \<Rightarrow> string" where "demo_show u = nat_str (unat (uuid_bits u))"

lemma demo_codec_ok: "demo_dec (demo_enc b) = Some b"
proof -
  have "(of_nat (unat w mod 256) :: u8) = w" for w :: u8
  proof -
    have "unat w < 2 ^ LENGTH(8)" by (rule unsigned_less)
    then show ?thesis by (simp add: word_unat_eq_iff unat_of_nat)
  qed
  then show ?thesis by (simp add: demo_dec_def demo_enc_def comp_def)
qed

lemma demo_show_inj: "demo_show x = demo_show y \<Longrightarrow> x = y"
  by (cases x; cases y) (auto simp: demo_show_def word_unat_eq_iff dest!: nat_str_inj)

definition demo_secret :: string where "demo_secret = ''relay-test-secret-at-least-32-bytes-long''"

theorem ticket_roundtrip_witness:
  "\<exists>t. issue_scoped demo_mac demo_enc demo_show (Uuid 7) demo_secret ''room'' ''user'' 1120 Probe = Ok t
     \<and> ticket_verify demo_mac demo_dec demo_show demo_secret 1000 t = Ok ()
     \<and> ticket_verify demo_mac demo_dec demo_show demo_secret 1121 t \<noteq> Ok ()"
proof -
  obtain t where t: "issue_scoped demo_mac demo_enc demo_show (Uuid 7) demo_secret ''room'' ''user'' 1120 Probe = Ok t"
    by (simp add: issue_scoped_ok demo_secret_def is_blank_graphic graphic_def)
  from ticket_roundtrip [OF demo_codec_ok t, of 1000] ticket_roundtrip [OF demo_codec_ok t, of 1121] t
  show ?thesis by auto
qed

text \<open>C34 Tampering reduces to a MAC collision: if two tickets carry the same signature text and
  both verify under one secret, at whatever times, then they agree in room, user, expiry,
  capability and nonce, or the two canonical texts are a collision of the MAC under that
  secret.  In particular a probe ticket cannot be turned into a tunnel ticket.\<close>

theorem ticket_tampering:
  assumes "\<And>x y. show_uuid x = show_uuid y \<Longrightarrow> x = y"
    and "ticket_verify mac dec show_uuid secret now t = Ok ()"
    and "ticket_verify mac dec show_uuid secret now' t' = Ok ()"
    and "rt_signature t = rt_signature t'"
  shows "t = t' \<or> (ticket_claims show_uuid t \<noteq> ticket_claims show_uuid t'
           \<and> mac secret (ticket_claims show_uuid t) = mac secret (ticket_claims show_uuid t'))"
proof (cases "ticket_claims show_uuid t = ticket_claims show_uuid t'")
  case True
  with canonical_claims_inj assms(1,4) have "t = t'"
    unfolding ticket_claims_def by (metis relay_ticket.equality old.unit.exhaust)
  then show ?thesis ..
next
  case False
  with assms(2-4) show ?thesis by (auto simp: ticket_verify_ok)
qed

lemma demo_mac_inj: "demo_mac secret x = demo_mac secret y \<longleftrightarrow> x = y"
proof -
  have "inj (\<lambda>c. of_nat (of_char c) :: u8)"
  proof (rule injI)
    fix c d :: char assume "(of_nat (of_char c) :: u8) = of_nat (of_char d)"
    then have "unat (of_nat (of_char c) :: u8) = unat (of_nat (of_char d) :: u8)" by simp
    then have "(of_char c :: nat) mod 256 = of_char d mod 256" by (simp add: unat_of_nat)
    then show "c = d" by simp
  qed
  from inj_map_eq_map [OF this] show ?thesis by (simp add: demo_mac_def)
qed

theorem ticket_tampering_witness:
  "\<exists>t. ticket_verify demo_mac demo_dec demo_show demo_secret 1000 t = Ok ()
     \<and> ticket_verify demo_mac demo_dec demo_show demo_secret 1001 (t\<lparr>rt_capability := NativeTcpTunnel\<rparr>) \<noteq> Ok ()"
proof -
  obtain t where t: "issue_scoped demo_mac demo_enc demo_show (Uuid 7) demo_secret ''room'' ''user'' 1120 Probe = Ok t"
    by (simp add: issue_scoped_ok demo_secret_def is_blank_graphic graphic_def)
  then have v: "ticket_verify demo_mac demo_dec demo_show demo_secret 1000 t = Ok ()"
    by (auto simp: issue_scoped_ok ticket_verify_ok demo_codec_ok ticket_claims_def)
  let ?t' = "t\<lparr>rt_capability := NativeTcpTunnel\<rparr>"
  have "rt_capability t = Probe" using t by (auto simp: issue_scoped_ok)
  then have differ: "t \<noteq> ?t'" by (metis relay_capability.distinct(1) relay_ticket.select_convs(4) relay_ticket.surjective relay_ticket.update_convs(4))
  have "ticket_verify demo_mac demo_dec demo_show demo_secret 1001 ?t' \<noteq> Ok ()"
  proof
    assume v': "ticket_verify demo_mac demo_dec demo_show demo_secret 1001 ?t' = Ok ()"
    from ticket_tampering [OF demo_show_inj v v'] differ show False by (simp add: demo_mac_inj)
  qed
  with v show ?thesis by blast
qed

end
