(* ===== verification/Relay_Service.thy ===== *)
theory Relay_Service
  imports Relay_Ticket Protocol Channel Reachability "HOL-Library.AList"
begin

text \<open>
  The relay service (\<open>services/relay/src/main.rs\<close>): single-use tickets, rooms of at most two
  users, bounded outbound queues, per-connection rate limiting, and the socket loop.

  A room is the list of its entries, a user with the id of the connection that speaks for it;
  an absent room is the empty list, as the code drops a room with its last entry.  A
  connection's \<open>mpsc::Sender\<close> and \<open>watch::Sender\<close> are shared handles, so queues and cancel
  flags are kept by connection id.  Clock readings, fresh ids and JSON decoding are arguments.
\<close>

section \<open>State\<close>

datatype ws_message =
  MsgText string | MsgBinary bytes | MsgPing bytes | MsgPong bytes | MsgClose

record relay_state =
  rs_auth_secret :: string
  rs_rooms :: "string \<Rightarrow> (string \<times> uuid) list"
  rs_used_tickets :: "uuid \<Rightarrow> int option"
  rs_queues :: "uuid \<Rightarrow> ws_message channel"
  rs_cancelled :: "uuid \<Rightarrow> bool"

definition RELAY_QUEUE :: nat where "RELAY_QUEUE = 64"

text \<open>\<open>spawn_ticket_cleanup\<close>, one tick; \<open>None\<close> is a clock that cannot be read.\<close>

definition ticket_cleanup :: "int option \<Rightarrow> relay_state \<Rightarrow> relay_state" where
  "ticket_cleanup clock st =
     (case clock of
        None \<Rightarrow> st
      | Some now \<Rightarrow>
          st\<lparr>rs_used_tickets := (\<lambda>n. case rs_used_tickets st n of
               None \<Rightarrow> None
             | Some expires_at \<Rightarrow> if expires_at \<ge> now then Some expires_at else None)\<rparr>)"

section \<open>The upgrade handler\<close>

datatype upgrade_response =
    ClockUnavailable
  | TicketInvalid
  | TicketUsed
  | Upgraded (up_room_id: string) (up_user_id: string) (up_capability: relay_capability) (up_expires_at: int)

definition relay_ws_handler ::
    "(string \<Rightarrow> int \<Rightarrow> relay_ticket \<Rightarrow> relay_ticket_error + unit) \<Rightarrow> int option \<Rightarrow> relay_ticket \<Rightarrow>
     relay_state \<Rightarrow> upgrade_response \<times> relay_state" where
  "relay_ws_handler verify clock ticket st =
     (case clock of
        None \<Rightarrow> (ClockUnavailable, st)
      | Some now \<Rightarrow>
          (case verify (rs_auth_secret st) now ticket of
             Inl _ \<Rightarrow> (TicketInvalid, st)
           | Inr _ \<Rightarrow>
               (let previous = rs_used_tickets st (rt_nonce ticket);
                    st' = st\<lparr>rs_used_tickets :=
                       (rs_used_tickets st)(rt_nonce ticket \<mapsto> rt_expires_at ticket)\<rparr>
                in if previous \<noteq> None then (TicketUsed, st')
                   else (Upgraded (rt_room_id ticket) (rt_user_id ticket) (rt_capability ticket)
                           (rt_expires_at ticket), st'))))"

section \<open>Queues and broadcast\<close>

text \<open>\<open>sender.try_send(msg)\<close> on the queue of a connection.\<close>

definition post :: "uuid \<Rightarrow> ws_message \<Rightarrow> relay_state \<Rightarrow> bool \<times> relay_state" where
  "post cid msg st =
     (case channel_try_send (rs_queues st cid) msg of
        Inl _ \<Rightarrow> (False, st)
      | Inr q \<Rightarrow> (True, st\<lparr>rs_queues := (rs_queues st)(cid := q)\<rparr>))"

fun broadcast_entries ::
    "(string \<times> uuid) list \<Rightarrow> ws_message \<Rightarrow> uuid \<Rightarrow> relay_state \<Rightarrow> nat \<times> relay_state" where
  "broadcast_entries [] msg skip_id st = (0, st)"
| "broadcast_entries ((user, cid) # es) msg skip_id st =
     (if cid = skip_id then broadcast_entries es msg skip_id st
      else
        let (ok, st1) = post cid msg st;
            (n, st2) = broadcast_entries es msg skip_id st1
        in (if ok then n + 1 else n, st2))"

definition broadcast_message ::
    "string \<Rightarrow> ws_message \<Rightarrow> uuid \<Rightarrow> relay_state \<Rightarrow> nat \<times> relay_state" where
  "broadcast_message room_key msg skip_id st =
     broadcast_entries (rs_rooms st room_key) msg skip_id st"

section \<open>Rate limiting\<close>

record rate_window =
  rw_started :: instant
  rw_messages :: u32
  rw_bytes :: u64

definition MAX_MESSAGES_PER_SECOND :: u32 where "MAX_MESSAGES_PER_SECOND = 128"
definition MAX_BYTES_PER_SECOND :: u64 where "MAX_BYTES_PER_SECOND = 1024 * 1024"

definition exceeds_rate_limit :: "instant \<Rightarrow> u64 \<Rightarrow> rate_window \<Rightarrow> bool \<times> rate_window" where
  "exceeds_rate_limit now frame_bytes w =
     (let w1 = (if now - rw_started w \<ge> seconds 1
                then \<lparr>rw_started = now, rw_messages = 0, rw_bytes = 0\<rparr> else w);
          w2 = w1\<lparr>rw_messages := sat_add (rw_messages w1) 1,
                  rw_bytes := sat_add (rw_bytes w1) frame_bytes\<rparr>
      in (rw_messages w2 > MAX_MESSAGES_PER_SECOND \<or> rw_bytes w2 > MAX_BYTES_PER_SECOND, w2))"

section \<open>The socket loop\<close>

record relay_connection =
  rc_id :: uuid
  rc_room_id :: string
  rc_room_key :: string
  rc_user_id :: string
  rc_capability :: relay_capability
  rc_expires_at :: int
  rc_window :: rate_window

definition room_key :: "string \<Rightarrow> relay_capability \<Rightarrow> string" where
  "room_key room_id capability = room_id @ '':'' @ capability_str capability"

text \<open>The block that enters the room; \<open>None\<close> when it is full.\<close>

definition join_room :: "uuid \<Rightarrow> string \<Rightarrow> string \<Rightarrow> relay_state \<Rightarrow> relay_state option" where
  "join_room cid key user_id st =
     (let room = rs_rooms st key in
      if length room \<ge> 2 \<and> map_of room user_id = None then None
      else
        let previous = map_of room user_id;
            st1 = st\<lparr>rs_queues := (rs_queues st)(cid := channel_new RELAY_QUEUE),
                     rs_cancelled := (rs_cancelled st)(cid := False),
                     rs_rooms := (rs_rooms st)(key := AList.update user_id cid room)\<rparr>
        in Some (case previous of
                   None \<Rightarrow> st1
                 | Some p \<Rightarrow>
                     snd (post p MsgClose (st1\<lparr>rs_cancelled := (rs_cancelled st1)(p := True)\<rparr>))))"

definition open_connection ::
    "uuid \<Rightarrow> instant \<Rightarrow> string \<Rightarrow> string \<Rightarrow> relay_capability \<Rightarrow> int \<Rightarrow> relay_state \<Rightarrow>
     (relay_connection \<times> relay_state) option" where
  "open_connection cid now room_id user_id capability expires_at st =
     (case join_room cid (room_key room_id capability) user_id st of
        None \<Rightarrow> None
      | Some st' \<Rightarrow>
          Some (\<lparr>rc_id = cid, rc_room_id = room_id, rc_room_key = room_key room_id capability,
                 rc_user_id = user_id, rc_capability = capability, rc_expires_at = expires_at,
                 rc_window = \<lparr>rw_started = now, rw_messages = 0, rw_bytes = 0\<rparr>\<rparr>, st'))"

text \<open>The decoders of a text frame: the envelope, the RFC 3339 check, the \<open>room_id\<close> of the
  payload, and the JSON of an error reply (code, message, request id).\<close>

record relay_codec =
  cd_envelope :: "string \<Rightarrow> borrowed_envelope option"
  cd_rfc3339 :: "string \<Rightarrow> bool"
  cd_payload_room :: "string \<Rightarrow> string option"
  cd_error :: "string \<Rightarrow> string \<Rightarrow> string \<Rightarrow> string"

definition relay_text :: "relay_codec \<Rightarrow> relay_connection \<Rightarrow> string \<Rightarrow> relay_state \<Rightarrow> relay_state" where
  "relay_text codec c txt st =
     (if length txt > 64 * 1024 then st
      else case cd_envelope codec txt of
        None \<Rightarrow> st
      | Some e \<Rightarrow>
          (if \<not> is_supported_version (be_version e)
           then snd (post (rc_id c) (MsgText (cd_error codec ''unsupported_version''
                  (''unsupported version: '' @ be_version e) (be_request_id e))) st)
           else case borrowed_validate (cd_rfc3339 codec) e of
             Inl m \<Rightarrow> snd (post (rc_id c) (MsgText (cd_error codec ''invalid_envelope'' m (be_request_id e))) st)
           | Inr _ \<Rightarrow>
               (let envelope_room = (case cd_payload_room codec (be_payload e) of None \<Rightarrow> [] | Some r \<Rightarrow> r)
                in if envelope_room \<noteq> rc_room_id c then st
                   else snd (broadcast_message (rc_room_key c) (MsgText txt) (rc_id c) st))))"

definition relay_binary :: "relay_connection \<Rightarrow> bytes \<Rightarrow> relay_state \<Rightarrow> relay_state" where
  "relay_binary c bin st =
     (let maximum = (case rc_capability c of Probe \<Rightarrow> 64 * 1024 | NativeTcpTunnel \<Rightarrow> 16 * 1024)
      in if length bin > maximum then st
         else snd (broadcast_message (rc_room_key c) (MsgBinary bin) (rc_id c) st))"

text \<open>One received frame: \<open>None\<close> in the first component is \<open>break\<close>.\<close>

definition relay_receive ::
    "relay_codec \<Rightarrow> instant \<Rightarrow> ws_message \<Rightarrow> relay_connection \<Rightarrow> relay_state \<Rightarrow>
     relay_connection option \<times> relay_state" where
  "relay_receive codec now msg c st =
     (case msg of
        MsgText txt \<Rightarrow>
          (let (exceeded, w) = exceeds_rate_limit now (of_nat (length txt)) (rc_window c) in
           if exceeded then (None, st)
           else (Some (c\<lparr>rc_window := w\<rparr>), relay_text codec c txt st))
      | MsgBinary bin \<Rightarrow>
          (let (exceeded, w) = exceeds_rate_limit now (of_nat (length bin)) (rc_window c) in
           if exceeded then (None, st)
           else (Some (c\<lparr>rc_window := w\<rparr>), relay_binary c bin st))
      | MsgPing payload \<Rightarrow> (Some c, snd (post (rc_id c) (MsgPong payload) st))
      | MsgPong _ \<Rightarrow> (Some c, st)
      | MsgClose \<Rightarrow> (None, st))"

text \<open>The end of \<open>handle_socket\<close>: leave the room unless another connection of the same user has
  taken the place, and abort the send task.\<close>

definition leave_room :: "relay_connection \<Rightarrow> relay_state \<Rightarrow> relay_state" where
  "leave_room c st =
     (let room = rs_rooms st (rc_room_key c);
          st1 = (if map_of room (rc_user_id c) = Some (rc_id c)
                 then st\<lparr>rs_rooms := (rs_rooms st)(rc_room_key c := AList.delete (rc_user_id c) room)\<rparr>
                 else st)
      in st1\<lparr>rs_queues := (rs_queues st1)(rc_id c := (rs_queues st1 (rc_id c))\<lparr>ch_receiver := False\<rparr>)\<rparr>)"

section \<open>Facts about the operations\<close>

lemma room_key_inj: "room_key r c = room_key r' c' \<longleftrightarrow> r = r' \<and> c = c'"
proof
  assume "room_key r c = room_key r' c'"
  then have "rev (capability_str c) @ CHR '':'' # rev r = rev (capability_str c') @ CHR '':'' # rev r'"
    unfolding room_key_def by (metis append.assoc append_Cons append_Nil rev.simps(2) rev_append rev_rev_ident)
  then have "rev (capability_str c) = rev (capability_str c') \<and> rev r = rev r'"
    by (intro colon_split) (auto dest: capability_no_colon [THEN notE])
  then show "r = r' \<and> c = c'" by (auto dest: capability_str_inj)
qed simp

lemma post_frame:
  "rs_rooms (snd (post cid m st)) = rs_rooms st"
  "rs_used_tickets (snd (post cid m st)) = rs_used_tickets st"
  "rs_cancelled (snd (post cid m st)) = rs_cancelled st"
  "rs_auth_secret (snd (post cid m st)) = rs_auth_secret st"
  "k \<noteq> cid \<Longrightarrow> rs_queues (snd (post cid m st)) k = rs_queues st k"
  by (auto simp: post_def split: sum.splits)

text \<open>A queue only ever grows at its end, by the posted message, and never beyond its
  capacity.\<close>

definition extended :: "ws_message set \<Rightarrow> ws_message channel \<Rightarrow> ws_message channel \<Rightarrow> bool" where
  "extended ms q q' \<longleftrightarrow> (\<exists>new. ch_items q' = ch_items q @ new \<and> set new \<subseteq> ms)
     \<and> ch_capacity q' = ch_capacity q \<and> ch_receiver q' = ch_receiver q
     \<and> (length (ch_items q) \<le> ch_capacity q \<longrightarrow> length (ch_items q') \<le> ch_capacity q')"

lemma extended_refl [simp]: "extended ms q q"
  by (simp add: extended_def)

lemma extended_trans: "extended ms p q \<Longrightarrow> extended ms q r \<Longrightarrow> extended ms p r"
  by (auto simp: extended_def)

lemma post_extends: "extended {m} (rs_queues st k) (rs_queues (snd (post cid m st)) k)"
proof (cases "k = cid")
  case True
  show ?thesis
  proof (cases "channel_try_send (rs_queues st cid) m")
    case (Inl e)
    then show ?thesis by (simp add: post_def)
  next
    case (Inr q)
    with True mpsc.push_ok [OF Inr] show ?thesis
      by (auto simp: post_def extended_def channel_try_send_def split: if_splits)
  qed
qed (simp add: post_frame)

lemma broadcast_entries_snd:
  "snd (broadcast_entries [] m skip st) = st"
  "snd (broadcast_entries (e # es) m skip st) =
     (if snd e = skip then snd (broadcast_entries es m skip st)
      else snd (broadcast_entries es m skip (snd (post (snd e) m st))))"
  by (cases e; simp split: prod.splits)+

lemma broadcast_entries_frame:
  "rs_rooms (snd (broadcast_entries es m skip st)) = rs_rooms st"
  "rs_used_tickets (snd (broadcast_entries es m skip st)) = rs_used_tickets st"
  "rs_cancelled (snd (broadcast_entries es m skip st)) = rs_cancelled st"
  "rs_auth_secret (snd (broadcast_entries es m skip st)) = rs_auth_secret st"
  by (induction es arbitrary: st) (simp_all add: broadcast_entries_snd post_frame)

text \<open>A broadcast appends the message to queues of the listed connections other than the
  skipped one, and touches no other queue.\<close>

lemma broadcast_entries_extends:
  "extended {m} (rs_queues st k) (rs_queues (snd (broadcast_entries es m skip st)) k)
   \<and> (k \<notin> snd ` set es \<or> k = skip \<longrightarrow> rs_queues (snd (broadcast_entries es m skip st)) k = rs_queues st k)"
proof (induction es arbitrary: st)
  case (Cons e es)
  show ?case
  proof (cases "snd e = skip")
    case True
    with Cons [of st] show ?thesis by (auto simp: broadcast_entries_snd)
  next
    case False
    have "extended {m} (rs_queues st k) (rs_queues (snd (broadcast_entries es m skip (snd (post (snd e) m st)))) k)"
      using Cons [of "snd (post (snd e) m st)"] post_extends extended_trans by blast
    with False Cons [of "snd (post (snd e) m st)"] show ?thesis
      by (auto simp: broadcast_entries_snd post_frame)
  qed
qed (simp add: broadcast_entries_snd)

lemma broadcast_message_frame:
  "rs_rooms (snd (broadcast_message key m skip st)) = rs_rooms st"
  "rs_used_tickets (snd (broadcast_message key m skip st)) = rs_used_tickets st"
  "rs_cancelled (snd (broadcast_message key m skip st)) = rs_cancelled st"
  by (simp_all add: broadcast_message_def broadcast_entries_frame)

section \<open>The whole service\<close>

text \<open>The service with its open connections, the clock, and, as a history, the tickets that were
  accepted.  An accepted upgrade opens its connection at once, under an id that was never used
  before.\<close>

record relay_sys =
  sys_state :: relay_state
  sys_connections :: "relay_connection list"
  sys_now :: int
  sys_ids :: "uuid list"
  sys_accepted :: "relay_ticket list"

datatype relay_action =
    ActUpgrade "int option" relay_ticket uuid instant
  | ActReceive uuid instant ws_message
  | ActDrop uuid
  | ActDeliver uuid
  | ActCleanup "int option"

definition clock_ok :: "int \<Rightarrow> int option \<Rightarrow> bool" where
  "clock_ok t clock = (case clock of None \<Rightarrow> True | Some now \<Rightarrow> t \<le> now)"

definition clock_of :: "int \<Rightarrow> int option \<Rightarrow> int" where
  "clock_of t clock = (case clock of None \<Rightarrow> t | Some now \<Rightarrow> now)"

definition sys_leave :: "relay_connection \<Rightarrow> relay_sys \<Rightarrow> relay_sys" where
  "sys_leave c s =
     s\<lparr>sys_state := leave_room c (sys_state s),
       sys_connections := filter (\<lambda>d. rc_id d \<noteq> rc_id c) (sys_connections s)\<rparr>"

definition relay_act ::
    "(string \<Rightarrow> int \<Rightarrow> relay_ticket \<Rightarrow> relay_ticket_error + unit) \<Rightarrow> relay_codec \<Rightarrow> relay_action \<Rightarrow>
     relay_sys \<Rightarrow> relay_sys" where
  "relay_act verify codec act s =
     (case act of
        ActUpgrade clock ticket cid start \<Rightarrow>
          (let (resp, st) = relay_ws_handler verify clock ticket (sys_state s);
               s1 = s\<lparr>sys_state := st, sys_now := clock_of (sys_now s) clock\<rparr>
           in case resp of
                Upgraded room user cap exp \<Rightarrow>
                  (let s2 = s1\<lparr>sys_ids := cid # sys_ids s, sys_accepted := ticket # sys_accepted s\<rparr>
                   in case open_connection cid start room user cap exp st of
                        None \<Rightarrow> s2
                      | Some (c, st') \<Rightarrow> s2\<lparr>sys_state := st', sys_connections := c # sys_connections s\<rparr>)
              | _ \<Rightarrow> s1)
      | ActReceive cid now msg \<Rightarrow>
          (case find (\<lambda>c. rc_id c = cid) (sys_connections s) of
             None \<Rightarrow> s
           | Some c \<Rightarrow>
               (case relay_receive codec now msg c (sys_state s) of
                  (None, st) \<Rightarrow> sys_leave c (s\<lparr>sys_state := st\<rparr>)
                | (Some c', st) \<Rightarrow>
                    s\<lparr>sys_state := st,
                      sys_connections := upd_where (\<lambda>d. rc_id d = cid) (\<lambda>_. c') (sys_connections s)\<rparr>))
      | ActDrop cid \<Rightarrow>
          (case find (\<lambda>c. rc_id c = cid) (sys_connections s) of
             None \<Rightarrow> s
           | Some c \<Rightarrow> sys_leave c s)
      | ActDeliver cid \<Rightarrow>
          (case channel_pop (rs_queues (sys_state s) cid) of
             None \<Rightarrow> s
           | Some (_, q) \<Rightarrow>
               s\<lparr>sys_state := (sys_state s)\<lparr>rs_queues := (rs_queues (sys_state s))(cid := q)\<rparr>\<rparr>)
      | ActCleanup clock \<Rightarrow>
          s\<lparr>sys_state := ticket_cleanup clock (sys_state s), sys_now := clock_of (sys_now s) clock\<rparr>)"

text \<open>An action the environment may take: the clock does not run backwards and connection ids are
  fresh.\<close>

definition act_ok :: "relay_action \<Rightarrow> relay_sys \<Rightarrow> bool" where
  "act_ok act s =
     (case act of
        ActUpgrade clock ticket cid start \<Rightarrow> clock_ok (sys_now s) clock \<and> cid \<notin> set (sys_ids s)
      | ActCleanup clock \<Rightarrow> clock_ok (sys_now s) clock
      | _ \<Rightarrow> True)"

inductive relay_step ::
    "(string \<Rightarrow> int \<Rightarrow> relay_ticket \<Rightarrow> relay_ticket_error + unit) \<Rightarrow> relay_codec \<Rightarrow> relay_sys \<Rightarrow> relay_sys \<Rightarrow> bool"
  for verify codec where
  relay_step: "act_ok act s \<Longrightarrow> relay_step verify codec s (relay_act verify codec act s)"

inductive_cases relay_stepE: "relay_step verify codec s s'"

definition relay_init :: "string \<Rightarrow> relay_sys" where
  "relay_init secret =
     \<lparr>sys_state = \<lparr>rs_auth_secret = secret, rs_rooms = (\<lambda>_. []), rs_used_tickets = (\<lambda>_. None),
        rs_queues = (\<lambda>_. channel_new RELAY_QUEUE), rs_cancelled = (\<lambda>_. False)\<rparr>,
      sys_connections = [], sys_now = 0, sys_ids = [], sys_accepted = []\<rparr>"

section \<open>Rooms\<close>

text \<open>The invariant of rooms and connections.\<close>

definition conn_ok :: "relay_connection \<Rightarrow> bool" where
  "conn_ok c \<longleftrightarrow> rc_room_key c = room_key (rc_room_id c) (rc_capability c)"

definition queue_ok :: "ws_message channel \<Rightarrow> bool" where
  "queue_ok q \<longleftrightarrow> length (ch_items q) \<le> RELAY_QUEUE \<and> ch_capacity q = RELAY_QUEUE"

lemma extended_queue_ok: "extended ms q q' \<Longrightarrow> queue_ok q \<Longrightarrow> queue_ok q'"
  by (auto simp: extended_def queue_ok_def)

lemma queue_ok_new [simp]: "queue_ok (channel_new RELAY_QUEUE)"
  by (simp add: queue_ok_def channel_new_def)

definition rooms_inv :: "relay_state \<Rightarrow> relay_connection list \<Rightarrow> bool" where
  "rooms_inv st cs \<longleftrightarrow>
     (\<forall>key. length (rs_rooms st key) \<le> 2 \<and> distinct (map fst (rs_rooms st key)))
     \<and> (\<forall>key user cid. map_of (rs_rooms st key) user = Some cid \<longrightarrow>
          (\<exists>c \<in> set cs. rc_id c = cid \<and> rc_room_key c = key \<and> rc_user_id c = user))
     \<and> (\<forall>k. queue_ok (rs_queues st k))"

definition relay_inv :: "relay_sys \<Rightarrow> bool" where
  "relay_inv s \<longleftrightarrow> rooms_inv (sys_state s) (sys_connections s)
     \<and> distinct (map rc_id (sys_connections s)) \<and> (\<forall>c \<in> set (sys_connections s). conn_ok c)
     \<and> rc_id ` set (sys_connections s) \<subseteq> set (sys_ids s)"

lemma rooms_inv_extend:
  assumes "rooms_inv st cs" "rs_rooms st' = rs_rooms st"
    and "\<And>k. extended ms (rs_queues st k) (rs_queues st' k)"
  shows "rooms_inv st' cs"
  using assms extended_queue_ok unfolding rooms_inv_def by metis

lemma AList_update_length:
  "length (AList.update k v xs) = (if map_of xs k = None then Suc (length xs) else length xs)"
  by (induction xs) auto

lemma join_room_cases:
  assumes "join_room cid key user st = Some st'"
  obtains st1 where "rs_rooms st1 = (rs_rooms st)(key := AList.update user cid (rs_rooms st key))"
    and "rs_queues st1 = (rs_queues st)(cid := channel_new RELAY_QUEUE)"
    and "rs_used_tickets st1 = rs_used_tickets st"
    and "map_of (rs_rooms st key) user = None \<and> st' = st1
         \<or> (\<exists>p. map_of (rs_rooms st key) user = Some p \<and> rs_cancelled st1 p \<and> st' = snd (post p MsgClose st1))"
    and "length (rs_rooms st key) < 2 \<or> map_of (rs_rooms st key) user \<noteq> None"
proof (cases "map_of (rs_rooms st key) user")
  case None
  with assms show ?thesis
    by (intro that [of "st\<lparr>rs_queues := (rs_queues st)(cid := channel_new RELAY_QUEUE),
          rs_cancelled := (rs_cancelled st)(cid := False),
          rs_rooms := (rs_rooms st)(key := AList.update user cid (rs_rooms st key))\<rparr>"])
       (auto simp: join_room_def Let_def split: if_splits)
next
  case (Some p)
  with assms show ?thesis
    by (intro that [of "st\<lparr>rs_queues := (rs_queues st)(cid := channel_new RELAY_QUEUE),
          rs_rooms := (rs_rooms st)(key := AList.update user cid (rs_rooms st key)),
          rs_cancelled := (rs_cancelled st)(cid := False, p := True)\<rparr>"])
       (auto simp: join_room_def Let_def split: if_splits)
qed

lemma join_room_Some:
  assumes "join_room cid key user st = Some st'"
  shows "rs_rooms st' = (rs_rooms st)(key := AList.update user cid (rs_rooms st key))"
    and "length (rs_rooms st key) < 2 \<or> map_of (rs_rooms st key) user \<noteq> None"
    and "rs_used_tickets st' = rs_used_tickets st"
    and "extended {MsgClose} (((rs_queues st)(cid := channel_new RELAY_QUEUE)) k) (rs_queues st' k)"
    and "map_of (rs_rooms st key) user = Some p \<Longrightarrow> rs_cancelled st' p"
proof -
  from assms obtain st1 where st1: "rs_rooms st1 = (rs_rooms st)(key := AList.update user cid (rs_rooms st key))"
    "rs_queues st1 = (rs_queues st)(cid := channel_new RELAY_QUEUE)"
    "rs_used_tickets st1 = rs_used_tickets st"
    "map_of (rs_rooms st key) user = None \<and> st' = st1
         \<or> (\<exists>p. map_of (rs_rooms st key) user = Some p \<and> rs_cancelled st1 p \<and> st' = snd (post p MsgClose st1))"
    "length (rs_rooms st key) < 2 \<or> map_of (rs_rooms st key) user \<noteq> None"
    by (rule join_room_cases)
  then show "rs_rooms st' = (rs_rooms st)(key := AList.update user cid (rs_rooms st key))"
    "length (rs_rooms st key) < 2 \<or> map_of (rs_rooms st key) user \<noteq> None"
    "rs_used_tickets st' = rs_used_tickets st"
    "map_of (rs_rooms st key) user = Some p \<Longrightarrow> rs_cancelled st' p"
    by (auto simp: post_frame)
  show "extended {MsgClose} (((rs_queues st)(cid := channel_new RELAY_QUEUE)) k) (rs_queues st' k)"
    using st1(4) post_extends [where st = st1 and k = k and m = MsgClose] by (auto simp: st1(2) [symmetric])
qed

lemma rooms_inv_join:
  assumes inv: "rooms_inv st cs" and join: "join_room (rc_id c) (rc_room_key c) (rc_user_id c) st = Some st'"
  shows "rooms_inv st' (c # cs)"
  unfolding rooms_inv_def
proof (intro conjI allI impI)
  note j = join_room_Some [OF join]
  fix key
  show "length (rs_rooms st' key) \<le> 2"
    using inv j(1,2) by (auto simp: rooms_inv_def AList_update_length)
  show "distinct (map fst (rs_rooms st' key))"
    using inv j(1) by (auto simp: rooms_inv_def intro: distinct_update)
  show "queue_ok (rs_queues st' k)" for k
    using extended_queue_ok [OF j(4) [of k]] inv by (auto simp: rooms_inv_def)
  fix user cid
  assume "map_of (rs_rooms st' key) user = Some cid"
  then show "\<exists>d \<in> set (c # cs). rc_id d = cid \<and> rc_room_key d = key \<and> rc_user_id d = user"
    using inv j(1) by (fastforce simp: rooms_inv_def update_conv split: if_splits)
qed

lemma rooms_inv_leave:
  assumes inv: "rooms_inv st cs" and d: "distinct (map rc_id cs)" and c: "c \<in> set cs"
  shows "rooms_inv (leave_room c st) (filter (\<lambda>d. rc_id d \<noteq> rc_id c) cs)"
proof -
  let ?st = "leave_room c st" and ?key = "rc_room_key c"
  have rooms: "rs_rooms ?st = (if map_of (rs_rooms st ?key) (rc_user_id c) = Some (rc_id c)
      then (rs_rooms st)(?key := AList.delete (rc_user_id c) (rs_rooms st ?key)) else rs_rooms st)"
    by (simp add: leave_room_def Let_def)
  have q: "queue_ok (rs_queues ?st k)" for k
    using inv by (auto simp: leave_room_def Let_def rooms_inv_def queue_ok_def)
  show ?thesis
    unfolding rooms_inv_def
  proof (intro conjI allI impI)
    fix key
    show "length (rs_rooms ?st key) \<le> 2"
      using inv length_delete_le [of "rc_user_id c" "rs_rooms st ?key"]
      by (auto simp: rooms rooms_inv_def intro: le_trans)
    show "distinct (map fst (rs_rooms ?st key))"
      using inv by (auto simp: rooms rooms_inv_def intro: distinct_delete)
    show "queue_ok (rs_queues ?st k)" for k by (rule q)
    fix user cid
    assume m: "map_of (rs_rooms ?st key) user = Some cid"
    then have old: "map_of (rs_rooms st key) user = Some cid"
      by (auto simp: rooms delete_conv split: if_splits)
    with inv obtain e where e: "e \<in> set cs" "rc_id e = cid" "rc_room_key e = key" "rc_user_id e = user"
      unfolding rooms_inv_def by blast
    have "rc_id e \<noteq> rc_id c"
    proof
      assume "rc_id e = rc_id c"
      with distinct_key_unique [OF d e(1) c] have "e = c" by simp
      with e old m show False by (auto simp: rooms delete_conv)
    qed
    with e show "\<exists>d \<in> set (filter (\<lambda>d. rc_id d \<noteq> rc_id c) cs).
        rc_id d = cid \<and> rc_room_key d = key \<and> rc_user_id d = user"
      by auto
  qed
qed

text \<open>What processing one frame does to the shared state: a pong or an error reply to the sender
  itself, or the frame itself to the others.\<close>

lemma relay_text_cases:
  "relay_text codec c txt st = st
   \<or> (\<exists>reply. relay_text codec c txt st = snd (post (rc_id c) (MsgText reply) st))
   \<or> relay_text codec c txt st = snd (broadcast_message (rc_room_key c) (MsgText txt) (rc_id c) st)"
  by (auto simp: relay_text_def Let_def split: option.splits sum.splits)

lemma same_window: "\<exists>w. c = c\<lparr>rc_window := w\<rparr>"
  by (rule exI [of _ "rc_window c"]) simp

lemma relay_receive_cases:
  assumes "relay_receive codec now msg c st = (r, st')"
  shows "(r = None \<or> (\<exists>w. r = Some (c\<lparr>rc_window := w\<rparr>)))
    \<and> (st' = st \<or> (\<exists>reply. st' = snd (post (rc_id c) reply st))
       \<or> st' = snd (broadcast_message (rc_room_key c) msg (rc_id c) st))"
proof (cases msg)
  case (MsgText body)
  with assms relay_text_cases [of codec c body st] show ?thesis
    by (auto simp: relay_receive_def split: prod.splits if_splits)
next
  case (MsgBinary b)
  with assms show ?thesis
    by (auto simp: relay_receive_def relay_binary_def Let_def split: prod.splits if_splits)
next
  case (MsgPing b)
  with assms same_window [of c] show ?thesis by (auto simp: relay_receive_def)
next
  case (MsgPong b)
  with assms same_window [of c] show ?thesis by (auto simp: relay_receive_def)
qed (use assms in \<open>auto simp: relay_receive_def\<close>)

lemma relay_receive_effect:
  assumes "relay_receive codec now msg c st = (r, st')"
  shows "rs_rooms st' = rs_rooms st" "rs_used_tickets st' = rs_used_tickets st"
    and "\<exists>m. \<forall>k. extended {m} (rs_queues st k) (rs_queues st' k)"
    and "k \<noteq> rc_id c \<Longrightarrow> extended {msg} (rs_queues st k) (rs_queues st' k)"
    and "k \<noteq> rc_id c \<Longrightarrow> k \<notin> snd ` set (rs_rooms st (rc_room_key c)) \<Longrightarrow> rs_queues st' k = rs_queues st k"
proof -
  from relay_receive_cases [OF assms] consider "st' = st"
    | reply where "st' = snd (post (rc_id c) reply st)"
    | "st' = snd (broadcast_message (rc_room_key c) msg (rc_id c) st)" by blast
  then have "rs_rooms st' = rs_rooms st \<and> rs_used_tickets st' = rs_used_tickets st
    \<and> (\<exists>m. \<forall>k. extended {m} (rs_queues st k) (rs_queues st' k))
    \<and> (\<forall>k. k \<noteq> rc_id c \<longrightarrow> extended {msg} (rs_queues st k) (rs_queues st' k)
         \<and> (k \<notin> snd ` set (rs_rooms st (rc_room_key c)) \<longrightarrow> rs_queues st' k = rs_queues st k))"
  proof cases
    case (2 reply)
    then show ?thesis
      using post_extends by (auto simp: post_frame intro!: exI [of _ reply])
  next
    case 3
    have "extended {msg} (rs_queues st k) (rs_queues st' k)
       \<and> (k \<notin> snd ` set (rs_rooms st (rc_room_key c)) \<or> k = rc_id c \<longrightarrow> rs_queues st' k = rs_queues st k)" for k
      unfolding 3 broadcast_message_def by (rule broadcast_entries_extends)
    then show ?thesis using 3 by (auto simp: broadcast_message_frame)
  qed simp
  then show "rs_rooms st' = rs_rooms st" "rs_used_tickets st' = rs_used_tickets st"
    and "\<exists>m. \<forall>k. extended {m} (rs_queues st k) (rs_queues st' k)"
    and "k \<noteq> rc_id c \<Longrightarrow> extended {msg} (rs_queues st k) (rs_queues st' k)"
    and "k \<noteq> rc_id c \<Longrightarrow> k \<notin> snd ` set (rs_rooms st (rc_room_key c)) \<Longrightarrow> rs_queues st' k = rs_queues st k"
    by blast+
qed

section \<open>Every step keeps the invariant\<close>

lemma find_connection:
  "find (\<lambda>c. rc_id c = cid) cs = Some c \<Longrightarrow> c \<in> set cs \<and> rc_id c = cid"
  by (auto dest: find_SomeD)

lemma relay_inv_leave:
  assumes "relay_inv s" "c \<in> set (sys_connections s)"
  shows "relay_inv (sys_leave c s)"
  using assms rooms_inv_leave [of "sys_state s" "sys_connections s" c]
  by (auto simp: relay_inv_def sys_leave_def distinct_map_filter)

lemma relay_inv_state:
  "relay_inv s \<Longrightarrow> rooms_inv st (sys_connections s) \<Longrightarrow> relay_inv (s\<lparr>sys_state := st\<rparr>)"
  by (simp add: relay_inv_def)

lemma rooms_inv_window:
  assumes "rooms_inv st cs" "distinct (map rc_id cs)" "c \<in> set cs"
  shows "rooms_inv st (upd_where (\<lambda>d. rc_id d = rc_id c) (\<lambda>_. c\<lparr>rc_window := w\<rparr>) cs)"
  unfolding rooms_inv_def
proof (intro conjI allI impI)
  fix key user cid
  assume "map_of (rs_rooms st key) user = Some cid"
  with assms(1) obtain d where d: "d \<in> set cs" "rc_id d = cid" "rc_room_key d = key" "rc_user_id d = user"
    unfolding rooms_inv_def by blast
  show "\<exists>e \<in> set (upd_where (\<lambda>d. rc_id d = rc_id c) (\<lambda>_. c\<lparr>rc_window := w\<rparr>) cs).
      rc_id e = cid \<and> rc_room_key e = key \<and> rc_user_id e = user"
  proof (cases "rc_id d = rc_id c")
    case True
    with distinct_key_unique [OF assms(2) d(1) assms(3)] have "d = c" by simp
    with d show ?thesis by (intro bexI [of _ "c\<lparr>rc_window := w\<rparr>"]) (auto simp: in_upd_where)
  next
    case False
    with d show ?thesis by (intro bexI [of _ d]) (auto simp: in_upd_where)
  qed
qed (use assms(1) in \<open>auto simp: rooms_inv_def\<close>)

lemma relay_inv_receive:
  assumes inv: "relay_inv s" and c: "find (\<lambda>c. rc_id c = cid) (sys_connections s) = Some c"
    and r: "relay_receive codec now msg c (sys_state s) = (r, st)"
  shows "relay_inv (case r of
      None \<Rightarrow> sys_leave c (s\<lparr>sys_state := st\<rparr>)
    | Some c' \<Rightarrow> s\<lparr>sys_state := st, sys_connections := upd_where (\<lambda>d. rc_id d = cid) (\<lambda>_. c') (sys_connections s)\<rparr>)"
proof -
  from find_connection [OF c] have cs: "c \<in> set (sys_connections s)" "rc_id c = cid" by auto
  from relay_receive_effect(3) [OF r] obtain m where "extended {m} (rs_queues (sys_state s) k) (rs_queues st k)" for k
    by blast
  with inv relay_receive_effect(1) [OF r] have st: "rooms_inv st (sys_connections s)"
    by (intro rooms_inv_extend [of "sys_state s" _ st "{m}"]) (auto simp: relay_inv_def)
  show ?thesis
  proof (cases r)
    case None
    have "relay_inv (sys_leave c (s\<lparr>sys_state := st\<rparr>))"
      using relay_inv_leave [of "s\<lparr>sys_state := st\<rparr>" c] relay_inv_state [OF inv st] cs(1) by simp
    with None show ?thesis by simp
  next
    case (Some c')
    with relay_receive_cases [OF r] obtain w where w: "c' = c\<lparr>rc_window := w\<rparr>" by auto
    have d: "distinct (map rc_id (sys_connections s))" using inv by (simp add: relay_inv_def)
    have ids: "rc_id d \<in> set (sys_ids s)" if "d \<in> set (sys_connections s)" for d
      using inv that by (auto simp: relay_inv_def)
    have "map rc_id (upd_where (\<lambda>d. rc_id d = cid) (\<lambda>_. c') (sys_connections s)) = map rc_id (sys_connections s)"
      using cs(2) w by (intro map_upd_where) simp
    moreover have "rc_id ` set (upd_where (\<lambda>d. rc_id d = cid) (\<lambda>_. c') (sys_connections s)) \<subseteq> set (sys_ids s)"
      using cs w ids by (auto simp: in_upd_where)
    moreover have "\<forall>d \<in> set (upd_where (\<lambda>d. rc_id d = cid) (\<lambda>_. c') (sys_connections s)). conn_ok d"
      using inv cs(1) w by (auto simp: in_upd_where relay_inv_def conn_ok_def)
    ultimately show ?thesis
      using Some inv rooms_inv_window [OF st d cs(1), of w] w cs(2)
      by (auto simp: relay_inv_def)
  qed
qed

lemma relay_inv_deliver:
  assumes "relay_inv s" "channel_pop (rs_queues (sys_state s) cid) = Some (m, q)"
  shows "relay_inv (s\<lparr>sys_state := (sys_state s)\<lparr>rs_queues := (rs_queues (sys_state s))(cid := q)\<rparr>\<rparr>)"
proof -
  have "queue_ok (rs_queues (sys_state s) cid)"
    using assms(1) by (simp add: relay_inv_def rooms_inv_def)
  with mpsc.pop_some [OF assms(2)] have "queue_ok q" by (simp add: queue_ok_def)
  with assms(1) show ?thesis by (simp add: relay_inv_def rooms_inv_def)
qed

lemma handler_frame:
  assumes "relay_ws_handler verify clock t st = (resp, st')"
  shows "rs_rooms st' = rs_rooms st" "rs_queues st' = rs_queues st" "rs_auth_secret st' = rs_auth_secret st"
  using assms by (auto simp: relay_ws_handler_def Let_def split: option.splits sum.splits if_splits)

lemma relay_inv_upgrade:
  assumes inv: "relay_inv s" and fresh: "cid \<notin> set (sys_ids s)"
  shows "relay_inv (relay_act verify codec (ActUpgrade clock t cid start) s)"
proof -
  obtain resp st where h: "relay_ws_handler verify clock t (sys_state s) = (resp, st)" by fastforce
  note f = handler_frame [OF h]
  have base: "rooms_inv st (sys_connections s)"
    using inv f by (simp add: relay_inv_def rooms_inv_def)
  show ?thesis
  proof (cases resp)
    case (Upgraded room user cap exp)
    show ?thesis
    proof (cases "open_connection cid start room user cap exp st")
      case None
      with h Upgraded inv base show ?thesis
        by (auto simp: relay_act_def relay_inv_def Let_def)
    next
      case (Some cst)
      obtain c st' where cst: "cst = (c, st')" by (cases cst)
      with Some have c: "rc_id c = cid" "rc_room_key c = room_key room cap" "rc_room_id c = room"
        "rc_capability c = cap" "rc_user_id c = user"
        and j: "join_room (rc_id c) (rc_room_key c) (rc_user_id c) st = Some st'"
        by (auto simp: open_connection_def split: option.splits)
      from rooms_inv_join [OF base j] h Upgraded Some cst inv fresh c show ?thesis
        by (auto simp: relay_act_def relay_inv_def Let_def conn_ok_def)
    qed
  qed (use h inv base in \<open>auto simp: relay_act_def relay_inv_def Let_def\<close>)
qed

lemma relay_inv_act:
  assumes "relay_inv s" "act_ok act s"
  shows "relay_inv (relay_act verify codec act s)"
proof (cases act)
  case (ActUpgrade clock t cid start)
  with assms relay_inv_upgrade show ?thesis by (simp add: act_ok_def)
next
  case (ActReceive cid now msg)
  show ?thesis
  proof (cases "find (\<lambda>c. rc_id c = cid) (sys_connections s)")
    case (Some c)
    obtain r st where "relay_receive codec now msg c (sys_state s) = (r, st)" by fastforce
    with relay_inv_receive [OF assms(1) Some this] Some ActReceive show ?thesis
      by (auto simp: relay_act_def split: option.splits)
  qed (use assms ActReceive in \<open>simp add: relay_act_def\<close>)
next
  case (ActDrop cid)
  with assms relay_inv_leave show ?thesis
    by (auto simp: relay_act_def dest: find_connection split: option.splits)
next
  case (ActDeliver cid)
  with assms relay_inv_deliver show ?thesis
    by (auto simp: relay_act_def split: option.splits)
next
  case (ActCleanup clock)
  with assms show ?thesis
    by (auto simp: relay_act_def relay_inv_def rooms_inv_def ticket_cleanup_def split: option.splits)
qed

interpretation relay: invariant_system "\<lambda>s. s = relay_init secret" "relay_step verify codec" relay_inv
  for secret verify codec
proof
  show "s = relay_init secret \<Longrightarrow> relay_inv s" for s
    by (simp add: relay_init_def relay_inv_def rooms_inv_def)
  show "relay_inv s \<Longrightarrow> relay_step verify codec s s' \<Longrightarrow> relay_inv s'" for s s'
    by (auto elim!: relay_stepE intro: relay_inv_act)
qed

definition relay_reachable ::
    "(string \<Rightarrow> int \<Rightarrow> relay_ticket \<Rightarrow> relay_ticket_error + unit) \<Rightarrow> relay_codec \<Rightarrow> string \<Rightarrow> relay_sys \<Rightarrow> bool" where
  "relay_reachable verify codec secret s \<longleftrightarrow>
     reachable (\<lambda>s. s = relay_init secret) (relay_step verify codec) s"

lemma relay_reachable_inv: "relay_reachable verify codec secret s \<Longrightarrow> relay_inv s"
  unfolding relay_reachable_def by (rule relay.reachable_inv)

section \<open>Single use of tickets\<close>

text \<open>The accepted tickets have pairwise different nonces, and a nonce is forgotten only after its
  ticket has expired.  \<open>expiry n\<close> is the expiry that the issuer signed for nonce \<open>n\<close>.\<close>

definition used_inv :: "(uuid \<Rightarrow> int) \<Rightarrow> relay_sys \<Rightarrow> bool" where
  "used_inv expiry s \<longleftrightarrow> distinct (map rt_nonce (sys_accepted s))
     \<and> (\<forall>n e. rs_used_tickets (sys_state s) n = Some e \<longrightarrow> e = expiry n)
     \<and> (\<forall>t \<in> set (sys_accepted s). rs_used_tickets (sys_state s) (rt_nonce t) = None \<longrightarrow>
          expiry (rt_nonce t) < sys_now s)"

definition verifier_sound ::
    "(string \<Rightarrow> int \<Rightarrow> relay_ticket \<Rightarrow> relay_ticket_error + unit) \<Rightarrow> (uuid \<Rightarrow> int) \<Rightarrow> bool" where
  "verifier_sound verify expiry \<longleftrightarrow>
     (\<forall>secret now t. verify secret now t = Ok () \<longrightarrow> now \<le> rt_expires_at t \<and> rt_expires_at t = expiry (rt_nonce t))"

lemma used_inv_frame:
  assumes "used_inv expiry s" "rs_used_tickets (sys_state s') = rs_used_tickets (sys_state s)"
    "sys_accepted s' = sys_accepted s" "sys_now s \<le> sys_now s'"
  shows "used_inv expiry s'"
  using assms by (fastforce simp: used_inv_def)

lemma used_inv_cleanup:
  assumes "used_inv expiry s" "clock_ok (sys_now s) clock"
  shows "used_inv expiry (s\<lparr>sys_state := ticket_cleanup clock (sys_state s), sys_now := clock_of (sys_now s) clock\<rparr>)"
  using assms
  by (fastforce simp: used_inv_def ticket_cleanup_def clock_ok_def clock_of_def split: option.splits if_splits)

lemma used_inv_handler:
  assumes inv: "used_inv expiry s" and sound: "verifier_sound verify expiry"
    and clock: "clock_ok (sys_now s) clock" and h: "relay_ws_handler verify clock t (sys_state s) = (resp, st)"
  shows "used_inv expiry (s\<lparr>sys_state := st, sys_now := clock_of (sys_now s) clock,
      sys_accepted := (case resp of Upgraded _ _ _ _ \<Rightarrow> t # sys_accepted s | _ \<Rightarrow> sys_accepted s)\<rparr>)"
proof (cases "\<exists>now. clock = Some now \<and> verify (rs_auth_secret (sys_state s)) now t = Ok ()")
  case False
  then have "st = sys_state s \<and> (resp = ClockUnavailable \<or> resp = TicketInvalid)"
    using h by (auto simp: relay_ws_handler_def split: option.splits sum.splits)
  with inv clock show ?thesis
    by (fastforce simp: used_inv_def clock_ok_def clock_of_def split: option.splits)
next
  case True
  then obtain now where now: "clock = Some now" "verify (rs_auth_secret (sys_state s)) now t = Ok ()" by blast
  with sound have e: "now \<le> expiry (rt_nonce t)" "rt_expires_at t = expiry (rt_nonce t)"
    unfolding verifier_sound_def by fastforce+
  have le: "sys_now s \<le> now" using clock now by (simp add: clock_ok_def)
  have st: "rs_used_tickets st = (rs_used_tickets (sys_state s))(rt_nonce t \<mapsto> expiry (rt_nonce t))"
    "resp = (if rs_used_tickets (sys_state s) (rt_nonce t) \<noteq> None then TicketUsed
      else Upgraded (rt_room_id t) (rt_user_id t) (rt_capability t) (rt_expires_at t))"
    using h now e(2) by (auto simp: relay_ws_handler_def Let_def split: if_splits)
  have "rt_nonce t \<notin> rt_nonce ` set (sys_accepted s)" if "rs_used_tickets (sys_state s) (rt_nonce t) = None"
    using inv that e(1) le unfolding used_inv_def by force
  with inv le now st show ?thesis
    by (fastforce simp: used_inv_def clock_of_def)
qed

lemma leave_room_used: "rs_used_tickets (leave_room c st) = rs_used_tickets st"
  by (simp add: leave_room_def Let_def)

lemma used_inv_act:
  assumes "used_inv expiry s" "verifier_sound verify expiry" "act_ok act s"
  shows "used_inv expiry (relay_act verify codec act s)"
proof (cases act)
  case (ActUpgrade clock t cid start)
  obtain resp st where h: "relay_ws_handler verify clock t (sys_state s) = (resp, st)" by fastforce
  have "clock_ok (sys_now s) clock" using assms(3) ActUpgrade by (simp add: act_ok_def)
  note u = used_inv_handler [OF assms(1,2) this h]
  have "rs_used_tickets (sys_state (relay_act verify codec act s)) = rs_used_tickets st
    \<and> sys_now (relay_act verify codec act s) = clock_of (sys_now s) clock
    \<and> sys_accepted (relay_act verify codec act s) =
        (case resp of Upgraded _ _ _ _ \<Rightarrow> t # sys_accepted s | _ \<Rightarrow> sys_accepted s)"
  proof (cases resp)
    case (Upgraded room user cap exp)
    show ?thesis
    proof (cases "open_connection cid start room user cap exp st")
      case None
      with ActUpgrade h Upgraded show ?thesis by (simp add: relay_act_def Let_def)
    next
      case (Some cst)
      obtain c st' where cst: "cst = (c, st')" by (cases cst)
      with Some have "rs_used_tickets st' = rs_used_tickets st"
        by (auto simp: open_connection_def split: option.splits dest: join_room_Some(3))
      with ActUpgrade h Upgraded Some cst show ?thesis by (simp add: relay_act_def Let_def)
    qed
  qed (use ActUpgrade h in \<open>simp_all add: relay_act_def Let_def\<close>)
  with u show ?thesis by (simp add: used_inv_def)
next
  case (ActReceive cid now msg)
  show ?thesis
  proof (cases "find (\<lambda>c. rc_id c = cid) (sys_connections s)")
    case (Some c)
    obtain res st where r: "relay_receive codec now msg c (sys_state s) = (res, st)" by fastforce
    have "rs_used_tickets (sys_state (relay_act verify codec act s)) = rs_used_tickets (sys_state s)
      \<and> sys_accepted (relay_act verify codec act s) = sys_accepted s
      \<and> sys_now (relay_act verify codec act s) = sys_now s"
      using relay_receive_effect(2) [OF r]
      by (cases res) (simp_all add: relay_act_def ActReceive Some r sys_leave_def leave_room_used)
    with assms(1) show ?thesis by (simp add: used_inv_def)
  qed (use assms ActReceive in \<open>simp add: relay_act_def\<close>)
next
  case (ActDrop cid)
  then show ?thesis
    by (intro used_inv_frame [OF assms(1)])
       (auto simp: relay_act_def sys_leave_def leave_room_used split: option.splits)
next
  case (ActDeliver cid)
  then show ?thesis
    by (intro used_inv_frame [OF assms(1)]) (auto simp: relay_act_def split: option.splits)
next
  case (ActCleanup clock)
  with assms used_inv_cleanup show ?thesis by (auto simp: relay_act_def act_ok_def)
qed

lemma relay_reachable_used:
  assumes "verifier_sound verify expiry" "relay_reachable verify codec secret s"
  shows "used_inv expiry s"
  using assms(2) unfolding relay_reachable_def
proof (induction rule: reachable.induct)
  case (reach_init s)
  then show ?case by (simp add: relay_init_def used_inv_def)
next
  case (reach_step s s')
  then show ?case using assms(1) by (auto elim!: relay_stepE intro: used_inv_act)
qed

end
