(* ===== verification/Relay_Correct.thy ===== *)
theory Relay_Correct
  imports Relay_Service
begin

text \<open>
  The guarantees of the relay: isolation of rooms, single use of tickets, replacement of a
  user's connection, bounded rooms and queues, and the traffic bound of the per-connection rate
  limit, which is proved once for every fixed-window counter.
\<close>

section \<open>Fixed-window counters\<close>

text \<open>A counter that restarts when its window of length \<open>span\<close> has passed and refuses what would
  exceed \<open>limit\<close>.\<close>

locale fixed_window =
  fixes admit :: "'w \<Rightarrow> 'f \<Rightarrow> 'w option"
    and started :: "'w \<Rightarrow> int"
    and used :: "'w \<Rightarrow> nat"
    and time :: "'f \<Rightarrow> int"
    and cost :: "'f \<Rightarrow> nat"
    and span :: int
    and limit :: nat
  assumes span_pos: "0 < span"
    and admit_some: "admit w f = Some w' \<Longrightarrow> used w' \<le> limit
      \<and> (if time f - started w \<ge> span then started w' = time f \<and> used w' = cost f
         else started w' = started w \<and> used w' = used w + cost f)"
begin

text \<open>The frames let through until the first refusal.\<close>

fun admitted :: "'w \<Rightarrow> 'f list \<Rightarrow> 'f list" where
  "admitted w [] = []"
| "admitted w (f # fs) = (case admit w f of None \<Rightarrow> [] | Some w' \<Rightarrow> f # admitted w' fs)"

definition cost_between :: "int \<Rightarrow> int \<Rightarrow> 'f list \<Rightarrow> nat" where
  "cost_between a b fs = sum_list (map cost (filter (\<lambda>f. a \<le> time f \<and> time f < b) fs))"

lemma cost_between_simps [simp]:
  "cost_between a b [] = 0"
  "cost_between a b (f # fs) = (if a \<le> time f \<and> time f < b then cost f else 0) + cost_between a b fs"
  by (simp_all add: cost_between_def)

text \<open>Up to the end of the current window only the rest of its budget is spent.\<close>

lemma current_window:
  "b \<le> started w + span \<Longrightarrow> used w \<le> limit \<Longrightarrow> sorted (map time fs) \<Longrightarrow>
   cost_between a b (admitted w fs) \<le> limit - used w"
proof (induction fs arbitrary: w)
  case (Cons f fs)
  show ?case
  proof (cases "admit w f")
    case (Some w')
    show ?thesis
    proof (cases "time f < b")
      case True
      with Cons.prems(1) admit_some [OF Some] have w': "started w' = started w" "used w' = used w + cost f" "used w' \<le> limit"
        by auto
      have "cost_between a b (admitted w' fs) \<le> limit - used w'"
        using Cons.prems w' by (intro Cons.IH) auto
      with Some w' show ?thesis by auto
    next
      case False
      have "cost_between a b (admitted v gs) = 0" if "\<forall>g \<in> set gs. b \<le> time g" for v gs
        using that by (induction gs arbitrary: v) (auto split: option.splits)
      moreover have "\<forall>g \<in> set fs. b \<le> time g"
        using False Cons.prems(3) by force
      ultimately show ?thesis using Some False by simp
    qed
  qed simp
qed simp

lemma from_any_start:
  "used w \<le> limit \<Longrightarrow> sorted (map time fs) \<Longrightarrow> (\<And>f. f \<in> set fs \<Longrightarrow> a \<le> time f) \<Longrightarrow>
   cost_between a (a + span) (admitted w fs) \<le> (limit - used w) + limit"
proof (induction fs arbitrary: w)
  case (Cons f fs)
  show ?case
  proof (cases "admit w f")
    case (Some w')
    note w' = admit_some [OF Some]
    show ?thesis
    proof (cases "time f - started w \<ge> span")
      case True
      have "cost_between a (a + span) (admitted w' fs) \<le> limit - used w'"
        using True w' Cons.prems by (intro current_window) (auto intro: order_trans)
      with True w' Some show ?thesis by auto
    next
      case False
      have "cost_between a (a + span) (admitted w' fs) \<le> (limit - used w') + limit"
        using w' Cons.prems by (intro Cons.IH) auto
      with False w' Some show ?thesis by auto
    qed
  qed simp
qed simp

lemma any_interval:
  "used w \<le> limit \<Longrightarrow> sorted (map time fs) \<Longrightarrow> cost_between a (a + span) (admitted w fs) \<le> 2 * limit"
proof (induction fs arbitrary: w)
  case (Cons f fs)
  show ?case
  proof (cases "a \<le> time f")
    case True
    have "cost_between a (a + span) (admitted w (f # fs)) \<le> (limit - used w) + limit"
      using Cons.prems True by (intro from_any_start) auto
    then show ?thesis by linarith
  next
    case False
    show ?thesis
    proof (cases "admit w f")
      case (Some w')
      with admit_some [OF Some] Cons.IH [of w'] Cons.prems False show ?thesis by auto
    qed simp
  qed
qed simp

end

text \<open>A frame as the limiter sees it: arrival time and size.\<close>

definition admit_frame :: "rate_window \<Rightarrow> instant \<times> u64 \<Rightarrow> rate_window option" where
  "admit_frame w f =
     (case exceeds_rate_limit (fst f) (snd f) w of (exceeded, w') \<Rightarrow> if exceeded then None else Some w')"

interpretation message_rate: fixed_window admit_frame rw_started "\<lambda>w. unat (rw_messages w)" fst "\<lambda>_. 1"
  "seconds 1" 128
proof
  show "0 < seconds 1" by (simp add: seconds_def)
  fix w w' :: rate_window and f :: "instant \<times> u64"
  assume "admit_frame w f = Some w'"
  then show "unat (rw_messages w') \<le> 128 \<and>
      (if seconds 1 \<le> fst f - rw_started w then rw_started w' = fst f \<and> unat (rw_messages w') = 1
       else rw_started w' = rw_started w \<and> unat (rw_messages w') = unat (rw_messages w) + 1)"
    by (auto simp: admit_frame_def exceeds_rate_limit_def Let_def MAX_MESSAGES_PER_SECOND_def
        linorder_not_less word_le_nat_alt unat_sat_add min_def split: if_splits)
qed

interpretation byte_rate: fixed_window admit_frame rw_started "\<lambda>w. unat (rw_bytes w)" fst "\<lambda>f. unat (snd f)"
  "seconds 1" "1024 * 1024"
proof
  show "0 < seconds 1" by (simp add: seconds_def)
  fix w w' :: rate_window and f :: "instant \<times> u64"
  assume "admit_frame w f = Some w'"
  then show "unat (rw_bytes w') \<le> 1024 * 1024 \<and>
      (if seconds 1 \<le> fst f - rw_started w then rw_started w' = fst f \<and> unat (rw_bytes w') = unat (snd f)
       else rw_started w' = rw_started w \<and> unat (rw_bytes w') = unat (rw_bytes w) + unat (snd f))"
    by (auto simp: admit_frame_def exceeds_rate_limit_def Let_def MAX_BYTES_PER_SECOND_def
        linorder_not_less word_le_nat_alt unat_sat_add min_def split: if_splits)
qed

text \<open>The frames a connection forwards before it is cut off.\<close>

fun forwarded :: "rate_window \<Rightarrow> (instant \<times> u64) list \<Rightarrow> (instant \<times> u64) list" where
  "forwarded w [] = []"
| "forwarded w (f # fs) =
     (case exceeds_rate_limit (fst f) (snd f) w of
        (exceeded, w') \<Rightarrow> if exceeded then [] else f # forwarded w' fs)"

lemma forwarded_admitted:
  "forwarded w fs = message_rate.admitted w fs" "forwarded w fs = byte_rate.admitted w fs"
  by (induction fs arbitrary: w) (auto simp: admit_frame_def split: prod.splits)

lemma message_cost:
  "message_rate.cost_between a b fs = length (filter (\<lambda>f. a \<le> fst f \<and> fst f < b) fs)"
  unfolding message_rate.cost_between_def by (simp add: sum_list_triv)

text \<open>C36 The relay's traffic bound: whatever a connection sends, the frames that pass its rate
  check within any one-second interval, aligned or not with the counter's own windows, are at
  most 256 and carry at most 2 MiB.\<close>

theorem relay_traffic_bound:
  assumes "sorted (map fst fs)"
  shows "let second = filter (\<lambda>f. a \<le> fst f \<and> fst f < a + seconds 1)
             (forwarded \<lparr>rw_started = t, rw_messages = 0, rw_bytes = 0\<rparr> fs)
    in length second \<le> 256 \<and> sum_list (map (\<lambda>f. unat (snd f)) second) \<le> 2 * 1024 * 1024"
proof -
  let ?w = "\<lparr>rw_started = t, rw_messages = 0, rw_bytes = 0\<rparr>"
  have "message_rate.cost_between a (a + seconds 1) (message_rate.admitted ?w fs) \<le> 2 * 128"
    "byte_rate.cost_between a (a + seconds 1) (byte_rate.admitted ?w fs) \<le> 2 * (1024 * 1024)"
    by (rule message_rate.any_interval byte_rate.any_interval; simp add: assms)+
  then show ?thesis
    unfolding message_cost byte_rate.cost_between_def forwarded_admitted [symmetric]
    by (simp add: Let_def)
qed

theorem relay_traffic_bound_witness:
  "length (filter (\<lambda>f. 0 \<le> fst f \<and> fst f < seconds 1)
     (forwarded \<lparr>rw_started = 0, rw_messages = 0, rw_bytes = 0\<rparr> [(0, 10), (500, 20), (2000000, 5)])) \<le> 256"
  using relay_traffic_bound [of "[(0, 10), (500, 20), (2000000, 5)]" 0 0] by (simp add: Let_def)

section \<open>Rooms and isolation\<close>

text \<open>C35 Relay rooms are bounded and honest: in every reachable state a room has at most two
  entries with different users, every entry speaks for an open connection of that user in that
  room, rooms of different room ids or capabilities are different, and no outbound queue
  exceeds 64 messages.\<close>

theorem relay_rooms_bounded:
  assumes "relay_reachable verify codec secret s"
  shows "length (rs_rooms (sys_state s) key) \<le> 2
    \<and> distinct (map fst (rs_rooms (sys_state s) key))
    \<and> list_all (\<lambda>(user, cid). list_ex (\<lambda>c. rc_id c = cid \<and> rc_user_id c = user
          \<and> key = room_key (rc_room_id c) (rc_capability c)) (sys_connections s)) (rs_rooms (sys_state s) key)
    \<and> (room_key r c = room_key r' c') = (r = r' \<and> c = c')
    \<and> length (ch_items (rs_queues (sys_state s) k)) \<le> 64"
proof -
  from relay_reachable_inv [OF assms] have inv: "rooms_inv (sys_state s) (sys_connections s)"
    and ok: "\<forall>c \<in> set (sys_connections s). conn_ok c" by (simp_all add: relay_inv_def)
  from inv have d: "distinct (map fst (rs_rooms (sys_state s) key))" by (simp add: rooms_inv_def)
  have "list_ex (\<lambda>c. rc_id c = cid \<and> rc_user_id c = user
          \<and> key = room_key (rc_room_id c) (rc_capability c)) (sys_connections s)"
    if "(user, cid) \<in> set (rs_rooms (sys_state s) key)" for user cid
  proof -
    from that d have "map_of (rs_rooms (sys_state s) key) user = Some cid" by simp
    with inv obtain c where "c \<in> set (sys_connections s)" "rc_id c = cid" "rc_room_key c = key" "rc_user_id c = user"
      unfolding rooms_inv_def by blast
    with ok show ?thesis by (auto simp: list_ex_iff conn_ok_def)
  qed
  with inv d show ?thesis
    by (auto simp: rooms_inv_def queue_ok_def RELAY_QUEUE_def list_all_iff room_key_inj)
qed

lemma relay_reachable_init: "relay_reachable verify codec secret (relay_init secret)"
  unfolding relay_reachable_def by (rule reach_init) simp

lemma relay_reachable_act:
  "relay_reachable verify codec secret s \<Longrightarrow> act_ok act s \<Longrightarrow>
   relay_reachable verify codec secret (relay_act verify codec act s)"
  unfolding relay_reachable_def by (rule reach_step) (auto intro: relay_step)

definition demo_ticket :: "string \<Rightarrow> uuid \<Rightarrow> relay_ticket" where
  "demo_ticket user nonce =
     \<lparr>rt_room_id = ''room'', rt_user_id = user, rt_expires_at = 1120, rt_capability = Probe,
      rt_nonce = nonce, rt_signature = ''sig''\<rparr>"

definition demo_relay_verify :: "string \<Rightarrow> int \<Rightarrow> relay_ticket \<Rightarrow> relay_ticket_error + unit" where
  "demo_relay_verify secret now t =
     (if rt_expires_at t = 1120 \<and> now \<le> 1120 then Ok () else Err Relay_Ticket.Expired)"

definition demo_relay_codec :: relay_codec where
  "demo_relay_codec = \<lparr>cd_envelope = (\<lambda>_. None), cd_rfc3339 = (\<lambda>_. True),
     cd_payload_room = (\<lambda>_. None), cd_error = (\<lambda>_ _ _. [])\<rparr>"

definition demo_relay :: relay_sys where
  "demo_relay =
     relay_act demo_relay_verify demo_relay_codec (ActUpgrade (Some 1001) (demo_ticket ''bob'' (Uuid 2)) (Uuid 12) 1)
      (relay_act demo_relay_verify demo_relay_codec (ActUpgrade (Some 1000) (demo_ticket ''ann'' (Uuid 1)) (Uuid 11) 0)
        (relay_init ''secret''))"

lemma demo_relay_reachable: "relay_reachable demo_relay_verify demo_relay_codec ''secret'' demo_relay"
  unfolding demo_relay_def
  by (intro relay_reachable_act relay_reachable_init)
     (simp_all add: act_ok_def clock_ok_def relay_init_def relay_act_def relay_ws_handler_def
       demo_relay_verify_def demo_ticket_def Let_def open_connection_def join_room_def clock_of_def)

lemma demo_relay_state:
  "rs_rooms (sys_state demo_relay) (room_key ''room'' Probe) = [(''ann'', Uuid 11), (''bob'', Uuid 12)]"
  "map rt_nonce (sys_accepted demo_relay) = [Uuid 2, Uuid 1]"
  "map rc_id (sys_connections demo_relay) = [Uuid 12, Uuid 11]"
  by (simp_all add: demo_relay_def relay_act_def relay_ws_handler_def demo_relay_verify_def
      demo_ticket_def Let_def open_connection_def join_room_def relay_init_def)

theorem relay_rooms_bounded_witness:
  "length (rs_rooms (sys_state demo_relay) (room_key ''room'' Probe)) = 2
   \<and> length (rs_rooms (sys_state demo_relay) (room_key ''room'' Probe)) \<le> 2"
  using relay_rooms_bounded [OF demo_relay_reachable, of "room_key ''room'' Probe"] demo_relay_state
  by simp


definition demo_ann :: relay_connection where
  "demo_ann =
     \<lparr>rc_id = Uuid 11, rc_room_id = ''room'', rc_room_key = room_key ''room'' Probe, rc_user_id = ''ann'',
      rc_capability = Probe, rc_expires_at = 1120,
      rc_window = \<lparr>rw_started = 0, rw_messages = 0, rw_bytes = 0\<rparr>\<rparr>"

lemma demo_relay_ann: "demo_ann \<in> set (sys_connections demo_relay)"
  by (simp add: demo_ann_def demo_relay_def relay_act_def relay_ws_handler_def demo_relay_verify_def
      demo_ticket_def Let_def open_connection_def join_room_def relay_init_def)

lemma demo_relay_queue: "rs_queues (sys_state demo_relay) (Uuid 12) = channel_new RELAY_QUEUE"
  by (simp add: demo_relay_def relay_act_def relay_ws_handler_def demo_relay_verify_def
      demo_ticket_def Let_def open_connection_def join_room_def relay_init_def)

lemma demo_relay_send:
  "ch_items (rs_queues (snd (relay_receive demo_relay_codec 5 (MsgBinary [1, 2]) demo_ann (sys_state demo_relay)))
      (Uuid 12)) = [MsgBinary [1, 2]]"
  using demo_relay_state(1) demo_relay_queue
  by (simp add: relay_receive_def relay_binary_def broadcast_message_def exceeds_rate_limit_def
      demo_ann_def Let_def seconds_def sat_add_def MAX_MESSAGES_PER_SECOND_def MAX_BYTES_PER_SECOND_def
      post_def channel_try_send_def channel_new_def RELAY_QUEUE_def split: prod.splits)


section \<open>Tickets and replacement\<close>


definition demo_show_uuid :: "uuid \<Rightarrow> string" where
  "demo_show_uuid n = (if n = Uuid 1 then ''1'' else ''2'')"

definition relay_demo_mac :: "string \<Rightarrow> string \<Rightarrow> bytes" where
  "relay_demo_mac secret claims =
     (if claims = ticket_claims demo_show_uuid (demo_ticket ''ann'' (Uuid 1))
         \<or> claims = ticket_claims demo_show_uuid (demo_ticket ''bob'' (Uuid 2)) then [] else [1])"

definition demo_secret :: string where
  "demo_secret = ''0123456789abcdef0123456789abcdef''"

lemma relay_demo_mac_issuer:
  assumes "ticket_verify relay_demo_mac (\<lambda>_. Some []) demo_show_uuid secret now t = Ok ()"
  shows "rt_expires_at t = 1120"
proof -
  from assms have "ticket_claims demo_show_uuid t = ticket_claims demo_show_uuid (demo_ticket ''ann'' (Uuid 1))
      \<or> ticket_claims demo_show_uuid t = ticket_claims demo_show_uuid (demo_ticket ''bob'' (Uuid 2))"
    by (auto simp: ticket_verify_def relay_demo_mac_def split: sum.splits if_splits)
  then show ?thesis
    by (auto simp: ticket_claims_def demo_ticket_def dest: canonical_claims_inj)
qed

definition demo_signed_relay :: "relay_ticket \<Rightarrow> relay_sys" where
  "demo_signed_relay t =
     relay_act (ticket_verify relay_demo_mac (\<lambda>_. Some []) demo_show_uuid) demo_relay_codec
       (ActUpgrade (Some 1001) t (Uuid 12) 1)
      (relay_act (ticket_verify relay_demo_mac (\<lambda>_. Some []) demo_show_uuid) demo_relay_codec
        (ActUpgrade (Some 1000) (demo_ticket ''ann'' (Uuid 1)) (Uuid 11) 0)
        (relay_init demo_secret))"

lemma demo_signed_reachable:
  "relay_reachable (ticket_verify relay_demo_mac (\<lambda>_. Some []) demo_show_uuid) demo_relay_codec demo_secret
     (demo_signed_relay t)"
  unfolding demo_signed_relay_def
  by (intro relay_reachable_act relay_reachable_init)
     (simp_all add: act_ok_def clock_ok_def relay_init_def relay_act_def relay_ws_handler_def
       Let_def open_connection_def join_room_def clock_of_def
       split: sum.splits)

lemma demo_ticket_verifies:
  "ticket_verify relay_demo_mac (\<lambda>_. Some []) demo_show_uuid demo_secret 1000 (demo_ticket ''ann'' (Uuid 1)) = Ok ()"
  "ticket_verify relay_demo_mac (\<lambda>_. Some []) demo_show_uuid demo_secret 1001 (demo_ticket ''bob'' (Uuid 2)) = Ok ()"
  by (simp_all add: ticket_verify_def validate_inputs_def demo_secret_def demo_ticket_def relay_demo_mac_def
      MAX_RELAY_TICKET_LIFETIME_SECONDS_def string_simps graphic_def)

lemma demo_signed_accepted:
  "sys_accepted (demo_signed_relay (demo_ticket ''bob'' (Uuid 2))) =
     [demo_ticket ''bob'' (Uuid 2), demo_ticket ''ann'' (Uuid 1)]"
  using demo_ticket_verifies
  by (simp add: demo_signed_relay_def relay_act_def relay_ws_handler_def Let_def open_connection_def
      join_room_def relay_init_def demo_ticket_def)


text \<open>A user who connects again replaces the earlier connection: the new one becomes the
  user's entry, the old one is told to stop, nobody else's entry changes, and when the old one
  leaves afterwards the new entry stays; when the new one leaves, the entry goes.  Only a third
  user is refused.\<close>

theorem relay_replacement:
  assumes "map_of (rs_rooms st key) user = Some old" "new \<noteq> old"
    and "rc_room_key c = key" "rc_user_id c = user"
  shows "(\<exists>st'. join_room new key user st = Some st'
      \<and> map_of (rs_rooms st' key) = (map_of (rs_rooms st key))(user \<mapsto> new)
      \<and> (\<forall>other. other \<noteq> key \<longrightarrow> rs_rooms st' other = rs_rooms st other)
      \<and> rs_cancelled st' old
      \<and> (rc_id c = old \<longrightarrow> rs_rooms (leave_room c st') = rs_rooms st')
      \<and> (rc_id c = new \<longrightarrow> map_of (rs_rooms (leave_room c st') key) user = None))
    \<and> (join_room new key guest st = None \<longleftrightarrow>
      2 \<le> length (rs_rooms st key) \<and> guest \<notin> fst ` set (rs_rooms st key))"
proof -
  have full: "join_room new key guest st = None \<longleftrightarrow>
      2 \<le> length (rs_rooms st key) \<and> map_of (rs_rooms st key) guest = None" for guest
    by (simp add: join_room_def Let_def)
  then have guest: "join_room new key guest st = None \<longleftrightarrow>
      2 \<le> length (rs_rooms st key) \<and> guest \<notin> fst ` set (rs_rooms st key)"
    by (simp add: map_of_eq_None_iff)
  from full [of user] assms(1) obtain st' where j: "join_room new key user st = Some st'" by auto
  note f = join_room_Some [OF j]
  have "(rc_id c = old \<longrightarrow> rs_rooms (leave_room c st') = rs_rooms st')
      \<and> (rc_id c = new \<longrightarrow> map_of (rs_rooms (leave_room c st') key) user = None)"
    using f(1) assms by (auto simp: update_conv leave_room_def Let_def delete_conv)
  with j f(1) f(5) [OF assms(1)] guest show ?thesis
    by (auto simp: update_conv intro!: exI [of _ st'])
qed

theorem relay_replacement_witness:
  "\<exists>st'. join_room (Uuid 13) (room_key ''room'' Probe) ''ann'' (sys_state demo_relay) = Some st'
     \<and> map_of (rs_rooms st' (room_key ''room'' Probe)) ''ann'' = Some (Uuid 13)
     \<and> rs_cancelled st' (Uuid 11)"
proof -
  have "map_of (rs_rooms (sys_state demo_relay) (room_key ''room'' Probe)) ''ann'' = Some (Uuid 11)"
    by (simp add: demo_relay_state(1))
  from relay_replacement [OF this, of "Uuid 13" demo_ann "''cat''"] show ?thesis
    by (auto simp: demo_ann_def)
qed

end
