(* ===== verification/Rate_Limits.thy ===== *)
theory Rate_Limits
  imports OC_Prelude "HOL-Library.AList"
begin

text \<open>
  The server's sliding-window limiters: the per-socket \<open>RateLimiter\<close> of
  \<open>apps/server/src/ws.rs\<close> and the per-key \<open>AuthRateLimiter\<close> of
  \<open>apps/server/src/auth_rate_limit.rs\<close>.  Both keep the instants they admitted; the locale
  \<open>sliding_window\<close> states what such a log promises and derives the bound for every window.
\<close>

section \<open>The WebSocket limiter\<close>

definition RATE_LIMIT_WINDOW :: int where "RATE_LIMIT_WINDOW = seconds 10"
definition RATE_LIMIT_MESSAGES :: nat where "RATE_LIMIT_MESSAGES = 30"

record rate_limiter =
  rl_received_at :: "instant list"

definition allow :: "instant \<Rightarrow> rate_limiter \<Rightarrow> bool \<times> rate_limiter" where
  "allow now l =
     (let kept = dropWhile (\<lambda>received. now - received \<ge> RATE_LIMIT_WINDOW) (rl_received_at l) in
      if length kept \<ge> RATE_LIMIT_MESSAGES then (False, l\<lparr>rl_received_at := kept\<rparr>)
      else (True, l\<lparr>rl_received_at := kept @ [now]\<rparr>))"

section \<open>The authentication limiter\<close>

definition MAX_TRACKED_KEYS :: nat where "MAX_TRACKED_KEYS = 4096"
definition MAX_ATTEMPTS :: nat where "MAX_ATTEMPTS = 5"
definition ATTEMPT_WINDOW :: int where "ATTEMPT_WINDOW = seconds 60"

text \<open>The map of the tracked keys, each with its log.\<close>

type_synonym auth_rate_limiter = "(string \<times> instant list) list"

definition log_of :: "string \<Rightarrow> auth_rate_limiter \<Rightarrow> instant list" where
  "log_of key m = (case map_of m key of None \<Rightarrow> [] | Some attempts \<Rightarrow> attempts)"

definition retain_recent :: "instant \<Rightarrow> auth_rate_limiter \<Rightarrow> auth_rate_limiter" where
  "retain_recent now m = filter (\<lambda>e. snd e \<noteq> [] \<and> now - last (snd e) < ATTEMPT_WINDOW) m"

definition record_attempt :: "string \<Rightarrow> nat \<Rightarrow> instant \<Rightarrow> auth_rate_limiter \<Rightarrow> bool \<times> auth_rate_limiter" where
  "record_attempt key limit now m =
     (let attempts = dropWhile (\<lambda>attempt. now - attempt \<ge> ATTEMPT_WINDOW) (log_of key m) in
      if length attempts \<ge> limit then (False, AList.update key attempts m)
      else (True, AList.update key (attempts @ [now]) m))"

definition check_at :: "string \<Rightarrow> nat \<Rightarrow> instant \<Rightarrow> auth_rate_limiter \<Rightarrow> bool \<times> auth_rate_limiter" where
  "check_at key limit now m =
     (if limit = 0 then (False, m)
      else if length m \<ge> MAX_TRACKED_KEYS \<and> map_of m key = None then
        (let m' = retain_recent now m in
         if length m' \<ge> MAX_TRACKED_KEYS then (False, m')
         else record_attempt key limit now m')
      else record_attempt key limit now m)"

definition check_key :: "string \<Rightarrow> instant \<Rightarrow> auth_rate_limiter \<Rightarrow> bool \<times> auth_rate_limiter" where
  "check_key key now m = check_at key MAX_ATTEMPTS now m"

definition clear_key :: "string \<Rightarrow> auth_rate_limiter \<Rightarrow> auth_rate_limiter" where
  "clear_key key m = AList.delete key m"

section \<open>What a sliding window promises\<close>

text \<open>\<open>admit\<close> forgets only entries that are at least \<open>span\<close> old, and admits only while fewer than
  \<open>limit\<close> entries are kept.\<close>

locale sliding_window =
  fixes admit :: "'e \<Rightarrow> 'w \<Rightarrow> bool \<times> 'w"
    and time :: "'e \<Rightarrow> int"
    and kept :: "'w \<Rightarrow> int list"
    and wf :: "int \<Rightarrow> 'w \<Rightarrow> bool"
    and span :: int
    and limit :: nat
  assumes admit_wf: "wf b w \<Longrightarrow> b \<le> time e \<Longrightarrow> admit e w = (ok, w') \<Longrightarrow> wf (time e) w'"
    and admit_kept: "wf b w \<Longrightarrow> b \<le> time e \<Longrightarrow> admit e w = (ok, w') \<Longrightarrow>
      \<exists>dropped rest. kept w = dropped @ rest \<and> (\<forall>t \<in> set dropped. time e - t \<ge> span)
        \<and> kept w' = rest @ (if ok then [time e] else []) \<and> (ok \<longrightarrow> length rest < limit)"
begin

fun admitted :: "'w \<Rightarrow> 'e list \<Rightarrow> int list" where
  "admitted w [] = []"
| "admitted w (e # es) = (case admit e w of (ok, w') \<Rightarrow> (if ok then [time e] else []) @ admitted w' es)"

definition in_window :: "int \<Rightarrow> int list \<Rightarrow> nat" where
  "in_window a ts = length (filter (\<lambda>t. a \<le> t \<and> t < a + span) ts)"

lemma in_window_simps [simp]:
  "in_window a [] = 0"
  "in_window a (t # ts) = (if a \<le> t \<and> t < a + span then 1 else 0) + in_window a ts"
  "in_window a (ts @ us) = in_window a ts + in_window a us"
  by (simp_all add: in_window_def)

lemma in_window_le: "in_window a ts \<le> length ts"
  by (simp add: in_window_def)

lemma in_window_old: "(\<And>t. t \<in> set ts \<Longrightarrow> t < a \<or> t \<ge> a + span) \<Longrightarrow> in_window a ts = 0"
  by (fastforce simp: in_window_def filter_empty_conv)

lemma window_history:
  assumes "wf b w" "sorted (map time es)" "\<And>e. e \<in> set es \<Longrightarrow> b \<le> time e"
    and "\<And>t. t \<in> set old \<Longrightarrow> b - t \<ge> span"
    and "in_window a (old @ kept w) \<le> limit"
  shows "in_window a (old @ kept w @ admitted w es) \<le> limit"
  using assms
proof (induction es arbitrary: b w old)
  case (Cons e es)
  obtain ok w' where ad: "admit e w = (ok, w')" by fastforce
  from Cons.prems(3) have le: "b \<le> time e" by simp
  from admit_kept [OF Cons.prems(1) le ad] obtain dropped rest where
    split: "kept w = dropped @ rest" "\<forall>t \<in> set dropped. time e - t \<ge> span"
      "kept w' = rest @ (if ok then [time e] else [])" "ok \<longrightarrow> length rest < limit" by blast
  let ?old = "old @ dropped"
  have old: "time e - t \<ge> span" if "t \<in> set ?old" for t
    using that split(2) le Cons.prems(4) [of t] by auto
  have "in_window a (?old @ kept w') \<le> limit"
  proof (cases "ok \<and> a \<le> time e \<and> time e < a + span")
    case True
    have "in_window a ?old = 0" by (rule in_window_old) (use old True in fastforce)
    with True split(3,4) in_window_le [of a rest] show ?thesis by simp
  next
    case False
    with Cons.prems(5) split(1,3) show ?thesis by auto
  qed
  from Cons.IH [OF admit_wf [OF Cons.prems(1) le ad] _ _ old this] Cons.prems(2)
  have "in_window a (?old @ kept w' @ admitted w' es) \<le> limit" by simp
  with ad split(1,3) show ?case by simp
qed simp

lemma window_bound:
  assumes "wf b w" "kept w = []" "sorted (map time es)" "\<And>e. e \<in> set es \<Longrightarrow> b \<le> time e"
  shows "in_window a (admitted w es) \<le> limit"
  using window_history [OF assms(1,3,4), of "[]" a] assms(2) by simp

end

lemma dropWhile_split:
  "\<exists>dropped. xs = dropped @ dropWhile P xs \<and> (\<forall>x \<in> set dropped. P x)"
  by (metis set_takeWhileD takeWhile_dropWhile_id)

interpretation ws_limit: sliding_window allow "\<lambda>t. t" rl_received_at "\<lambda>_ _. True" RATE_LIMIT_WINDOW RATE_LIMIT_MESSAGES
proof
  fix w w' :: rate_limiter and e b :: instant and ok
  assume "allow e w = (ok, w')"
  moreover obtain dropped where
    "rl_received_at w = dropped @ dropWhile (\<lambda>received. e - received \<ge> RATE_LIMIT_WINDOW) (rl_received_at w)"
    "\<forall>x \<in> set dropped. e - x \<ge> RATE_LIMIT_WINDOW"
    using dropWhile_split [of "rl_received_at w" "\<lambda>received. e - received \<ge> RATE_LIMIT_WINDOW"] by auto
  ultimately show "\<exists>dropped rest. rl_received_at w = dropped @ rest
      \<and> (\<forall>t \<in> set dropped. RATE_LIMIT_WINDOW \<le> e - t)
      \<and> rl_received_at w' = rest @ (if ok then [e] else []) \<and> (ok \<longrightarrow> length rest < RATE_LIMIT_MESSAGES)"
    by (intro exI [of _ dropped] exI [of _ "dropWhile (\<lambda>received. e - received \<ge> RATE_LIMIT_WINDOW) (rl_received_at w)"])
       (auto simp: allow_def Let_def split: if_splits)
qed simp

text \<open>The messages a socket's limiter lets through.\<close>

fun allowed :: "rate_limiter \<Rightarrow> instant list \<Rightarrow> instant list" where
  "allowed l [] = []"
| "allowed l (t # ts) = (case allow t l of (ok, l') \<Rightarrow> (if ok then [t] else []) @ allowed l' ts)"

lemma allowed_admitted: "allowed l ts = ws_limit.admitted l ts"
  by (induction ts arbitrary: l) (auto split: prod.splits)

text \<open>The WebSocket limiter: of any sequence of messages in time order, at most 30 are let
  through in any interval of ten seconds, wherever the interval starts.\<close>

theorem ws_rate_bound:
  assumes "sorted ts"
  shows "length (filter (\<lambda>t. a \<le> t \<and> t < a + seconds 10) (allowed \<lparr>rl_received_at = []\<rparr> ts)) \<le> 30"
proof -
  obtain b where b: "\<And>t. t \<in> set ts \<Longrightarrow> b \<le> t"
    using assms by (cases ts) auto
  have "ws_limit.in_window a (ws_limit.admitted \<lparr>rl_received_at = []\<rparr> ts) \<le> RATE_LIMIT_MESSAGES"
    by (rule ws_limit.window_bound [where b = b]) (use assms b in auto)
  then show ?thesis
    unfolding ws_limit.in_window_def allowed_admitted
    by (simp add: RATE_LIMIT_WINDOW_def RATE_LIMIT_MESSAGES_def)
qed

theorem ws_rate_bound_witness:
  "length (filter (\<lambda>t. 0 \<le> t \<and> t < 0 + seconds 10) (allowed \<lparr>rl_received_at = []\<rparr> (replicate 40 7))) \<le> 30"
  by (rule ws_rate_bound) simp

section \<open>The authentication limiter as a sliding window\<close>

text \<open>A check of some key at some time; \<open>limit key\<close> is the limit that the callers pass for it.\<close>

type_synonym auth_check = "string \<times> instant"

definition check_event :: "(string \<Rightarrow> nat) \<Rightarrow> string \<Rightarrow> auth_check \<Rightarrow> auth_rate_limiter \<Rightarrow> bool \<times> auth_rate_limiter" where
  "check_event limit key e m =
     (case check_at (fst e) (limit (fst e)) (snd e) m of (ok, m') \<Rightarrow> (ok \<and> fst e = key, m'))"

definition limiter_wf :: "instant \<Rightarrow> auth_rate_limiter \<Rightarrow> bool" where
  "limiter_wf b m \<longleftrightarrow> distinct (map fst m) \<and> length m \<le> MAX_TRACKED_KEYS
     \<and> (\<forall>k. sorted (log_of k m) \<and> (\<forall>t \<in> set (log_of k m). t \<le> b))"

lemma log_of_update [simp]: "log_of k (AList.update key a m) = (if k = key then a else log_of k m)"
  by (simp add: log_of_def update_conv)

lemma map_of_filter_distinct:
  "distinct (map fst m) \<Longrightarrow> map_of (filter P m) k =
     (case map_of m k of None \<Rightarrow> None | Some v \<Rightarrow> if P (k, v) then Some v else None)"
proof (induction m)
  case (Cons e es)
  then show ?case
    by (cases e) (auto split: option.splits simp: map_of_eq_None_iff image_iff dest: map_of_SomeD)
qed simp

lemma log_of_retain:
  "distinct (map fst m) \<Longrightarrow> log_of k (retain_recent now m) = log_of k m
     \<or> log_of k (retain_recent now m) = [] \<and> (log_of k m = [] \<or> now - last (log_of k m) \<ge> ATTEMPT_WINDOW)"
  by (auto simp: log_of_def retain_recent_def map_of_filter_distinct split: option.splits)

lemma sorted_last: "sorted ts \<Longrightarrow> t \<in> set ts \<Longrightarrow> t \<le> last ts"
  by (induction ts) auto

lemma limiter_wf_retain: "limiter_wf b m \<Longrightarrow> limiter_wf b (retain_recent now m)"
proof -
  assume wf: "limiter_wf b m"
  have "length (retain_recent now m) \<le> length m" by (simp add: retain_recent_def)
  moreover have "distinct (map fst (retain_recent now m))"
    using wf by (simp add: limiter_wf_def retain_recent_def distinct_map_filter)
  moreover have "sorted (log_of k (retain_recent now m)) \<and> (\<forall>t \<in> set (log_of k (retain_recent now m)). t \<le> b)" for k
    using wf log_of_retain [of m k now] by (auto simp: limiter_wf_def)
  ultimately show ?thesis using wf by (auto simp: limiter_wf_def)
qed

lemma limiter_wf_record:
  assumes "limiter_wf b m" "b \<le> now" "length m < MAX_TRACKED_KEYS \<or> map_of m key \<noteq> None"
    and "record_attempt key limit now m = (ok, m')"
  shows "limiter_wf now m'"
proof -
  have len: "length (AList.update key a m) \<le> MAX_TRACKED_KEYS" for a
  proof -
    have "length (AList.update key a m) = (if map_of m key = None then Suc (length m) else length m)"
      by (induction m) auto
    with assms(1,3) show ?thesis by (auto simp: limiter_wf_def)
  qed
  have le: "t \<le> now" if "t \<in> set (log_of k m)" for t k
    using assms(1,2) that by (fastforce simp: limiter_wf_def)
  let ?d = "dropWhile (\<lambda>attempt. now - attempt \<ge> ATTEMPT_WINDOW) (log_of key m)"
  have "sorted ?d" "\<And>t. t \<in> set ?d \<Longrightarrow> t \<le> now"
    using assms(1) le by (auto simp: limiter_wf_def intro: sorted_dropWhile dest: set_dropWhileD)
  then show ?thesis
    using assms(1,4) len le
    by (auto simp: record_attempt_def limiter_wf_def Let_def sorted_append distinct_update split: if_splits)
qed

lemma limiter_wf_check:
  assumes "limiter_wf b m" "b \<le> now" "check_at key limit now m = (ok, m')"
  shows "limiter_wf now m'"
proof -
  have mono: "limiter_wf b x \<Longrightarrow> limiter_wf now x" for x
    using assms(2) by (fastforce simp: limiter_wf_def)
  note retained = limiter_wf_retain [OF assms(1), of now]
  show ?thesis
    using assms mono retained limiter_wf_record [OF assms(1,2)] limiter_wf_record [OF retained assms(2)]
    by (auto simp: check_at_def Let_def not_le split: if_splits)
qed

text \<open>What one check does to the log of a key.\<close>

definition slides :: "instant \<Rightarrow> instant list \<Rightarrow> instant list \<Rightarrow> bool" where
  "slides now old rest \<longleftrightarrow> (\<exists>dropped. old = dropped @ rest \<and> (\<forall>t \<in> set dropped. now - t \<ge> ATTEMPT_WINDOW))"

lemma slides_refl [simp]: "slides now old old"
  by (simp add: slides_def)

lemma slides_trans: "slides now a b \<Longrightarrow> slides now b c \<Longrightarrow> slides now a c"
  by (force simp: slides_def)

lemma slides_dropWhile: "slides now old (dropWhile (\<lambda>t. now - t \<ge> ATTEMPT_WINDOW) old)"
  unfolding slides_def using dropWhile_split by blast

lemma slides_retain:
  assumes "limiter_wf b m"
  shows "slides now (log_of k m) (log_of k (retain_recent now m))"
proof -
  have s: "sorted (log_of k m)" and d: "distinct (map fst m)" using assms by (auto simp: limiter_wf_def)
  from log_of_retain [OF d] show ?thesis
  proof
    assume "log_of k (retain_recent now m) = [] \<and> (log_of k m = [] \<or> now - last (log_of k m) \<ge> ATTEMPT_WINDOW)"
    with sorted_last [OF s] show ?thesis by (force simp: slides_def)
  qed simp
qed

lemma record_attempt_log:
  assumes "record_attempt key limit now m = (ok, m')"
  shows "\<exists>rest. slides now (log_of k m) rest
    \<and> log_of k m' = rest @ (if ok \<and> key = k then [now] else []) \<and> (ok \<and> key = k \<longrightarrow> length rest < limit)"
proof (cases "key = k")
  case True
  with assms slides_dropWhile show ?thesis
    by (intro exI [of _ "dropWhile (\<lambda>t. now - t \<ge> ATTEMPT_WINDOW) (log_of k m)"])
       (auto simp: record_attempt_def Let_def split: if_splits)
next
  case False
  with assms show ?thesis
    by (intro exI [of _ "log_of k m"]) (auto simp: record_attempt_def Let_def split: if_splits)
qed

lemma check_at_log:
  assumes "limiter_wf b m" "check_at key limit now m = (ok, m')"
  shows "\<exists>rest. slides now (log_of k m) rest
    \<and> log_of k m' = rest @ (if ok \<and> key = k then [now] else []) \<and> (ok \<and> key = k \<longrightarrow> length rest < limit)"
proof -
  have "(m' = m \<and> \<not> ok) \<or> (m' = retain_recent now m \<and> \<not> ok)
    \<or> record_attempt key limit now (retain_recent now m) = (ok, m')
    \<or> record_attempt key limit now m = (ok, m')"
    using assms(2) unfolding check_at_def Let_def by (simp split: if_splits)
  then consider "m' = m" "\<not> ok" | "m' = retain_recent now m" "\<not> ok"
    | "record_attempt key limit now (retain_recent now m) = (ok, m')"
    | "record_attempt key limit now m = (ok, m')" by blast
  then show ?thesis
  proof cases
    case 1
    then show ?thesis by (intro exI [of _ "log_of k m"]) simp
  next
    case 2
    with slides_retain [OF assms(1)] show ?thesis
      by (intro exI [of _ "log_of k (retain_recent now m)"]) simp
  next
    case 3
    from record_attempt_log [OF this, of k] obtain rest where
      "slides now (log_of k (retain_recent now m)) rest"
      "log_of k m' = rest @ (if ok \<and> key = k then [now] else []) \<and> (ok \<and> key = k \<longrightarrow> length rest < limit)" by blast
    with slides_trans [OF slides_retain [OF assms(1)]] show ?thesis by blast
  next
    case 4
    then show ?thesis by (rule record_attempt_log)
  qed
qed

interpretation auth_limit: sliding_window "check_event limit key" snd "log_of key" limiter_wf ATTEMPT_WINDOW "limit key"
  for limit key
proof
  fix b m e ok m'
  assume wf: "limiter_wf b m" and le: "b \<le> snd e" and ev: "check_event limit key e m = (ok, m')"
  then obtain ok' where c: "check_at (fst e) (limit (fst e)) (snd e) m = (ok', m')" "ok \<longleftrightarrow> ok' \<and> fst e = key"
    by (auto simp: check_event_def split: prod.splits)
  from limiter_wf_check [OF wf le c(1)] show "limiter_wf (snd e) m'" .
  from check_at_log [OF wf c(1), of key] obtain rest where
    r: "slides (snd e) (log_of key m) rest" "log_of key m' = rest @ (if ok' \<and> fst e = key then [snd e] else [])"
      "ok' \<and> fst e = key \<longrightarrow> length rest < limit (fst e)" by blast
  from r(1) obtain dropped where "log_of key m = dropped @ rest" "\<forall>t \<in> set dropped. snd e - t \<ge> ATTEMPT_WINDOW"
    by (auto simp: slides_def)
  with r(2,3) c(2) show "\<exists>dropped rest. log_of key m = dropped @ rest
      \<and> (\<forall>t \<in> set dropped. ATTEMPT_WINDOW \<le> snd e - t)
      \<and> log_of key m' = rest @ (if ok then [snd e] else []) \<and> (ok \<longrightarrow> length rest < limit key)"
    by (intro exI [of _ dropped] exI [of _ rest]) auto
qed

text \<open>The times at which checks of \<open>key\<close> are admitted in a run of checks.\<close>

fun admitted_checks :: "(string \<Rightarrow> nat) \<Rightarrow> string \<Rightarrow> auth_rate_limiter \<Rightarrow> auth_check list \<Rightarrow> instant list" where
  "admitted_checks limit key m [] = []"
| "admitted_checks limit key m (e # es) =
     (case check_at (fst e) (limit (fst e)) (snd e) m of
        (ok, m') \<Rightarrow> (if ok \<and> fst e = key then [snd e] else []) @ admitted_checks limit key m' es)"

fun after_checks :: "(string \<Rightarrow> nat) \<Rightarrow> auth_rate_limiter \<Rightarrow> auth_check list \<Rightarrow> auth_rate_limiter" where
  "after_checks limit m [] = m"
| "after_checks limit m (e # es) = after_checks limit (snd (check_at (fst e) (limit (fst e)) (snd e) m)) es"

lemma admitted_checks_admitted: "admitted_checks limit key m es = auth_limit.admitted limit key m es"
  by (induction es arbitrary: m) (auto simp: check_event_def split: prod.splits)

lemma limiter_wf_after:
  "limiter_wf b m \<Longrightarrow> sorted (map snd es) \<Longrightarrow> (\<And>e. e \<in> set es \<Longrightarrow> b \<le> snd e) \<Longrightarrow>
   length (after_checks limit m es) \<le> MAX_TRACKED_KEYS"
proof (induction es arbitrary: b m)
  case Nil
  then show ?case by (simp add: limiter_wf_def)
next
  case (Cons e es)
  obtain ok m' where c: "check_at (fst e) (limit (fst e)) (snd e) m = (ok, m')" by fastforce
  with Cons.prems have "limiter_wf (snd e) m'" by (intro limiter_wf_check [OF Cons.prems(1) _ c]) simp
  from Cons.IH [OF this] Cons.prems(2) c show ?case by simp
qed

lemma limiter_wf_Nil: "limiter_wf b []"
  by (simp add: limiter_wf_def log_of_def)



end
