(* ===== verification/Server_DB.thy ===== *)
theory Server_DB
  imports Room_State Relay_Ticket
begin

text \<open>
  The server's durable state and its errors (\<open>apps/server/src/error.rs\<close>, the tables that the
  handlers of \<open>apps/server/src/routes\<close> read and write).

  A table is the list of its rows in insertion order.  A column with a CHECK constraint over a
  fixed set of labels holds the label's state itself (\<open>Room_State.room_labels_roundtrip\<close>: the
  labels are a codec).  An INSERT that would violate a primary key or a unique index fails as
  the code sees it, with \<open>sqlx::Error\<close> turned into \<open>AppError::Internal\<close>.  Users are never
  deleted by the program and every user id comes from an authenticated session, so the foreign
  keys to \<open>users\<close> hold.
\<close>

section \<open>Errors\<close>

datatype app_error =
    Unauthorized string
  | Forbidden string
  | BadRequest string
  | NotFound string
  | Conflict string
  | Internal string
  | VersionUnsupported string
  | RateLimited string

fun app_status_code :: "app_error \<Rightarrow> nat" where
  "app_status_code (Unauthorized _) = 401"
| "app_status_code (Forbidden _) = 403"
| "app_status_code (BadRequest _) = 400"
| "app_status_code (NotFound _) = 404"
| "app_status_code (Conflict _) = 409"
| "app_status_code (Internal _) = 500"
| "app_status_code (VersionUnsupported _) = 400"
| "app_status_code (RateLimited _) = 429"

fun app_code :: "app_error \<Rightarrow> string" where
  "app_code (Unauthorized _) = ''unauthorized''"
| "app_code (Forbidden _) = ''forbidden''"
| "app_code (BadRequest _) = ''bad_request''"
| "app_code (NotFound _) = ''not_found''"
| "app_code (Conflict _) = ''conflict''"
| "app_code (Internal _) = ''internal''"
| "app_code (VersionUnsupported _) = ''version_unsupported''"
| "app_code (RateLimited _) = ''rate_limited''"

fun app_message :: "app_error \<Rightarrow> string" where
  "app_message (Unauthorized m) = m"
| "app_message (Forbidden m) = m"
| "app_message (BadRequest m) = m"
| "app_message (NotFound m) = m"
| "app_message (Conflict m) = m"
| "app_message (Internal m) = m"
| "app_message (VersionUnsupported m) = m"
| "app_message (RateLimited m) = m"

definition app_envelope_type :: "app_error \<Rightarrow> string" where
  "app_envelope_type e = ''error.'' @ app_code e"

text \<open>\<open>IntoResponse\<close>: the status and the envelope of an error.\<close>

definition into_response :: "string \<Rightarrow> instant \<Rightarrow> app_error \<Rightarrow> nat \<times> json envelope" where
  "into_response fresh_id now e =
     (app_status_code e,
      envelope_new fresh_id now (app_envelope_type e)
        (JObj [(''code'', JStr (app_code e)), (''message'', JStr (app_message e))]))"

text \<open>\<open>From<sqlx::Error>\<close>.\<close>

definition db_failure :: app_error where
  "db_failure = Internal ''database operation failed''"

section \<open>Tables\<close>

record room_row =
  r_id :: uuid
  r_game :: string
  r_host :: uuid
  r_state :: room_state
  r_max_players :: int
  r_attempt :: uuid
  r_deadline :: "instant option"
  r_created :: instant

record member_row =
  m_room :: uuid
  m_user :: uuid
  m_joined :: instant

datatype challenge_db_state = ChPending | ChAccepted | ChDeclined | ChCancelled | ChExpired

record challenge_row =
  c_id :: uuid
  c_room :: uuid
  c_challenger :: uuid
  c_challenged :: uuid
  c_state :: challenge_db_state
  c_expires :: instant
  c_created :: instant

datatype attempt_state = AtActive | AtSucceeded | AtFailed | AtCancelled | AtExpired

record attempt_row =
  a_id :: uuid
  a_room :: uuid
  a_state :: attempt_state
  a_failure :: "string option"
  a_deadline :: "instant option"
  a_finished :: "instant option"

record event_row =
  ev_revision :: nat
  ev_room :: uuid
  ev_attempt :: "uuid option"
  ev_actor :: "uuid option"
  ev_type :: string
  ev_payload :: json

record match_row =
  mt_room :: uuid
  mt_game :: string
  mt_started :: instant
  mt_ended :: "instant option"

record runtime_row =
  p_room :: uuid
  p_user :: uuid
  p_launched :: instant
  p_ended :: "instant option"
  p_exit_code :: "int option"

record grant_row =
  g_hash :: string
  g_room :: uuid
  g_game :: string
  g_local :: uuid
  g_peer :: uuid
  g_role :: string
  g_local_endpoint :: string
  g_peer_endpoint :: string
  g_input_delay :: int
  g_expires :: instant
  g_consumed :: "instant option"

record invite_row =
  i_hash :: string
  i_room :: uuid
  i_creator :: uuid
  i_expires :: instant
  i_consumed :: "instant option"
  i_consumer :: "uuid option"

record preflight_row =
  f_room :: uuid
  f_user :: uuid
  f_compatibility :: match_report_compatibility
  f_port_available :: bool
  f_controller :: bool
  f_slot :: int
  f_ready :: bool
  f_attempt :: uuid

record barrier_row =
  b_room :: uuid
  b_attempt :: uuid
  b_launch :: instant

datatype evidence_payload = MatchEvidence match_report | FailureEvidence alpha_failure_report

record evidence_row =
  e_digest :: string
  e_room :: uuid
  e_by :: uuid
  e_role :: match_report_role
  e_payload :: evidence_payload

record receipt_row =
  x_id :: uuid
  x_source :: uuid
  x_creator :: uuid
  x_next :: uuid

record command_row =
  k_actor :: uuid
  k_key :: uuid
  k_type :: string
  k_response :: match_receipt_payload

record db =
  db_users :: "uuid list"
  db_games :: "string list"
  db_rooms :: "room_row list"
  db_members :: "member_row list"
  db_challenges :: "challenge_row list"
  db_attempts :: "attempt_row list"
  db_events :: "event_row list"
  db_matches :: "match_row list"
  db_runtime :: "runtime_row list"
  db_grants :: "grant_row list"
  db_invites :: "invite_row list"
  db_preflights :: "preflight_row list"
  db_barriers :: "barrier_row list"
  db_evidence :: "evidence_row list"
  db_receipts :: "receipt_row list"
  db_commands :: "command_row list"
  db_rooms_created :: u64

section \<open>Requests and replies\<close>

text \<open>What a request brings: the transaction's \<open>now()\<close>, the process clock \<open>Utc::now()\<close>, the
  authenticated user, and the text form of a UUID.\<close>

record request_env =
  q_now :: instant
  q_clock :: instant
  q_user :: uuid
  q_show :: "uuid \<Rightarrow> string"

record challenge_view =
  v_id :: uuid
  v_room :: uuid
  v_game :: string
  v_challenger :: uuid
  v_challenged :: uuid
  v_state :: string
  v_expires :: "instant option"

datatype reply_body =
    BodyRoom room_payload
  | BodyChallenge challenge_view
  | BodyChallenges "challenge_view list"
  | BodyGrant string instant
  | BodyConsumed grant_row
  | BodyInvite room_invite_payload
  | BodySnapshot room_snapshot_payload
  | BodyReceipt match_receipt_payload
  | BodyEvidence string bool
  | BodyTicket string relay_ticket

record reply =
  y_status :: nat
  y_type :: string
  y_body :: reply_body
  y_notify :: "(uuid \<times> string \<times> reply_body) list"

type_synonym 'a outcome = "(app_error + 'a) \<times> db"

text \<open>A transaction: an error rolls everything back.\<close>

definition transact :: "(db \<Rightarrow> app_error + ('a \<times> db)) \<Rightarrow> db \<Rightarrow> 'a outcome" where
  "transact f d = (case f d of Inl e \<Rightarrow> (Err e, d) | Inr (x, d') \<Rightarrow> (Ok x, d'))"

lemma transact_simps [simp]:
  "f d = Inl e \<Longrightarrow> transact f d = (Err e, d)"
  "f d = Inr (x, d') \<Longrightarrow> transact f d = (Ok x, d')"
  by (simp_all add: transact_def)

section \<open>Queries\<close>

definition find_room :: "db \<Rightarrow> uuid \<Rightarrow> room_row option" where
  "find_room d rid = find (\<lambda>r. r_id r = rid) (db_rooms d)"

definition members_of :: "db \<Rightarrow> uuid \<Rightarrow> uuid list" where
  "members_of d rid = map m_user (filter (\<lambda>m. m_room m = rid) (db_members d))"

definition is_member :: "db \<Rightarrow> uuid \<Rightarrow> uuid \<Rightarrow> bool" where
  "is_member d rid u = list_ex (\<lambda>m. m_room m = rid \<and> m_user m = u) (db_members d)"

definition participants_of :: "db \<Rightarrow> uuid \<Rightarrow> uuid list" where
  "participants_of d rid = map p_user (filter (\<lambda>p. p_room p = rid) (db_runtime d))"

lemma is_member_iff: "is_member d rid u \<longleftrightarrow> u \<in> set (members_of d rid)"
  by (auto simp: is_member_def members_of_def list_ex_iff)

text \<open>\<open>SELECT \<dots> WHERE room_id = $1 AND user_id <> $2 ORDER BY joined_at LIMIT 1\<close>.\<close>

definition other_member :: "db \<Rightarrow> uuid \<Rightarrow> uuid \<Rightarrow> uuid option" where
  "other_member d rid u =
     (case sort_key m_joined (filter (\<lambda>m. m_room m = rid \<and> m_user m \<noteq> u) (db_members d)) of
        [] \<Rightarrow> None
      | m # _ \<Rightarrow> Some (m_user m))"

definition fetch_room_payload :: "request_env \<Rightarrow> db \<Rightarrow> uuid \<Rightarrow> uuid \<Rightarrow> app_error + room_payload" where
  "fetch_room_payload env d rid requesting_user =
     (case (if is_member d rid requesting_user then find_room d rid else None) of
        None \<Rightarrow> Err (NotFound (''room not found: '' @ q_show env rid))
      | Some r \<Rightarrow>
          (case from_database (to_database (r_state r)) of
             Inl m \<Rightarrow> Err (Internal m)
           | Inr s \<Rightarrow>
               Ok \<lparr>rp_id = q_show env rid, rp_game_id = r_game r, rp_host_id = q_show env (r_host r),
                   rp_guest_id = map_option (q_show env) (other_member d rid (r_host r)),
                   rp_state = s\<rparr>))"

definition locked_room :: "request_env \<Rightarrow> db \<Rightarrow> uuid \<Rightarrow> app_error + (uuid \<times> room_state \<times> int)" where
  "locked_room env d rid =
     (case find_room d rid of
        None \<Rightarrow> Err (NotFound (''room not found: '' @ q_show env rid))
      | Some r \<Rightarrow>
          (case from_database (to_database (r_state r)) of
             Inl m \<Rightarrow> Err (Internal m)
           | Inr s \<Rightarrow> Ok (r_host r, s, r_max_players r)))"

definition ok_reply :: "string \<Rightarrow> reply_body \<Rightarrow> reply" where
  "ok_reply ty body = \<lparr>y_status = 200, y_type = ty, y_body = body, y_notify = []\<rparr>"

definition created_reply :: "string \<Rightarrow> reply_body \<Rightarrow> reply" where
  "created_reply ty body = (ok_reply ty body)\<lparr>y_status := 201\<rparr>"

section \<open>Statements\<close>

text \<open>\<open>BIGSERIAL\<close>: the next revision is above every revision handed out before; the gaps that a
  rolled-back transaction leaves in the sequence are closed up here.\<close>

definition log_event :: "uuid \<Rightarrow> uuid option \<Rightarrow> uuid option \<Rightarrow> string \<Rightarrow> json \<Rightarrow> db \<Rightarrow> db" where
  "log_event rid attempt actor ty payload d =
     d\<lparr>db_events := db_events d @
         [\<lparr>ev_revision = length (db_events d) + 1, ev_room = rid, ev_attempt = attempt, ev_actor = actor,
           ev_type = ty, ev_payload = payload\<rparr>]\<rparr>"

text \<open>\<open>INSERT INTO room_events \<dots> SELECT id, attempt_id, \<dots> FROM rooms WHERE id = $1\<close>.\<close>

definition log_room_event :: "uuid \<Rightarrow> uuid \<Rightarrow> string \<Rightarrow> json \<Rightarrow> db \<Rightarrow> db" where
  "log_room_event rid actor ty payload d =
     (case find_room d rid of
        None \<Rightarrow> d
      | Some r \<Rightarrow> log_event rid (Some (r_attempt r)) (Some actor) ty payload d)"

definition insert_room :: "room_row \<Rightarrow> db \<Rightarrow> app_error + db" where
  "insert_room r d =
     (if list_ex (\<lambda>q. r_id q = r_id r) (db_rooms d) then Err db_failure
      else if r_state r = Waiting \<and>
          list_ex (\<lambda>q. r_host q = r_host r \<and> r_game q = r_game r \<and> r_state q = Waiting) (db_rooms d)
        then Err db_failure
      else Ok (d\<lparr>db_rooms := db_rooms d @ [r]\<rparr>))"

definition insert_member :: "uuid \<Rightarrow> uuid \<Rightarrow> instant \<Rightarrow> db \<Rightarrow> app_error + db" where
  "insert_member rid u now d =
     (if is_member d rid u then Err db_failure
      else Ok (d\<lparr>db_members := db_members d @ [\<lparr>m_room = rid, m_user = u, m_joined = now\<rparr>]\<rparr>))"

definition insert_attempt :: "uuid \<Rightarrow> uuid \<Rightarrow> instant \<Rightarrow> db \<Rightarrow> app_error + db" where
  "insert_attempt aid rid deadline d =
     (if list_ex (\<lambda>a. a_id a = aid) (db_attempts d) then Err db_failure
      else Ok (d\<lparr>db_attempts := db_attempts d @
        [\<lparr>a_id = aid, a_room = rid, a_state = AtActive, a_failure = None, a_deadline = Some deadline,
          a_finished = None\<rparr>]\<rparr>))"

definition update_rooms :: "(room_row \<Rightarrow> bool) \<Rightarrow> (room_row \<Rightarrow> room_row) \<Rightarrow> db \<Rightarrow> db" where
  "update_rooms p f d = d\<lparr>db_rooms := upd_where p f (db_rooms d)\<rparr>"

definition update_attempts :: "(attempt_row \<Rightarrow> bool) \<Rightarrow> (attempt_row \<Rightarrow> attempt_row) \<Rightarrow> db \<Rightarrow> db" where
  "update_attempts p f d = d\<lparr>db_attempts := upd_where p f (db_attempts d)\<rparr>"

definition update_challenges :: "(challenge_row \<Rightarrow> bool) \<Rightarrow> (challenge_row \<Rightarrow> challenge_row) \<Rightarrow> db \<Rightarrow> db" where
  "update_challenges p f d = d\<lparr>db_challenges := upd_where p f (db_challenges d)\<rparr>"

definition update_matches :: "(match_row \<Rightarrow> bool) \<Rightarrow> (match_row \<Rightarrow> match_row) \<Rightarrow> db \<Rightarrow> db" where
  "update_matches p f d = d\<lparr>db_matches := upd_where p f (db_matches d)\<rparr>"

definition update_runtime :: "(runtime_row \<Rightarrow> bool) \<Rightarrow> (runtime_row \<Rightarrow> runtime_row) \<Rightarrow> db \<Rightarrow> db" where
  "update_runtime p f d = d\<lparr>db_runtime := upd_where p f (db_runtime d)\<rparr>"

text \<open>\<open>COALESCE(old, new)\<close>.\<close>

definition coalesce :: "'a option \<Rightarrow> 'a \<Rightarrow> 'a option" where
  "coalesce v x = (case v of None \<Rightarrow> Some x | Some y \<Rightarrow> Some y)"

definition room_attempt :: "db \<Rightarrow> uuid \<Rightarrow> uuid option" where
  "room_attempt d rid = map_option r_attempt (find_room d rid)"

text \<open>\<open>UPDATE match_attempts SET \<dots> WHERE attempt_id = (SELECT attempt_id FROM rooms WHERE id = $1)\<close>,
  with and without \<open>AND state = 'ACTIVE'\<close>.\<close>

definition update_room_attempt :: "uuid \<Rightarrow> (attempt_row \<Rightarrow> attempt_row) \<Rightarrow> db \<Rightarrow> db" where
  "update_room_attempt rid f d = update_attempts (\<lambda>a. room_attempt d rid = Some (a_id a)) f d"

definition update_active_attempt :: "uuid \<Rightarrow> (attempt_row \<Rightarrow> attempt_row) \<Rightarrow> db \<Rightarrow> db" where
  "update_active_attempt rid f d =
     update_attempts (\<lambda>a. room_attempt d rid = Some (a_id a) \<and> a_state a = AtActive) f d"

end
