(* ===== verification/Room_Routes.thy ===== *)
theory Room_Routes
  imports Server_DB Emulator_SDK Rate_Limits
begin

text \<open>
  The room handlers (\<open>apps/server/src/routes/rooms.rs\<close>): creating, accepting and cancelling a
  room, relay tickets, launch grants, and the confirmation of native launches and exits.

  Each handler is a function of the request and the database.  A transaction runs at one point
  of the serial order; what a handler reads outside its transaction may be older, so
  \<open>create_room\<close> takes the state its first queries saw as an argument of its own.  The text of an
  address, SHA-256 and random tokens are parameters.
\<close>

definition RETROARCH_ALPHA_PORT :: u16 where "RETROARCH_ALPHA_PORT = 55435"

fun room_state_debug :: "room_state \<Rightarrow> string" where
  "room_state_debug Waiting = ''Waiting''"
| "room_state_debug Ready = ''Ready''"
| "room_state_debug Challenging = ''Challenging''"
| "room_state_debug Connecting = ''Connecting''"
| "room_state_debug Playing = ''Playing''"
| "room_state_debug Finished = ''Finished''"
| "room_state_debug Cancelled = ''Cancelled''"

fun room_event_debug :: "room_event \<Rightarrow> string" where
  "room_event_debug Accept = ''Accept''"
| "room_event_debug Start = ''Start''"
| "room_event_debug Finish = ''Finish''"
| "room_event_debug Cancel = ''Cancel''"
| "room_event_debug Decline = ''Decline''"

definition transition_conflict :: "invalid_transition \<Rightarrow> app_error" where
  "transition_conflict e =
     Conflict (''cannot apply '' @ room_event_debug (it_event e) @ '' while room is ''
       @ room_state_debug (it_state e))"

definition set_room_state :: "uuid \<Rightarrow> room_state \<Rightarrow> instant option \<Rightarrow> db \<Rightarrow> db" where
  "set_room_state rid s deadline d =
     update_rooms (\<lambda>r. r_id r = rid) (\<lambda>r. r\<lparr>r_state := s, r_deadline := deadline\<rparr>) d"

definition state_json :: "string \<Rightarrow> json" where
  "state_json s = JObj [(''state'', JStr s)]"

section \<open>Notification\<close>

text \<open>\<open>notify_room_state\<close>, after the commit.\<close>

definition notify_room_state :: "request_env \<Rightarrow> uuid \<Rightarrow> db \<Rightarrow> app_error + reply" where
  "notify_room_state env rid d =
     (case fetch_room_payload env d rid (q_user env) of
        Inl e \<Rightarrow> Err e
      | Inr p \<Rightarrow>
          Ok ((ok_reply ''room.state'' (BodyRoom p))
            \<lparr>y_notify := map (\<lambda>u. (u, ''room.state'', BodyRoom p)) (members_of d rid)\<rparr>))"

text \<open>A committed transaction followed by its notification.\<close>

definition then_notify :: "request_env \<Rightarrow> uuid \<Rightarrow> unit outcome \<Rightarrow> reply outcome" where
  "then_notify env rid res =
     (case res of
        (Inl e, d) \<Rightarrow> (Err e, d)
      | (Inr _, d) \<Rightarrow> (notify_room_state env rid d, d))"

section \<open>Creating a room\<close>

record create_room_request =
  crq_game_id :: string
  crq_max_players :: int

definition default_max_players :: int where "default_max_players = 2"

definition waiting_rooms :: "db \<Rightarrow> uuid \<Rightarrow> string \<Rightarrow> room_row list" where
  "waiting_rooms d host game =
     filter (\<lambda>r. r_host r = host \<and> r_game r = game \<and> r_state r = Waiting) (db_rooms d)"

definition latest_waiting :: "db \<Rightarrow> uuid \<Rightarrow> string \<Rightarrow> room_row option" where
  "latest_waiting d host game =
     (case sort_key (\<lambda>r. - r_created r) (waiting_rooms d host game) of [] \<Rightarrow> None | r # _ \<Rightarrow> Some r)"

definition room_reply :: "request_env \<Rightarrow> nat \<Rightarrow> string \<Rightarrow> uuid \<Rightarrow> db \<Rightarrow> app_error + reply" where
  "room_reply env status ty rid d =
     (case fetch_room_payload env d rid (q_user env) of
        Inl e \<Rightarrow> Err e
      | Inr p \<Rightarrow> Ok \<lparr>y_status = status, y_type = ty, y_body = BodyRoom p, y_notify = []\<rparr>)"

definition new_room :: "request_env \<Rightarrow> uuid \<Rightarrow> uuid \<Rightarrow> string \<Rightarrow> room_state \<Rightarrow> int \<Rightarrow> instant \<Rightarrow> room_row" where
  "new_room env rid aid game s max_players deadline =
     \<lparr>r_id = rid, r_game = game, r_host = q_user env, r_state = s, r_max_players = max_players,
      r_attempt = aid, r_deadline = Some deadline, r_created = q_now env\<rparr>"

text \<open>The transaction of \<open>create_room\<close>; \<open>False\<close> is \<open>rows_affected() == 0\<close>, rolled back.\<close>

definition create_room_txn ::
    "request_env \<Rightarrow> create_room_request \<Rightarrow> uuid \<Rightarrow> uuid \<Rightarrow> db \<Rightarrow> app_error + (bool \<times> db)" where
  "create_room_txn env req rid aid d =
     (let deadline = q_now env + hours 24;
          row = new_room env rid aid (crq_game_id req) Waiting (crq_max_players req) deadline
      in if \<not> list_ex (\<lambda>q. r_id q = rid) (db_rooms d) \<and> waiting_rooms d (q_user env) (crq_game_id req) \<noteq> []
         then Ok (False, d)
         else case insert_room row d of
             Inl e \<Rightarrow> Err e
           | Inr d1 \<Rightarrow>
         (case insert_member rid (q_user env) (q_now env) d1 of
             Inl e \<Rightarrow> Err e
           | Inr d2 \<Rightarrow>
         (case insert_attempt aid rid deadline d2 of
             Inl e \<Rightarrow> Err e
           | Inr d3 \<Rightarrow>
               Ok (True, log_event rid (Some aid) (Some (q_user env)) ''room.created'' (state_json ''waiting'') d3))))"

definition create_room ::
    "request_env \<Rightarrow> create_room_request \<Rightarrow> uuid \<Rightarrow> uuid \<Rightarrow> db \<Rightarrow> db \<Rightarrow> reply outcome" where
  "create_room env req rid aid seen d =
     (if is_blank (crq_game_id req) \<or> crq_max_players req \<noteq> 2
      then (Err (BadRequest ''game_id is required and alpha rooms support exactly two players''), d)
      else if crq_game_id req \<notin> set (db_games seen)
      then (Err (NotFound (''game not found: '' @ crq_game_id req)), d)
      else case latest_waiting seen (q_user env) (crq_game_id req) of
        Some r \<Rightarrow> (room_reply env 200 ''rooms.existing'' (r_id r) d, d)
      | None \<Rightarrow>
          (case transact (create_room_txn env req rid aid) d of
             (Inl e, d') \<Rightarrow> (Err e, d')
           | (Inr False, d') \<Rightarrow>
               (case waiting_rooms d' (q_user env) (crq_game_id req) of
                  [] \<Rightarrow> (Err db_failure, d')
                | r # _ \<Rightarrow> (room_reply env 200 ''rooms.existing'' (r_id r) d', d'))
           | (Inr True, d') \<Rightarrow>
               (let d2 = d'\<lparr>db_rooms_created := db_rooms_created d' + 1\<rparr>
                in (room_reply env 201 ''rooms.created'' rid d2, d2))))"

definition get_room :: "request_env \<Rightarrow> uuid \<Rightarrow> db \<Rightarrow> reply outcome" where
  "get_room env rid d = (room_reply env 200 ''rooms.get'' rid d, d)"

section \<open>Accepting a room\<close>

text \<open>\<open>True\<close> is the early return for a member of a room that is already under way.\<close>

definition accept_room_txn :: "request_env \<Rightarrow> uuid \<Rightarrow> db \<Rightarrow> app_error + (bool \<times> db)" where
  "accept_room_txn env rid d =
     (case locked_room env d rid of
        Inl e \<Rightarrow> Err e
      | Inr (host_id, current, max_players) \<Rightarrow>
          (if host_id = q_user env then Err (Forbidden ''room host cannot accept their own room'')
           else if is_member d rid (q_user env) \<and> current \<in> {Connecting, Playing, Finished} then Ok (True, d)
           else if int (length (members_of d rid)) \<ge> max_players then Err (Conflict ''room is full'')
           else case transition current Accept of
               Inl e \<Rightarrow> Err (transition_conflict e)
             | Inr next \<Rightarrow>
                 (let d1 = (case insert_member rid (q_user env) (q_now env) d of Inl _ \<Rightarrow> d | Inr d1 \<Rightarrow> d1);
                      d2 = set_room_state rid next (Some (q_now env + minutes 2)) d1;
                      d3 = update_room_attempt rid (\<lambda>a. a\<lparr>a_deadline := Some (q_now env + minutes 2)\<rparr>) d2
                  in Ok (False, log_room_event rid (q_user env) ''room.accepted'' (state_json ''connecting'') d3))))"

definition accept_room :: "request_env \<Rightarrow> uuid \<Rightarrow> db \<Rightarrow> reply outcome" where
  "accept_room env rid d =
     (case transact (accept_room_txn env rid) d of
        (Inl e, d') \<Rightarrow> (Err e, d')
      | (Inr True, d') \<Rightarrow> (room_reply env 200 ''rooms.accepted'' rid d', d')
      | (Inr False, d') \<Rightarrow> then_notify env rid (Ok (), d'))"

section \<open>Declining and cancelling\<close>

definition change_room_state_txn ::
    "request_env \<Rightarrow> uuid \<Rightarrow> room_event \<Rightarrow> bool \<Rightarrow> db \<Rightarrow> app_error + (unit \<times> db)" where
  "change_room_state_txn env rid event host_only d =
     (case locked_room env d rid of
        Inl e \<Rightarrow> Err e
      | Inr (host_id, current, _) \<Rightarrow>
          (if host_only \<and> host_id \<noteq> q_user env then Err (Forbidden ''only the room host can cancel this room'')
           else if \<not> host_only \<and> \<not> is_member d rid (q_user env) then Err (Forbidden ''not a room member'')
           else case transition current event of
               Inl e \<Rightarrow> Err (transition_conflict e)
             | Inr next \<Rightarrow>
                 (let now = q_now env;
                      d1 = set_room_state rid next None d;
                      d2 = (if next = Cancelled
                            then update_runtime (\<lambda>p. p_room p = rid) (\<lambda>p. p\<lparr>p_ended := coalesce (p_ended p) now\<rparr>)
                                  (update_matches (\<lambda>m. mt_room m = rid) (\<lambda>m. m\<lparr>mt_ended := coalesce (mt_ended m) now\<rparr>)
                                    (update_active_attempt rid
                                      (\<lambda>a. a\<lparr>a_state := AtCancelled, a_finished := coalesce (a_finished a) now,
                                             a_deadline := None\<rparr>)
                                      (update_challenges (\<lambda>c. c_room c = rid \<and> c_state c = ChPending)
                                        (\<lambda>c. c\<lparr>c_state := ChCancelled\<rparr>) d1)))
                            else d1)
                  in Ok ((), log_room_event rid (q_user env) ''room.cancelled'' (state_json ''cancelled'') d2))))"

definition decline_room :: "request_env \<Rightarrow> uuid \<Rightarrow> db \<Rightarrow> reply outcome" where
  "decline_room env rid d = then_notify env rid (transact (change_room_state_txn env rid Decline False) d)"

definition cancel_room :: "request_env \<Rightarrow> uuid \<Rightarrow> db \<Rightarrow> reply outcome" where
  "cancel_room env rid d = then_notify env rid (transact (change_room_state_txn env rid Cancel False) d)"

section \<open>Relay tickets\<close>

text \<open>What issuing a ticket depends on besides the database: the configuration, the clock in
  seconds, HMAC, the hexadecimal codec, and a fresh nonce.\<close>

record ticket_env =
  tk_relay_url :: "string option"
  tk_relay_secret :: "string option"
  tk_timestamp :: int
  tk_mac :: "string \<Rightarrow> string \<Rightarrow> bytes"
  tk_hex :: "bytes \<Rightarrow> string"
  tk_nonce :: uuid

definition require_ticket_budget ::
    "request_env \<Rightarrow> auth_rate_limiter \<Rightarrow> (app_error + unit) \<times> auth_rate_limiter" where
  "require_ticket_budget env lim =
     (case check_at (''relay-ticket:'' @ q_show env (q_user env)) 20 (q_clock env) lim of
        (True, lim') \<Rightarrow> (Ok (), lim')
      | (False, lim') \<Rightarrow> (Err (RateLimited ''relay ticket issuance limit exceeded''), lim'))"

definition active_membership :: "db \<Rightarrow> uuid \<Rightarrow> uuid \<Rightarrow> bool" where
  "active_membership d rid u \<longleftrightarrow> is_member d rid u
     \<and> (case find_room d rid of None \<Rightarrow> False | Some r \<Rightarrow> r_state r = Connecting \<or> r_state r = Playing)"

definition ready_preflights :: "db \<Rightarrow> uuid \<Rightarrow> nat" where
  "ready_preflights d rid = length (filter (\<lambda>f. f_room f = rid \<and> f_ready f) (db_preflights d))"

definition room_relay_ticket ::
    "request_env \<Rightarrow> ticket_env \<Rightarrow> uuid \<Rightarrow> db \<Rightarrow> auth_rate_limiter \<Rightarrow> (app_error + reply) \<times> auth_rate_limiter" where
  "room_relay_ticket env tk rid d lim =
     (case require_ticket_budget env lim of
        (Inl e, lim') \<Rightarrow> (Err e, lim')
      | (Inr _, lim') \<Rightarrow>
          (case tk_relay_url tk of
             None \<Rightarrow> (Err (Conflict ''relay fallback is not configured''), lim')
           | Some relay_url \<Rightarrow>
          (case tk_relay_secret tk of
             None \<Rightarrow> (Err (Internal ''relay signing is not configured''), lim')
           | Some relay_secret \<Rightarrow>
               (if \<not> active_membership d rid (q_user env)
                then (Err (Forbidden ''relay tickets require active room membership''), lim')
                else case issue (tk_mac tk) (tk_hex tk) (q_show env) (tk_nonce tk) relay_secret (q_show env rid)
                         (q_show env (q_user env)) (tk_timestamp tk + 120) of
                    Inl _ \<Rightarrow> (Err (Internal ''failed to issue relay ticket''), lim')
                  | Inr t \<Rightarrow> (Ok (ok_reply ''relay.ticket'' (BodyTicket relay_url t)), lim')))))"

definition native_tunnel_ticket ::
    "request_env \<Rightarrow> ticket_env \<Rightarrow> uuid \<Rightarrow> db \<Rightarrow> auth_rate_limiter \<Rightarrow> (app_error + reply) \<times> auth_rate_limiter" where
  "native_tunnel_ticket env tk rid d lim =
     (case require_ticket_budget env lim of
        (Inl e, lim') \<Rightarrow> (Err e, lim')
      | (Inr _, lim') \<Rightarrow>
          (case tk_relay_url tk of
             None \<Rightarrow> (Err (Conflict ''native tunnel is not configured''), lim')
           | Some relay_url \<Rightarrow>
          (case tk_relay_secret tk of
             None \<Rightarrow> (Err (Internal ''relay signing is not configured''), lim')
           | Some relay_secret \<Rightarrow>
               (if \<not> (active_membership d rid (q_user env) \<and> ready_preflights d rid = 2)
                then (Err (Forbidden ''native tunnel tickets require a ready two-peer room''), lim')
                else case issue_scoped (tk_mac tk) (tk_hex tk) (q_show env) (tk_nonce tk) relay_secret (q_show env rid)
                         (q_show env (q_user env)) (tk_timestamp tk + 120) NativeTcpTunnel of
                    Inl _ \<Rightarrow> (Err (Internal ''failed to issue native tunnel ticket''), lim')
                  | Inr t \<Rightarrow> (Ok (ok_reply ''native_tcp_tunnel.ticket'' (BodyTicket relay_url t)), lim')))))"

end
