(* ===== verification/Launch_Routes.thy ===== *)
theory Launch_Routes
  imports Room_Routes
begin

text \<open>
  The native match of a room (\<open>apps/server/src/routes/rooms.rs\<close>): launch grants, their single
  redemption, and the confirmation of each member's native launch and exit, which moves the room
  through PLAYING to FINISHED.
\<close>

section \<open>Launch grants\<close>

definition is_multicast :: "ip_addr \<Rightarrow> bool" where
  "is_multicast a = (case a of
      V4 b \<Rightarrow> (case b of [] \<Rightarrow> False | x # _ \<Rightarrow> 224 \<le> x \<and> x \<le> 239)
    | V6 b \<Rightarrow> (case b of [] \<Rightarrow> False | x # _ \<Rightarrow> x = 255))"

record launch_grant_request =
  lg_local_endpoint :: string
  lg_peer_endpoint :: string
  lg_input_delay_frames :: u8
  lg_campaign_mode :: bool

text \<open>The text forms of an address, the token hash, and the fresh token.\<close>

record grant_env =
  gx_parse :: "string \<Rightarrow> socket_addr option"
  gx_show :: "socket_addr \<Rightarrow> string"
  gx_hash :: "string \<Rightarrow> string"
  gx_token :: string

definition native_endpoint_ok :: "socket_addr \<Rightarrow> bool" where
  "native_endpoint_ok a \<longleftrightarrow> sa_port a = RETROARCH_ALPHA_PORT
     \<and> \<not> is_unspecified (sa_ip a) \<and> \<not> is_multicast (sa_ip a)"

definition launch_barrier_ready :: "request_env \<Rightarrow> db \<Rightarrow> uuid \<Rightarrow> bool" where
  "launch_barrier_ready env d rid \<longleftrightarrow>
     list_ex (\<lambda>b. b_room b = rid \<and> b_launch b \<le> q_now env) (db_barriers d) \<and> ready_preflights d rid = 2"

definition insert_grant :: "grant_row \<Rightarrow> db \<Rightarrow> app_error + db" where
  "insert_grant g d =
     (if list_ex (\<lambda>h. g_hash h = g_hash g) (db_grants d) then Err db_failure
      else Ok (d\<lparr>db_grants := db_grants d @ [g]\<rparr>))"

definition create_launch_grant_txn ::
    "request_env \<Rightarrow> grant_env \<Rightarrow> uuid \<Rightarrow> socket_addr \<Rightarrow> socket_addr \<Rightarrow> launch_grant_request \<Rightarrow> db \<Rightarrow>
     app_error + (unit \<times> db)" where
  "create_launch_grant_txn env gx rid local peer req d =
     (case locked_room env d rid of
        Inl e \<Rightarrow> Err e
      | Inr (host_id, current, _) \<Rightarrow>
          (if current \<noteq> Connecting
           then Err (Conflict ''launch grants are issued only while a room is connecting'')
           else if lg_campaign_mode req \<and> \<not> launch_barrier_ready env d rid
           then Err (Conflict ''community alpha launch barrier is not ready'')
           else case (if is_member d rid (q_user env) then other_member d rid (q_user env) else None) of
               None \<Rightarrow> Err (Forbidden ''launch grant requires two room members'')
             | Some peer_user \<Rightarrow>
                 (case insert_grant
                     \<lparr>g_hash = gx_hash gx (gx_token gx), g_room = rid,
                      g_game = (case find_room d rid of None \<Rightarrow> [] | Some r \<Rightarrow> r_game r),
                      g_local = q_user env, g_peer = peer_user,
                      g_role = (if q_user env = host_id then ''host'' else ''guest''),
                      g_local_endpoint = gx_show gx local, g_peer_endpoint = gx_show gx peer,
                      g_input_delay = uint (lg_input_delay_frames req),
                      g_expires = q_clock env + seconds 90, g_consumed = None\<rparr> d of
                    Inl e \<Rightarrow> Err e
                  | Inr d1 \<Rightarrow>
                      Ok ((), update_room_attempt rid
                        (\<lambda>a. a\<lparr>a_deadline := Some (q_now env + minutes 2)\<rparr>) d1))))"

definition create_launch_grant ::
    "request_env \<Rightarrow> grant_env \<Rightarrow> uuid \<Rightarrow> launch_grant_request \<Rightarrow> db \<Rightarrow> reply outcome" where
  "create_launch_grant env gx rid req d =
     (case gx_parse gx (lg_local_endpoint req) of
        None \<Rightarrow> (Err (BadRequest ''local_endpoint must be a numeric IP:port''), d)
      | Some local \<Rightarrow>
     (case gx_parse gx (lg_peer_endpoint req) of
        None \<Rightarrow> (Err (BadRequest ''peer_endpoint must be a numeric IP:port''), d)
      | Some peer \<Rightarrow>
          (if \<not> native_endpoint_ok local \<or> \<not> native_endpoint_ok peer \<or> lg_input_delay_frames req > 15
           then (Err (BadRequest ''native alpha endpoints must be unicast on port 55435 and input delay must be at most 15''), d)
           else case transact (create_launch_grant_txn env gx rid local peer req) d of
               (Inl e, d') \<Rightarrow> (Err e, d')
             | (Inr _, d') \<Rightarrow>
                 (Ok (ok_reply ''match.launch_grant.created''
                    (BodyGrant (gx_token gx) (q_clock env + seconds 90))), d'))))"

definition grant_redeemable :: "request_env \<Rightarrow> string \<Rightarrow> grant_row \<Rightarrow> bool" where
  "grant_redeemable env hash g \<longleftrightarrow>
     g_hash g = hash \<and> g_local g = q_user env \<and> g_expires g > q_now env \<and> g_consumed g = None"

definition consume_launch_grant ::
    "request_env \<Rightarrow> (string \<Rightarrow> string) \<Rightarrow> string \<Rightarrow> db \<Rightarrow> reply outcome" where
  "consume_launch_grant env hash grant d =
     (if length grant < 32 \<or> length grant > 256 then (Err (BadRequest ''launch grant is invalid''), d)
      else case find (grant_redeemable env (hash grant)) (db_grants d) of
          None \<Rightarrow> (Err (Unauthorized ''launch grant is invalid or expired''), d)
        | Some g \<Rightarrow>
            (Ok (ok_reply ''match.launch_grant.consumed'' (BodyConsumed g)),
             d\<lparr>db_grants := upd_where (grant_redeemable env (hash grant))
                 (\<lambda>g. g\<lparr>g_consumed := Some (q_now env)\<rparr>) (db_grants d)\<rparr>))"

section \<open>Native launch\<close>

definition launch_authorized :: "request_env \<Rightarrow> db \<Rightarrow> uuid \<Rightarrow> bool" where
  "launch_authorized env d rid \<longleftrightarrow>
     list_ex (\<lambda>g. g_room g = rid \<and> g_local g = q_user env \<and> g_consumed g \<noteq> None \<and> g_expires g > q_now env)
       (db_grants d)"

definition insert_match :: "request_env \<Rightarrow> uuid \<Rightarrow> db \<Rightarrow> db" where
  "insert_match env rid d =
     (case find_room d rid of
        None \<Rightarrow> d
      | Some r \<Rightarrow>
          (if list_ex (\<lambda>m. mt_room m = rid) (db_matches d) then d
           else d\<lparr>db_matches := db_matches d @
             [\<lparr>mt_room = rid, mt_game = r_game r, mt_started = q_now env, mt_ended = None\<rparr>]\<rparr>))"

definition start_playing :: "request_env \<Rightarrow> uuid \<Rightarrow> room_state \<Rightarrow> db \<Rightarrow> db" where
  "start_playing env rid next d =
     log_room_event rid (q_user env) ''room.playing'' (state_json ''playing'')
       (update_active_attempt rid (\<lambda>a. a\<lparr>a_deadline := Some (q_now env + hours 4)\<rparr>)
         (insert_match env rid (set_room_state rid next (Some (q_now env + hours 4)) d)))"

definition launch_row :: "request_env \<Rightarrow> uuid \<Rightarrow> runtime_row" where
  "launch_row env rid =
     \<lparr>p_room = rid, p_user = q_user env, p_launched = q_now env, p_ended = None, p_exit_code = None\<rparr>"

definition confirm_native_launch_txn :: "request_env \<Rightarrow> uuid \<Rightarrow> db \<Rightarrow> app_error + (unit \<times> db)" where
  "confirm_native_launch_txn env rid d =
     (case locked_room env d rid of
        Inl e \<Rightarrow> Err e
      | Inr (_, current, _) \<Rightarrow>
          (if current \<noteq> Connecting \<and> current \<noteq> Playing
           then Err (Conflict ''native launch confirmation requires a connecting or playing room'')
           else if \<not> is_member d rid (q_user env) then Err (Forbidden ''not a room member'')
           else case find (\<lambda>p. p_room p = rid \<and> p_user p = q_user env) (db_runtime d) of
               Some p \<Rightarrow>
                 (if p_ended p \<noteq> None
                  then Err (Conflict ''a finished native process cannot be relaunched in the same room'')
                  else Ok ((), d))
             | None \<Rightarrow>
                 (if \<not> launch_authorized env d rid
                  then Err (Conflict ''native launch confirmation requires a consumed launch grant'')
                  else
                    let d1 = d\<lparr>db_runtime := db_runtime d @ [launch_row env rid]\<rparr>;
                        d2 = d1\<lparr>db_grants := filter (\<lambda>g. \<not> (g_room g = rid \<and> g_local g = q_user env)) (db_grants d1)\<rparr>;
                        member_count = length (members_of d2 rid);
                        launched_count = length (participants_of d2 rid)
                    in if current = Connecting \<and> member_count = 2 \<and> launched_count = member_count
                       then case transition current Start of
                           Inl e \<Rightarrow> Err (transition_conflict e)
                         | Inr next \<Rightarrow> Ok ((), start_playing env rid next d2)
                       else Ok ((), d2))))"

definition start_room :: "request_env \<Rightarrow> uuid \<Rightarrow> db \<Rightarrow> reply outcome" where
  "start_room env rid d = then_notify env rid (transact (confirm_native_launch_txn env rid) d)"

section \<open>Native exit\<close>

definition fail_before_start :: "request_env \<Rightarrow> uuid \<Rightarrow> room_state \<Rightarrow> db \<Rightarrow> db" where
  "fail_before_start env rid next d =
     log_room_event rid (q_user env) ''room.failed''
       (JObj [(''state'', JStr ''cancelled''), (''failure_code'', JStr ''native_exit_before_start'')])
       (update_active_attempt rid
         (\<lambda>a. a\<lparr>a_state := AtFailed, a_failure := Some ''native_exit_before_start'',
                a_finished := coalesce (a_finished a) (q_now env), a_deadline := None\<rparr>)
         (set_room_state rid next None d))"

definition finish_match :: "request_env \<Rightarrow> uuid \<Rightarrow> room_state \<Rightarrow> db \<Rightarrow> db" where
  "finish_match env rid next d =
     log_room_event rid (q_user env) ''room.finished'' (state_json ''finished'')
       (update_active_attempt rid
         (\<lambda>a. a\<lparr>a_state := AtSucceeded, a_finished := coalesce (a_finished a) (q_now env), a_deadline := None\<rparr>)
         (update_matches (\<lambda>m. mt_room m = rid) (\<lambda>m. m\<lparr>mt_ended := coalesce (mt_ended m) (q_now env)\<rparr>)
           (set_room_state rid next None d)))"

definition ended_count :: "db \<Rightarrow> uuid \<Rightarrow> nat" where
  "ended_count d rid = length (filter (\<lambda>p. p_room p = rid \<and> p_ended p \<noteq> None) (db_runtime d))"

definition record_exit :: "request_env \<Rightarrow> uuid \<Rightarrow> int option \<Rightarrow> db \<Rightarrow> db" where
  "record_exit env rid exit_code d =
     update_runtime (\<lambda>p. p_room p = rid \<and> p_user p = q_user env)
       (\<lambda>p. p\<lparr>p_ended := coalesce (p_ended p) (q_now env),
              p_exit_code := (case p_exit_code p of None \<Rightarrow> exit_code | Some x \<Rightarrow> Some x)\<rparr>) d"

definition confirm_native_exit_txn ::
    "request_env \<Rightarrow> uuid \<Rightarrow> int option \<Rightarrow> db \<Rightarrow> app_error + (unit \<times> db)" where
  "confirm_native_exit_txn env rid exit_code d =
     (case locked_room env d rid of
        Inl e \<Rightarrow> Err e
      | Inr (_, current, _) \<Rightarrow>
          (if current \<notin> {Connecting, Playing, Finished, Cancelled}
           then Err (Conflict ''native exit confirmation requires an active or terminal match room'')
           else if \<not> list_ex (\<lambda>p. p_room p = rid \<and> p_user p = q_user env) (db_runtime d)
           then Err (Conflict ''native exit cannot be confirmed before launch'')
           else
             let d1 = record_exit env rid exit_code d
             in if current = Connecting
                then case transition current Cancel of
                    Inl e \<Rightarrow> Err (transition_conflict e)
                  | Inr next \<Rightarrow> Ok ((), fail_before_start env rid next d1)
                else if current = Playing
                then (if length (members_of d1 rid) = 2 \<and> ended_count d1 rid = length (members_of d1 rid)
                      then case transition current Finish of
                          Inl e \<Rightarrow> Err (transition_conflict e)
                        | Inr next \<Rightarrow> Ok ((), finish_match env rid next d1)
                      else Ok ((), d1))
                else Ok ((), d1)))"

definition finish_room :: "request_env \<Rightarrow> uuid \<Rightarrow> int option \<Rightarrow> db \<Rightarrow> reply outcome" where
  "finish_room env rid exit_code d = then_notify env rid (transact (confirm_native_exit_txn env rid exit_code) d)"

end
