(* ===== verification/Challenge_Routes.thy ===== *)
theory Challenge_Routes
  imports Room_Routes
begin

text \<open>
  The challenge handlers (\<open>apps/server/src/routes/challenges.rs\<close>): a challenge addresses one user
  and carries a room of its own in state CHALLENGING.
\<close>

fun challenge_label :: "challenge_db_state \<Rightarrow> string" where
  "challenge_label ChPending = ''PENDING''"
| "challenge_label ChAccepted = ''ACCEPTED''"
| "challenge_label ChDeclined = ''DECLINED''"
| "challenge_label ChCancelled = ''CANCELLED''"
| "challenge_label ChExpired = ''EXPIRED''"

text \<open>\<open>locked_challenge\<close>: the challenge joined with its room.\<close>

definition locked_challenge :: "request_env \<Rightarrow> db \<Rightarrow> uuid \<Rightarrow> app_error + (challenge_row \<times> room_row)" where
  "locked_challenge env d cid =
     (case find (\<lambda>c. c_id c = cid) (db_challenges d) of
        None \<Rightarrow> Err (NotFound (''challenge not found: '' @ q_show env cid))
      | Some c \<Rightarrow>
          (case find_room d (c_room c) of
             None \<Rightarrow> Err (NotFound (''challenge not found: '' @ q_show env cid))
           | Some r \<Rightarrow> Ok (c, r)))"

definition view_of :: "challenge_row \<Rightarrow> room_row \<Rightarrow> string \<Rightarrow> challenge_view" where
  "view_of c r label =
     \<lparr>v_id = c_id c, v_room = c_room c, v_game = r_game r, v_challenger = c_challenger c,
      v_challenged = c_challenged c, v_state = label, v_expires = Some (c_expires c)\<rparr>"

definition require_pending :: "request_env \<Rightarrow> challenge_row \<Rightarrow> app_error + unit" where
  "require_pending env c =
     (if c_state c = ChPending \<and> c_expires c > q_clock env then Ok ()
      else Err (Conflict ''challenge is no longer pending''))"

definition challenge_json :: "request_env \<Rightarrow> uuid \<Rightarrow> json" where
  "challenge_json env cid = JObj [(''challenge_id'', JStr (q_show env cid))]"

section \<open>Creating a challenge\<close>

record create_challenge_request =
  ccr_game_id :: string
  ccr_challenged_id :: uuid

text \<open>The \<open>WITH cancelled AS (\<dots>)\<close> statement that withdraws the user's waiting rooms for the
  game, with their attempts.\<close>

definition cancel_waiting :: "request_env \<Rightarrow> string \<Rightarrow> db \<Rightarrow> db" where
  "cancel_waiting env game d =
     (let cancelled = map r_attempt (waiting_rooms d (q_user env) game)
      in update_attempts (\<lambda>a. a_id a \<in> set cancelled \<and> a_state a = AtActive)
           (\<lambda>a. a\<lparr>a_state := AtCancelled, a_finished := Some (q_now env)\<rparr>)
           (update_rooms (\<lambda>r. r_host r = q_user env \<and> r_game r = game \<and> r_state r = Waiting)
             (\<lambda>r. r\<lparr>r_state := Cancelled\<rparr>) d))"

definition expire_pending :: "request_env \<Rightarrow> db \<Rightarrow> db" where
  "expire_pending env d =
     update_challenges (\<lambda>c. c_state c = ChPending \<and> c_expires c \<le> q_now env) (\<lambda>c. c\<lparr>c_state := ChExpired\<rparr>) d"

definition recent_challenges :: "request_env \<Rightarrow> db \<Rightarrow> nat" where
  "recent_challenges env d =
     length (filter (\<lambda>c. c_challenger c = q_user env \<and> c_created c > q_now env - minutes 10) (db_challenges d))"

text \<open>\<open>ON CONFLICT (challenger_id, challenged_id) WHERE state = 'PENDING' DO NOTHING\<close>: \<open>None\<close> when
  the pair already has a pending challenge.  \<open>room_id\<close> is unique, \<open>id\<close> the primary key.\<close>

definition insert_challenge :: "challenge_row \<Rightarrow> db \<Rightarrow> app_error + db option" where
  "insert_challenge c d =
     (if list_ex (\<lambda>x. c_id x = c_id c \<or> c_room x = c_room c) (db_challenges d) then Err db_failure
      else if list_ex (\<lambda>x. c_challenger x = c_challenger c \<and> c_challenged x = c_challenged c \<and> c_state x = ChPending)
          (db_challenges d) then Ok None
      else Ok (Some (d\<lparr>db_challenges := db_challenges d @ [c]\<rparr>)))"

definition create_challenge_txn ::
    "request_env \<Rightarrow> create_challenge_request \<Rightarrow> uuid \<Rightarrow> uuid \<Rightarrow> uuid \<Rightarrow> db \<Rightarrow> app_error + (unit \<times> db)" where
  "create_challenge_txn env req rid aid cid d =
     (if recent_challenges env d \<ge> 10 then Err (RateLimited ''challenge creation limit exceeded'')
      else
        let d1 = cancel_waiting env (ccr_game_id req) (expire_pending env d);
            deadline = q_now env + minutes 5
        in case insert_room (new_room env rid aid (ccr_game_id req) Challenging 2 deadline) d1 of
             Inl e \<Rightarrow> Err e
           | Inr d2 \<Rightarrow>
         (case insert_attempt aid rid deadline d2 of
             Inl e \<Rightarrow> Err e
           | Inr d3 \<Rightarrow>
         (case insert_member rid (q_user env) (q_now env) d3 of
             Inl e \<Rightarrow> Err e
           | Inr d4 \<Rightarrow>
         (case insert_challenge
             \<lparr>c_id = cid, c_room = rid, c_challenger = q_user env, c_challenged = ccr_challenged_id req,
              c_state = ChPending, c_expires = deadline, c_created = q_now env\<rparr> d4 of
             Inl e \<Rightarrow> Err e
           | Inr None \<Rightarrow> Err (Conflict ''an active challenge already exists for these users'')
           | Inr (Some d5) \<Rightarrow>
               Ok ((), log_event rid (Some aid) (Some (q_user env)) ''challenge.created'' (challenge_json env cid) d5)))))"

definition create_challenge ::
    "request_env \<Rightarrow> create_challenge_request \<Rightarrow> uuid \<Rightarrow> uuid \<Rightarrow> uuid \<Rightarrow> db \<Rightarrow> db \<Rightarrow> reply outcome" where
  "create_challenge env req rid aid cid seen d =
     (if is_blank (ccr_game_id req) then (Err (BadRequest ''game_id is required''), d)
      else if ccr_challenged_id req = q_user env then (Err (BadRequest ''users cannot challenge themselves''), d)
      else if ccr_challenged_id req \<notin> set (db_users seen) then (Err (NotFound ''challenged user not found''), d)
      else if ccr_game_id req \<notin> set (db_games seen) then (Err (NotFound ''game not found''), d)
      else case transact (create_challenge_txn env req rid aid cid) d of
          (Inl e, d') \<Rightarrow> (Err e, d')
        | (Inr _, d') \<Rightarrow>
            (let body = BodyChallenge
                 \<lparr>v_id = cid, v_room = rid, v_game = ccr_game_id req, v_challenger = q_user env,
                  v_challenged = ccr_challenged_id req, v_state = ''pending'', v_expires = None\<rparr>
             in (Ok ((created_reply ''challenge.created'' body)
                   \<lparr>y_notify := [(ccr_challenged_id req, ''challenge.created'', body)]\<rparr>), d')))"

section \<open>Listing\<close>

text \<open>The rows of the join: a challenge whose room is missing drops out.\<close>

definition list_incoming :: "request_env \<Rightarrow> db \<Rightarrow> reply outcome" where
  "list_incoming env d =
     (let rows = filter (\<lambda>c. c_challenged c = q_user env \<and> c_state c = ChPending \<and> c_expires c > q_now env)
           (db_challenges d);
          views = List.map_filter (\<lambda>c. map_option (\<lambda>r. view_of c r (to_ascii_lowercase (challenge_label (c_state c))))
             (find_room d (c_room c))) (sort_key (\<lambda>c. - c_created c) rows)
      in (Ok (ok_reply ''challenges.incoming'' (BodyChallenges (take 50 views))), d))"

section \<open>Accepting\<close>

text \<open>The first component of the value is \<open>True\<close> for a challenge that was accepted before.\<close>

definition accept_challenge_txn ::
    "request_env \<Rightarrow> uuid \<Rightarrow> db \<Rightarrow> app_error + ((bool \<times> challenge_row \<times> room_row) \<times> db)" where
  "accept_challenge_txn env cid d =
     (case locked_challenge env d cid of
        Inl e \<Rightarrow> Err e
      | Inr (c, r) \<Rightarrow>
          (if c_challenged c \<noteq> q_user env then Err (Forbidden ''only the challenged user can accept'')
           else if c_state c = ChAccepted then Ok ((True, c, r), d)
           else case require_pending env c of
               Inl e \<Rightarrow> Err e
             | Inr _ \<Rightarrow>
           (case from_database (to_database (r_state r)) of
               Inl m \<Rightarrow> Err (Internal m)
             | Inr current \<Rightarrow>
           (if current \<noteq> Challenging then Err (Conflict ''challenge room is no longer active'')
            else
              let d1 = cancel_waiting env (r_game r) d;
                  d2 = update_room_attempt (c_room c) (\<lambda>a. a\<lparr>a_deadline := Some (q_now env + minutes 2)\<rparr>) d1
              in case insert_member (c_room c) (q_user env) (q_now env) d2 of
                   Inl e \<Rightarrow> Err e
                 | Inr d3 \<Rightarrow>
               (case transition current Accept of
                   Inl e \<Rightarrow> Err (transition_conflict e)
                 | Inr next \<Rightarrow>
                     (let d4 = set_room_state (c_room c) next (Some (q_now env + minutes 2)) d3;
                          d5 = update_challenges (\<lambda>x. c_id x = cid) (\<lambda>x. x\<lparr>c_state := ChAccepted\<rparr>) d4
                      in Ok ((False, c, r),
                             log_room_event (c_room c) (q_user env) ''challenge.accepted'' (challenge_json env cid) d5)))))))"

definition accept_challenge :: "request_env \<Rightarrow> uuid \<Rightarrow> db \<Rightarrow> reply outcome" where
  "accept_challenge env cid d =
     (case transact (accept_challenge_txn env cid) d of
        (Inl e, d') \<Rightarrow> (Err e, d')
      | (Inr (already, c, r), d') \<Rightarrow>
          (let body = BodyChallenge (view_of c r ''accepted'')
           in (Ok ((ok_reply ''challenge.accepted'' body)
                 \<lparr>y_notify := (if already then [] else [(c_challenger c, ''challenge.accepted'', body)])\<rparr>), d')))"

section \<open>Declining and cancelling\<close>

definition resolve_challenge_txn ::
    "request_env \<Rightarrow> uuid \<Rightarrow> bool \<Rightarrow> db \<Rightarrow> app_error + ((challenge_row \<times> room_row) \<times> db)" where
  "resolve_challenge_txn env cid cancel d =
     (case locked_challenge env d cid of
        Inl e \<Rightarrow> Err e
      | Inr (c, r) \<Rightarrow>
          (if \<not> (if cancel then c_challenger c = q_user env else c_challenged c = q_user env)
           then Err (Forbidden ''challenge ownership mismatch'')
           else case require_pending env c of
               Inl e \<Rightarrow> Err e
             | Inr _ \<Rightarrow>
                 (let d1 = update_challenges (\<lambda>x. c_id x = cid)
                        (\<lambda>x. x\<lparr>c_state := (if cancel then ChCancelled else ChDeclined)\<rparr>) d;
                      d2 = set_room_state (c_room c) Cancelled None d1;
                      d3 = update_active_attempt (c_room c)
                        (\<lambda>a. a\<lparr>a_state := AtCancelled, a_finished := coalesce (a_finished a) (q_now env),
                               a_deadline := None\<rparr>) d2
                  in Ok ((c, r), log_room_event (c_room c) (q_user env)
                       (if cancel then ''challenge.cancelled'' else ''challenge.declined'')
                       (challenge_json env cid) d3))))"

definition resolve_challenge :: "request_env \<Rightarrow> uuid \<Rightarrow> bool \<Rightarrow> db \<Rightarrow> reply outcome" where
  "resolve_challenge env cid cancel d =
     (case transact (resolve_challenge_txn env cid cancel) d of
        (Inl e, d') \<Rightarrow> (Err e, d')
      | (Inr (c, r), d') \<Rightarrow>
          (let label = to_ascii_lowercase (if cancel then ''CANCELLED'' else ''DECLINED'');
               ty = (if cancel then ''challenge.cancelled'' else ''challenge.declined'');
               body = BodyChallenge (view_of c r label);
               peer = (if cancel then c_challenged c else c_challenger c)
           in (Ok ((ok_reply ty body)\<lparr>y_notify := [(peer, ty, body)]\<rparr>), d')))"

definition decline_challenge :: "request_env \<Rightarrow> uuid \<Rightarrow> db \<Rightarrow> reply outcome" where
  "decline_challenge env cid d = resolve_challenge env cid False d"

definition cancel_challenge :: "request_env \<Rightarrow> uuid \<Rightarrow> db \<Rightarrow> reply outcome" where
  "cancel_challenge env cid d = resolve_challenge env cid True d"

end
