(* ===== verification/Route_Policy.thy ===== *)
theory Route_Policy
  imports Server_DB
begin

text \<open>
  The native-route policy (\<open>apps/server/src/route_policy.rs\<close>): the TCP tunnel is offered only when
  the operator enabled it and the evidence of a game passes a sample and a success gate.
\<close>

definition REQUIRED_SUCCESS_PERCENT :: u32 where "REQUIRED_SUCCESS_PERCENT = 80"

record route_evidence =
  rv_attempts :: u32
  rv_verified :: u32

definition decide_native_route :: "bool \<Rightarrow> u32 \<Rightarrow> route_evidence \<Rightarrow> native_route_policy_payload" where
  "decide_native_route tunnel_enabled minimum_attempts tunnel =
     (let enough_samples = rv_attempts tunnel \<ge> minimum_attempts;
          meets_success_gate = rv_attempts tunnel > 0
            \<and> sat_mul (rv_verified tunnel) 100 \<ge> sat_mul (rv_attempts tunnel) REQUIRED_SUCCESS_PERCENT
      in if tunnel_enabled \<and> enough_samples \<and> meets_success_gate
         then \<lparr>rpo_route = TcpTunnel, rpo_reason = ''physical_evidence_gate_passed'',
               rpo_evidence_attempts = rv_attempts tunnel, rpo_evidence_verified = rv_verified tunnel\<rparr>
         else \<lparr>rpo_route = DirectLan,
               rpo_reason = (if \<not> tunnel_enabled then ''tcp_tunnel_operator_disabled''
                 else if \<not> enough_samples then ''tcp_tunnel_evidence_insufficient''
                 else ''tcp_tunnel_success_gate_failed''),
               rpo_evidence_attempts = rv_attempts tunnel, rpo_evidence_verified = rv_verified tunnel\<rparr>)"

section \<open>The evidence query\<close>

text \<open>The payload columns that the query reads; an absent member is SQL's NULL, which
  \<open>COUNT(DISTINCT \<dots>)\<close> skips.\<close>

fun payload_route :: "evidence_payload \<Rightarrow> native_route_capability option" where
  "payload_route (MatchEvidence r) = rep_native_route r"
| "payload_route (FailureEvidence r) = fail_native_route r"

fun payload_room :: "evidence_payload \<Rightarrow> match_report_room" where
  "payload_room (MatchEvidence r) = rep_room r"
| "payload_room (FailureEvidence r) = fail_room r"

fun match_payload :: "evidence_row \<Rightarrow> match_report option" where
  "match_payload e = (case e_payload e of MatchEvidence r \<Rightarrow> Some r | FailureEvidence _ \<Rightarrow> None)"

definition count_distinct :: "'a option list \<Rightarrow> nat" where
  "count_distinct xs = length (remdups (List.map_filter (\<lambda>x. x) xs))"

definition route_rows :: "string \<Rightarrow> db \<Rightarrow> evidence_row list" where
  "route_rows game d =
     filter (\<lambda>e. payload_route (e_payload e) = Some TcpTunnel \<and> mr_game_id (payload_room (e_payload e)) = game)
       (db_evidence d)"

definition complete_report :: "match_report \<Rightarrow> bool" where
  "complete_report r \<longleftrightarrow> pr_frames_received (rep_probe r) = 60 \<and> mr_state (rep_room r) = Finished"

definition room_verified :: "evidence_row list \<Rightarrow> uuid \<Rightarrow> bool" where
  "room_verified rows rid \<longleftrightarrow>
     (let group = filter (\<lambda>e. e_room e = rid) rows;
          matches = filter (\<lambda>e. match_payload e \<noteq> None) group;
          reports = List.map_filter match_payload group
      in length matches = 2 \<and> length group - length matches = 0
         \<and> count_distinct (map rep_compatibility reports) = 1
         \<and> length (remdups (map e_role matches)) = 2
         \<and> length (remdups (map (\<lambda>r. pr_transcript_checksum (rep_probe r)) reports)) = 1
         \<and> length (filter complete_report reports) = 2)"

definition u32_of_nat :: "nat \<Rightarrow> u32" where
  "u32_of_nat n = (if n < 2 ^ 32 then of_nat n else - 1)"

definition tcp_tunnel_evidence :: "db \<Rightarrow> string \<Rightarrow> route_evidence" where
  "tcp_tunnel_evidence d game =
     (let rows = route_rows game d;
          rooms = remdups (map e_room rows)
      in \<lparr>rv_attempts = u32_of_nat (length rooms),
          rv_verified = u32_of_nat (length (filter (room_verified rows) rooms))\<rparr>)"

section \<open>The gate\<close>

lemma gate_exact:
  assumes "unat (rv_attempts e) \<le> 42949672" "rv_verified e \<le> rv_attempts e"
  shows "sat_mul (rv_verified e) 100 \<ge> sat_mul (rv_attempts e) REQUIRED_SUCCESS_PERCENT
    \<longleftrightarrow> 4 * unat (rv_attempts e) \<le> 5 * unat (rv_verified e)"
proof -
  have "unat (rv_verified e) \<le> 42949672" using assms by (simp add: word_le_nat_alt)
  then show ?thesis
    using assms(1) by (simp add: word_le_nat_alt unat_sat_mul REQUIRED_SUCCESS_PERCENT_def min_def)
qed

lemma tunnel_evidence_bounded: "rv_verified (tcp_tunnel_evidence d game) \<le> rv_attempts (tcp_tunnel_evidence d game)"
proof -
  define rows where "rows = route_rows game d"
  define rooms where "rooms = remdups (map e_room rows)"
  have "length (filter (room_verified rows) rooms) \<le> length rooms" by simp
  moreover have "u32_of_nat a \<le> u32_of_nat b" if "a \<le> b" for a b
    using that by (auto simp: u32_of_nat_def word_le_nat_alt unat_max_word unat_of_nat)
  ultimately show ?thesis
    by (simp add: tcp_tunnel_evidence_def Let_def rows_def rooms_def)
qed

lemma all_roles: "length (remdups rs) = 2 \<Longrightarrow> role \<in> set rs" for role :: match_report_role
proof -
  assume "length (remdups rs) = 2"
  then have "card (set rs) = 2" by (simp add: length_remdups_card_conv)
  moreover have "set rs \<subseteq> {RoleHost, RoleGuest}" using match_report_role.exhaust by blast
  ultimately have "set rs = {RoleHost, RoleGuest}" by (intro card_subset_eq) simp_all
  then show ?thesis by (cases role) simp_all
qed

lemma length_map_filter: "length (List.map_filter f xs) = length (filter (\<lambda>x. f x \<noteq> None) xs)"
  by (induction xs) (auto simp: map_filter_simps split: option.splits)

lemma room_verified_complete:
  assumes "room_verified rows rid"
  shows "\<exists>e \<in> set rows. e_room e = rid \<and> e_role e = role
    \<and> (\<exists>r. e_payload e = MatchEvidence r \<and> pr_frames_received (rep_probe r) = 60)"
proof -
  let ?group = "filter (\<lambda>e. e_room e = rid) rows"
  let ?matches = "filter (\<lambda>e. match_payload e \<noteq> None) ?group"
  let ?reports = "List.map_filter match_payload ?group"
  from assms have two: "length ?matches = 2" and roles: "length (remdups (map e_role ?matches)) = 2"
    and complete: "length (filter complete_report ?reports) = 2"
    by (simp_all add: room_verified_def Let_def)
  have len: "length ?reports = 2" using two by (simp add: length_map_filter)
  have all: "complete_report r" if "r \<in> set ?reports" for r
  proof -
    have "filter complete_report ?reports = ?reports"
      using complete len length_filter_less [of _ ?reports complete_report] by (metis filter_True less_irrefl)
    with that show ?thesis by (metis filter_eq_Cons_iff filter_id_conv)
  qed
  from all_roles [OF roles, of role] have "role \<in> e_role ` set ?matches" by (simp only: set_map)
  then obtain e where e: "e \<in> set ?matches" "e_role e = role" by blast
  then obtain r where r: "match_payload e = Some r" by auto
  with e have "r \<in> set ?reports" by (auto simp: List.map_filter_def image_iff intro!: bexI [of _ e])
  with all have "pr_frames_received (rep_probe r) = 60" by (simp add: complete_report_def)
  moreover from r have "e_payload e = MatchEvidence r" by (simp split: evidence_payload.splits)
  ultimately show ?thesis using e by auto
qed

lemma unat_u32_of_nat: "n < 2 ^ 32 \<Longrightarrow> unat (u32_of_nat n) = n"
  by (simp add: u32_of_nat_def unat_of_nat)


definition empty_db :: db where
  "empty_db =
     \<lparr>db_users = [], db_games = [], db_rooms = [], db_members = [], db_challenges = [], db_attempts = [],
      db_events = [], db_matches = [], db_runtime = [], db_grants = [], db_invites = [], db_preflights = [],
      db_barriers = [], db_evidence = [], db_receipts = [], db_commands = [], db_rooms_created = 0\<rparr>"

definition demo_tunnel_report :: "match_report_role \<Rightarrow> match_report" where
  "demo_tunnel_report role =
     \<lparr>rep_schema_version = 1, rep_exported_at = 0,
      rep_room = \<lparr>mr_room_id = ''r'', mr_game_id = ''sf'', mr_state = Finished\<rparr>,
      rep_probe = \<lparr>pr_role = role, pr_transport = TransportRelay, pr_frames_sent = 60, pr_frames_received = 60,
        pr_transcript_checksum = ''0123456789abcdef'', pr_elapsed_ms = 1, pr_nat = None, pr_candidate = None,
        pr_punch_attempts = None\<rparr>,
      rep_client = \<lparr>cl_platform = ''linux'', cl_user_agent = ''x''\<rparr>,
      rep_compatibility = Some \<lparr>co_adapter = ''retroarch_test'', co_emulator_version = None,
        co_executable_sha256 = [], co_core_sha256 = [], co_content_sha256 = []\<rparr>,
      rep_native_route = Some TcpTunnel\<rparr>"

definition demo_evidence_db :: db where
  "demo_evidence_db = empty_db\<lparr>db_evidence :=
     [\<lparr>e_digest = ''a'', e_room = Uuid 1, e_by = Uuid 2, e_role = RoleHost,
       e_payload = MatchEvidence (demo_tunnel_report RoleHost)\<rparr>,
      \<lparr>e_digest = ''b'', e_room = Uuid 1, e_by = Uuid 3, e_role = RoleGuest,
       e_payload = MatchEvidence (demo_tunnel_report RoleGuest)\<rparr>]\<rparr>"

lemma demo_route_rows:
  "map e_room (route_rows ''sf'' demo_evidence_db) = [Uuid 1, Uuid 1]"
  "room_verified (route_rows ''sf'' demo_evidence_db) (Uuid 1)"
  by (simp_all add: demo_evidence_db_def empty_db_def route_rows_def demo_tunnel_report_def room_verified_def
      count_distinct_def List.map_filter_def complete_report_def Let_def)


end
