(* ===== verification/Alpha_Routes.thy ===== *)
theory Alpha_Routes
  imports Challenge_Routes Route_Policy Report_Verifier
begin

text \<open>
  The alpha handlers (\<open>apps/server/src/routes/alpha.rs\<close>): single-use invites, preflight and the
  launch barrier, room snapshots, and the receipt that continues a verified match.  SHA-256 and
  the text form of a UUID are parameters; payloads are kept typed, so that reading a stored
  report back never fails.
\<close>

definition INVITE_TTL_MINUTES :: int where "INVITE_TTL_MINUTES = 15"
definition LAUNCH_DELAY_SECONDS :: int where "LAUNCH_DELAY_SECONDS = 5"

section \<open>Invites\<close>

text \<open>\<open>Uuid::simple\<close> and \<open>hash_token\<close>.\<close>

record alpha_env =
  al_simple :: "uuid \<Rightarrow> string"
  al_hash :: "string \<Rightarrow> string"

definition invite_code :: "alpha_env \<Rightarrow> uuid \<Rightarrow> string" where
  "invite_code al fresh = to_ascii_uppercase (take 10 (al_simple al fresh))"

definition insert_invite :: "invite_row \<Rightarrow> db \<Rightarrow> app_error + db" where
  "insert_invite i d =
     (if list_ex (\<lambda>j. i_hash j = i_hash i) (db_invites d) then Err db_failure
      else Ok (d\<lparr>db_invites := db_invites d @ [i]\<rparr>))"

definition new_invite :: "request_env \<Rightarrow> alpha_env \<Rightarrow> string \<Rightarrow> uuid \<Rightarrow> invite_row" where
  "new_invite env al code rid =
     \<lparr>i_hash = al_hash al code, i_room = rid, i_creator = q_user env,
      i_expires = q_clock env + minutes INVITE_TTL_MINUTES, i_consumed = None, i_consumer = None\<rparr>"

definition create_invite :: "request_env \<Rightarrow> alpha_env \<Rightarrow> uuid \<Rightarrow> uuid \<Rightarrow> db \<Rightarrow> reply outcome" where
  "create_invite env al fresh rid d =
     (if \<not> list_ex (\<lambda>r. r_id r = rid \<and> r_host r = q_user env \<and> r_state r = Waiting) (db_rooms d)
      then (Err (Forbidden ''only the host of a waiting room can create an invite''), d)
      else
        let code = invite_code al fresh;
            i = new_invite env al code rid
        in case insert_invite i d of
             Inl e \<Rightarrow> (Err e, d)
           | Inr d1 \<Rightarrow>
               (Ok (created_reply ''room.invite.created'' (BodyInvite
                  \<lparr>inv_room_id = q_show env rid, inv_code = code, inv_expires_at = i_expires i\<rparr>)),
                log_event rid None None ''room.invite.created'' (JObj []) d1))"

definition invite_redeemable :: "request_env \<Rightarrow> string \<Rightarrow> invite_row \<Rightarrow> bool" where
  "invite_redeemable env hash i \<longleftrightarrow> i_hash i = hash \<and> i_expires i > q_now env \<and> i_consumed i = None"

definition cancel_other_waiting :: "request_env \<Rightarrow> string \<Rightarrow> uuid \<Rightarrow> db \<Rightarrow> db" where
  "cancel_other_waiting env game rid d =
     (let cancelled = map r_attempt (filter (\<lambda>r. r_id r \<noteq> rid) (waiting_rooms d (q_user env) game))
      in update_attempts (\<lambda>a. a_id a \<in> set cancelled \<and> a_state a = AtActive)
           (\<lambda>a. a\<lparr>a_state := AtCancelled, a_deadline := None, a_finished := coalesce (a_finished a) (q_now env)\<rparr>)
           (update_rooms (\<lambda>r. r_host r = q_user env \<and> r_game r = game \<and> r_state r = Waiting \<and> r_id r \<noteq> rid)
             (\<lambda>r. r\<lparr>r_state := Cancelled, r_deadline := None\<rparr>) d))"

definition join_invite_txn :: "request_env \<Rightarrow> string \<Rightarrow> db \<Rightarrow> app_error + (uuid \<times> db)" where
  "join_invite_txn env hash d =
     (case find (invite_redeemable env hash) (db_invites d) of
        None \<Rightarrow> Err (NotFound ''invite is invalid, expired, or already used'')
      | Some i \<Rightarrow>
     (case find_room d (i_room i) of
        None \<Rightarrow> Err db_failure
      | Some r \<Rightarrow>
          (if r_host r = q_user env then Err (Forbidden ''room hosts cannot redeem their own invite'')
           else case from_database (to_database (r_state r)) of
               Inl m \<Rightarrow> Err (Internal m)
             | Inr current \<Rightarrow>
           (case transition current Accept of
               Inl e \<Rightarrow> Err (transition_conflict e)
             | Inr next \<Rightarrow>
                 (let rid = i_room i in
                  if length (members_of d rid) \<ge> 2 then Err (Conflict ''room is full'')
                  else
                    case insert_member rid (q_user env) (q_now env) (cancel_other_waiting env (r_game r) rid d) of
                      Inl e \<Rightarrow> Err e
                    | Inr d1 \<Rightarrow>
                        (let d2 = set_room_state rid next (Some (q_now env + minutes 2)) d1;
                             d3 = update_active_attempt rid (\<lambda>a. a\<lparr>a_deadline := Some (q_now env + minutes 2)\<rparr>) d2;
                             d4 = d3\<lparr>db_invites := upd_where (\<lambda>j. i_hash j = hash)
                               (\<lambda>j. j\<lparr>i_consumed := Some (q_now env), i_consumer := Some (q_user env)\<rparr>) (db_invites d3)\<rparr>
                         in Ok (rid, log_event rid None None ''room.invite.joined'' (JObj []) d4)))))))"

definition valid_invite_code :: "string \<Rightarrow> bool" where
  "valid_invite_code code \<longleftrightarrow> length code = 10 \<and> list_all is_ascii_hexdigit code"

definition join_invite :: "request_env \<Rightarrow> alpha_env \<Rightarrow> string \<Rightarrow> db \<Rightarrow> reply outcome" where
  "join_invite env al request_code d =
     (let code = to_ascii_uppercase (trim request_code) in
      if \<not> valid_invite_code code then (Err (BadRequest ''invite code is invalid''), d)
      else case transact (join_invite_txn env (al_hash al code)) d of
          (Inl e, d') \<Rightarrow> (Err e, d')
        | (Inr rid, d') \<Rightarrow> then_notify env rid (Ok (), d'))"

section \<open>Snapshots\<close>

record policy_config =
  pc_tunnel_enabled :: bool
  pc_min_attempts :: u32

definition u8_of_nat :: "nat \<Rightarrow> u8" where
  "u8_of_nat n = (if n < 256 then of_nat n else - 1)"

definition setup_matched :: "preflight_row list \<Rightarrow> bool" where
  "setup_matched rows \<longleftrightarrow>
     (case map f_compatibility rows of [a, b] \<Rightarrow> a = b | _ \<Rightarrow> False) \<and> list_all f_port_available rows"

definition attempt_preflights :: "db \<Rightarrow> uuid \<Rightarrow> uuid option \<Rightarrow> preflight_row list" where
  "attempt_preflights d rid attempt =
     sort_key f_user (filter (\<lambda>f. f_room f = rid \<and> Some (f_attempt f) = attempt) (db_preflights d))"

definition room_revision :: "db \<Rightarrow> uuid \<Rightarrow> nat" where
  "room_revision d rid = fold max (map ev_revision (filter (\<lambda>e. ev_room e = rid) (db_events d))) 0"

definition build_snapshot :: "request_env \<Rightarrow> policy_config \<Rightarrow> uuid \<Rightarrow> db \<Rightarrow> app_error + room_snapshot_payload" where
  "build_snapshot env cfg rid d =
     (case fetch_room_payload env d rid (q_user env) of
        Inl e \<Rightarrow> Err e
      | Inr room \<Rightarrow>
          (let attempt = room_attempt d rid;
               rows = attempt_preflights d rid attempt;
               evidence = (if pc_tunnel_enabled cfg then tcp_tunnel_evidence d (rp_game_id room)
                           else \<lparr>rv_attempts = 0, rv_verified = 0\<rparr>);
               policy = decide_native_route (pc_tunnel_enabled cfg) (pc_min_attempts cfg) evidence
           in Ok \<lparr>snap_room = room, snap_revision = int (room_revision d rid),
                  snap_preflight_count = u8_of_nat (length rows),
                  snap_compatibility_matched = setup_matched rows,
                  snap_controller_ready_count = u8_of_nat (length (filter f_controller rows)),
                  snap_barrier = \<lparr>lb_room_id = q_show env rid,
                    lb_ready_count = u8_of_nat (length (filter f_ready rows)), lb_required_count = 2,
                    lb_launch_at = map_option b_launch
                      (find (\<lambda>b. b_room b = rid \<and> Some (b_attempt b) = attempt) (db_barriers d))\<rparr>,
                  snap_route = rpo_route policy, snap_route_policy = policy\<rparr>))"

definition room_snapshot :: "request_env \<Rightarrow> policy_config \<Rightarrow> uuid \<Rightarrow> db \<Rightarrow> reply outcome" where
  "room_snapshot env cfg rid d =
     (case build_snapshot env cfg rid d of
        Inl e \<Rightarrow> (Err e, d)
      | Inr s \<Rightarrow> (Ok (ok_reply ''room.snapshot'' (BodySnapshot s)), d))"

definition then_snapshot :: "request_env \<Rightarrow> policy_config \<Rightarrow> uuid \<Rightarrow> string \<Rightarrow> unit outcome \<Rightarrow> reply outcome" where
  "then_snapshot env cfg rid ty res =
     (case res of
        (Inl e, d) \<Rightarrow> (Err e, d)
      | (Inr _, d) \<Rightarrow>
          (case build_snapshot env cfg rid d of
             Inl e \<Rightarrow> (Err e, d)
           | Inr s \<Rightarrow>
               (Ok ((ok_reply ty (BodySnapshot s))
                  \<lparr>y_notify := map (\<lambda>u. (u, ''room.snapshot'', BodySnapshot s)) (members_of d rid)\<rparr>), d)))"

section \<open>Preflight and the launch barrier\<close>

definition lock_active_attempt :: "request_env \<Rightarrow> db \<Rightarrow> uuid \<Rightarrow> app_error + uuid" where
  "lock_active_attempt env d rid =
     (case (if is_member d rid (q_user env) then find_room d rid else None) of
        None \<Rightarrow> Err (Forbidden ''not a room member'')
      | Some r \<Rightarrow>
          (if r_state r \<noteq> Connecting \<and> r_state r \<noteq> Playing
           then Err (Conflict ''room is not active for match setup'')
           else if (case r_deadline r of None \<Rightarrow> False | Some t \<Rightarrow> t \<le> q_clock env)
           then Err (Conflict ''room match setup has expired'')
           else Ok (r_attempt r)))"

definition valid_compat_hash :: "string \<Rightarrow> bool" where
  "valid_compat_hash h \<longleftrightarrow> length h = 64 \<and> list_all is_lower_hex h"

definition validate_compatibility :: "match_report_compatibility \<Rightarrow> app_error + unit" where
  "validate_compatibility c =
     (if co_adapter c \<notin> {''retroarch_fbneo'', ''retroarch_test''}
         \<or> (case co_emulator_version c of None \<Rightarrow> False | Some v \<Rightarrow> is_blank v \<or> length v > 64)
         \<or> \<not> valid_compat_hash (co_executable_sha256 c) \<or> \<not> valid_compat_hash (co_core_sha256 c)
         \<or> \<not> valid_compat_hash (co_content_sha256 c)
      then Err (BadRequest ''compatibility preflight is invalid'') else Ok ())"

definition expected_player_slot :: "request_env \<Rightarrow> db \<Rightarrow> uuid \<Rightarrow> app_error + u8" where
  "expected_player_slot env d rid =
     (case find_room d rid of
        None \<Rightarrow> Err db_failure
      | Some r \<Rightarrow> Ok (if r_host r = q_user env then 1 else 2))"

text \<open>\<open>INSERT \<dots> ON CONFLICT (room_id, user_id) DO UPDATE\<close>.\<close>

definition upsert_preflight :: "preflight_row \<Rightarrow> db \<Rightarrow> db" where
  "upsert_preflight f d =
     (let same = (\<lambda>g. f_room g = f_room f \<and> f_user g = f_user f) in
      d\<lparr>db_preflights := (if list_ex same (db_preflights d) then upd_where same (\<lambda>_. f) (db_preflights d)
                          else db_preflights d @ [f])\<rparr>)"

definition submit_preflight_txn ::
    "request_env \<Rightarrow> uuid \<Rightarrow> match_preflight_payload \<Rightarrow> db \<Rightarrow> app_error + (unit \<times> db)" where
  "submit_preflight_txn env rid payload d =
     (case lock_active_attempt env d rid of
        Inl e \<Rightarrow> Err e
      | Inr attempt \<Rightarrow>
     (case expected_player_slot env d rid of
        Inl e \<Rightarrow> Err e
      | Inr expected_slot \<Rightarrow>
          (let slot = ctl_player_slot (pf_controller payload) in
           if slot \<noteq> expected_slot
           then Err (BadRequest (''controller must be assigned to player slot '' @ nat_str (unat expected_slot)))
           else
             let d1 = d\<lparr>db_barriers := filter (\<lambda>b. b_room b \<noteq> rid) (db_barriers d)\<rparr>;
                 d2 = upsert_preflight
                   \<lparr>f_room = rid, f_user = q_user env, f_compatibility = pf_compatibility payload,
                    f_port_available = pf_native_port_available payload,
                    f_controller = ctl_connected (pf_controller payload), f_slot = uint slot,
                    f_ready = False, f_attempt = attempt\<rparr> d1
             in Ok ((), log_event rid (Some attempt) (Some (q_user env)) ''match.preflight''
                  (JObj [(''native_port_available'', JBool (pf_native_port_available payload)),
                         (''controller_connected'', JBool (ctl_connected (pf_controller payload))),
                         (''player_slot'', JNum (uint slot))]) d2))))"

definition submit_preflight ::
    "request_env \<Rightarrow> policy_config \<Rightarrow> uuid \<Rightarrow> match_preflight_payload \<Rightarrow> db \<Rightarrow> reply outcome" where
  "submit_preflight env cfg rid payload d =
     (if pf_room_id payload \<noteq> q_show env rid then (Err (BadRequest ''preflight room does not match path''), d)
      else case validate_compatibility (pf_compatibility payload) of
          Inl e \<Rightarrow> (Err e, d)
        | Inr _ \<Rightarrow> then_snapshot env cfg rid ''match.preflight.accepted''
            (transact (submit_preflight_txn env rid payload) d))"

definition preflight_status :: "db \<Rightarrow> uuid \<Rightarrow> uuid \<Rightarrow> nat \<times> bool \<times> bool" where
  "preflight_status d rid attempt =
     (let rows = attempt_preflights d rid (Some attempt)
      in (length rows, setup_matched rows,
          length rows = 2 \<and> list_all f_controller rows \<and> set (map f_slot rows) = {1, 2}))"

definition upsert_barrier :: "request_env \<Rightarrow> barrier_row \<Rightarrow> db \<Rightarrow> db" where
  "upsert_barrier env b d =
     (if list_ex (\<lambda>x. b_room x = b_room b) (db_barriers d)
      then d\<lparr>db_barriers := upd_where
          (\<lambda>x. b_room x = b_room b \<and> (b_attempt x \<noteq> b_attempt b \<or> b_launch x \<le> q_now env)) (\<lambda>_. b) (db_barriers d)\<rparr>
      else d\<lparr>db_barriers := db_barriers d @ [b]\<rparr>)"

definition ready_to_launch_txn :: "request_env \<Rightarrow> uuid \<Rightarrow> db \<Rightarrow> app_error + (unit \<times> db)" where
  "ready_to_launch_txn env rid d =
     (case lock_active_attempt env d rid of
        Inl e \<Rightarrow> Err e
      | Inr attempt \<Rightarrow>
          (case preflight_status d rid attempt of
             (preflight_count, compatibility_matched, controllers_ready) \<Rightarrow>
               (if preflight_count \<noteq> 2 \<or> \<not> compatibility_matched \<or> \<not> controllers_ready
                then Err (Conflict ''both peers must pass matching compatibility and controller preflight'')
                else
                  let d1 = d\<lparr>db_preflights := upd_where
                        (\<lambda>f. f_room f = rid \<and> f_user f = q_user env \<and> f_attempt f = attempt \<and> f_port_available f)
                        (\<lambda>f. f\<lparr>f_ready := True\<rparr>) (db_preflights d)\<rparr>;
                      ready_count = length (filter (\<lambda>f. f_room f = rid \<and> f_attempt f = attempt \<and> f_ready f)
                        (db_preflights d1));
                      d2 = (if ready_count = 2
                            then upsert_barrier env \<lparr>b_room = rid, b_attempt = attempt,
                                   b_launch = q_now env + seconds LAUNCH_DELAY_SECONDS\<rparr> d1
                            else d1)
                  in Ok ((), log_event rid (Some attempt) (Some (q_user env)) ''match.launch.ready''
                       (JObj [(''ready_count'', JNum (int ready_count))]) d2))))"

definition ready_to_launch :: "request_env \<Rightarrow> policy_config \<Rightarrow> uuid \<Rightarrow> db \<Rightarrow> reply outcome" where
  "ready_to_launch env cfg rid d =
     then_snapshot env cfg rid ''match.launch.ready'' (transact (ready_to_launch_txn env rid) d)"

section \<open>Receipts\<close>

definition parse_native_route :: "string option \<Rightarrow> app_error + native_route_capability" where
  "parse_native_route v =
     (if v = Some ''direct_lan'' then Ok DirectLan
      else if v = Some ''tcp_tunnel'' then Ok TcpTunnel
      else Err (Conflict ''match evidence does not contain one supported native route''))"

definition native_route_label :: "native_route_capability \<Rightarrow> string" where
  "native_route_label v = (case v of DirectLan \<Rightarrow> ''direct_lan'' | TcpTunnel \<Rightarrow> ''tcp_tunnel'')"

fun role_label :: "match_report_role \<Rightarrow> string" where
  "role_label RoleHost = ''host''"
| "role_label RoleGuest = ''guest''"

definition room_match_reports :: "db \<Rightarrow> uuid \<Rightarrow> match_report list" where
  "room_match_reports d rid =
     List.map_filter match_payload
       (sort_key (\<lambda>e. role_label (e_role e)) (filter (\<lambda>e. e_room e = rid) (db_evidence d)))"

definition room_failures :: "db \<Rightarrow> uuid \<Rightarrow> nat" where
  "room_failures d rid = length (filter (\<lambda>e. e_room e = rid \<and> match_payload e = None) (db_evidence d))"

text \<open>The verified route of the room's evidence pair, or the conflict that is answered.\<close>

definition verified_route :: "db \<Rightarrow> uuid \<Rightarrow> app_error + native_route_capability" where
  "verified_route d rid =
     (case room_match_reports d rid of
        [first, second] \<Rightarrow>
          (if room_failures d rid \<noteq> 0
           then Err (Conflict ''a verified two-peer evidence pair is required before creating a receipt'')
           else case verify_playable_match_reports first second of
               Inl _ \<Rightarrow> Err (Conflict ''match evidence pair did not verify'')
             | Inr _ \<Rightarrow>
                 (if rep_native_route first \<noteq> rep_native_route second
                  then Err (Conflict ''match evidence route does not match'')
                  else parse_native_route (map_option native_route_label (rep_native_route first))))
      | _ \<Rightarrow> Err (Conflict ''a verified two-peer evidence pair is required before creating a receipt''))"

definition find_command :: "request_env \<Rightarrow> uuid \<Rightarrow> db \<Rightarrow> command_row option" where
  "find_command env key d = find (\<lambda>k. k_actor k = q_user env \<and> k_key k = key) (db_commands d)"

definition replay_command :: "command_row \<Rightarrow> app_error + reply" where
  "replay_command k =
     (if k_type k \<noteq> ''match.receipt.create''
      then Err (Conflict ''idempotency key was already used for another command'')
      else Ok (ok_reply ''match.receipt.created'' (BodyReceipt (k_response k))))"

text \<open>The fresh ids of a receipt: next room, attempt, receipt, and the source of the invite code.\<close>

record receipt_ids =
  ri_room :: uuid
  ri_attempt :: uuid
  ri_receipt :: uuid
  ri_code :: uuid

definition insert_receipt :: "receipt_row \<Rightarrow> db \<Rightarrow> app_error + db" where
  "insert_receipt x d =
     (if list_ex (\<lambda>y. x_id y = x_id x \<or> (x_source y = x_source x \<and> x_creator y = x_creator x)) (db_receipts d)
      then Err db_failure
      else Ok (d\<lparr>db_receipts := db_receipts d @ [x]\<rparr>))"

definition insert_command :: "command_row \<Rightarrow> db \<Rightarrow> app_error + db" where
  "insert_command k d =
     (if list_ex (\<lambda>j. k_actor j = k_actor k \<and> k_key j = k_key k) (db_commands d) then Err db_failure
      else Ok (d\<lparr>db_commands := db_commands d @ [k]\<rparr>))"

text \<open>The rows of the continuation: the user's waiting rooms for the game are withdrawn and a new
  room with its member, attempt, invite, receipt and command result is written.\<close>

definition continue_match ::
    "request_env \<Rightarrow> alpha_env \<Rightarrow> receipt_ids \<Rightarrow> uuid \<Rightarrow> string \<Rightarrow> uuid \<Rightarrow> native_route_capability \<Rightarrow> db \<Rightarrow>
     app_error + (match_receipt_payload \<times> db)" where
  "continue_match env al ids source game key route d =
     (let d0 = update_rooms (\<lambda>r. r_host r = q_user env \<and> r_game r = game \<and> r_state r = Waiting)
            (\<lambda>r. r\<lparr>r_state := Cancelled\<rparr>) d;
          rid = ri_room ids; deadline = q_now env + hours 24;
          code = invite_code al (ri_code ids);
          i = new_invite env al code rid;
          payload = \<lparr>rcp_receipt_id = q_show env (ri_receipt ids), rcp_game_id = game, rcp_result = ''verified'',
            rcp_route = route, rcp_compatibility_verified = True, rcp_created_at = q_clock env,
            rcp_invite = \<lparr>inv_room_id = q_show env rid, inv_code = code, inv_expires_at = i_expires i\<rparr>\<rparr>
      in case insert_room (new_room env rid (ri_attempt ids) game Waiting 2 deadline) d0 of
           Inl e \<Rightarrow> Err e
         | Inr d1 \<Rightarrow>
      (case insert_member rid (q_user env) (q_now env) d1 of
           Inl e \<Rightarrow> Err e
         | Inr d2 \<Rightarrow>
      (case insert_attempt (ri_attempt ids) rid deadline d2 of
           Inl e \<Rightarrow> Err e
         | Inr d3 \<Rightarrow>
      (case insert_invite i d3 of
           Inl e \<Rightarrow> Err e
         | Inr d4 \<Rightarrow>
      (case insert_receipt \<lparr>x_id = ri_receipt ids, x_source = source, x_creator = q_user env, x_next = rid\<rparr> d4 of
           Inl e \<Rightarrow> Err e
         | Inr d5 \<Rightarrow>
      (case insert_command \<lparr>k_actor = q_user env, k_key = key, k_type = ''match.receipt.create'',
           k_response = payload\<rparr> d5 of
           Inl e \<Rightarrow> Err e
         | Inr d6 \<Rightarrow> Ok (payload, d6)))))))"

definition create_receipt_txn ::
    "request_env \<Rightarrow> alpha_env \<Rightarrow> receipt_ids \<Rightarrow> uuid \<Rightarrow> uuid \<Rightarrow> db \<Rightarrow> app_error + (reply \<times> db)" where
  "create_receipt_txn env al ids source key d =
     (case (if is_member d source (q_user env) then find_room d source else None) of
        None \<Rightarrow> Err (Conflict ''finished room membership is required'')
      | Some r \<Rightarrow>
          (if r_state r \<noteq> Finished then Err (Conflict ''finished room membership is required'')
           else case find_command env key d of
               Some k \<Rightarrow> (case replay_command k of Inl e \<Rightarrow> Err e | Inr y \<Rightarrow> Ok (y, d))
             | None \<Rightarrow>
           (case verified_route d source of
               Inl e \<Rightarrow> Err e
             | Inr route \<Rightarrow>
                 (if list_ex (\<lambda>x. x_source x = source \<and> x_creator x = q_user env) (db_receipts d)
                  then Err (Conflict ''a continuation receipt already exists for this match'')
                  else case continue_match env al ids source (r_game r) key route d of
                      Inl e \<Rightarrow> Err e
                    | Inr (payload, d') \<Rightarrow> Ok (created_reply ''match.receipt.created'' (BodyReceipt payload), d')))))"

definition create_match_receipt ::
    "request_env \<Rightarrow> alpha_env \<Rightarrow> receipt_ids \<Rightarrow> uuid \<Rightarrow> uuid \<Rightarrow> db \<Rightarrow> db \<Rightarrow> reply outcome" where
  "create_match_receipt env al ids source key seen d =
     (case find_command env key seen of
        Some k \<Rightarrow> (replay_command k, d)
      | None \<Rightarrow> transact (create_receipt_txn env al ids source key) d)"

section \<open>Evidence\<close>

text \<open>The stored row and the duplicate rule of \<open>submit_evidence\<close>
  (\<open>apps/server/src/routes/alpha_evidence.rs\<close>): one report per room, user and kind.\<close>

definition same_kind :: "evidence_payload \<Rightarrow> evidence_payload \<Rightarrow> bool" where
  "same_kind a b \<longleftrightarrow> (case a of MatchEvidence _ \<Rightarrow> (case b of MatchEvidence _ \<Rightarrow> True | _ \<Rightarrow> False)
     | FailureEvidence _ \<Rightarrow> (case b of FailureEvidence _ \<Rightarrow> True | _ \<Rightarrow> False))"

fun payload_role :: "evidence_payload \<Rightarrow> match_report_role" where
  "payload_role (MatchEvidence r) = pr_role (rep_probe r)"
| "payload_role (FailureEvidence r) = fail_role r"

text \<open>What \<open>serde_json\<close> and the hash answer: the size of the raw request, the decoding of
  \<open>decode_evidence\<close> with its error, the UUID parser, the canonical JSON, and the digest.\<close>

record evidence_env =
  ex_raw_size :: nat
  ex_decoded :: "app_error + evidence_payload"
  ex_room :: "string \<Rightarrow> uuid option"
  ex_canonical :: "evidence_payload \<Rightarrow> json"
  ex_digest :: "evidence_payload \<Rightarrow> string"

definition FORBIDDEN_KEYS :: "string list" where
  "FORBIDDEN_KEYS =
     [''token'', ''session_token'', ''local_user_id'', ''peer_user_id'', ''host_id'', ''guest_id'',
      ''endpoint'', ''nonce'', ''path'', ''rom_path'']"

fun contains_private_key :: "json \<Rightarrow> bool" where
  "contains_private_key (JObj kvs) \<longleftrightarrow>
     (\<exists>kv \<in> set kvs. fst kv \<in> set FORBIDDEN_KEYS \<or> contains_private_key (snd kv))"
| "contains_private_key (JArr vs) \<longleftrightarrow> (\<exists>v \<in> set vs. contains_private_key v)"
| "contains_private_key v \<longleftrightarrow> False"

definition submit_evidence :: "request_env \<Rightarrow> evidence_env \<Rightarrow> db \<Rightarrow> reply outcome" where
  "submit_evidence env ex d =
     (if ex_raw_size ex > 64 * 1024 then (Err (BadRequest ''evidence exceeds the 64 KiB limit''), d)
      else case ex_decoded ex of
        Inl e \<Rightarrow> (Err e, d)
      | Inr payload \<Rightarrow>
     (case ex_room ex (mr_room_id (payload_room payload)) of
        None \<Rightarrow> (Err (BadRequest ''evidence room id is invalid''), d)
      | Some rid \<Rightarrow>
     (if contains_private_key (ex_canonical ex payload)
      then (Err (BadRequest ''evidence contains private fields''), d)
      else case (if is_member d rid (q_user env) then find_room d rid else None) of
        None \<Rightarrow> (Err (Forbidden ''not a room member''), d)
      | Some r \<Rightarrow>
          (if payload_role payload \<noteq> (if r_host r = q_user env then RoleHost else RoleGuest)
           then (Err (Forbidden ''evidence role does not match room membership''), d)
           else if mr_game_id (payload_room payload) \<noteq> r_game r
           then (Err (BadRequest ''evidence game does not match the authoritative room''), d)
           else if (case payload of MatchEvidence _ \<Rightarrow> True | _ \<Rightarrow> False) \<and> r_state r \<noteq> Finished
           then (Err (Conflict ''successful match evidence requires an authoritative finished room''), d)
           else
             let digest = ex_digest ex payload;
                 mine = (\<lambda>e. e_room e = rid \<and> e_by e = q_user env \<and> same_kind (e_payload e) payload);
                 duplicate = list_ex (\<lambda>e. e_digest e = digest \<or> mine e) (db_evidence d);
                 d' = (if duplicate then d
                       else d\<lparr>db_evidence := db_evidence d @
                         [\<lparr>e_digest = digest, e_room = rid, e_by = q_user env, e_role = payload_role payload,
                           e_payload = payload\<rparr>]\<rparr>)
             in if duplicate \<and> (case find mine (db_evidence d) of None \<Rightarrow> False | Some e \<Rightarrow> e_digest e \<noteq> digest)
                then (Err (Conflict ''different evidence already exists for this attempt and role''), d')
                else (Ok (if duplicate
                          then ok_reply ''alpha.evidence.accepted'' (BodyEvidence digest True)
                          else created_reply ''alpha.evidence.accepted'' (BodyEvidence digest False)), d')))))"

end
