(* ===== verification/Lifecycle.thy ===== *)
theory Lifecycle
  imports Room_Routes
begin

text \<open>
  The background reconciler (\<open>apps/server/src/lifecycle.rs\<close>): bounded passes that expire pending
  challenges, cancel rooms past their deadline together with everything that hangs on them, and
  drop old telemetry.  \<open>busy\<close> lists the ids of rows that another transaction holds locked and
  that \<open>SKIP LOCKED\<close> leaves out.
\<close>

definition RECONCILE_BATCH_SIZE :: nat where "RECONCILE_BATCH_SIZE = 250"
definition TELEMETRY_RETENTION_DAYS :: int where "TELEMETRY_RETENTION_DAYS = 90"
definition TELEMETRY_RETENTION_BATCH_SIZE :: nat where "TELEMETRY_RETENTION_BATCH_SIZE = 1000"

definition active_state :: "room_state \<Rightarrow> bool" where
  "active_state s \<longleftrightarrow> s = Waiting \<or> s = Challenging \<or> s = Connecting \<or> s = Playing"

definition due :: "instant \<Rightarrow> room_row \<Rightarrow> bool" where
  "due now r \<longleftrightarrow> active_state (r_state r) \<and> (case r_deadline r of None \<Rightarrow> False | Some t \<Rightarrow> t \<le> now)"

definition deadline_of :: "room_row \<Rightarrow> instant" where
  "deadline_of r = (case r_deadline r of None \<Rightarrow> 0 | Some t \<Rightarrow> t)"

definition expired_challenges :: "instant \<Rightarrow> uuid list \<Rightarrow> db \<Rightarrow> challenge_row list" where
  "expired_challenges now busy d =
     take RECONCILE_BATCH_SIZE (sort_key c_expires
       (filter (\<lambda>c. c_state c = ChPending \<and> c_expires c \<le> now \<and> c_id c \<notin> set busy) (db_challenges d)))"

definition expired_rooms :: "instant \<Rightarrow> uuid list \<Rightarrow> db \<Rightarrow> room_row list" where
  "expired_rooms now busy d =
     take RECONCILE_BATCH_SIZE (sort_key deadline_of
       (filter (\<lambda>r. due now r \<and> r_id r \<notin> set busy) (db_rooms d)))"

definition expire_challenge_batch :: "instant \<Rightarrow> uuid list \<Rightarrow> db \<Rightarrow> db" where
  "expire_challenge_batch now busy d =
     (let ids = map c_id (expired_challenges now busy d)
      in update_challenges (\<lambda>c. c_id c \<in> set ids) (\<lambda>c. c\<lparr>c_state := ChExpired\<rparr>) d)"

text \<open>The \<open>WITH expired AS (\<dots>)\<close> statement: every part sees the rows that \<open>expired\<close> selected.\<close>

definition cancel_expired :: "instant \<Rightarrow> room_row list \<Rightarrow> db \<Rightarrow> db" where
  "cancel_expired now expired d =
     (let ids = set (map r_id expired); attempts = set (map r_attempt expired);
          d1 = update_rooms (\<lambda>r. r_id r \<in> ids) (\<lambda>r. r\<lparr>r_state := Cancelled, r_deadline := None\<rparr>) d;
          d2 = update_attempts (\<lambda>a. a_id a \<in> attempts \<and> a_state a = AtActive)
            (\<lambda>a. a\<lparr>a_state := AtExpired, a_failure := Some ''state_deadline_exceeded'', a_deadline := None,
                   a_finished := Some now\<rparr>) d1;
          d3 = update_challenges (\<lambda>c. c_room c \<in> ids \<and> c_state c = ChPending) (\<lambda>c. c\<lparr>c_state := ChExpired\<rparr>) d2;
          d4 = update_matches (\<lambda>m. mt_room m \<in> ids) (\<lambda>m. m\<lparr>mt_ended := coalesce (mt_ended m) now\<rparr>) d3
      in update_runtime (\<lambda>p. p_room p \<in> ids) (\<lambda>p. p\<lparr>p_ended := coalesce (p_ended p) now\<rparr>) d4)"

definition log_expired :: "room_row list \<Rightarrow> db \<Rightarrow> db" where
  "log_expired expired d =
     fold (\<lambda>r. log_event (r_id r) (Some (r_attempt r)) None ''room.deadline.expired''
             (JObj [(''failure_code'', JStr ''state_deadline_exceeded'')])) expired d"

text \<open>The committed state, the rooms that were cancelled, and the notifications sent.\<close>

definition reconcile_expired :: "instant \<Rightarrow> uuid list \<Rightarrow> db \<Rightarrow> db \<times> uuid list \<times> (uuid \<times> uuid) list" where
  "reconcile_expired now busy d =
     (let d1 = expire_challenge_batch now busy d;
          expired = expired_rooms now busy d1;
          d2 = log_expired expired (cancel_expired now expired d1);
          ids = map r_id expired
      in (d2, ids, map (\<lambda>m. (m_room m, m_user m)) (filter (\<lambda>m. m_room m \<in> set ids) (db_members d2))))"

section \<open>Telemetry retention\<close>

record product_event_row =
  pe_id :: uuid
  pe_received :: instant

definition reconcile_telemetry_retention ::
    "instant \<Rightarrow> product_event_row list \<Rightarrow> product_event_row list \<times> nat" where
  "reconcile_telemetry_retention now es =
     (let doomed = map pe_id (take TELEMETRY_RETENTION_BATCH_SIZE (sort_key pe_received
            (filter (\<lambda>e. pe_received e < now - days TELEMETRY_RETENTION_DAYS) es)));
          kept = filter (\<lambda>e. pe_id e \<notin> set doomed) es
      in (kept, length es - length kept))"

end
