(* ===== verification/Server_Invariant.thy ===== *)
theory Server_Invariant
  imports Launch_Routes Alpha_Routes Lifecycle
begin

text \<open>
  The consistency of the server's tables: what every handler and every reconciler pass keeps.
  The invariant is stated over the five tables it relates, so that statements on the other
  tables leave it alone by simplification.
\<close>

section \<open>The invariant\<close>

definition users_in :: "member_row list \<Rightarrow> uuid \<Rightarrow> uuid list" where
  "users_in M rid = map m_user (filter (\<lambda>m. m_room m = rid) M)"

definition players_in :: "runtime_row list \<Rightarrow> uuid \<Rightarrow> uuid list" where
  "players_in P rid = map p_user (filter (\<lambda>p. p_room p = rid) P)"

definition all_ended :: "runtime_row list \<Rightarrow> uuid \<Rightarrow> bool" where
  "all_ended P rid \<longleftrightarrow> (\<forall>p \<in> set P. p_room p = rid \<longrightarrow> p_ended p \<noteq> None)"

definition attempt_is :: "attempt_row list \<Rightarrow> room_row \<Rightarrow> (attempt_state \<Rightarrow> bool) \<Rightarrow> bool" where
  "attempt_is A r Q \<longleftrightarrow> (\<exists>a \<in> set A. a_id a = r_attempt r \<and> a_room a = r_id r \<and> Q (a_state a))"

definition has_match :: "match_row list \<Rightarrow> uuid \<Rightarrow> bool" where
  "has_match T rid \<longleftrightarrow> (\<exists>m \<in> set T. mt_room m = rid)"

text \<open>A room with its members, its attempt, its players and its match.\<close>

definition room_ok ::
    "member_row list \<Rightarrow> attempt_row list \<Rightarrow> runtime_row list \<Rightarrow> match_row list \<Rightarrow> room_row \<Rightarrow> bool" where
  "room_ok M A P T r \<longleftrightarrow>
     r_host r \<in> set (users_in M (r_id r)) \<and> length (users_in M (r_id r)) \<le> 2
     \<and> r_state r \<noteq> Ready \<and> r_max_players r = 2
     \<and> (r_state r = Waiting \<or> r_state r = Challenging \<longrightarrow> length (users_in M (r_id r)) = 1)
     \<and> (r_state r = Connecting \<or> r_state r = Playing \<or> r_state r = Finished \<longrightarrow> length (users_in M (r_id r)) = 2)
     \<and> (r_state r = Playing \<or> r_state r = Finished \<longrightarrow>
          length (players_in P (r_id r)) = 2 \<and> has_match T (r_id r))
     \<and> (r_state r = Finished \<longrightarrow> all_ended P (r_id r) \<and> attempt_is A r (\<lambda>s. s = AtSucceeded))
     \<and> attempt_is A r (\<lambda>_. True)
     \<and> (active_state (r_state r) \<longrightarrow> r_deadline r \<noteq> None \<and> attempt_is A r (\<lambda>s. s = AtActive))"

definition tables_inv ::
    "room_row list \<Rightarrow> member_row list \<Rightarrow> attempt_row list \<Rightarrow> runtime_row list \<Rightarrow> match_row list \<Rightarrow> bool" where
  "tables_inv R M A P T \<longleftrightarrow>
     distinct (map r_id R) \<and> distinct (map a_id A)
     \<and> (\<forall>rid. distinct (users_in M rid)) \<and> (\<forall>rid. distinct (players_in P rid))
     \<and> (\<forall>rid. set (players_in P rid) \<subseteq> set (users_in M rid))
     \<and> (\<forall>m \<in> set M. m_room m \<in> r_id ` set R)
     \<and> (\<forall>r \<in> set R. room_ok M A P T r)
     \<and> (\<forall>r \<in> set R. \<forall>q \<in> set R. r_state r = Waiting \<and> r_state q = Waiting \<and> r_host r = r_host q
          \<and> r_game r = r_game q \<longrightarrow> r = q)"

lemma tables_invD:
  assumes "tables_inv R M A P T"
  shows "distinct (map r_id R)" "distinct (map a_id A)"
    and "distinct (users_in M rid)" "distinct (players_in P rid)"
    and "set (players_in P rid) \<subseteq> set (users_in M rid)"
    and "m \<in> set M \<Longrightarrow> m_room m \<in> r_id ` set R"
    and "r \<in> set R \<Longrightarrow> room_ok M A P T r"
    and "r \<in> set R \<Longrightarrow> q \<in> set R \<Longrightarrow> r_state r = Waiting \<Longrightarrow> r_state q = Waiting \<Longrightarrow>
      r_host r = r_host q \<Longrightarrow> r_game r = r_game q \<Longrightarrow> r = q"
  using assms unfolding tables_inv_def by blast+

lemma tables_invI:
  assumes "distinct (map r_id R)" "distinct (map a_id A)"
    and "\<And>rid. distinct (users_in M rid)" "\<And>rid. distinct (players_in P rid)"
    and "\<And>rid. set (players_in P rid) \<subseteq> set (users_in M rid)"
    and "\<And>m. m \<in> set M \<Longrightarrow> m_room m \<in> r_id ` set R"
    and "\<And>r. r \<in> set R \<Longrightarrow> room_ok M A P T r"
    and "\<And>r q. r \<in> set R \<Longrightarrow> q \<in> set R \<Longrightarrow> r_state r = Waiting \<Longrightarrow> r_state q = Waiting \<Longrightarrow>
      r_host r = r_host q \<Longrightarrow> r_game r = r_game q \<Longrightarrow> r = q"
  shows "tables_inv R M A P T"
  using assms unfolding tables_inv_def by blast

definition server_inv :: "db \<Rightarrow> bool" where
  "server_inv d \<longleftrightarrow> tables_inv (db_rooms d) (db_members d) (db_attempts d) (db_runtime d) (db_matches d)"

lemma members_of_users: "members_of d rid = users_in (db_members d) rid"
  by (simp add: members_of_def users_in_def)

lemma participants_of_players: "participants_of d rid = players_in (db_runtime d) rid"
  by (simp add: participants_of_def players_in_def)

section \<open>What row updates leave alone\<close>

lemma users_in_append [simp]:
  "users_in (M @ [m]) rid = users_in M rid @ (if m_room m = rid then [m_user m] else [])"
  by (simp add: users_in_def)

lemma players_in_append [simp]:
  "players_in (P @ [p]) rid = players_in P rid @ (if p_room p = rid then [p_user p] else [])"
  by (simp add: players_in_def)

lemma players_in_update:
  "(\<And>p. p_room (g p) = p_room p) \<Longrightarrow> (\<And>p. p_user (g p) = p_user p) \<Longrightarrow>
   players_in (upd_where q g P) rid = players_in P rid"
  by (induction P) (auto simp: players_in_def)

lemma all_ended_update:
  "(\<And>p. p_room (g p) = p_room p) \<Longrightarrow> (\<And>p. p_ended p \<noteq> None \<Longrightarrow> p_ended (g p) \<noteq> None) \<Longrightarrow>
   all_ended P rid \<Longrightarrow> all_ended (upd_where q g P) rid"
  by (auto simp: all_ended_def in_upd_where)

lemma bex_upd_where: "(\<exists>x \<in> set (upd_where q g A). Q x) \<longleftrightarrow> (\<exists>x \<in> set A. Q (if q x then g x else x))"
  by (induction A) auto

lemma ball_upd_where: "(\<forall>x \<in> set (upd_where q g A). Q x) \<longleftrightarrow> (\<forall>x \<in> set A. Q (if q x then g x else x))"
  by (induction A) auto

lemma has_match_update:
  "(\<And>m. mt_room (g m) = mt_room m) \<Longrightarrow> has_match (upd_where q g T) rid \<longleftrightarrow> has_match T rid"
  unfolding has_match_def bex_upd_where by (intro bex_cong) auto

lemma attempt_is_mono: "attempt_is A r Q \<Longrightarrow> (\<And>s. Q s \<Longrightarrow> Q' s) \<Longrightarrow> attempt_is A r Q'"
  by (auto simp: attempt_is_def)

text \<open>An update that keeps the identity of the attempts it touches.\<close>

lemma attempt_is_update:
  assumes "\<And>a. a_id (g a) = a_id a" "\<And>a. a_room (g a) = a_room a"
    and "\<And>a. a \<in> set A \<Longrightarrow> a_id a = r_attempt r \<Longrightarrow> q a \<Longrightarrow> a_state (g a) = a_state a"
  shows "attempt_is (upd_where q g A) r Q \<longleftrightarrow> attempt_is A r Q"
  unfolding attempt_is_def bex_upd_where using assms by (intro bex_cong) auto

lemma attempt_is_any_update:
  "(\<And>a. a_id (g a) = a_id a) \<Longrightarrow> (\<And>a. a_room (g a) = a_room a) \<Longrightarrow>
   attempt_is A r (\<lambda>_. True) \<Longrightarrow> attempt_is (upd_where q g A) r (\<lambda>_. True)"
  unfolding attempt_is_def bex_upd_where by fastforce

lemma attempt_is_append: "attempt_is (A @ [a]) r Q \<longleftrightarrow>
    attempt_is A r Q \<or> (a_id a = r_attempt r \<and> a_room a = r_id r \<and> Q (a_state a))"
  by (auto simp: attempt_is_def)

lemma attempt_is_cong: "r_attempt r = r_attempt r' \<Longrightarrow> r_id r = r_id r' \<Longrightarrow> attempt_is A r Q = attempt_is A r' Q"
  by (simp add: attempt_is_def)

text \<open>A room's well-formedness depends only on its own rows.\<close>

lemma room_ok_cong:
  assumes "users_in M' (r_id r) = users_in M (r_id r)" "players_in P' (r_id r) = players_in P (r_id r)"
    and "all_ended P (r_id r) \<Longrightarrow> all_ended P' (r_id r)" "has_match T (r_id r) \<Longrightarrow> has_match T' (r_id r)"
    and "\<And>Q. attempt_is A r Q \<Longrightarrow> attempt_is A' r Q"
    and "room_ok M A P T r"
  shows "room_ok M' A' P' T' r"
  using assms unfolding room_ok_def by auto

text \<open>Rooms do not share attempts.\<close>

lemma attempt_unique:
  assumes "tables_inv R M A P T" "r \<in> set R" "q \<in> set R" "r_attempt r = r_attempt q"
  shows "r = q"
proof -
  have some: "attempt_is A x (\<lambda>_. True)" if "x \<in> set R" for x
    using tables_invD(7) [OF assms(1) that] by (simp add: room_ok_def)
  obtain a b where "a \<in> set A" "a_id a = r_attempt r" "a_room a = r_id r"
    "b \<in> set A" "a_id b = r_attempt q" "a_room b = r_id q"
    using some [OF assms(2)] some [OF assms(3)] by (auto simp: attempt_is_def)
  moreover have "distinct (map a_id A)" "distinct (map r_id R)" using tables_invD(1,2) [OF assms(1)] by auto
  ultimately show ?thesis using assms(2-4) distinct_key_unique by metis
qed

lemma room_unique: "tables_inv R M A P T \<Longrightarrow> r \<in> set R \<Longrightarrow> q \<in> set R \<Longrightarrow> r_id r = r_id q \<Longrightarrow> r = q"
  by (rule distinct_key_unique [OF tables_invD(1)])

section \<open>The primitive changes\<close>

text \<open>A new room with its host and its attempt.\<close>

lemma inv_new_room:
  assumes inv: "tables_inv R M A P T"
    and fresh: "r_id r \<notin> r_id ` set R" "r_attempt r \<notin> a_id ` set A"
    and state: "r_state r = Waiting \<and> (\<forall>q \<in> set R. r_host q = r_host r \<and> r_game q = r_game r \<longrightarrow> r_state q \<noteq> Waiting)
        \<or> r_state r = Challenging"
    and row: "r_max_players r = 2" "r_deadline r \<noteq> None"
    and m: "m_room m = r_id r" "m_user m = r_host r"
    and a: "a_id a = r_attempt r" "a_room a = r_id r" "a_state a = AtActive"
  shows "tables_inv (R @ [r]) (M @ [m]) (A @ [a]) P T"
proof -
  have "m_room x \<noteq> r_id r" if "x \<in> set M" for x
    using tables_invD(6) [OF inv that] fresh(1) by auto
  then have none: "users_in M (r_id r) = []" by (auto simp: users_in_def filter_empty_conv)
  with tables_invD(5) [OF inv, of "r_id r"] have players: "players_in P (r_id r) = []" by simp
  show ?thesis
  proof (rule tables_invI)
    show "distinct (map r_id (R @ [r]))" "distinct (map a_id (A @ [a]))"
      using tables_invD(1,2) [OF inv] fresh a by auto
    show "distinct (users_in (M @ [m]) rid)" for rid
      using tables_invD(3) [OF inv, of rid] none m by auto
    show "distinct (players_in P rid)" for rid by (rule tables_invD(4) [OF inv])
    show "set (players_in P rid) \<subseteq> set (users_in (M @ [m]) rid)" for rid
      using tables_invD(5) [OF inv, of rid] by auto
    show "x \<in> set (M @ [m]) \<Longrightarrow> m_room x \<in> r_id ` set (R @ [r])" for x
      using tables_invD(6) [OF inv, of x] m by auto
    have new: "room_ok (M @ [m]) (A @ [a]) P T r"
      using state row m a none by (auto simp: room_ok_def attempt_is_append)
    have old: "room_ok (M @ [m]) (A @ [a]) P T q" if "q \<in> set R" for q
      by (rule room_ok_cong [OF _ _ _ _ _ tables_invD(7) [OF inv that]])
         (use that fresh m in \<open>auto simp: attempt_is_append\<close>)
    show "q \<in> set (R @ [r]) \<Longrightarrow> room_ok (M @ [m]) (A @ [a]) P T q" for q
      using new old by auto
    show "x \<in> set (R @ [r]) \<Longrightarrow> q \<in> set (R @ [r]) \<Longrightarrow> r_state x = Waiting \<Longrightarrow> r_state q = Waiting \<Longrightarrow>
        r_host x = r_host q \<Longrightarrow> r_game x = r_game q \<Longrightarrow> x = q" for x q
      using tables_invD(8) [OF inv, of x q] state by auto
  qed
qed

text \<open>Rows of rooms, attempts, players and matches change in place.\<close>

definition same_room :: "(room_row \<Rightarrow> room_row) \<Rightarrow> bool" where
  "same_room f \<longleftrightarrow> (\<forall>r. r_id (f r) = r_id r \<and> r_attempt (f r) = r_attempt r \<and> r_host (f r) = r_host r
     \<and> r_game (f r) = r_game r \<and> r_max_players (f r) = r_max_players r)"

lemma inv_update:
  assumes inv: "tables_inv R M A P T" and f: "same_room f"
    and waiting: "\<And>r. r \<in> set R \<Longrightarrow> p r \<Longrightarrow> r_state (f r) \<noteq> Waiting"
    and A': "map a_id A' = map a_id A"
    and M': "\<And>rid. distinct (users_in M' rid)" "\<And>rid. set (users_in M rid) \<subseteq> set (users_in M' rid)"
      "\<And>m. m \<in> set M' \<Longrightarrow> m_room m \<in> r_id ` set R"
    and P': "\<And>rid. distinct (players_in P' rid)" "\<And>rid. set (players_in P' rid) \<subseteq> set (users_in M' rid)"
    and ok: "\<And>r. r \<in> set R \<Longrightarrow> room_ok M' A' P' T' (if p r then f r else r)"
  shows "tables_inv (upd_where p f R) M' A' P' T'"
proof (rule tables_invI)
  have ids: "map r_id (upd_where p f R) = map r_id R"
    by (rule map_upd_where) (use f in \<open>simp add: same_room_def\<close>)
  then show "distinct (map r_id (upd_where p f R))" using tables_invD(1) [OF inv] by simp
  show "distinct (map a_id A')" using tables_invD(2) [OF inv] A' by simp
  from ids have "r_id ` set (upd_where p f R) = r_id ` set R" by (metis set_map)
  then show "m \<in> set M' \<Longrightarrow> m_room m \<in> r_id ` set (upd_where p f R)" for m using M'(3) by simp
  show "r \<in> set (upd_where p f R) \<Longrightarrow> room_ok M' A' P' T' r" for r
    using ok by (fastforce simp: in_upd_where)
  show "r \<in> set (upd_where p f R) \<Longrightarrow> q \<in> set (upd_where p f R) \<Longrightarrow> r_state r = Waiting \<Longrightarrow>
      r_state q = Waiting \<Longrightarrow> r_host r = r_host q \<Longrightarrow> r_game r = r_game q \<Longrightarrow> r = q" for r q
    using tables_invD(8) [OF inv, of r q] waiting by (auto simp: in_upd_where)
qed (use M' P' in auto)

definition keeps_attempt :: "(attempt_row \<Rightarrow> attempt_row) \<Rightarrow> bool" where
  "keeps_attempt g \<longleftrightarrow> (\<forall>a. a_id (g a) = a_id a \<and> a_room (g a) = a_room a)"

definition keeps_player :: "(runtime_row \<Rightarrow> runtime_row) \<Rightarrow> bool" where
  "keeps_player g \<longleftrightarrow> (\<forall>p. p_room (g p) = p_room p \<and> p_user (g p) = p_user p
     \<and> (p_ended p \<noteq> None \<longrightarrow> p_ended (g p) \<noteq> None))"

definition keeps_match :: "(match_row \<Rightarrow> match_row) \<Rightarrow> bool" where
  "keeps_match g \<longleftrightarrow> (\<forall>m. mt_room (g m) = mt_room m)"

lemma keeps_id [simp]: "keeps_attempt (\<lambda>a. a)" "keeps_player (\<lambda>p. p)" "keeps_match (\<lambda>m. m)" "same_room (\<lambda>r. r)"
  by (simp_all add: keeps_attempt_def keeps_player_def keeps_match_def same_room_def)

lemma upd_where_same [simp]: "upd_where q (\<lambda>x. x) xs = xs"
  by (simp add: upd_where_def)

lemma upd_where_none [simp]: "upd_where (\<lambda>_. False) g xs = xs"
  by (simp add: upd_where_def)

lemma inv_rows:
  assumes inv: "tables_inv R M A P T" and f: "same_room f"
    and keep: "keeps_attempt g" "keeps_player h" "keeps_match k"
    and waiting: "\<And>r. r \<in> set R \<Longrightarrow> p r \<Longrightarrow> r_state (f r) \<noteq> Waiting"
    and ok: "\<And>r. r \<in> set R \<Longrightarrow> p r \<Longrightarrow>
      room_ok M (upd_where q g A) (upd_where qp h P) (upd_where qt k T) (f r)"
    and others: "\<And>r a. r \<in> set R \<Longrightarrow> \<not> p r \<Longrightarrow> a \<in> set A \<Longrightarrow> a_id a = r_attempt r \<Longrightarrow> q a \<Longrightarrow>
      a_state (g a) = a_state a"
  shows "tables_inv (upd_where p f R) M (upd_where q g A) (upd_where qp h P) (upd_where qt k T)"
proof (rule inv_update [OF inv f waiting])
  show "map a_id (upd_where q g A) = map a_id A"
    by (rule map_upd_where) (use keep(1) in \<open>simp add: keeps_attempt_def\<close>)
  have players: "players_in (upd_where qp h P) rid = players_in P rid" for rid
    by (rule players_in_update) (use keep(2) in \<open>simp_all add: keeps_player_def\<close>)
  show "distinct (players_in (upd_where qp h P) rid)"
    "set (players_in (upd_where qp h P) rid) \<subseteq> set (users_in M rid)" for rid
    using tables_invD(4,5) [OF inv] players by auto
  fix r assume r: "r \<in> set R"
  show "room_ok M (upd_where q g A) (upd_where qp h P) (upd_where qt k T) (if p r then f r else r)"
  proof (cases "p r")
    case False
    have "room_ok M (upd_where q g A) (upd_where qp h P) (upd_where qt k T) r"
    proof (rule room_ok_cong [OF _ players _ _ _ tables_invD(7) [OF inv r]])
      show "all_ended P (r_id r) \<Longrightarrow> all_ended (upd_where qp h P) (r_id r)"
        by (rule all_ended_update) (use keep(2) in \<open>simp_all add: keeps_player_def\<close>)
      show "has_match T (r_id r) \<Longrightarrow> has_match (upd_where qt k T) (r_id r)"
        using has_match_update [of k] keep(3) by (simp add: keeps_match_def)
      show "attempt_is A r Q \<Longrightarrow> attempt_is (upd_where q g A) r Q" for Q
        using attempt_is_update [of g A r q Q] keep(1) others [OF r False] by (simp add: keeps_attempt_def)
    qed simp
    with False show ?thesis by simp
  qed (use ok r in simp)
qed (use tables_invD(3,6) [OF inv] in auto)

text \<open>Cancelling rooms: nothing is required of a cancelled room's attempt, players or match.\<close>

lemma room_ok_cancelled:
  assumes "room_ok M A P T r" "same_room f" "r_state (f r) = Cancelled" "keeps_attempt g"
  shows "room_ok M (upd_where q g A) P' T' (f r)"
proof -
  have "attempt_is (upd_where q g A) r (\<lambda>_. True)"
    using assms(1,4) by (intro attempt_is_any_update) (auto simp: keeps_attempt_def room_ok_def)
  with assms show ?thesis
    by (auto simp: room_ok_def same_room_def active_state_def cong: attempt_is_cong
        intro: attempt_is_cong [THEN iffD1, rotated 2])
qed

lemma inv_cancel:
  assumes inv: "tables_inv R M A P T" and f: "same_room f" "\<And>r. r_state (f r) = Cancelled"
    and keep: "keeps_attempt g" "keeps_player h" "keeps_match k"
    and others: "\<And>r a. r \<in> set R \<Longrightarrow> \<not> p r \<Longrightarrow> a \<in> set A \<Longrightarrow> a_id a = r_attempt r \<Longrightarrow> q a \<Longrightarrow>
      a_state (g a) = a_state a"
  shows "tables_inv (upd_where p f R) M (upd_where q g A) (upd_where qp h P) (upd_where qt k T)"
  by (rule inv_rows [OF inv f(1) keep _ _ others])
     (use f keep in \<open>auto intro: room_ok_cancelled tables_invD(7) [OF inv]\<close>)

text \<open>A second member enters and the room connects.\<close>

definition moves_to :: "uuid \<Rightarrow> room_state \<Rightarrow> instant option \<Rightarrow> room_row list \<Rightarrow> room_row list" where
  "moves_to rid s t R = upd_where (\<lambda>q. r_id q = rid) (\<lambda>q. q\<lparr>r_state := s, r_deadline := t\<rparr>) R"

lemma same_room_set [simp]: "same_room (\<lambda>q. q\<lparr>r_state := s, r_deadline := t\<rparr>)" "same_room (\<lambda>q. q\<lparr>r_state := s\<rparr>)"
  by (simp_all add: same_room_def)

lemma attempt_is_row [simp]: "attempt_is A (q\<lparr>r_state := s, r_deadline := t\<rparr>) Q = attempt_is A q Q"
  by (simp add: attempt_is_def)

definition deadline_only :: "(attempt_row \<Rightarrow> attempt_row) \<Rightarrow> bool" where
  "deadline_only g \<longleftrightarrow> keeps_attempt g \<and> (\<forall>a. a_state (g a) = a_state a)"

lemma attempt_is_deadline: "deadline_only g \<Longrightarrow> attempt_is (upd_where q g A) r Q = attempt_is A r Q"
  by (rule attempt_is_update) (simp_all add: deadline_only_def keeps_attempt_def)

lemma map_id_update: "keeps_attempt g \<Longrightarrow> map a_id (upd_where q g A) = map a_id A"
  by (rule map_upd_where) (simp add: keeps_attempt_def)

lemma inv_accept:
  assumes inv: "tables_inv R M A P T" and r: "r \<in> set R"
    and state: "r_state r = Waiting \<or> r_state r = Challenging"
    and u: "u \<notin> set (users_in M (r_id r))" and g: "deadline_only g"
  shows "tables_inv (moves_to (r_id r) Connecting (Some t) R)
    (M @ [\<lparr>m_room = r_id r, m_user = u, m_joined = j\<rparr>]) (upd_where q g A) P T"
  unfolding moves_to_def
proof (rule inv_update [OF inv same_room_set(1)])
  let ?M = "M @ [\<lparr>m_room = r_id r, m_user = u, m_joined = j\<rparr>]"
  show "map a_id (upd_where q g A) = map a_id A" using g by (simp add: map_id_update deadline_only_def)
  show "distinct (users_in ?M rid)" for rid using tables_invD(3) [OF inv, of rid] u by auto
  show "set (users_in M rid) \<subseteq> set (users_in ?M rid)" for rid by auto
  show "m \<in> set ?M \<Longrightarrow> m_room m \<in> r_id ` set R" for m using tables_invD(6) [OF inv, of m] r by auto
  show "distinct (players_in P rid)" for rid by (rule tables_invD(4) [OF inv])
  show "set (players_in P rid) \<subseteq> set (users_in ?M rid)" for rid using tables_invD(5) [OF inv, of rid] by auto
  fix x assume x: "x \<in> set R"
  show "room_ok ?M (upd_where q g A) P T (if r_id x = r_id r then x\<lparr>r_state := Connecting, r_deadline := Some t\<rparr> else x)"
  proof (cases "r_id x = r_id r")
    case True
    with room_unique [OF inv x r] have "x = r" by simp
    with tables_invD(7) [OF inv r] state show ?thesis
      by (auto simp: room_ok_def active_state_def attempt_is_deadline [OF g])
  next
    case False
    have "room_ok ?M (upd_where q g A) P T x"
      by (rule room_ok_cong [OF _ _ _ _ _ tables_invD(7) [OF inv x]])
         (use False in \<open>simp_all add: attempt_is_deadline [OF g]\<close>)
    with False show ?thesis by simp
  qed
qed simp

text \<open>A member's process starts.\<close>

lemma room_full_players:
  assumes "room_ok M A P T r" "r_state r = Playing \<or> r_state r = Finished" "distinct (players_in P (r_id r))"
    and "set (players_in P (r_id r)) \<subseteq> set (users_in M (r_id r))" "distinct (users_in M (r_id r))"
  shows "set (players_in P (r_id r)) = set (users_in M (r_id r))"
proof (rule card_subset_eq)
  show "card (set (players_in P (r_id r))) = card (set (users_in M (r_id r)))"
    using assms by (auto simp: distinct_card room_ok_def)
qed (use assms in simp_all)

lemma inv_launch:
  assumes inv: "tables_inv R M A P T" and r: "r \<in> set R" and state: "r_state r = Connecting"
    and u: "p_room p = r_id r" "p_user p \<in> set (users_in M (r_id r))" "p_user p \<notin> set (players_in P (r_id r))"
  shows "tables_inv R M A (P @ [p]) T"
proof (rule tables_invI)
  show "distinct (players_in (P @ [p]) rid)" for rid using tables_invD(4) [OF inv, of rid] u by auto
  show "set (players_in (P @ [p]) rid) \<subseteq> set (users_in M rid)" for rid using tables_invD(5) [OF inv, of rid] u by auto
  show "x \<in> set R \<Longrightarrow> room_ok M A (P @ [p]) T x" for x
  proof (cases "x = r")
    case True
    with tables_invD(7) [OF inv r] state show ?thesis by (auto simp: room_ok_def)
  next
    case False
    assume x: "x \<in> set R"
    with False room_unique [OF inv x r] have "r_id x \<noteq> r_id r" by auto
    then show "room_ok M A (P @ [p]) T x"
      by (intro room_ok_cong [OF _ _ _ _ _ tables_invD(7) [OF inv x]]) (use u in \<open>auto simp: all_ended_def\<close>)
  qed
qed (use tables_invD [OF inv] in \<open>blast+\<close>)

text \<open>The match starts and finishes.\<close>

lemma inv_start:
  assumes inv: "tables_inv R M A P T" and r: "r \<in> set R" and state: "r_state r = Connecting"
    and players: "length (players_in P (r_id r)) = 2" and g: "deadline_only g"
    and T': "has_match T' (r_id r)" "\<And>rid. has_match T rid \<Longrightarrow> has_match T' rid"
  shows "tables_inv (moves_to (r_id r) Playing (Some t) R) M (upd_where q g A) P T'"
  unfolding moves_to_def
proof (rule inv_update [OF inv same_room_set(1)])
  show "map a_id (upd_where q g A) = map a_id A" using g by (simp add: map_id_update deadline_only_def)
  fix x assume x: "x \<in> set R"
  show "room_ok M (upd_where q g A) P T' (if r_id x = r_id r then x\<lparr>r_state := Playing, r_deadline := Some t\<rparr> else x)"
  proof (cases "r_id x = r_id r")
    case True
    with room_unique [OF inv x r] have "x = r" by simp
    with tables_invD(7) [OF inv r] state players T' show ?thesis
      by (auto simp: room_ok_def active_state_def attempt_is_deadline [OF g])
  next
    case False
    have "room_ok M (upd_where q g A) P T' x"
      by (rule room_ok_cong [OF _ _ _ _ _ tables_invD(7) [OF inv x]])
         (use T' in \<open>simp_all add: attempt_is_deadline [OF g]\<close>)
    with False show ?thesis by simp
  qed
qed (use tables_invD(3-6) [OF inv] in auto)

lemma inv_finish:
  assumes inv: "tables_inv R M A P T" and r: "r \<in> set R" and state: "r_state r = Playing"
    and ended: "all_ended P (r_id r)"
    and g: "keeps_attempt g" "\<And>a. a_state (g a) = AtSucceeded" and k: "keeps_match k"
  shows "tables_inv (moves_to (r_id r) Finished None R) M
    (upd_where (\<lambda>a. a_id a = r_attempt r \<and> a_state a = AtActive) g A) P (upd_where qt k T)"
proof -
  let ?A = "upd_where (\<lambda>a. a_id a = r_attempt r \<and> a_state a = AtActive) g A"
  have "tables_inv (moves_to (r_id r) Finished None R) M ?A (upd_where (\<lambda>_. False) (\<lambda>p. p) P) (upd_where qt k T)"
    unfolding moves_to_def
  proof (rule inv_rows [OF inv same_room_set(1) g(1) keeps_id(2) k])
    fix x :: room_row and a :: attempt_row assume "x \<in> set R" "r_id x \<noteq> r_id r" "a_id a = r_attempt x" "a_id a = r_attempt r \<and> a_state a = AtActive"
    with attempt_unique [OF inv _ r] show "a_state (g a) = a_state a" by metis
  next
    fix x assume x: "x \<in> set R" "r_id x = r_id r"
    then have [simp]: "x = r" using room_unique [OF inv _ r] by simp
    have "attempt_is A r (\<lambda>s. s = AtActive)"
      using tables_invD(7) [OF inv r] state by (simp add: room_ok_def active_state_def)
    then have "attempt_is ?A r (\<lambda>s. s = AtSucceeded)"
      using g unfolding attempt_is_def bex_upd_where by (auto simp: keeps_attempt_def)
    moreover from this have "attempt_is ?A r (\<lambda>_. True)" by (rule attempt_is_mono) simp
    moreover have "has_match (upd_where qt k T) (r_id r) = has_match T (r_id r)"
      using k by (intro has_match_update) (simp add: keeps_match_def)
    ultimately show "room_ok M ?A (upd_where (\<lambda>_. False) (\<lambda>p. p) P) (upd_where qt k T)
        (x\<lparr>r_state := Finished, r_deadline := None\<rparr>)"
      using tables_invD(7) [OF inv r] state ended by (auto simp: room_ok_def active_state_def)
  qed simp
  then show ?thesis by simp
qed

text \<open>In-place changes that touch no room and no attempt's state.\<close>

lemma inv_touch:
  assumes "tables_inv R M A P T" "deadline_only g" "keeps_player h" "keeps_match k"
  shows "tables_inv R M (upd_where q g A) (upd_where qp h P) (upd_where qt k T)"
  using inv_rows [OF assms(1) keeps_id(4) _ assms(3,4), where p = "\<lambda>_. False" and q = q and g = g] assms(2)
  by (simp add: deadline_only_def)

end
