(* ===== verification/Server_Steps.thy ===== *)
theory Server_Steps
  imports Server_Invariant
begin

text \<open>
  Every handler keeps the invariant of \<open>Server_Invariant\<close>, and a handler that answers with an
  error leaves the database as it was.
\<close>

section \<open>The tables of the statements\<close>

lemma from_to_database [simp]: "from_database (to_database s) = Ok s"
  by (rule room_label.read_write)

lemma find_roomD: "find_room d rid = Some r \<Longrightarrow> r \<in> set (db_rooms d) \<and> r_id r = rid"
  by (auto simp: find_room_def dest: find_SomeD)

lemma find_room_in: "distinct (map r_id (db_rooms d)) \<Longrightarrow> r \<in> set (db_rooms d) \<Longrightarrow> find_room d (r_id r) = Some r"
  unfolding find_room_def by (rule find_distinct_key)

lemma find_room_ids: "map r_id (db_rooms d') = map r_id (db_rooms d) \<Longrightarrow> find_room d' rid = None \<longleftrightarrow> find_room d rid = None"
proof -
  have "find_room x rid = None \<longleftrightarrow> rid \<notin> set (map r_id (db_rooms x))" for x
    by (auto simp: find_room_def find_None_iff)
  then show "map r_id (db_rooms d') = map r_id (db_rooms d) \<Longrightarrow> find_room d' rid = None \<longleftrightarrow> find_room d rid = None"
    by (simp only:)
qed

lemma locked_roomD:
  "locked_room env d rid = Ok (h, s, k) \<Longrightarrow>
   \<exists>r. find_room d rid = Some r \<and> h = r_host r \<and> s = r_state r \<and> k = r_max_players r"
  by (auto simp: locked_room_def split: option.splits)

lemma log_event_tables [row_simps]:
  "db_rooms (log_event rid a u ty p d) = db_rooms d"
  "db_members (log_event rid a u ty p d) = db_members d"
  "db_attempts (log_event rid a u ty p d) = db_attempts d"
  "db_runtime (log_event rid a u ty p d) = db_runtime d"
  "db_matches (log_event rid a u ty p d) = db_matches d"
  by (simp_all add: log_event_def)

lemma log_room_event_tables [row_simps]:
  "db_rooms (log_room_event rid u ty p d) = db_rooms d"
  "db_members (log_room_event rid u ty p d) = db_members d"
  "db_attempts (log_room_event rid u ty p d) = db_attempts d"
  "db_runtime (log_room_event rid u ty p d) = db_runtime d"
  "db_matches (log_room_event rid u ty p d) = db_matches d"
  by (simp_all add: log_room_event_def row_simps split: option.splits)

lemma log_inv [simp]:
  "server_inv (log_event rid a u ty p d) = server_inv d"
  "server_inv (log_room_event rid v ty p d) = server_inv d"
  by (simp_all add: server_inv_def row_simps)

lemma set_room_state_tables [row_simps]:
  "db_rooms (set_room_state rid s t d) = moves_to rid s t (db_rooms d)"
  "db_members (set_room_state rid s t d) = db_members d"
  "db_attempts (set_room_state rid s t d) = db_attempts d"
  "db_runtime (set_room_state rid s t d) = db_runtime d"
  "db_matches (set_room_state rid s t d) = db_matches d"
  by (simp_all add: set_room_state_def update_rooms_def moves_to_def)

lemma update_attempts_tables [row_simps]:
  "db_rooms (update_attempts q g d) = db_rooms d"
  "db_members (update_attempts q g d) = db_members d"
  "db_attempts (update_attempts q g d) = upd_where q g (db_attempts d)"
  "db_runtime (update_attempts q g d) = db_runtime d"
  "db_matches (update_attempts q g d) = db_matches d"
  by (simp_all add: update_attempts_def)

lemma update_rooms_tables [row_simps]:
  "db_rooms (update_rooms q f d) = upd_where q f (db_rooms d)"
  "db_members (update_rooms q f d) = db_members d"
  "db_attempts (update_rooms q f d) = db_attempts d"
  "db_runtime (update_rooms q f d) = db_runtime d"
  "db_matches (update_rooms q f d) = db_matches d"
  by (simp_all add: update_rooms_def)

lemma update_challenges_tables [row_simps]:
  "db_rooms (update_challenges q f d) = db_rooms d"
  "db_members (update_challenges q f d) = db_members d"
  "db_attempts (update_challenges q f d) = db_attempts d"
  "db_runtime (update_challenges q f d) = db_runtime d"
  "db_matches (update_challenges q f d) = db_matches d"
  by (simp_all add: update_challenges_def)

lemma update_matches_tables [row_simps]:
  "db_rooms (update_matches q f d) = db_rooms d"
  "db_members (update_matches q f d) = db_members d"
  "db_attempts (update_matches q f d) = db_attempts d"
  "db_runtime (update_matches q f d) = db_runtime d"
  "db_matches (update_matches q f d) = upd_where q f (db_matches d)"
  by (simp_all add: update_matches_def)

lemma update_runtime_tables [row_simps]:
  "db_rooms (update_runtime q f d) = db_rooms d"
  "db_members (update_runtime q f d) = db_members d"
  "db_attempts (update_runtime q f d) = db_attempts d"
  "db_runtime (update_runtime q f d) = upd_where q f (db_runtime d)"
  "db_matches (update_runtime q f d) = db_matches d"
  by (simp_all add: update_runtime_def)

lemma insert_memberD:
  "insert_member rid u now d = Ok d' \<longleftrightarrow> u \<notin> set (users_in (db_members d) rid)
     \<and> d' = d\<lparr>db_members := db_members d @ [\<lparr>m_room = rid, m_user = u, m_joined = now\<rparr>]\<rparr>"
  by (auto simp: insert_member_def is_member_iff members_of_users)

lemma insert_attemptD:
  "insert_attempt aid rid t d = Ok d' \<longleftrightarrow> aid \<notin> a_id ` set (db_attempts d)
     \<and> d' = d\<lparr>db_attempts := db_attempts d @ [\<lparr>a_id = aid, a_room = rid, a_state = AtActive,
          a_failure = None, a_deadline = Some t, a_finished = None\<rparr>]\<rparr>"
  by (auto simp: insert_attempt_def list_ex_iff)

lemma insert_roomD:
  "insert_room r d = Ok d' \<longleftrightarrow> r_id r \<notin> r_id ` set (db_rooms d)
     \<and> (r_state r = Waiting \<longrightarrow> (\<forall>q \<in> set (db_rooms d). r_host q = r_host r \<and> r_game q = r_game r \<longrightarrow> r_state q \<noteq> Waiting))
     \<and> d' = d\<lparr>db_rooms := db_rooms d @ [r]\<rparr>"
  by (simp add: insert_room_def list_ex_iff image_iff) metis

lemma room_attempt_moves: "map_option r_attempt (find (\<lambda>q. r_id q = rid') (moves_to rid s t R))
    = map_option r_attempt (find (\<lambda>q. r_id q = rid') R)"
  unfolding moves_to_def by (subst find_upd_where) (simp_all add: option.map_comp comp_def if_distrib cong: if_cong)

lemma room_attempt_frame [row_simps]:
  "room_attempt (set_room_state rid s t d) x = room_attempt d x"
  "room_attempt (update_challenges cp cf d) x = room_attempt d x"
  "room_attempt (update_attempts ap af d) x = room_attempt d x"
  "room_attempt (update_matches mp mf d) x = room_attempt d x"
  "room_attempt (update_runtime pp pf d) x = room_attempt d x"
  "room_attempt (d\<lparr>db_members := M\<rparr>) x = room_attempt d x"
  "room_attempt (d\<lparr>db_grants := G\<rparr>) x = room_attempt d x"
  "room_attempt (d\<lparr>db_runtime := P\<rparr>) x = room_attempt d x"
  by (simp_all add: room_attempt_def find_room_def row_simps room_attempt_moves)

lemma update_active_attempt_tables [row_simps]:
  "db_rooms (update_active_attempt rid g d) = db_rooms d"
  "db_members (update_active_attempt rid g d) = db_members d"
  "db_attempts (update_active_attempt rid g d) =
     upd_where (\<lambda>a. room_attempt d rid = Some (a_id a) \<and> a_state a = AtActive) g (db_attempts d)"
  "db_runtime (update_active_attempt rid g d) = db_runtime d"
  "db_matches (update_active_attempt rid g d) = db_matches d"
  by (simp_all add: update_active_attempt_def row_simps)

lemma update_room_attempt_tables [row_simps]:
  "db_rooms (update_room_attempt rid g d) = db_rooms d"
  "db_members (update_room_attempt rid g d) = db_members d"
  "db_attempts (update_room_attempt rid g d) = upd_where (\<lambda>a. room_attempt d rid = Some (a_id a)) g (db_attempts d)"
  "db_runtime (update_room_attempt rid g d) = db_runtime d"
  "db_matches (update_room_attempt rid g d) = db_matches d"
  by (simp_all add: update_room_attempt_def row_simps)

lemma room_attempt_of: "find_room d rid = Some r \<Longrightarrow> room_attempt d rid = Some (r_attempt r)"
  by (simp add: room_attempt_def)

section \<open>Creating rooms\<close>

lemma inv_insert_room:
  assumes "server_inv d" "insert_room (new_room env rid aid game s 2 t) d = Ok d1"
    and "insert_member rid (q_user env) now d1 = Ok d2" "insert_attempt aid rid t d2 = Ok d3"
    and "s = Waiting \<or> s = Challenging"
  shows "server_inv d3"
  using assms unfolding server_inv_def
  by (auto simp: insert_roomD insert_memberD insert_attemptD new_room_def intro!: inv_new_room)

lemma inv_create_room_txn:
  "server_inv d \<Longrightarrow> crq_max_players req = 2 \<Longrightarrow> create_room_txn env req rid aid d = Ok (b, d') \<Longrightarrow> server_inv d'"
  by (auto simp: create_room_txn_def Let_def split: if_splits sum.splits intro: inv_insert_room)

section \<open>Cancelling rooms\<close>

lemma keeps_simps [simp]:
  "keeps_attempt (\<lambda>a. a\<lparr>a_state := s, a_finished := f a\<rparr>)"
  "keeps_attempt (\<lambda>a. a\<lparr>a_state := s, a_finished := f a, a_deadline := t\<rparr>)"
  "keeps_attempt (\<lambda>a. a\<lparr>a_state := s, a_deadline := t, a_finished := f a\<rparr>)"
  "keeps_attempt (\<lambda>a. a\<lparr>a_state := s, a_failure := e, a_finished := f a, a_deadline := t\<rparr>)"
  "keeps_attempt (\<lambda>a. a\<lparr>a_state := s, a_failure := e, a_deadline := t, a_finished := f a\<rparr>)"
  "deadline_only (\<lambda>a. a\<lparr>a_deadline := t\<rparr>)"
  "keeps_match (\<lambda>m. m\<lparr>mt_ended := coalesce (mt_ended m) now\<rparr>)"
  "keeps_player (\<lambda>p. p\<lparr>p_ended := coalesce (p_ended p) now\<rparr>)"
  "keeps_player (\<lambda>p. p\<lparr>p_ended := coalesce (p_ended p) now, p_exit_code := x p\<rparr>)"
  by (simp_all add: keeps_attempt_def deadline_only_def keeps_match_def keeps_player_def coalesce_def
      split: option.splits)

lemma set_waiting: "r \<in> set (waiting_rooms d u game) \<longleftrightarrow>
    r \<in> set (db_rooms d) \<and> r_host r = u \<and> r_game r = game \<and> r_state r = Waiting"
  by (auto simp: waiting_rooms_def)

lemma inv_cancel_waiting:
  assumes "server_inv d"
  shows "server_inv (cancel_waiting env game d)"
proof -
  have "tables_inv (upd_where (\<lambda>r. r_host r = q_user env \<and> r_game r = game \<and> r_state r = Waiting)
        (\<lambda>r. r\<lparr>r_state := Cancelled\<rparr>) (db_rooms d)) (db_members d)
      (upd_where (\<lambda>a. a_id a \<in> set (map r_attempt (waiting_rooms d (q_user env) game)) \<and> a_state a = AtActive)
        (\<lambda>a. a\<lparr>a_state := AtCancelled, a_finished := Some (q_now env)\<rparr>) (db_attempts d))
      (upd_where (\<lambda>_. False) (\<lambda>p. p) (db_runtime d)) (upd_where (\<lambda>_. False) (\<lambda>m. m) (db_matches d))"
  proof (rule inv_cancel)
    show "tables_inv (db_rooms d) (db_members d) (db_attempts d) (db_runtime d) (db_matches d)"
      using assms by (simp add: server_inv_def)
    then show "a_state (a\<lparr>a_state := AtCancelled, a_finished := Some (q_now env)\<rparr>) = a_state a"
      if "r \<in> set (db_rooms d)" "\<not> (r_host r = q_user env \<and> r_game r = game \<and> r_state r = Waiting)"
        "a_id a = r_attempt r"
        "a_id a \<in> set (map r_attempt (waiting_rooms d (q_user env) game)) \<and> a_state a = AtActive" for r a
      using that attempt_unique by (fastforce simp: set_waiting)
  qed simp_all
  then show ?thesis
    by (simp add: server_inv_def cancel_waiting_def Let_def row_simps)
qed

lemma inv_cancel_other_waiting:
  assumes "server_inv d"
  shows "server_inv (cancel_other_waiting env game rid d)"
proof -
  have "tables_inv (upd_where (\<lambda>r. r_host r = q_user env \<and> r_game r = game \<and> r_state r = Waiting \<and> r_id r \<noteq> rid)
        (\<lambda>r. r\<lparr>r_state := Cancelled, r_deadline := None\<rparr>) (db_rooms d)) (db_members d)
      (upd_where (\<lambda>a. a_id a \<in> set (map r_attempt (filter (\<lambda>r. r_id r \<noteq> rid) (waiting_rooms d (q_user env) game)))
          \<and> a_state a = AtActive)
        (\<lambda>a. a\<lparr>a_state := AtCancelled, a_deadline := None, a_finished := coalesce (a_finished a) (q_now env)\<rparr>) (db_attempts d))
      (upd_where (\<lambda>_. False) (\<lambda>p. p) (db_runtime d)) (upd_where (\<lambda>_. False) (\<lambda>m. m) (db_matches d))"
  proof (rule inv_cancel)
    show "tables_inv (db_rooms d) (db_members d) (db_attempts d) (db_runtime d) (db_matches d)"
      using assms by (simp add: server_inv_def)
    then show "a_state (a\<lparr>a_state := AtCancelled, a_deadline := None,
          a_finished := coalesce (a_finished a) (q_now env)\<rparr>) = a_state a"
      if "r \<in> set (db_rooms d)" "\<not> (r_host r = q_user env \<and> r_game r = game \<and> r_state r = Waiting \<and> r_id r \<noteq> rid)"
        "a_id a = r_attempt r"
        "a_id a \<in> set (map r_attempt (filter (\<lambda>r. r_id r \<noteq> rid) (waiting_rooms d (q_user env) game)))
          \<and> a_state a = AtActive" for r a
      using that attempt_unique by (fastforce simp: set_waiting)
  qed simp_all
  then show ?thesis
    by (simp add: server_inv_def cancel_other_waiting_def Let_def row_simps)
qed

lemma inv_cancel_rooms_only:
  assumes "server_inv d"
  shows "server_inv (update_rooms p (\<lambda>r. r\<lparr>r_state := Cancelled\<rparr>) d)"
proof -
  have "tables_inv (upd_where p (\<lambda>r. r\<lparr>r_state := Cancelled\<rparr>) (db_rooms d)) (db_members d)
      (upd_where (\<lambda>_. False) (\<lambda>a. a) (db_attempts d)) (upd_where (\<lambda>_. False) (\<lambda>p. p) (db_runtime d))
      (upd_where (\<lambda>_. False) (\<lambda>m. m) (db_matches d))"
    by (rule inv_cancel) (use assms in \<open>simp_all add: server_inv_def\<close>)
  then show ?thesis by (simp add: server_inv_def row_simps)
qed

text \<open>Cancelling one room with its attempt.\<close>

lemma inv_cancel_one:
  assumes inv: "tables_inv R M A P T" and r: "r \<in> set R"
    and keep: "keeps_attempt g" "keeps_player h" "keeps_match k"
  shows "tables_inv (moves_to (r_id r) Cancelled t R) M
    (upd_where (\<lambda>a. Some (r_attempt r) = Some (a_id a) \<and> a_state a = AtActive) g A)
    (upd_where qp h P) (upd_where qt k T)"
  unfolding moves_to_def
proof (rule inv_cancel [OF inv _ _ keep])
  show "a_state (g a) = a_state a"
    if "x \<in> set R" "r_id x \<noteq> r_id r" "a_id a = r_attempt x" "Some (r_attempt r) = Some (a_id a) \<and> a_state a = AtActive"
    for x :: room_row and a :: attempt_row
  proof -
    from that(3,4) have "r_attempt x = r_attempt r" by simp
    with attempt_unique [OF inv that(1) r] that(2) show ?thesis by blast
  qed
qed simp_all

lemma inv_change_room_state:
  assumes "server_inv d" "change_room_state_txn env rid event host_only d = Ok (x, d')"
    and "event = Cancel \<or> event = Decline"
  shows "server_inv d'"
proof -
  from assms(2) obtain h s k nxt where l: "locked_room env d rid = Ok (h, s, k)" and t: "transition s event = Ok nxt"
    by (auto simp: change_room_state_txn_def split: sum.splits if_splits prod.splits)
  from locked_roomD [OF l] obtain r where r: "find_room d rid = Some r" by blast
  note ra = room_attempt_of [OF r] and rin = find_roomD [OF r]
  from t assms(3) have [simp]: "nxt = Cancelled" by (cases s; cases event) auto
  have inv: "tables_inv (db_rooms d) (db_members d) (db_attempts d) (db_runtime d) (db_matches d)"
    using assms(1) by (simp add: server_inv_def)
  have "server_inv (update_runtime (\<lambda>p. p_room p = rid) (\<lambda>p. p\<lparr>p_ended := coalesce (p_ended p) (q_now env)\<rparr>)
      (update_matches (\<lambda>m. mt_room m = rid) (\<lambda>m. m\<lparr>mt_ended := coalesce (mt_ended m) (q_now env)\<rparr>)
        (update_active_attempt rid
          (\<lambda>a. a\<lparr>a_state := AtCancelled, a_finished := coalesce (a_finished a) (q_now env), a_deadline := None\<rparr>)
          (update_challenges (\<lambda>c. c_room c = rid \<and> c_state c = ChPending) (\<lambda>c. c\<lparr>c_state := ChCancelled\<rparr>)
            (set_room_state rid Cancelled None d)))))"
    using inv_cancel_one [OF inv, of r] rin ra by (simp add: server_inv_def row_simps)
  with assms(2) l t show ?thesis
    by (auto simp: change_room_state_txn_def Let_def split: if_splits)
qed

section \<open>Accepting\<close>

text \<open>The rows of an acceptance, whichever handler writes them.\<close>

lemma inv_accept_rows:
  assumes "server_inv d" "find_room d rid = Some r" "r_state r = Waiting \<or> r_state r = Challenging"
    and "u \<notin> set (users_in (db_members d) rid)" "deadline_only g"
    and "db_rooms d' = moves_to rid Connecting (Some t) (db_rooms d)"
      "db_members d' = db_members d @ [\<lparr>m_room = rid, m_user = u, m_joined = j\<rparr>]"
      "db_attempts d' = upd_where q g (db_attempts d)" "db_runtime d' = db_runtime d" "db_matches d' = db_matches d"
  shows "server_inv d'"
  using assms inv_accept [of "db_rooms d" _ _ _ _ r u g t j q] find_roomD [OF assms(2)]
  by (simp add: server_inv_def)

lemma accept_state: "transition s Accept = Ok nxt \<Longrightarrow> (s = Waiting \<or> s = Challenging) \<and> nxt = Connecting"
  by (cases s) auto

lemma accept_not_member:
  assumes "server_inv d" "find_room d rid = Some r" "r_state r = Waiting \<or> r_state r = Challenging" "u \<noteq> r_host r"
  shows "u \<notin> set (users_in (db_members d) rid)"
proof -
  from find_roomD [OF assms(2)] assms(1) have "room_ok (db_members d) (db_attempts d) (db_runtime d) (db_matches d) r"
    unfolding server_inv_def by (blast intro: tables_invD(7))
  with assms(3) find_roomD [OF assms(2)] have "length (users_in (db_members d) rid) = 1"
    "r_host r \<in> set (users_in (db_members d) rid)" by (auto simp: room_ok_def)
  with assms(4) show ?thesis by (auto simp: length_Suc_conv)
qed

lemma inv_accept_room_txn:
  assumes inv: "server_inv d" and acc: "accept_room_txn env rid d = Ok (b, d')"
  shows "server_inv d' \<and> is_member d' rid (q_user env)"
proof -
  from acc obtain h s k where l: "locked_room env d rid = Ok (h, s, k)"
    by (auto simp: accept_room_txn_def split: sum.splits)
  from locked_roomD [OF l] obtain r where r: "find_room d rid = Some r" "h = r_host r" "s = r_state r" by blast
  show ?thesis
  proof (cases b)
    case True
    with acc l inv show ?thesis by (auto simp: accept_room_txn_def Let_def split: sum.splits if_splits)
  next
    case False
    then obtain nxt where t: "transition s Accept = Ok nxt" and u: "q_user env \<noteq> h"
      using acc l by (auto simp: accept_room_txn_def Let_def split: sum.splits if_splits)
    note st = accept_state [OF t]
    from accept_not_member [OF inv r(1), of "q_user env"] st u r(2,3)
    have fresh: "q_user env \<notin> set (users_in (db_members d) rid)" by simp
    let ?t = "Some (q_now env + minutes 2)"
    let ?d1 = "d\<lparr>db_members := db_members d @ [\<lparr>m_room = rid, m_user = q_user env, m_joined = q_now env\<rparr>]\<rparr>"
    have "insert_member rid (q_user env) (q_now env) d = Ok ?d1" using fresh by (simp add: insert_memberD)
    with acc l t u False have d': "d' = log_room_event rid (q_user env) ''room.accepted'' (state_json ''connecting'')
        (update_room_attempt rid (\<lambda>a. a\<lparr>a_deadline := ?t\<rparr>) (set_room_state rid nxt ?t ?d1))"
      by (auto simp: accept_room_txn_def Let_def split: if_splits)
    have "server_inv d'"
      by (rule inv_accept_rows [OF inv r(1) _ fresh keeps_simps(6)]) (use st r in \<open>simp_all add: d' row_simps\<close>)
    moreover have "is_member d' rid (q_user env)"
      by (simp add: is_member_iff members_of_users d' row_simps)
    ultimately show ?thesis by simp
  qed
qed

lemma find_room_frame [row_simps]:
  "find_room (update_attempts ap af d) x = find_room d x"
  "find_room (update_challenges cp cf d) x = find_room d x"
  "find_room (log_event rid a u ty p d) x = find_room d x"
  "find_room (log_room_event rid v ty p d) x = find_room d x"
  "find_room (update_room_attempt rid g d) x = find_room d x"
  "find_room (update_active_attempt rid g d) x = find_room d x"
  by (simp_all add: find_room_def row_simps)

text \<open>The rooms that a user's own waiting-room clean-up leaves alone.\<close>

lemma find_room_update:
  "(\<And>r. p r \<Longrightarrow> r_id (f r) = r_id r) \<Longrightarrow>
   find_room (update_rooms p f d) rid = map_option (\<lambda>r. if p r then f r else r) (find_room d rid)"
  unfolding find_room_def update_rooms_def by (simp add: find_upd_where)

lemma find_room_cancel_waiting:
  "find_room d rid = Some r \<Longrightarrow> r_host r \<noteq> q_user env \<or> r_state r \<noteq> Waiting \<Longrightarrow>
   find_room (cancel_waiting env game d) rid = Some r"
  by (auto simp: cancel_waiting_def Let_def row_simps find_room_update)

lemma find_room_cancel_other:
  "find_room d rid = Some r \<Longrightarrow> find_room (cancel_other_waiting env game rid d) rid = Some r"
  by (auto simp: cancel_other_waiting_def Let_def row_simps find_room_update dest: find_roomD)

lemma cancel_waiting_tables [row_simps]:
  "db_members (cancel_waiting env game d) = db_members d"
  "db_runtime (cancel_waiting env game d) = db_runtime d"
  "db_matches (cancel_waiting env game d) = db_matches d"
  "db_challenges (cancel_waiting env game d) = db_challenges d"
  by (simp_all add: cancel_waiting_def Let_def row_simps update_attempts_def update_rooms_def)

lemma cancel_other_tables [row_simps]:
  "db_members (cancel_other_waiting env game rid d) = db_members d"
  "db_runtime (cancel_other_waiting env game rid d) = db_runtime d"
  "db_matches (cancel_other_waiting env game rid d) = db_matches d"
  "db_invites (cancel_other_waiting env game rid d) = db_invites d"
  by (simp_all add: cancel_other_waiting_def Let_def row_simps update_attempts_def update_rooms_def)

lemma locked_challengeD:
  "locked_challenge env d cid = Ok (c, r) \<Longrightarrow>
   find (\<lambda>c. c_id c = cid) (db_challenges d) = Some c \<and> find_room d (c_room c) = Some r"
  by (auto simp: locked_challenge_def split: option.splits)

lemma inv_accept_challenge_txn:
  assumes inv: "server_inv d" and acc: "accept_challenge_txn env cid d = Ok (x, d')"
  shows "server_inv d'"
proof -
  from acc obtain c r where l: "locked_challenge env d cid = Ok (c, r)"
    by (auto simp: accept_challenge_txn_def split: sum.splits)
  note lc = locked_challengeD [OF l]
  show ?thesis
  proof (cases "c_state c = ChAccepted")
    case True
    with acc l inv show ?thesis by (auto simp: accept_challenge_txn_def split: if_splits)
  next
    case False
    let ?t = "Some (q_now env + minutes 2)" and ?rid = "c_room c"
    let ?d1 = "cancel_waiting env (r_game r) d"
    let ?d2 = "update_room_attempt ?rid (\<lambda>a. a\<lparr>a_deadline := ?t\<rparr>) ?d1"
    from acc l False have ch: "r_state r = Challenging"
      by (auto simp: accept_challenge_txn_def split: if_splits sum.splits)
    from acc l False ch obtain d3 where m: "insert_member ?rid (q_user env) (q_now env) ?d2 = Ok d3"
      and d': "d' = log_room_event ?rid (q_user env) ''challenge.accepted'' (challenge_json env cid)
          (update_challenges (\<lambda>x. c_id x = cid) (\<lambda>x. x\<lparr>c_state := ChAccepted\<rparr>)
            (set_room_state ?rid Connecting ?t d3))"
      by (auto simp: accept_challenge_txn_def Let_def split: if_splits sum.splits)
    have r1: "find_room ?d1 ?rid = Some r" using lc ch by (intro find_room_cancel_waiting) simp_all
    have fresh: "q_user env \<notin> set (users_in (db_members ?d1) ?rid)"
      using m by (simp add: insert_memberD row_simps)
    show ?thesis
      by (rule inv_accept_rows [OF inv_cancel_waiting [OF inv] r1 _ fresh keeps_simps(6)])
         (use ch m in \<open>simp_all add: d' row_simps insert_memberD\<close>)
  qed
qed

lemma inv_join_invite_txn:
  assumes inv: "server_inv d" and join: "join_invite_txn env hash d = Ok (rid, d')"
  shows "server_inv d' \<and> is_member d' rid (q_user env) \<and> (\<exists>r. find_room d' rid = Some r)"
proof -
  from join obtain i r where i: "find (invite_redeemable env hash) (db_invites d) = Some i" and rid: "rid = i_room i"
    and r: "find_room d rid = Some r"
    by (auto simp: join_invite_txn_def Let_def split: option.splits if_splits sum.splits)
  let ?t = "Some (q_now env + minutes 2)" and ?d1 = "cancel_other_waiting env (r_game r) rid d"
  from join i r rid obtain nxt d2 where t: "transition (r_state r) Accept = Ok nxt"
    and m: "insert_member rid (q_user env) (q_now env) ?d1 = Ok d2"
    by (auto simp: join_invite_txn_def Let_def split: if_splits sum.splits)
  note st = accept_state [OF t]
  let ?d3 = "update_active_attempt rid (\<lambda>a. a\<lparr>a_deadline := ?t\<rparr>) (set_room_state rid Connecting ?t d2)"
  from join i r rid t m st have d': "d' = log_event rid None None ''room.invite.joined'' (JObj [])
      (?d3\<lparr>db_invites := upd_where (\<lambda>j. i_hash j = hash)
         (\<lambda>j. j\<lparr>i_consumed := Some (q_now env), i_consumer := Some (q_user env)\<rparr>) (db_invites ?d3)\<rparr>)"
    by (auto simp: join_invite_txn_def Let_def split: if_splits)
  have r1: "find_room ?d1 rid = Some r" using r by (rule find_room_cancel_other)
  have fresh: "q_user env \<notin> set (users_in (db_members ?d1) rid)" using m by (simp add: insert_memberD)
  have "server_inv d'"
    by (rule inv_accept_rows [OF inv_cancel_other_waiting [OF inv] r1 _ fresh keeps_simps(6)])
       (use st m in \<open>simp_all add: d' row_simps insert_memberD\<close>)
  moreover have "is_member d' rid (q_user env)"
    using m by (simp add: is_member_iff members_of_users d' row_simps insert_memberD)
  moreover have "find_room d' rid = Some (r\<lparr>r_state := Connecting, r_deadline := ?t\<rparr>)"
    using r1 find_roomD [OF r1] m
    by (simp add: find_room_def d' row_simps insert_memberD moves_to_def find_upd_where)
  ultimately show ?thesis by blast
qed

section \<open>Challenges and receipts\<close>

lemma insert_challengeD:
  "insert_challenge c d = Ok (Some d') \<Longrightarrow> db_rooms d' = db_rooms d \<and> db_members d' = db_members d
     \<and> db_attempts d' = db_attempts d \<and> db_runtime d' = db_runtime d \<and> db_matches d' = db_matches d
     \<and> db_challenges d' = db_challenges d @ [c]"
  by (auto simp: insert_challenge_def split: if_splits)

lemma inv_create_challenge_txn:
  assumes inv: "server_inv d" and c: "create_challenge_txn env req rid aid cid d = Ok (x, d')"
  shows "server_inv d'"
proof -
  let ?d0 = "expire_pending env d"
  have "server_inv ?d0" using inv by (simp add: server_inv_def expire_pending_def row_simps)
  then have inv1: "server_inv (cancel_waiting env (ccr_game_id req) ?d0)" by (rule inv_cancel_waiting)
  let ?t = "q_now env + minutes 5"
  from c obtain d2 d3 d4 d5 where
    r: "insert_room (new_room env rid aid (ccr_game_id req) Challenging 2 ?t)
      (cancel_waiting env (ccr_game_id req) ?d0) = Ok d2"
    and a: "insert_attempt aid rid ?t d2 = Ok d3"
    and m: "insert_member rid (q_user env) (q_now env) d3 = Ok d4"
    and ch: "insert_challenge
      \<lparr>c_id = cid, c_room = rid, c_challenger = q_user env, c_challenged = ccr_challenged_id req,
       c_state = ChPending, c_expires = ?t, c_created = q_now env\<rparr> d4 = Ok (Some d5)"
    and d': "d' = log_event rid (Some aid) (Some (q_user env)) ''challenge.created'' (challenge_json env cid) d5"
    by (auto simp: create_challenge_txn_def Let_def split: if_splits sum.splits option.splits)
  note d5 = insert_challengeD [OF ch]
  from r a m inv1 have "server_inv d4"
    unfolding server_inv_def
    by (auto simp: insert_roomD insert_memberD insert_attemptD new_room_def intro!: inv_new_room)
  with d5 d' show ?thesis by (simp add: server_inv_def row_simps)
qed

lemma inv_resolve_challenge_txn:
  assumes inv: "server_inv d" and c: "resolve_challenge_txn env cid cancel d = Ok (x, d')"
  shows "server_inv d'"
proof -
  from c obtain ch r where l: "locked_challenge env d cid = Ok (ch, r)"
    by (auto simp: resolve_challenge_txn_def split: sum.splits)
  note lc = locked_challengeD [OF l]
  then have r: "find_room d (c_room ch) = Some r" by simp
  note ra = room_attempt_of [OF r] and rin = find_roomD [OF r]
  have tab: "tables_inv (db_rooms d) (db_members d) (db_attempts d) (db_runtime d) (db_matches d)"
    using inv by (simp add: server_inv_def)
  have "tables_inv (moves_to (r_id r) Cancelled None (db_rooms d)) (db_members d)
      (upd_where (\<lambda>a. Some (r_attempt r) = Some (a_id a) \<and> a_state a = AtActive)
        (\<lambda>a. a\<lparr>a_state := AtCancelled, a_finished := coalesce (a_finished a) (q_now env), a_deadline := None\<rparr>)
        (db_attempts d))
      (upd_where (\<lambda>_. False) (\<lambda>p. p) (db_runtime d)) (upd_where (\<lambda>_. False) (\<lambda>m. m) (db_matches d))"
    by (rule inv_cancel_one [OF tab]) (use rin in simp_all)
  then have "server_inv (update_active_attempt (c_room ch)
      (\<lambda>a. a\<lparr>a_state := AtCancelled, a_finished := coalesce (a_finished a) (q_now env), a_deadline := None\<rparr>)
      (set_room_state (c_room ch) Cancelled None
        (update_challenges (\<lambda>x. c_id x = cid) (\<lambda>x. x\<lparr>c_state := (if cancel then ChCancelled else ChDeclined)\<rparr>) d)))"
    using rin ra by (simp add: server_inv_def row_simps)
  with c l show ?thesis
    by (auto simp: resolve_challenge_txn_def Let_def split: if_splits sum.splits)
qed

lemma inv_create_receipt_txn:
  assumes inv: "server_inv d" and c: "create_receipt_txn env al ids source key d = Ok (y, d')"
  shows "server_inv d'"
proof (cases "d' = d")
  case False
  with c obtain game route payload where
    c': "continue_match env al ids source game key route d = Ok (payload, d')"
    by (auto simp: create_receipt_txn_def split: option.splits if_splits sum.splits)
  let ?p = "\<lambda>q. r_host q = q_user env \<and> r_game q = game \<and> r_state q = Waiting"
  have inv0: "server_inv (update_rooms ?p (\<lambda>r. r\<lparr>r_state := Cancelled\<rparr>) d)"
    by (rule inv_cancel_rooms_only [OF inv])
  from c' obtain d1 d2 d3 where
    "insert_room (new_room env (ri_room ids) (ri_attempt ids) game Waiting 2 (q_now env + hours 24))
       (update_rooms ?p (\<lambda>r. r\<lparr>r_state := Cancelled\<rparr>) d) = Ok d1"
    "insert_member (ri_room ids) (q_user env) (q_now env) d1 = Ok d2"
    "insert_attempt (ri_attempt ids) (ri_room ids) (q_now env + hours 24) d2 = Ok d3"
    and d': "db_rooms d' = db_rooms d3" "db_members d' = db_members d3" "db_attempts d' = db_attempts d3"
      "db_runtime d' = db_runtime d3" "db_matches d' = db_matches d3"
    by (auto simp: continue_match_def Let_def insert_invite_def insert_receipt_def insert_command_def
        split: sum.splits if_splits)
  with inv_insert_room [OF inv0] have "server_inv d3" by blast
  with d' show ?thesis by (simp add: server_inv_def)
qed (use inv in simp)

section \<open>Native launches and exits\<close>

lemma players_find: "find (\<lambda>p. p_room p = rid \<and> p_user p = u) P = None \<Longrightarrow> u \<notin> set (players_in P rid)"
  by (auto simp: players_in_def find_None_iff)

lemma start_playing_inv:
  assumes inv: "server_inv d" and r: "find_room d rid = Some r" "r_state r = Connecting"
    and two: "length (participants_of d rid) = 2"
  shows "server_inv (start_playing env rid Playing d)"
proof -
  have rin: "r \<in> set (db_rooms d)" "r_id r = rid" using find_roomD [OF r(1)] by auto
  let ?t = "Some (q_now env + hours 4)"
  let ?d1 = "set_room_state rid Playing ?t d"
  have r1: "find_room ?d1 rid = Some (r\<lparr>r_state := Playing, r_deadline := ?t\<rparr>)"
    using r(1) rin(2) by (simp add: find_room_def row_simps moves_to_def find_upd_where)
  define T' where "T' = db_matches (insert_match env rid ?d1)"
  have T: "has_match T' rid" "has_match (db_matches d) x \<Longrightarrow> has_match T' x" for x
    using r1 by (auto simp: T'_def insert_match_def has_match_def row_simps list_ex_iff)
  have rest: "db_rooms (insert_match env rid ?d1) = db_rooms ?d1" "db_members (insert_match env rid ?d1) = db_members ?d1"
    "db_attempts (insert_match env rid ?d1) = db_attempts ?d1" "db_runtime (insert_match env rid ?d1) = db_runtime ?d1"
    by (simp_all add: insert_match_def split: option.splits)
  have "tables_inv (moves_to (r_id r) Playing ?t (db_rooms d)) (db_members d)
      (upd_where (\<lambda>a. room_attempt (insert_match env rid ?d1) rid = Some (a_id a) \<and> a_state a = AtActive)
        (\<lambda>a. a\<lparr>a_deadline := ?t\<rparr>) (db_attempts d)) (db_runtime d) T'"
    by (rule inv_start [where T = "db_matches d"]) (use inv rin r two T in \<open>simp_all add: server_inv_def participants_of_players\<close>)
  then show ?thesis
    by (simp add: start_playing_def server_inv_def row_simps rest T'_def rin(2))
qed

lemma inv_confirm_native_launch:
  assumes inv: "server_inv d" and c: "confirm_native_launch_txn env rid d = Ok (x, d')"
  shows "server_inv d' \<and> is_member d' rid (q_user env) \<and> find_room d' rid \<noteq> None"
proof -
  from c obtain h s k where l: "locked_room env d rid = Ok (h, s, k)"
    by (auto simp: confirm_native_launch_txn_def split: sum.splits)
  from locked_roomD [OF l] obtain r where r: "find_room d rid = Some r" "s = r_state r" by blast
  have rin: "r \<in> set (db_rooms d)" "r_id r = rid" using find_roomD [OF r(1)] by auto
  from c l have mem: "is_member d rid (q_user env)" and st: "s = Connecting \<or> s = Playing"
    by (auto simp: confirm_native_launch_txn_def split: if_splits)
  show ?thesis
  proof (cases "find (\<lambda>p. p_room p = rid \<and> p_user p = q_user env) (db_runtime d)")
    case (Some p)
    with c l mem st inv r show ?thesis
      by (auto simp: confirm_native_launch_txn_def split: if_splits)
  next
    case None
    have tab: "tables_inv (db_rooms d) (db_members d) (db_attempts d) (db_runtime d) (db_matches d)"
      using inv by (simp add: server_inv_def)
    note fresh = players_find [OF None]
    have s: "r_state r = Connecting"
    proof (rule ccontr)
      assume "r_state r \<noteq> Connecting"
      with st r have "r_state r = Playing" by simp
      then have "set (players_in (db_runtime d) (r_id r)) = set (users_in (db_members d) (r_id r))"
        by (intro room_full_players [OF tables_invD(7) [OF tab rin(1)]] tables_invD [OF tab]) simp_all
      with fresh mem rin(2) show False by (simp add: is_member_iff members_of_users)
    qed
    let ?d1 = "d\<lparr>db_runtime := db_runtime d @ [launch_row env rid]\<rparr>"
    let ?d2 = "?d1\<lparr>db_grants := filter (\<lambda>g. \<not> (g_room g = rid \<and> g_local g = q_user env)) (db_grants ?d1)\<rparr>"
    have "tables_inv (db_rooms d) (db_members d) (db_attempts d) (db_runtime d @ [launch_row env rid]) (db_matches d)"
      by (rule inv_launch [OF tab rin(1) s])
         (use fresh mem rin in \<open>simp_all add: launch_row_def is_member_iff members_of_users\<close>)
    then have inv2: "server_inv ?d2" by (simp add: server_inv_def)
    have r2: "find_room ?d2 rid = Some r" using r(1) by (simp add: find_room_def)
    have d': "d' = (if length (members_of ?d2 rid) = 2 \<and> length (participants_of ?d2 rid) = length (members_of ?d2 rid)
        then start_playing env rid Playing ?d2 else ?d2)"
      using c l mem None s r(2)
      by (auto simp: confirm_native_launch_txn_def Let_def launch_row_def split: if_splits)
    have "server_inv d'"
      using start_playing_inv [OF inv2 r2 s] inv2 d' by (auto split: if_splits)
    moreover have "db_members d' = db_members d"
      by (simp add: d' start_playing_def row_simps insert_match_def split: option.splits)
    moreover have "map r_id (db_rooms d') = map r_id (db_rooms d)"
      by (simp add: d' start_playing_def row_simps insert_match_def moves_to_def map_upd_where split: option.splits)
    ultimately show ?thesis
      using mem r(1) by (simp add: is_member_def find_room_ids [of d' d])
  qed
qed

lemma record_exit_inv: "server_inv d \<Longrightarrow> server_inv (record_exit env rid code d)"
  using inv_touch [of "db_rooms d" "db_members d" "db_attempts d" "db_runtime d" "db_matches d" "\<lambda>a. a" _ "\<lambda>m. m"]
  by (simp add: server_inv_def record_exit_def row_simps deadline_only_def)

lemma record_exit_tables [row_simps]:
  "db_rooms (record_exit env rid code d) = db_rooms d"
  "db_members (record_exit env rid code d) = db_members d"
  "find_room (record_exit env rid code d) x = find_room d x"
  "room_attempt (record_exit env rid code d) x = room_attempt d x"
  by (simp_all add: record_exit_def row_simps find_room_def room_attempt_def)

lemma fail_before_start_inv:
  assumes "server_inv d" "find_room d rid = Some r"
  shows "server_inv (fail_before_start env rid Cancelled d)"
proof -
  have rin: "r \<in> set (db_rooms d)" "r_id r = rid" using find_roomD [OF assms(2)] by auto
  have "tables_inv (moves_to (r_id r) Cancelled None (db_rooms d)) (db_members d)
      (upd_where (\<lambda>a. Some (r_attempt r) = Some (a_id a) \<and> a_state a = AtActive)
        (\<lambda>a. a\<lparr>a_state := AtFailed, a_failure := Some ''native_exit_before_start'',
           a_finished := coalesce (a_finished a) (q_now env), a_deadline := None\<rparr>) (db_attempts d))
      (upd_where (\<lambda>_. False) (\<lambda>p. p) (db_runtime d)) (upd_where (\<lambda>_. False) (\<lambda>m. m) (db_matches d))"
    by (rule inv_cancel_one) (use assms(1) rin in \<open>simp_all add: server_inv_def\<close>)
  then show ?thesis
    using rin room_attempt_of [OF assms(2)] by (simp add: fail_before_start_def server_inv_def row_simps)
qed

lemma filter_length_all: "length (filter Q xs) = length xs \<longleftrightarrow> (\<forall>x \<in> set xs. Q x)"
proof (induction xs)
  case (Cons x xs)
  show ?case
  proof (cases "Q x")
    case False
    have "length (filter Q xs) < Suc (length xs)" by (rule le_imp_less_Suc [OF length_filter_le])
    with False show ?thesis by auto
  qed (use Cons in simp)
qed simp

lemma all_ended_count:
  assumes inv: "server_inv d" and r: "find_room d rid = Some r" "r_state r = Playing"
    and two: "ended_count d rid = 2"
  shows "all_ended (db_runtime d) rid"
proof -
  have rin: "r \<in> set (db_rooms d)" "r_id r = rid" using find_roomD [OF r(1)] by auto
  from tables_invD(7) [OF inv [unfolded server_inv_def] rin(1)] r(2) rin(2)
  have "length (players_in (db_runtime d) rid) = 2" by (simp add: room_ok_def)
  then have len: "length (filter (\<lambda>p. p_room p = rid) (db_runtime d)) = 2" by (simp add: players_in_def)
  have "filter (\<lambda>p. p_room p = rid \<and> p_ended p \<noteq> None) (db_runtime d)
      = filter (\<lambda>p. p_ended p \<noteq> None) (filter (\<lambda>p. p_room p = rid) (db_runtime d))"
    by (simp add: conj_commute)
  with two len have "length (filter (\<lambda>p. p_ended p \<noteq> None) (filter (\<lambda>p. p_room p = rid) (db_runtime d)))
      = length (filter (\<lambda>p. p_room p = rid) (db_runtime d))" by (simp add: ended_count_def)
  then have "\<forall>p \<in> set (filter (\<lambda>p. p_room p = rid) (db_runtime d)). p_ended p \<noteq> None"
    by (simp only: filter_length_all)
  then show ?thesis by (simp add: all_ended_def)
qed

lemma finish_match_inv:
  assumes inv: "server_inv d" and r: "find_room d rid = Some r" "r_state r = Playing"
    and ended: "all_ended (db_runtime d) rid"
  shows "server_inv (finish_match env rid Finished d)"
proof -
  have rin: "r \<in> set (db_rooms d)" "r_id r = rid" using find_roomD [OF r(1)] by auto
  have "tables_inv (moves_to (r_id r) Finished None (db_rooms d)) (db_members d)
      (upd_where (\<lambda>a. a_id a = r_attempt r \<and> a_state a = AtActive)
        (\<lambda>a. a\<lparr>a_state := AtSucceeded, a_finished := coalesce (a_finished a) (q_now env), a_deadline := None\<rparr>)
        (db_attempts d))
      (db_runtime d)
      (upd_where (\<lambda>m. mt_room m = rid) (\<lambda>m. m\<lparr>mt_ended := coalesce (mt_ended m) (q_now env)\<rparr>) (db_matches d))"
    by (rule inv_finish) (use inv rin r ended in \<open>simp_all add: server_inv_def\<close>)
  then show ?thesis
    using rin room_attempt_of [OF r(1)]
    by (simp add: finish_match_def server_inv_def row_simps eq_commute [of "r_attempt r"])
qed

lemma inv_confirm_native_exit:
  assumes inv: "server_inv d" and c: "confirm_native_exit_txn env rid code d = Ok (x, d')"
  shows "server_inv d' \<and> is_member d' rid (q_user env) \<and> find_room d' rid \<noteq> None"
proof -
  from c obtain h s k where l: "locked_room env d rid = Ok (h, s, k)"
    by (auto simp: confirm_native_exit_txn_def split: sum.splits)
  from locked_roomD [OF l] obtain r where r: "find_room d rid = Some r" "s = r_state r" by blast
  let ?d1 = "record_exit env rid code d"
  have r1: "find_room ?d1 rid = Some r" using r by (simp add: row_simps)
  have inv1: "server_inv ?d1" by (rule record_exit_inv [OF inv])
  from c l have "list_ex (\<lambda>p. p_room p = rid \<and> p_user p = q_user env) (db_runtime d)"
    by (simp add: confirm_native_exit_txn_def split: if_splits)
  then have "q_user env \<in> set (players_in (db_runtime d) rid)"
    by (force simp: players_in_def list_ex_iff)
  with tables_invD(5) [OF inv [unfolded server_inv_def], of rid]
  have mem: "q_user env \<in> set (users_in (db_members d) rid)" by blast
  have "d' = ?d1 \<or> s = Connecting \<and> d' = fail_before_start env rid Cancelled ?d1
    \<or> s = Playing \<and> length (members_of ?d1 rid) = 2 \<and> ended_count ?d1 rid = length (members_of ?d1 rid)
      \<and> d' = finish_match env rid Finished ?d1"
    using c unfolding confirm_native_exit_txn_def l Let_def sum.case prod.case
    by (cases s) (simp_all split: if_splits)
  then consider "d' = ?d1" | "s = Connecting" "d' = fail_before_start env rid Cancelled ?d1"
    | "s = Playing" "length (members_of ?d1 rid) = 2" "ended_count ?d1 rid = length (members_of ?d1 rid)"
      "d' = finish_match env rid Finished ?d1"
    by blast
  then have "server_inv d' \<and> db_members d' = db_members d \<and> map r_id (db_rooms d') = map r_id (db_rooms d)"
  proof cases
    case 1
    with inv1 show ?thesis by (simp add: row_simps)
  next
    case 2
    with fail_before_start_inv [OF inv1 r1] show ?thesis
      by (simp add: fail_before_start_def row_simps moves_to_def map_upd_where)
  next
    case 3
    with all_ended_count [OF inv1 r1] r(2) have "all_ended (db_runtime ?d1) rid" by simp
    with finish_match_inv [OF inv1 r1] 3 r(2) show ?thesis
      by (simp add: finish_match_def row_simps moves_to_def map_upd_where)
  qed
  with mem r(1) show ?thesis by (simp add: is_member_iff members_of_users find_room_ids [of d' d])
qed

section \<open>The reconciler\<close>

lemma log_expired_tables [row_simps]:
  "db_rooms (log_expired rs d) = db_rooms d"
  "db_members (log_expired rs d) = db_members d"
  "db_attempts (log_expired rs d) = db_attempts d"
  "db_runtime (log_expired rs d) = db_runtime d"
  "db_matches (log_expired rs d) = db_matches d"
  "db_challenges (log_expired rs d) = db_challenges d"
  unfolding log_expired_def by (induction rs arbitrary: d) (simp_all add: log_event_def)

lemma expired_rooms_in: "r \<in> set (expired_rooms now busy d) \<Longrightarrow> r \<in> set (db_rooms d) \<and> due now r"
  unfolding expired_rooms_def by (auto dest!: in_set_takeD)

lemma expire_challenge_batch_tables [row_simps]:
  "db_rooms (expire_challenge_batch now busy d) = db_rooms d"
  "db_members (expire_challenge_batch now busy d) = db_members d"
  "db_attempts (expire_challenge_batch now busy d) = db_attempts d"
  "db_runtime (expire_challenge_batch now busy d) = db_runtime d"
  "db_matches (expire_challenge_batch now busy d) = db_matches d"
  by (simp_all add: expire_challenge_batch_def Let_def row_simps)

lemma expired_rooms_batch [row_simps]:
  "expired_rooms now busy (expire_challenge_batch now' busy' d) = expired_rooms now busy d"
  by (simp add: expired_rooms_def row_simps)

lemma inv_reconcile:
  assumes inv: "server_inv d"
  shows "server_inv (fst (reconcile_expired now busy d))"
proof -
  let ?ex = "expired_rooms now busy d"
  have tab: "tables_inv (db_rooms d) (db_members d) (db_attempts d) (db_runtime d) (db_matches d)"
    using inv by (simp add: server_inv_def)
  have "tables_inv (upd_where (\<lambda>r. r_id r \<in> set (map r_id ?ex)) (\<lambda>r. r\<lparr>r_state := Cancelled, r_deadline := None\<rparr>) (db_rooms d))
      (db_members d)
      (upd_where (\<lambda>a. a_id a \<in> set (map r_attempt ?ex) \<and> a_state a = AtActive)
        (\<lambda>a. a\<lparr>a_state := AtExpired, a_failure := Some ''state_deadline_exceeded'', a_deadline := None,
               a_finished := Some now\<rparr>) (db_attempts d))
      (upd_where (\<lambda>p. p_room p \<in> set (map r_id ?ex)) (\<lambda>p. p\<lparr>p_ended := coalesce (p_ended p) now\<rparr>) (db_runtime d))
      (upd_where (\<lambda>m. mt_room m \<in> set (map r_id ?ex)) (\<lambda>m. m\<lparr>mt_ended := coalesce (mt_ended m) now\<rparr>) (db_matches d))"
  proof (rule inv_cancel [OF tab])
    fix r :: room_row and a :: attempt_row
    assume r: "r \<in> set (db_rooms d)" "r_id r \<notin> set (map r_id ?ex)" and a: "a_id a = r_attempt r"
      and "a_id a \<in> set (map r_attempt ?ex) \<and> a_state a = AtActive"
    then obtain x where x: "x \<in> set ?ex" "r_attempt x = r_attempt r" by auto
    with attempt_unique [OF tab] expired_rooms_in r(1) have "x = r" by blast
    with x(1) r(2) show "a_state (a\<lparr>a_state := AtExpired, a_failure := Some ''state_deadline_exceeded'',
        a_deadline := None, a_finished := Some now\<rparr>) = a_state a" by simp
  qed (simp_all add: same_room_set)
  then show ?thesis
    by (simp add: reconcile_expired_def Let_def server_inv_def row_simps cancel_expired_def)
qed

end
