(* ===== verification/Server_Correct.thy ===== *)
theory Server_Correct
  imports Server_Steps Reachability
begin

text \<open>
  The server as a whole: every request of the modelled routes and every reconciler pass is a step
  on the database, and the guarantees hold in every reachable state.
\<close>

section \<open>Requests\<close>

datatype request =
    CreateRoom request_env create_room_request uuid uuid db
  | GetRoom request_env uuid
  | AcceptRoom request_env uuid
  | DeclineRoom request_env uuid
  | CancelRoom request_env uuid
  | StartRoom request_env uuid
  | FinishRoom request_env uuid "int option"
  | CreateLaunchGrant request_env grant_env uuid launch_grant_request
  | ConsumeLaunchGrant request_env "string \<Rightarrow> string" string
  | CreateChallenge request_env create_challenge_request uuid uuid uuid db
  | ListIncoming request_env
  | AcceptChallenge request_env uuid
  | DeclineChallenge request_env uuid
  | CancelChallenge request_env uuid
  | CreateInvite request_env alpha_env uuid uuid
  | JoinInvite request_env alpha_env string
  | SubmitPreflight request_env policy_config uuid match_preflight_payload
  | ReadyToLaunch request_env policy_config uuid
  | RoomSnapshot request_env policy_config uuid
  | CreateReceipt request_env alpha_env receipt_ids uuid uuid db
  | SubmitEvidence request_env evidence_env

fun serve :: "request \<Rightarrow> db \<Rightarrow> reply outcome" where
  "serve (CreateRoom env req rid aid seen) d = create_room env req rid aid seen d"
| "serve (GetRoom env rid) d = get_room env rid d"
| "serve (AcceptRoom env rid) d = accept_room env rid d"
| "serve (DeclineRoom env rid) d = decline_room env rid d"
| "serve (CancelRoom env rid) d = cancel_room env rid d"
| "serve (StartRoom env rid) d = start_room env rid d"
| "serve (FinishRoom env rid code) d = finish_room env rid code d"
| "serve (CreateLaunchGrant env gx rid req) d = create_launch_grant env gx rid req d"
| "serve (ConsumeLaunchGrant env hash grant) d = consume_launch_grant env hash grant d"
| "serve (CreateChallenge env req rid aid cid seen) d = create_challenge env req rid aid cid seen d"
| "serve (ListIncoming env) d = list_incoming env d"
| "serve (AcceptChallenge env cid) d = accept_challenge env cid d"
| "serve (DeclineChallenge env cid) d = decline_challenge env cid d"
| "serve (CancelChallenge env cid) d = cancel_challenge env cid d"
| "serve (CreateInvite env al fresh rid) d = create_invite env al fresh rid d"
| "serve (JoinInvite env al code) d = join_invite env al code d"
| "serve (SubmitPreflight env cfg rid p) d = submit_preflight env cfg rid p d"
| "serve (ReadyToLaunch env cfg rid) d = ready_to_launch env cfg rid d"
| "serve (RoomSnapshot env cfg rid) d = room_snapshot env cfg rid d"
| "serve (CreateReceipt env al ids source key seen) d = create_match_receipt env al ids source key seen d"
| "serve (SubmitEvidence env ex) d = submit_evidence env ex d"

inductive server_step :: "db \<Rightarrow> db \<Rightarrow> bool" where
  step_request: "server_step d (snd (serve req d))"
| step_reconcile: "server_step d (fst (reconcile_expired now busy d))"

inductive_cases server_stepE: "server_step d d'"

definition server_init :: "db \<Rightarrow> bool" where
  "server_init d \<longleftrightarrow> (\<exists>users games. d = empty_db\<lparr>db_users := users, db_games := games\<rparr>)"

section \<open>What a transaction's outcome says\<close>

lemma transact_cases:
  assumes "transact f d = (res, d')"
  obtains e where "f d = Inl e" "res = Err e" "d' = d" | x where "f d = Inr (x, d')" "res = Ok x"
  using assms by (cases "f d") auto

lemma then_notify_snd [simp]: "snd (then_notify env rid res) = snd res"
  by (cases res) (auto simp: then_notify_def split: sum.splits)

lemma then_snapshot_snd [simp]: "snd (then_snapshot env cfg rid ty res) = snd res"
  by (cases res) (auto simp: then_snapshot_def split: sum.splits)

lemma transact_inv:
  assumes "server_inv d" "\<And>x d'. f d = Ok (x, d') \<Longrightarrow> server_inv d'"
  shows "server_inv (snd (transact f d))"
  using assms by (cases "f d") auto

lemma transact_inv_pair:
  assumes "transact f d = (res, d')" "server_inv d" "\<And>x d''. f d = Ok (x, d'') \<Longrightarrow> server_inv d''"
  shows "server_inv d'"
  using transact_inv [of d f] assms by simp

lemma inv_same_tables:
  "server_inv d \<Longrightarrow> db_rooms d' = db_rooms d \<Longrightarrow> db_members d' = db_members d \<Longrightarrow> db_attempts d' = db_attempts d \<Longrightarrow>
   db_runtime d' = db_runtime d \<Longrightarrow> db_matches d' = db_matches d \<Longrightarrow> server_inv d'"
  by (simp add: server_inv_def)

lemma inv_create_room:
  assumes "server_inv d"
  shows "server_inv (snd (create_room env req rid aid seen d))"
proof (cases "transact (create_room_txn env req rid aid) d")
  case (Pair res d')
  have "server_inv d'" if "crq_max_players req = 2"
    by (rule transact_inv_pair [OF Pair assms]) (use inv_create_room_txn [OF assms that] in blast)
  moreover have "server_inv (d'\<lparr>db_rooms_created := n\<rparr>) = server_inv d'" for n
    by (simp add: server_inv_def)
  ultimately show ?thesis
    using assms Pair by (auto simp: create_room_def Let_def split: option.splits sum.splits bool.splits list.splits)
qed

lemma inv_accept_room: "server_inv d \<Longrightarrow> server_inv (snd (accept_room env rid d))"
proof (cases "transact (accept_room_txn env rid) d")
  case (Pair res d')
  assume inv: "server_inv d"
  have "server_inv d'"
    by (rule transact_inv_pair [OF Pair inv]) (use inv_accept_room_txn [OF inv] in blast)
  with Pair show ?thesis by (auto simp: accept_room_def split: sum.splits bool.splits)
qed

lemma inv_create_launch_grant_txn:
  "server_inv d \<Longrightarrow> create_launch_grant_txn env gx rid local peer req d = Ok (x, d') \<Longrightarrow> server_inv d'"
proof -
  assume inv: "server_inv d" and c: "create_launch_grant_txn env gx rid local peer req d = Ok (x, d')"
  from c obtain g d1 where "insert_grant g d = Ok d1"
    and d': "d' = update_room_attempt rid (\<lambda>a. a\<lparr>a_deadline := Some (q_now env + minutes 2)\<rparr>) d1"
    by (auto simp: create_launch_grant_txn_def split: sum.splits option.splits if_splits)
  then have "server_inv d1" using inv by (auto simp: insert_grant_def server_inv_def split: if_splits)
  then show ?thesis
    using inv_touch [of "db_rooms d1" "db_members d1" "db_attempts d1" "db_runtime d1" "db_matches d1"
        "\<lambda>a. a\<lparr>a_deadline := Some (q_now env + minutes 2)\<rparr>" "\<lambda>p. p" "\<lambda>m. m"]
    by (simp add: d' server_inv_def row_simps)
qed

lemma inv_serve: "server_inv d \<Longrightarrow> server_inv (snd (serve req d))"
proof (cases req)
  case (CreateRoom env r rid aid seen)
  assume "server_inv d"
  with CreateRoom inv_create_room show ?thesis by simp
next
  case (GetRoom env rid)
  assume "server_inv d"
  with GetRoom show ?thesis by (simp add: get_room_def)
next
  case (AcceptRoom env rid)
  assume "server_inv d"
  with AcceptRoom inv_accept_room show ?thesis by simp
next
  case (DeclineRoom env rid)
  assume inv: "server_inv d"
  have "server_inv (snd (transact (change_room_state_txn env rid Decline False) d))"
    by (rule transact_inv [OF inv]) (use inv_change_room_state [OF inv] in blast)
  with DeclineRoom show ?thesis by (simp add: decline_room_def)
next
  case (CancelRoom env rid)
  assume inv: "server_inv d"
  have "server_inv (snd (transact (change_room_state_txn env rid Cancel False) d))"
    by (rule transact_inv [OF inv]) (use inv_change_room_state [OF inv] in blast)
  with CancelRoom show ?thesis by (simp add: cancel_room_def)
next
  case (StartRoom env rid)
  assume inv: "server_inv d"
  have "server_inv (snd (transact (confirm_native_launch_txn env rid) d))"
    by (rule transact_inv [OF inv]) (use inv_confirm_native_launch [OF inv] in blast)
  with StartRoom show ?thesis by (simp add: start_room_def)
next
  case (FinishRoom env rid code)
  assume inv: "server_inv d"
  have "server_inv (snd (transact (confirm_native_exit_txn env rid code) d))"
    by (rule transact_inv [OF inv]) (use inv_confirm_native_exit [OF inv] in blast)
  with FinishRoom show ?thesis by (simp add: finish_room_def)
next
  case (CreateLaunchGrant env gx rid r)
  assume inv: "server_inv d"
  have t: "server_inv (snd (transact (create_launch_grant_txn env gx rid local peer r) d))" for local peer
    by (rule transact_inv [OF inv]) (use inv_create_launch_grant_txn [OF inv] in blast)
  have "server_inv d'" if "transact (create_launch_grant_txn env gx rid local peer r) d = (res, d')" for local peer res d'
    using t [of local peer] that by simp
  with inv CreateLaunchGrant show ?thesis
    by (auto simp: create_launch_grant_def split: option.splits prod.splits sum.splits)
next
  case (ConsumeLaunchGrant env hash grant)
  assume "server_inv d"
  with ConsumeLaunchGrant show ?thesis
    by (auto simp: consume_launch_grant_def server_inv_def split: option.splits)
next
  case (CreateChallenge env r rid aid cid seen)
  assume inv: "server_inv d"
  have "server_inv (snd (transact (create_challenge_txn env r rid aid cid) d))"
    by (rule transact_inv [OF inv]) (use inv_create_challenge_txn [OF inv] in blast)
  with inv CreateChallenge show ?thesis
    by (auto simp: create_challenge_def Let_def split: prod.splits sum.splits)
next
  case (ListIncoming env)
  assume "server_inv d"
  with ListIncoming show ?thesis by (simp add: list_incoming_def Let_def)
next
  case (AcceptChallenge env cid)
  assume inv: "server_inv d"
  have "server_inv (snd (transact (accept_challenge_txn env cid) d))"
    by (rule transact_inv [OF inv]) (use inv_accept_challenge_txn [OF inv] in blast)
  with inv AcceptChallenge show ?thesis
    by (auto simp: accept_challenge_def Let_def split: prod.splits sum.splits)
next
  case (DeclineChallenge env cid)
  assume inv: "server_inv d"
  have "server_inv (snd (transact (resolve_challenge_txn env cid False) d))"
    by (rule transact_inv [OF inv]) (use inv_resolve_challenge_txn [OF inv] in blast)
  with inv DeclineChallenge show ?thesis
    by (auto simp: decline_challenge_def resolve_challenge_def Let_def split: prod.splits sum.splits)
next
  case (CancelChallenge env cid)
  assume inv: "server_inv d"
  have "server_inv (snd (transact (resolve_challenge_txn env cid True) d))"
    by (rule transact_inv [OF inv]) (use inv_resolve_challenge_txn [OF inv] in blast)
  with inv CancelChallenge show ?thesis
    by (auto simp: cancel_challenge_def resolve_challenge_def Let_def split: prod.splits sum.splits)
next
  case (CreateInvite env al fresh rid)
  assume "server_inv d"
  with CreateInvite show ?thesis
    by (auto simp: create_invite_def Let_def insert_invite_def server_inv_def row_simps split: sum.splits if_splits)
next
  case (JoinInvite env al code)
  assume inv: "server_inv d"
  have "server_inv (snd (transact (join_invite_txn env h) d))" for h
    by (rule transact_inv [OF inv]) (use inv_join_invite_txn [OF inv] in blast)
  then have "server_inv d'" if "transact (join_invite_txn env h) d = (res, d')" for h res d'
    using that by (metis snd_conv)
  with inv JoinInvite show ?thesis
    by (auto simp: join_invite_def Let_def split: prod.splits sum.splits)
next
  case (SubmitPreflight env cfg rid p)
  assume inv: "server_inv d"
  have "server_inv (snd (transact (submit_preflight_txn env rid p) d))"
    by (rule transact_inv [OF inv])
       (use inv in \<open>auto simp: submit_preflight_txn_def Let_def upsert_preflight_def server_inv_def row_simps
          split: sum.splits if_splits\<close>)
  with inv SubmitPreflight show ?thesis
    by (auto simp: submit_preflight_def split: sum.splits)
next
  case (ReadyToLaunch env cfg rid)
  assume inv: "server_inv d"
  have "server_inv (snd (transact (ready_to_launch_txn env rid) d))"
    by (rule transact_inv [OF inv])
       (use inv in \<open>auto simp: ready_to_launch_txn_def Let_def upsert_barrier_def server_inv_def row_simps
          split: sum.splits prod.splits if_splits\<close>)
  with inv ReadyToLaunch show ?thesis by (simp add: ready_to_launch_def)
next
  case (RoomSnapshot env cfg rid)
  assume "server_inv d"
  with RoomSnapshot show ?thesis by (auto simp: room_snapshot_def split: sum.splits)
next
  case (CreateReceipt env al ids source key seen)
  assume inv: "server_inv d"
  have "server_inv (snd (transact (create_receipt_txn env al ids source key) d))"
    by (rule transact_inv [OF inv]) (use inv_create_receipt_txn [OF inv] in blast)
  with inv CreateReceipt show ?thesis
    by (auto simp: create_match_receipt_def split: option.splits)
next
  case (SubmitEvidence env ex)
  assume "server_inv d"
  with SubmitEvidence show ?thesis
    by (auto simp: submit_evidence_def Let_def server_inv_def split: sum.splits option.splits)
qed

interpretation server: invariant_system server_init server_step server_inv
proof
  show "server_init d \<Longrightarrow> server_inv d" for d
    by (auto simp: server_init_def empty_db_def server_inv_def tables_inv_def users_in_def players_in_def)
  show "server_inv d \<Longrightarrow> server_step d d' \<Longrightarrow> server_inv d'" for d d'
    by (auto elim!: server_stepE intro: inv_serve inv_reconcile)
qed

end
