(* ===== verification/Server_Demo.thy ===== *)
theory Server_Demo
  imports Server_Correct
begin

text \<open>
  A concrete run of the server that the applications of its theorems evaluate: two users, one
  game, a room created by the first user and accepted by the second.
\<close>

definition demo_env :: "nat \<Rightarrow> request_env" where
  "demo_env u = \<lparr>q_now = 0, q_clock = 0, q_user = Uuid (of_nat u), q_show = (\<lambda>_. ''id'')\<rparr>"

definition demo_start :: db where
  "demo_start = empty_db\<lparr>db_users := [Uuid 1, Uuid 2], db_games := [''sf'']\<rparr>"

definition demo_create :: request where
  "demo_create = CreateRoom (demo_env 1) \<lparr>crq_game_id = ''sf'', crq_max_players = 2\<rparr> (Uuid 10) (Uuid 20) demo_start"

definition demo_waiting :: db where
  "demo_waiting = snd (serve demo_create demo_start)"

definition demo_accept :: request where
  "demo_accept = AcceptRoom (demo_env 2) (Uuid 10)"

definition demo_connecting :: db where
  "demo_connecting = snd (serve demo_accept demo_waiting)"

lemmas demo_defs = demo_env_def demo_start_def empty_db_def demo_create_def demo_accept_def

lemma demo_waiting_eq:
  "demo_waiting = demo_start\<lparr>
     db_rooms := [\<lparr>r_id = Uuid 10, r_game = ''sf'', r_host = Uuid 1, r_state = Waiting, r_max_players = 2,
       r_attempt = Uuid 20, r_deadline = Some (hours 24), r_created = 0\<rparr>],
     db_members := [\<lparr>m_room = Uuid 10, m_user = Uuid 1, m_joined = 0\<rparr>],
     db_attempts := [\<lparr>a_id = Uuid 20, a_room = Uuid 10, a_state = AtActive, a_failure = None,
       a_deadline = Some (hours 24), a_finished = None\<rparr>],
     db_events := [\<lparr>ev_revision = 1, ev_room = Uuid 10, ev_attempt = Some (Uuid 20), ev_actor = Some (Uuid 1),
       ev_type = ''room.created'', ev_payload = state_json ''waiting''\<rparr>],
     db_rooms_created := 1\<rparr>"
  unfolding demo_waiting_def
  by (simp add: demo_defs create_room_def Let_def is_blank_graphic graphic_def latest_waiting_def waiting_rooms_def
      transact_def create_room_txn_def new_room_def insert_room_def insert_member_def insert_attempt_def
      log_event_def is_member_def)

lemma locked_room_eq:
  "locked_room env d rid =
     (case find_room d rid of
        None \<Rightarrow> Err (NotFound (''room not found: '' @ q_show env rid))
      | Some r \<Rightarrow> Ok (r_host r, r_state r, r_max_players r))"
  by (simp add: locked_room_def room_label.read_write split: option.splits)

lemma demo_connecting_eq:
  "demo_connecting = demo_waiting\<lparr>
     db_rooms := [\<lparr>r_id = Uuid 10, r_game = ''sf'', r_host = Uuid 1, r_state = Connecting, r_max_players = 2,
       r_attempt = Uuid 20, r_deadline = Some (minutes 2), r_created = 0\<rparr>],
     db_members := [\<lparr>m_room = Uuid 10, m_user = Uuid 1, m_joined = 0\<rparr>, \<lparr>m_room = Uuid 10, m_user = Uuid 2, m_joined = 0\<rparr>],
     db_attempts := [\<lparr>a_id = Uuid 20, a_room = Uuid 10, a_state = AtActive, a_failure = None,
       a_deadline = Some (minutes 2), a_finished = None\<rparr>],
     db_events := db_events demo_waiting @
       [\<lparr>ev_revision = 2, ev_room = Uuid 10, ev_attempt = Some (Uuid 20), ev_actor = Some (Uuid 2),
         ev_type = ''room.accepted'', ev_payload = state_json ''connecting''\<rparr>]\<rparr>"
  unfolding demo_connecting_def demo_waiting_eq
  by (simp add: demo_defs accept_room_def Let_def transact_def
      accept_room_txn_def locked_room_eq find_room_def is_member_def members_of_def insert_member_def
      set_room_state_def update_rooms_def upd_where_def update_room_attempt_def update_attempts_def room_attempt_def
      log_room_event_def log_event_def then_notify_def)

lemma demo_reachable:
  "reachable server_init server_step demo_start"
  "reachable server_init server_step demo_waiting"
  "reachable server_init server_step demo_connecting"
proof -
  have "server_init demo_start" by (auto simp: server_init_def demo_start_def)
  then show 1: "reachable server_init server_step demo_start" by (rule reach_init)
  then show 2: "reachable server_init server_step demo_waiting"
    unfolding demo_waiting_def by (rule reach_step) (rule step_request)
  then show "reachable server_init server_step demo_connecting"
    unfolding demo_connecting_def by (rule reach_step) (rule step_request)
qed

end
