(* ===== verification/Server_History.thy ===== *)
theory Server_History
  imports Server_Demo
begin

text \<open>
  How rooms change over time: every request moves a room along an edge of the state machine of
  \<open>Room_State\<close> or leaves it, a failed request changes nothing, a redeemed invite stays redeemed,
  and the reconciler works off every overdue room.
\<close>

section \<open>Room states move along the state machine\<close>

definition legal :: "room_state \<Rightarrow> room_state \<Rightarrow> bool" where
  "legal s s' \<longleftrightarrow> s' = s \<or> (\<exists>ev. transition s ev = Ok s')"

lemma legal_refl [simp]: "legal s s"
  by (simp add: legal_def)

lemma legal_cancel: "s \<noteq> Finished \<Longrightarrow> legal s Cancelled"
  unfolding legal_def by (cases s) (auto intro: exI [of _ Cancel])

lemma legal_step: "transition s ev = Ok s' \<Longrightarrow> legal s s'"
  by (auto simp: legal_def)

definition same_identity :: "room_row \<Rightarrow> room_row \<Rightarrow> bool" where
  "same_identity r r' \<longleftrightarrow> r_id r' = r_id r \<and> r_host r' = r_host r \<and> r_game r' = r_game r \<and> r_attempt r' = r_attempt r"

definition evolves :: "(room_state \<Rightarrow> room_state \<Rightarrow> bool) \<Rightarrow> room_row list \<Rightarrow> room_row list \<Rightarrow> bool" where
  "evolves L R R' \<longleftrightarrow> (\<forall>r \<in> set R. \<exists>r' \<in> set R'. same_identity r r' \<and> L (r_state r) (r_state r'))"

lemma evolves_refl [simp]: "evolves legal R R"
  by (force simp: evolves_def same_identity_def)

lemma evolves_append: "evolves L R R' \<Longrightarrow> evolves L R (R' @ Q)"
  by (fastforce simp: evolves_def)

lemma evolves_mono: "evolves L R R' \<Longrightarrow> (\<And>s s'. L s s' \<Longrightarrow> L' s s') \<Longrightarrow> evolves L' R R'"
  by (meson evolves_def)

lemma evolves_upd:
  assumes "same_room f" "\<And>r. r \<in> set R \<Longrightarrow> p r \<Longrightarrow> L (r_state r) (r_state (f r))" "\<And>s. L s s"
  shows "evolves L R (upd_where p f R)"
  unfolding evolves_def bex_upd_where
proof
  fix r assume "r \<in> set R"
  with assms show "\<exists>x \<in> set R. same_identity r (if p x then f x else x) \<and> L (r_state r) (r_state (if p x then f x else x))"
    by (intro bexI [of _ r]) (auto simp: same_identity_def same_room_def)
qed

lemma evolves_moves:
  "(\<And>r. r \<in> set R \<Longrightarrow> r_id r = rid \<Longrightarrow> L (r_state r) s) \<Longrightarrow> (\<And>s. L s s) \<Longrightarrow> evolves L R (moves_to rid s t R)"
  unfolding moves_to_def by (rule evolves_upd) simp_all

lemma evolves_two:
  assumes f: "same_room f" and p: "\<And>r. r \<in> set R \<Longrightarrow> p r \<Longrightarrow> r_id r \<noteq> rid \<and> legal (r_state r) (r_state (f r))"
    and s: "\<And>r. r \<in> set R \<Longrightarrow> r_id r = rid \<Longrightarrow> legal (r_state r) s"
  shows "evolves legal R (moves_to rid s t (upd_where p f R))"
  unfolding evolves_def moves_to_def bex_upd_where
proof
  fix r assume r: "r \<in> set R"
  show "\<exists>x \<in> set R. same_identity r (if r_id (if p x then f x else x) = rid
        then (if p x then f x else x)\<lparr>r_state := s, r_deadline := t\<rparr> else if p x then f x else x)
      \<and> legal (r_state r) (r_state (if r_id (if p x then f x else x) = rid
        then (if p x then f x else x)\<lparr>r_state := s, r_deadline := t\<rparr> else if p x then f x else x))"
    using f p [OF r] s [OF r] r by (intro bexI [of _ r]) (auto simp: same_identity_def same_room_def)
qed

lemma found_only:
  "server_inv d \<Longrightarrow> find_room d rid = Some r \<Longrightarrow> x \<in> set (db_rooms d) \<Longrightarrow> r_id x = rid \<Longrightarrow> x = r"
  using find_roomD room_unique unfolding server_inv_def by blast

lemma evolves_found:
  "server_inv d \<Longrightarrow> find_room d rid = Some r \<Longrightarrow> legal (r_state r) s \<Longrightarrow>
   evolves legal (db_rooms d) (moves_to rid s t (db_rooms d))"
  by (rule evolves_moves) (auto dest: found_only)

text \<open>The rooms after each transaction.\<close>

lemma evolves_create_room:
  "create_room_txn env req rid aid d = Ok (b, d') \<Longrightarrow> evolves legal (db_rooms d) (db_rooms d')"
  by (auto simp: create_room_txn_def Let_def insert_roomD insert_memberD insert_attemptD row_simps
      split: if_splits sum.splits intro!: evolves_append)

lemma evolves_accept_room:
  assumes "server_inv d" "accept_room_txn env rid d = Ok (b, d')"
  shows "evolves legal (db_rooms d) (db_rooms d')"
proof (cases "db_rooms d' = db_rooms d")
  case False
  from assms(2) obtain h s k where l: "locked_room env d rid = Ok (h, s, k)"
    by (auto simp: accept_room_txn_def split: sum.splits)
  from locked_roomD [OF l] obtain r where r: "find_room d rid = Some r" "s = r_state r" by blast
  from False assms(2) l obtain nxt t where "transition s Accept = Ok nxt" "db_rooms d' = moves_to rid nxt t (db_rooms d)"
    by (auto simp: accept_room_txn_def Let_def row_simps insert_memberD split: if_splits sum.splits)
  with evolves_found [OF assms(1) r(1)] r(2) show ?thesis
    by (metis legal_step)
qed simp

lemma evolves_change_room_state:
  assumes "server_inv d" "change_room_state_txn env rid event host_only d = Ok (x, d')"
  shows "evolves legal (db_rooms d) (db_rooms d')"
proof -
  from assms(2) obtain h s k where l: "locked_room env d rid = Ok (h, s, k)"
    by (auto simp: change_room_state_txn_def split: sum.splits)
  from locked_roomD [OF l] obtain r where r: "find_room d rid = Some r" "s = r_state r" by blast
  from assms(2) l obtain nxt where "transition s event = Ok nxt" "db_rooms d' = moves_to rid nxt None (db_rooms d)"
    by (auto simp: change_room_state_txn_def Let_def row_simps split: if_splits sum.splits)
  with evolves_found [OF assms(1) r(1)] r(2) show ?thesis
    by (metis legal_step)
qed

lemma start_playing_rooms: "db_rooms (start_playing env rid s d) = moves_to rid s (Some (q_now env + hours 4)) (db_rooms d)"
  by (simp add: start_playing_def row_simps insert_match_def split: option.splits)

lemma evolves_launch:
  assumes "server_inv d" "confirm_native_launch_txn env rid d = Ok (x, d')"
  shows "evolves legal (db_rooms d) (db_rooms d')"
proof (cases "db_rooms d' = db_rooms d")
  case False
  from assms(2) obtain h s k where l: "locked_room env d rid = Ok (h, s, k)"
    by (auto simp: confirm_native_launch_txn_def split: sum.splits)
  from locked_roomD [OF l] obtain r where r: "find_room d rid = Some r" "s = r_state r" by blast
  from False assms(2) l obtain t where "s = Connecting" "db_rooms d' = moves_to rid Playing t (db_rooms d)"
    by (auto simp: confirm_native_launch_txn_def Let_def start_playing_rooms split: if_splits option.splits)
  with evolves_found [OF assms(1) r(1)] r(2) legal_step [of Connecting Start] show ?thesis by simp
qed simp

lemma evolves_exit:
  assumes "server_inv d" "confirm_native_exit_txn env rid code d = Ok (x, d')"
  shows "evolves legal (db_rooms d) (db_rooms d')"
proof -
  from assms(2) obtain h s k where l: "locked_room env d rid = Ok (h, s, k)"
    by (auto simp: confirm_native_exit_txn_def split: sum.splits)
  from locked_roomD [OF l] obtain r where r: "find_room d rid = Some r" "s = r_state r" by blast
  have "db_rooms d' = db_rooms d \<or> s = Connecting \<and> db_rooms d' = moves_to rid Cancelled None (db_rooms d)
    \<or> s = Playing \<and> db_rooms d' = moves_to rid Finished None (db_rooms d)"
    using assms(2) unfolding confirm_native_exit_txn_def l Let_def sum.case prod.case
    by (cases s) (auto simp: row_simps fail_before_start_def finish_match_def split: if_splits)
  then show ?thesis
    using evolves_found [OF assms(1) r(1)] r(2) legal_step [of Connecting Cancel] legal_step [of Playing Finish]
    by auto
qed

lemma cancel_waiting_rooms:
  "db_rooms (cancel_waiting env game d) =
     upd_where (\<lambda>r. r_host r = q_user env \<and> r_game r = game \<and> r_state r = Waiting) (\<lambda>r. r\<lparr>r_state := Cancelled\<rparr>) (db_rooms d)"
  by (simp add: cancel_waiting_def Let_def row_simps)

lemma evolves_accept_challenge:
  assumes "server_inv d" "accept_challenge_txn env cid d = Ok (x, d')"
  shows "evolves legal (db_rooms d) (db_rooms d')"
proof (cases "db_rooms d' = db_rooms d")
  case False
  from assms(2) obtain c r where l: "locked_challenge env d cid = Ok (c, r)"
    by (auto simp: accept_challenge_txn_def split: sum.splits)
  note lc = locked_challengeD [OF l]
  from False assms(2) l have ch: "r_state r = Challenging"
    by (auto simp: accept_challenge_txn_def split: if_splits sum.splits)
  from False assms(2) l ch obtain t where d': "db_rooms d' = moves_to (c_room c) Connecting t (db_rooms (cancel_waiting env (r_game r) d))"
    by (auto simp: accept_challenge_txn_def Let_def row_simps insert_memberD split: if_splits sum.splits)
  have only: "y = r" if "y \<in> set (db_rooms d)" "r_id y = c_room c" for y
    using found_only [OF assms(1)] lc that by blast
  show ?thesis
    unfolding d' cancel_waiting_rooms
    by (rule evolves_two) (use only ch legal_step [of Challenging Accept] in \<open>auto intro: legal_cancel\<close>)
qed simp

lemma evolves_join_invite:
  assumes "server_inv d" "join_invite_txn env hash d = Ok (rid, d')"
  shows "evolves legal (db_rooms d) (db_rooms d')"
proof -
  from assms(2) obtain i r where rid: "rid = i_room i" and r: "find_room d rid = Some r"
    and i: "find (invite_redeemable env hash) (db_invites d) = Some i"
    by (auto simp: join_invite_txn_def Let_def split: option.splits if_splits sum.splits)
  from assms(2) i r rid obtain nxt t where t: "transition (r_state r) Accept = Ok nxt"
    and d': "db_rooms d' = moves_to rid nxt t (db_rooms (cancel_other_waiting env (r_game r) rid d))"
    by (auto simp: join_invite_txn_def Let_def row_simps insert_memberD split: if_splits sum.splits)
  have only: "y = r" if "y \<in> set (db_rooms d)" "r_id y = rid" for y
    using found_only [OF assms(1) r] that by blast
  have rooms: "db_rooms (cancel_other_waiting env (r_game r) rid d) =
      upd_where (\<lambda>q. r_host q = q_user env \<and> r_game q = r_game r \<and> r_state q = Waiting \<and> r_id q \<noteq> rid)
        (\<lambda>q. q\<lparr>r_state := Cancelled, r_deadline := None\<rparr>) (db_rooms d)"
    by (simp add: cancel_other_waiting_def Let_def row_simps)
  show ?thesis
    unfolding d' rooms
    by (rule evolves_two) (use only legal_step [OF t] in \<open>auto intro: legal_cancel\<close>)
qed

lemma evolves_create_challenge:
  assumes "create_challenge_txn env req rid aid cid d = Ok (x, d')"
  shows "evolves legal (db_rooms d) (db_rooms d')"
proof -
  from assms obtain r where "db_rooms d' = db_rooms (cancel_waiting env (ccr_game_id req) (expire_pending env d)) @ [r]"
    by (auto simp: create_challenge_txn_def Let_def row_simps insert_roomD insert_memberD insert_attemptD
        dest!: insert_challengeD split: if_splits sum.splits option.splits)
  then show ?thesis
    by (auto simp: cancel_waiting_rooms expire_pending_def row_simps intro!: evolves_append evolves_upd legal_cancel)
qed

lemma evolves_receipt:
  assumes "create_receipt_txn env al ids source key d = Ok (y, d')"
  shows "evolves legal (db_rooms d) (db_rooms d')"
proof (cases "d' = d")
  case False
  with assms obtain game route payload where
    "continue_match env al ids source game key route d = Ok (payload, d')"
    by (auto simp: create_receipt_txn_def split: option.splits if_splits sum.splits)
  then obtain r where "db_rooms d' = upd_where (\<lambda>q. r_host q = q_user env \<and> r_game q = game \<and> r_state q = Waiting)
      (\<lambda>q. q\<lparr>r_state := Cancelled\<rparr>) (db_rooms d) @ [r]"
    by (auto simp: continue_match_def Let_def insert_roomD insert_memberD insert_attemptD insert_invite_def
        insert_receipt_def insert_command_def row_simps split: sum.splits if_splits)
  then show ?thesis by (auto intro!: evolves_append evolves_upd legal_cancel)
qed simp

lemma evolves_resolve:
  assumes "resolve_challenge_txn env cid cancel d = Ok (x, d')"
  shows "evolves (\<lambda>s s'. s' = s \<or> s' = Cancelled) (db_rooms d) (db_rooms d')"
proof -
  from assms obtain rid where "db_rooms d' = moves_to rid Cancelled None (db_rooms d)"
    by (auto simp: resolve_challenge_txn_def Let_def row_simps split: if_splits sum.splits)
  then show ?thesis by (auto intro!: evolves_moves)
qed

section \<open>The database after a request\<close>

lemma accept_room_snd: "snd (accept_room env rid d) = snd (transact (accept_room_txn env rid) d)"
  by (cases "transact (accept_room_txn env rid) d") (auto simp: accept_room_def split: sum.splits bool.splits)

lemma create_challenge_snd:
  "snd (create_challenge env req rid aid cid seen d) \<in> {d, snd (transact (create_challenge_txn env req rid aid cid) d)}"
  by (auto simp: create_challenge_def Let_def split: prod.splits sum.splits)

lemma accept_challenge_snd: "snd (accept_challenge env cid d) = snd (transact (accept_challenge_txn env cid) d)"
  by (auto simp: accept_challenge_def Let_def split: prod.splits sum.splits)

lemma resolve_challenge_snd:
  "snd (resolve_challenge env cid cancel d) = snd (transact (resolve_challenge_txn env cid cancel) d)"
  by (auto simp: resolve_challenge_def Let_def split: prod.splits sum.splits)

lemma join_invite_snd:
  "snd (join_invite env al code d) \<in> {d, snd (transact (join_invite_txn env (al_hash al (to_ascii_uppercase (trim code)))) d)}"
  by (auto simp: join_invite_def Let_def split: prod.splits sum.splits)

lemma create_launch_grant_snd:
  "\<exists>local peer. snd (create_launch_grant env gx rid req d) \<in> {d, snd (transact (create_launch_grant_txn env gx rid local peer req) d)}"
  by (intro exI [of _ "the (gx_parse gx (lg_local_endpoint req))"] exI [of _ "the (gx_parse gx (lg_peer_endpoint req))"])
     (auto simp: create_launch_grant_def split: option.splits prod.splits sum.splits)

lemma transact_evolves:
  assumes "\<And>x d'. f d = Ok (x, d') \<Longrightarrow> evolves legal (db_rooms d) (db_rooms d')"
  shows "evolves legal (db_rooms d) (db_rooms (snd (transact f d)))"
  using assms by (cases "f d") auto

definition resolves_challenge :: "request \<Rightarrow> bool" where
  "resolves_challenge req \<longleftrightarrow> (case req of DeclineChallenge _ _ \<Rightarrow> True | CancelChallenge _ _ \<Rightarrow> True | _ \<Rightarrow> False)"

lemma create_room_rooms:
  "db_rooms (snd (create_room env req rid aid seen d)) \<in>
     {db_rooms d, db_rooms (snd (transact (create_room_txn env req rid aid) d))}"
  by (cases "transact (create_room_txn env req rid aid) d")
     (auto simp: create_room_def Let_def split: option.splits sum.splits bool.splits list.splits)

lemma create_launch_grant_rooms:
  "create_launch_grant_txn env gx rid local peer req d = Ok (x, d') \<Longrightarrow> db_rooms d' = db_rooms d"
  by (auto simp: create_launch_grant_txn_def insert_grant_def row_simps split: sum.splits option.splits if_splits)

lemma preflight_rooms: "submit_preflight_txn env rid p d = Ok (x, d') \<Longrightarrow> db_rooms d' = db_rooms d"
  by (auto simp: submit_preflight_txn_def Let_def upsert_preflight_def row_simps split: sum.splits if_splits)

lemma ready_rooms: "ready_to_launch_txn env rid d = Ok (x, d') \<Longrightarrow> db_rooms d' = db_rooms d"
  by (auto simp: ready_to_launch_txn_def Let_def upsert_barrier_def row_simps split: sum.splits prod.splits if_splits)

lemma serve_legal:
  assumes inv: "server_inv d" and req: "\<not> resolves_challenge req"
  shows "evolves legal (db_rooms d) (db_rooms (snd (serve req d)))"
proof (cases req)
  case (CreateRoom env r rid aid seen)
  have "evolves legal (db_rooms d) (db_rooms (snd (transact (create_room_txn env r rid aid) d)))"
    by (rule transact_evolves) (rule evolves_create_room)
  with CreateRoom create_room_rooms [of env r rid aid seen d] show ?thesis by auto
next
  case (AcceptRoom env rid)
  with evolves_accept_room [OF inv] show ?thesis by (auto simp: accept_room_snd intro: transact_evolves)
next
  case (DeclineRoom env rid)
  with evolves_change_room_state [OF inv] show ?thesis by (auto simp: decline_room_def intro: transact_evolves)
next
  case (CancelRoom env rid)
  with evolves_change_room_state [OF inv] show ?thesis by (auto simp: cancel_room_def intro: transact_evolves)
next
  case (StartRoom env rid)
  with evolves_launch [OF inv] show ?thesis by (auto simp: start_room_def intro: transact_evolves)
next
  case (FinishRoom env rid code)
  with evolves_exit [OF inv] show ?thesis by (auto simp: finish_room_def intro: transact_evolves)
next
  case (CreateLaunchGrant env gx rid r)
  then obtain local peer where "snd (serve req d) \<in> {d, snd (transact (create_launch_grant_txn env gx rid local peer r) d)}"
    using create_launch_grant_snd [of env gx rid r d] by auto
  moreover have "evolves legal (db_rooms d) (db_rooms (snd (transact (create_launch_grant_txn env gx rid local peer r) d)))"
    by (rule transact_evolves) (simp add: create_launch_grant_rooms)
  ultimately show ?thesis by auto
next
  case (ConsumeLaunchGrant env hash grant)
  then have "db_rooms (snd (serve req d)) = db_rooms d"
    by (auto simp: consume_launch_grant_def split: option.splits)
  then show ?thesis by simp
next
  case (CreateChallenge env r rid aid cid seen)
  have "evolves legal (db_rooms d) (db_rooms (snd (transact (create_challenge_txn env r rid aid cid) d)))"
    by (rule transact_evolves) (rule evolves_create_challenge)
  with CreateChallenge create_challenge_snd [of env r rid aid cid seen d] show ?thesis by auto
next
  case (AcceptChallenge env cid)
  with evolves_accept_challenge [OF inv] show ?thesis by (auto simp: accept_challenge_snd intro: transact_evolves)
next
  case (CreateInvite env al fresh rid)
  then have "db_rooms (snd (serve req d)) = db_rooms d"
    by (auto simp: create_invite_def Let_def insert_invite_def row_simps split: sum.splits if_splits)
  then show ?thesis by simp
next
  case (JoinInvite env al code)
  have "evolves legal (db_rooms d) (db_rooms (snd (transact (join_invite_txn env h) d)))" for h
    by (rule transact_evolves) (rule evolves_join_invite [OF inv])
  with JoinInvite join_invite_snd [of env al code d] show ?thesis by auto
next
  case (SubmitPreflight env cfg rid p)
  have "evolves legal (db_rooms d) (db_rooms (snd (transact (submit_preflight_txn env rid p) d)))"
    by (rule transact_evolves) (simp add: preflight_rooms)
  with SubmitPreflight show ?thesis by (auto simp: submit_preflight_def split: sum.splits)
next
  case (ReadyToLaunch env cfg rid)
  have "evolves legal (db_rooms d) (db_rooms (snd (transact (ready_to_launch_txn env rid) d)))"
    by (rule transact_evolves) (simp add: ready_rooms)
  with ReadyToLaunch show ?thesis by (auto simp: ready_to_launch_def)
next
  case (CreateReceipt env al ids source key seen)
  have "evolves legal (db_rooms d) (db_rooms (snd (transact (create_receipt_txn env al ids source key) d)))"
    by (rule transact_evolves) (rule evolves_receipt)
  with CreateReceipt show ?thesis by (simp add: create_match_receipt_def split: option.splits)
next
  case (SubmitEvidence env ex)
  then have "db_rooms (snd (serve req d)) = db_rooms d"
    by (auto simp: submit_evidence_def Let_def split: sum.splits option.splits)
  then show ?thesis by simp
qed (use req in \<open>auto simp: get_room_def list_incoming_def room_snapshot_def resolves_challenge_def Let_def split: sum.splits\<close>)

lemma serve_resolve:
  assumes "resolves_challenge req"
  shows "evolves (\<lambda>s s'. s' = s \<or> s' = Cancelled) (db_rooms d) (db_rooms (snd (serve req d)))"
proof -
  have e: "evolves (\<lambda>s s'. s' = s \<or> s' = Cancelled) (db_rooms d)
      (db_rooms (snd (transact (resolve_challenge_txn env cid cancel) d)))" for env cid cancel
    using evolves_resolve [of env cid cancel d]
    by (cases "resolve_challenge_txn env cid cancel d") (auto simp: evolves_def same_identity_def)
  with assms show ?thesis
    by (cases req) (auto simp: resolves_challenge_def decline_challenge_def cancel_challenge_def resolve_challenge_snd)
qed



section \<open>Errors leave the database alone\<close>

lemma payload_ok: "is_member d rid (q_user env) \<Longrightarrow> find_room d rid \<noteq> None \<Longrightarrow> \<exists>p. fetch_room_payload env d rid (q_user env) = Ok p"
  by (auto simp: fetch_room_payload_def)

lemma then_notify_err:
  assumes "then_notify env rid (transact f d) = (Inl e, d')"
    and "\<And>x d'. f d = Ok (x, d') \<Longrightarrow> is_member d' rid (q_user env) \<and> find_room d' rid \<noteq> None"
  shows "d' = d"
proof (cases "f d")
  case (Inr y)
  obtain x d'' where y: "y = (x, d'')" by (cases y)
  with assms(2) Inr payload_ok [of d'' rid env] show ?thesis
    using assms(1) by (auto simp: then_notify_def notify_room_state_def)
qed (use assms(1) in \<open>simp add: then_notify_def\<close>)

lemma change_room_state_member:
  assumes "change_room_state_txn env rid event False d = Ok (x, d')"
  shows "is_member d' rid (q_user env) \<and> find_room d' rid \<noteq> None"
proof -
  from assms obtain h s k where l: "locked_room env d rid = Ok (h, s, k)"
    by (auto simp: change_room_state_txn_def split: sum.splits)
  from locked_roomD [OF l] obtain r where r: "find_room d rid = Some r" by blast
  from assms l have "db_members d' = db_members d" "map r_id (db_rooms d') = map r_id (db_rooms d)"
    and "is_member d rid (q_user env)"
    by (auto simp: change_room_state_txn_def Let_def row_simps moves_to_def map_upd_where split: if_splits sum.splits)
  with r show ?thesis by (simp add: is_member_def find_room_ids [of d' d])
qed

lemma accept_room_err:
  assumes inv: "server_inv d" and acc: "accept_room env rid d = (Inl e, d')"
  shows "d' = d"
proof (cases "accept_room_txn env rid d")
  case (Inr y)
  obtain b d'' where y: "y = (b, d'')" by (cases y)
  from Inr y have t: "accept_room_txn env rid d = Ok (b, d'')" by simp
  from t obtain h s k where l: "locked_room env d rid = Ok (h, s, k)"
    by (auto simp: accept_room_txn_def split: sum.splits)
  from locked_roomD [OF l] obtain r where r: "find_room d rid = Some r" by blast
  have "map r_id (db_rooms d'') = map r_id (db_rooms d)"
    using t l by (auto simp: accept_room_txn_def Let_def row_simps moves_to_def map_upd_where insert_memberD
        split: if_splits sum.splits)
  then have "find_room d'' rid \<noteq> None" using r find_room_ids [of d'' d rid] by simp
  with inv_accept_room_txn [OF inv t] payload_ok [of d'' rid env] acc Inr y show ?thesis
    by (cases b) (auto simp: accept_room_def room_reply_def then_notify_def notify_room_state_def)
qed (use acc in \<open>simp add: accept_room_def\<close>)

lemma find_room_exists: "find_room d rid \<noteq> None \<longleftrightarrow> rid \<in> r_id ` set (db_rooms d)"
  by (auto simp: find_room_def find_None_iff)

lemma create_room_member:
  assumes "create_room_txn env req rid aid d = Ok (True, d')"
  shows "is_member d' rid (q_user env) \<and> find_room d' rid \<noteq> None"
proof -
  from assms obtain d1 d2 where
    d1: "insert_room (new_room env rid aid (crq_game_id req) Waiting (crq_max_players req) (q_now env + hours 24)) d = Ok d1"
    and d2: "insert_member rid (q_user env) (q_now env) d1 = Ok d2"
    and d': "db_rooms d' = db_rooms d2" "db_members d' = db_members d2"
    by (auto simp: create_room_txn_def Let_def row_simps insert_attemptD split: if_splits sum.splits)
  from d2 d' have "is_member d' rid (q_user env)" "db_rooms d' = db_rooms d1"
    by (simp_all add: insert_memberD is_member_def)
  moreover from d1 have "rid \<in> r_id ` set (db_rooms d1)" by (simp add: insert_roomD new_room_def)
  ultimately show ?thesis using find_room_exists [of d' rid] by simp
qed

lemma create_room_err:
  assumes c: "create_room env req rid aid seen d = (Inl e, d')"
  shows "d' = d"
proof (cases "create_room_txn env req rid aid d")
  case (Inr y)
  obtain b d'' where y: "y = (b, d'')" by (cases y)
  show ?thesis
  proof (cases b)
    case True
    note m = create_room_member [of env req rid aid d d'']
    have "is_member (d''\<lparr>db_rooms_created := n\<rparr>) rid (q_user env)"
      "find_room (d''\<lparr>db_rooms_created := n\<rparr>) rid \<noteq> None" for n
      using m Inr y True by (simp_all add: is_member_def find_room_def)
    with payload_ok have "\<exists>p. fetch_room_payload env (d''\<lparr>db_rooms_created := n\<rparr>) rid (q_user env) = Ok p" for n by blast
    with c Inr y True show ?thesis
      by (auto simp: create_room_def room_reply_def Let_def split: if_splits option.splits sum.splits)
        (metis sum.distinct(1))
  next
    case False
    with Inr y have "d'' = d" by (auto simp: create_room_txn_def Let_def split: if_splits sum.splits)
    with c Inr y False show ?thesis
      by (auto simp: create_room_def Let_def split: if_splits option.splits list.splits)
  qed
qed (use c in \<open>auto simp: create_room_def Let_def split: if_splits option.splits\<close>)

lemma then_snapshot_err:
  assumes "then_snapshot env cfg rid ty (transact f d) = (Inl e, d')"
    and "\<And>x d'. f d = Ok (x, d') \<Longrightarrow> is_member d' rid (q_user env) \<and> find_room d' rid \<noteq> None"
  shows "d' = d"
proof (cases "f d")
  case (Inr y)
  obtain x d'' where y: "y = (x, d'')" by (cases y)
  with assms(2) Inr payload_ok [of d'' rid env] show ?thesis
    using assms(1) by (auto simp: then_snapshot_def build_snapshot_def Let_def)
qed (use assms(1) in \<open>simp add: then_snapshot_def\<close>)

lemma lock_active_attemptD:
  "lock_active_attempt env d rid = Ok a \<Longrightarrow> is_member d rid (q_user env) \<and> find_room d rid \<noteq> None"
  by (auto simp: lock_active_attempt_def split: option.splits if_splits)

lemma preflight_member:
  "submit_preflight_txn env rid p d = Ok (x, d') \<Longrightarrow> is_member d' rid (q_user env) \<and> find_room d' rid \<noteq> None"
  by (auto simp: submit_preflight_txn_def Let_def upsert_preflight_def row_simps is_member_def find_room_def
      dest!: lock_active_attemptD split: sum.splits if_splits)

lemma ready_member:
  "ready_to_launch_txn env rid d = Ok (x, d') \<Longrightarrow> is_member d' rid (q_user env) \<and> find_room d' rid \<noteq> None"
  by (auto simp: ready_to_launch_txn_def Let_def upsert_barrier_def row_simps is_member_def find_room_def
      dest!: lock_active_attemptD split: sum.splits prod.splits if_splits)

lemma join_invite_err:
  assumes inv: "server_inv d" and j: "join_invite env al code d = (Inl e, d')"
  shows "d' = d"
proof -
  define hash where "hash = al_hash al (to_ascii_uppercase (trim code))"
  show ?thesis
  proof (cases "join_invite_txn env hash d")
    case (Inr y)
    obtain rid d'' where y: "y = (rid, d'')" by (cases y)
    with Inr inv_join_invite_txn [OF inv, of env hash rid d''] payload_ok [of d'' rid env] j show ?thesis
      by (auto simp: join_invite_def Let_def hash_def then_notify_def notify_room_state_def split: if_splits)
  qed (use j in \<open>auto simp: join_invite_def Let_def hash_def split: if_splits\<close>)
qed

lemma transact_err: "transact f d = (Inl e, d') \<Longrightarrow> d' = d"
  by (cases "f d") auto

lemma serve_err:
  assumes inv: "server_inv d" and err: "serve req d = (Inl e, d')"
  shows "d' = d"
proof (cases req)
  case (CreateRoom env r rid aid seen)
  with err create_room_err show ?thesis by simp
next
  case (AcceptRoom env rid)
  with err accept_room_err [OF inv] show ?thesis by simp
next
  case (DeclineRoom env rid)
  with err then_notify_err change_room_state_member show ?thesis by (metis decline_room_def serve.simps(4))
next
  case (CancelRoom env rid)
  with err then_notify_err change_room_state_member show ?thesis by (metis cancel_room_def serve.simps(5))
next
  case (StartRoom env rid)
  with err then_notify_err inv_confirm_native_launch [OF inv] show ?thesis by (metis start_room_def serve.simps(6))
next
  case (FinishRoom env rid code)
  with err then_notify_err inv_confirm_native_exit [OF inv] show ?thesis by (metis finish_room_def serve.simps(7))
next
  case (CreateLaunchGrant env gx rid r)
  with err show ?thesis
    by (auto simp: create_launch_grant_def dest: transact_err split: option.splits prod.splits sum.splits if_splits)
next
  case (ConsumeLaunchGrant env hash grant)
  with err show ?thesis by (auto simp: consume_launch_grant_def split: option.splits if_splits)
next
  case (CreateChallenge env r rid aid cid seen)
  with err show ?thesis
    by (auto simp: create_challenge_def Let_def dest: transact_err split: prod.splits sum.splits if_splits)
next
  case (AcceptChallenge env cid)
  with err show ?thesis
    by (auto simp: accept_challenge_def Let_def dest: transact_err split: prod.splits sum.splits)
next
  case (DeclineChallenge env cid)
  with err show ?thesis
    by (auto simp: decline_challenge_def resolve_challenge_def Let_def dest: transact_err split: prod.splits sum.splits)
next
  case (CancelChallenge env cid)
  with err show ?thesis
    by (auto simp: cancel_challenge_def resolve_challenge_def Let_def dest: transact_err split: prod.splits sum.splits)
next
  case (CreateInvite env al fresh rid)
  with err show ?thesis by (auto simp: create_invite_def Let_def split: sum.splits if_splits)
next
  case (JoinInvite env al code)
  with err join_invite_err [OF inv] show ?thesis by simp
next
  case (SubmitPreflight env cfg rid p)
  with err show ?thesis
    by (auto simp: submit_preflight_def dest: then_snapshot_err [OF _ preflight_member] split: sum.splits if_splits)
next
  case (ReadyToLaunch env cfg rid)
  with err show ?thesis
    by (auto simp: ready_to_launch_def dest: then_snapshot_err [OF _ ready_member])
next
  case (CreateReceipt env al ids source key seen)
  with err show ?thesis
    by (auto simp: create_match_receipt_def dest: transact_err split: option.splits)
next
  case (SubmitEvidence env ex)
  with err show ?thesis
    by (auto simp: submit_evidence_def Let_def split: sum.splits option.splits if_splits)
qed (use err in \<open>auto simp: get_room_def list_incoming_def room_snapshot_def Let_def split: sum.splits\<close>)



end
