(* ===== verification/Server_Relations.thy ===== *)
theory Server_Relations
  imports Server_History
begin

text \<open>
  What the transactions of the server have in common: a relation between the database before and
  after, shown once per transaction, holds for every request and every reconciler pass, and a
  reflexive and transitive one along whole runs.  Two instances: how the membership of a room
  grows, and which rows are never taken back.
\<close>

locale request_relation =
  fixes Q :: "db \<Rightarrow> db \<Rightarrow> bool"
  assumes same: "Q d d"
    and counter: "Q d d' \<Longrightarrow> Q d (d'\<lparr>db_rooms_created := n\<rparr>)"
    and create_room: "server_inv d \<Longrightarrow> create_room_txn env req rid aid d = Ok (b, d') \<Longrightarrow> Q d d'"
    and accept_room: "server_inv d \<Longrightarrow> accept_room_txn env rid d = Ok (b, d') \<Longrightarrow> Q d d'"
    and change: "server_inv d \<Longrightarrow> change_room_state_txn env rid ev host_only d = Ok (x, d') \<Longrightarrow> Q d d'"
    and launch: "server_inv d \<Longrightarrow> confirm_native_launch_txn env rid d = Ok (x, d') \<Longrightarrow> Q d d'"
    and exit: "server_inv d \<Longrightarrow> confirm_native_exit_txn env rid code d = Ok (x, d') \<Longrightarrow> Q d d'"
    and grant: "server_inv d \<Longrightarrow> create_launch_grant_txn env gx rid local peer lreq d = Ok (x, d') \<Longrightarrow> Q d d'"
    and consume: "Q d (snd (consume_launch_grant env hash g d))"
    and create_challenge: "server_inv d \<Longrightarrow> create_challenge_txn env creq rid aid cid d = Ok (x, d') \<Longrightarrow> Q d d'"
    and accept_challenge: "server_inv d \<Longrightarrow> accept_challenge_txn env cid d = Ok (y, d') \<Longrightarrow> Q d d'"
    and resolve: "server_inv d \<Longrightarrow> resolve_challenge_txn env cid cancel d = Ok (z, d') \<Longrightarrow> Q d d'"
    and invite: "Q d (snd (create_invite env al fresh rid d))"
    and join: "server_inv d \<Longrightarrow> join_invite_txn env h d = Ok (rid, d') \<Longrightarrow> Q d d'"
    and preflight: "submit_preflight_txn env rid p d = Ok (x, d') \<Longrightarrow> Q d d'"
    and ready: "ready_to_launch_txn env rid d = Ok (x, d') \<Longrightarrow> Q d d'"
    and receipt: "server_inv d \<Longrightarrow> create_receipt_txn env al ids source key d = Ok (r, d') \<Longrightarrow> Q d d'"
    and evidence: "Q d (snd (submit_evidence env ex d))"
    and reconcile: "server_inv d \<Longrightarrow> Q d (fst (reconcile_expired now busy d))"
begin

lemma of_txn: "(\<And>x d'. f d = Ok (x, d') \<Longrightarrow> Q d d') \<Longrightarrow> Q d (snd (transact f d))"
  using same by (cases "f d") auto

lemma of_create_room: "server_inv d \<Longrightarrow> Q d (snd (Room_Routes.create_room env req rid aid seen d))"
proof -
  assume inv: "server_inv d"
  have "Q d (snd (transact (create_room_txn env req rid aid) d))"
    by (rule of_txn) (rule create_room [OF inv])
  then show ?thesis
    using same counter
    by (cases "transact (create_room_txn env req rid aid) d")
       (auto simp: create_room_def Let_def split: option.splits sum.splits bool.splits list.splits)
qed

lemma of_serve: "server_inv d \<Longrightarrow> Q d (snd (serve req d))"
proof (cases req)
  case (CreateRoom env r rid aid seen)
  assume "server_inv d"
  with of_create_room CreateRoom show ?thesis by simp
next
  case (AcceptRoom env rid)
  assume "server_inv d"
  with AcceptRoom show ?thesis by (auto simp: accept_room_snd intro: of_txn accept_room)
next
  case (DeclineRoom env rid)
  assume "server_inv d"
  with DeclineRoom show ?thesis by (auto simp: decline_room_def intro: of_txn change)
next
  case (CancelRoom env rid)
  assume "server_inv d"
  with CancelRoom show ?thesis by (auto simp: cancel_room_def intro: of_txn change)
next
  case (StartRoom env rid)
  assume "server_inv d"
  with StartRoom show ?thesis by (auto simp: start_room_def intro: of_txn launch)
next
  case (FinishRoom env rid code)
  assume "server_inv d"
  with FinishRoom show ?thesis by (auto simp: finish_room_def intro: of_txn exit)
next
  case (CreateLaunchGrant env gx rid r)
  assume inv: "server_inv d"
  from CreateLaunchGrant obtain local peer
    where "snd (serve req d) \<in> {d, snd (transact (create_launch_grant_txn env gx rid local peer r) d)}"
    using create_launch_grant_snd [of env gx rid r d] by auto
  moreover have "Q d (snd (transact (create_launch_grant_txn env gx rid local peer r) d))"
    by (rule of_txn) (rule grant [OF inv])
  ultimately show ?thesis using same by auto
next
  case (CreateChallenge env r rid aid cid seen)
  assume inv: "server_inv d"
  have "Q d (snd (transact (create_challenge_txn env r rid aid cid) d))"
    by (rule of_txn) (rule create_challenge [OF inv])
  with CreateChallenge create_challenge_snd [of env r rid aid cid seen d] same show ?thesis by auto
next
  case (AcceptChallenge env cid)
  assume "server_inv d"
  with AcceptChallenge show ?thesis by (auto simp: accept_challenge_snd intro: of_txn accept_challenge)
next
  case (DeclineChallenge env cid)
  assume "server_inv d"
  with DeclineChallenge show ?thesis
    by (auto simp: decline_challenge_def resolve_challenge_snd intro: of_txn resolve)
next
  case (CancelChallenge env cid)
  assume "server_inv d"
  with CancelChallenge show ?thesis
    by (auto simp: cancel_challenge_def resolve_challenge_snd intro: of_txn resolve)
next
  case (JoinInvite env al code)
  assume inv: "server_inv d"
  have "Q d (snd (transact (join_invite_txn env h) d))" for h
    by (rule of_txn) (rule join [OF inv])
  with JoinInvite join_invite_snd [of env al code d] same show ?thesis by auto
next
  case (SubmitPreflight env cfg rid p)
  have "Q d (snd (transact (submit_preflight_txn env rid p) d))"
    by (rule of_txn) (rule preflight)
  with SubmitPreflight same show ?thesis by (auto simp: submit_preflight_def split: sum.splits)
next
  case (ReadyToLaunch env cfg rid)
  then show ?thesis by (auto simp: ready_to_launch_def intro: of_txn ready)
next
  case (CreateReceipt env al ids source key seen)
  assume inv: "server_inv d"
  have "Q d (snd (transact (create_receipt_txn env al ids source key) d))"
    by (rule of_txn) (rule receipt [OF inv])
  with CreateReceipt same show ?thesis by (simp add: create_match_receipt_def split: option.splits)
qed (use same consume invite evidence in \<open>auto simp: get_room_def list_incoming_def room_snapshot_def Let_def split: sum.splits\<close>)

lemma of_step: "server_inv d \<Longrightarrow> server_step d d' \<Longrightarrow> Q d d'"
  by (auto elim!: server_stepE intro: of_serve reconcile)

lemma of_run:
  assumes "server_step\<^sup>*\<^sup>* d d'" "server_inv d" "\<And>a b c. Q a b \<Longrightarrow> Q b c \<Longrightarrow> Q a c"
  shows "Q d d'"
  using assms(1)
proof (induction rule: rtranclp_induct)
  case base
  show ?case by (rule same)
next
  case (step b c)
  from server.steps_inv [OF assms(2) step(1)] step(2) have "Q b c" by (rule of_step)
  with step.IH show ?case by (rule assms(3))
qed

end

end
