(* ===== verification/Server_Refinement.thy ===== *)
theory Server_Refinement
  imports Server_Relations
begin

text \<open>
  The rooms of the server refine a small abstract protocol: a room is opened by its host, joined by
  one guest, played, finished, or cancelled.  The abstraction forgets every table but the rooms
  and their members.
\<close>

section \<open>The abstract protocol\<close>

record abs_room =
  ar_host :: uuid
  ar_guest :: "uuid option"
  ar_state :: room_state

inductive abs_step :: "abs_room option \<Rightarrow> abs_room option \<Rightarrow> bool" where
  abs_open: "s = Waiting \<or> s = Challenging \<Longrightarrow>
    abs_step None (Some \<lparr>ar_host = h, ar_guest = None, ar_state = s\<rparr>)"
| abs_join: "s = Waiting \<or> s = Challenging \<Longrightarrow> g \<noteq> h \<Longrightarrow>
    abs_step (Some \<lparr>ar_host = h, ar_guest = None, ar_state = s\<rparr>)
      (Some \<lparr>ar_host = h, ar_guest = Some g, ar_state = Connecting\<rparr>)"
| abs_start: "abs_step (Some \<lparr>ar_host = h, ar_guest = Some g, ar_state = Connecting\<rparr>)
      (Some \<lparr>ar_host = h, ar_guest = Some g, ar_state = Playing\<rparr>)"
| abs_finish: "abs_step (Some \<lparr>ar_host = h, ar_guest = Some g, ar_state = Playing\<rparr>)
      (Some \<lparr>ar_host = h, ar_guest = Some g, ar_state = Finished\<rparr>)"
| abs_cancel: "s \<noteq> Cancelled \<Longrightarrow>
    abs_step (Some \<lparr>ar_host = h, ar_guest = g, ar_state = s\<rparr>)
      (Some \<lparr>ar_host = h, ar_guest = g, ar_state = Cancelled\<rparr>)"

section \<open>The abstraction\<close>

definition guest_of :: "uuid list \<Rightarrow> uuid \<Rightarrow> uuid option" where
  "guest_of us h = (case removeAll h us of [] \<Rightarrow> None | g # _ \<Rightarrow> Some g)"

definition abs_room_of :: "db \<Rightarrow> uuid \<Rightarrow> abs_room option" where
  "abs_room_of d rid = map_option
     (\<lambda>r. \<lparr>ar_host = r_host r, ar_guest = guest_of (members_of d rid) (r_host r), ar_state = r_state r\<rparr>)
     (find_room d rid)"

section \<open>How membership grows\<close>

text \<open>The members table is unchanged, or one row is appended: for a new room, or for a room that
  becomes CONNECTING.  New rooms are WAITING or CHALLENGING.\<close>

definition unstarted :: "room_state \<Rightarrow> bool" where
  "unstarted s \<longleftrightarrow> s = Waiting \<or> s = Challenging"

definition new_unstarted :: "room_row list \<Rightarrow> room_row list \<Rightarrow> bool" where
  "new_unstarted R R' \<longleftrightarrow> (\<forall>r \<in> set R'. r_id r \<notin> r_id ` set R \<longrightarrow> unstarted (r_state r))"

definition joins :: "room_row list \<Rightarrow> room_row list \<Rightarrow> uuid \<Rightarrow> bool" where
  "joins R R' rid \<longleftrightarrow> rid \<notin> r_id ` set R
     \<or> (\<exists>r \<in> set R. r_id r = rid \<and> unstarted (r_state r))
        \<and> (\<forall>r \<in> set R'. r_id r = rid \<longrightarrow> r_state r = Connecting)"

definition grows :: "db \<Rightarrow> db \<Rightarrow> bool" where
  "grows d d' \<longleftrightarrow> new_unstarted (db_rooms d) (db_rooms d')
     \<and> (db_members d' = db_members d
        \<or> (\<exists>m. db_members d' = db_members d @ [m] \<and> joins (db_rooms d) (db_rooms d') (m_room m)))"

lemma new_unstarted_refl [simp]: "new_unstarted R R"
  by (simp add: new_unstarted_def)

lemma same_room_state [simp]: "same_room (r_state_update f)"
  by (simp add: same_room_def)

lemma ids_upd: "same_room f \<Longrightarrow> r_id ` set (upd_where p f R) = r_id ` set R"
  unfolding set_map [symmetric] by (subst map_upd_where) (simp_all add: same_room_def)

lemma moves_ids: "r_id ` set (moves_to rid s t R) = r_id ` set R"
  unfolding moves_to_def by (rule ids_upd) simp

lemma new_unstarted_ids: "r_id ` set R' = r_id ` set R \<Longrightarrow> new_unstarted R R'"
  by (force simp: new_unstarted_def)

lemma new_unstarted_upd [simp]: "same_room f \<Longrightarrow> new_unstarted R (upd_where p f R)"
  by (rule new_unstarted_ids) (rule ids_upd)

lemma new_unstarted_moves [simp]: "new_unstarted R (moves_to rid s t R)"
  by (simp add: moves_to_def)

lemma new_unstarted_append: "new_unstarted R R' \<Longrightarrow> unstarted (r_state r) \<Longrightarrow> new_unstarted R (R' @ [r])"
  by (auto simp: new_unstarted_def)

lemma new_unstarted_two [simp]: "same_room f \<Longrightarrow> new_unstarted R (moves_to rid s t (upd_where p f R))"
  by (rule new_unstarted_ids) (simp only: moves_ids ids_upd)

lemma moves_state: "r \<in> set (moves_to rid s t R) \<Longrightarrow> r_id r = rid \<Longrightarrow> r_state r = s"
proof -
  assume r: "r \<in> set (moves_to rid s t R)" "r_id r = rid"
  from r(1) obtain q where "r = (if r_id q = rid then q\<lparr>r_state := s, r_deadline := t\<rparr> else q)"
    unfolding moves_to_def set_upd_where by (rule imageE)
  with r(2) show ?thesis by (cases "r_id q = rid") simp_all
qed

lemma grows_rooms: "db_members d' = db_members d \<Longrightarrow> new_unstarted (db_rooms d) (db_rooms d') \<Longrightarrow> grows d d'"
  by (simp add: grows_def)

lemma grows_join:
  assumes "db_members d' = db_members d @ [\<lparr>m_room = rid, m_user = u, m_joined = t\<rparr>]"
    and "find_room d rid = Some r" "unstarted (r_state r)"
    and "db_rooms d' = moves_to rid Connecting x R" "new_unstarted (db_rooms d) (db_rooms d')"
  shows "grows d d'"
proof -
  have "joins (db_rooms d) (db_rooms d') rid"
    using assms(3) find_roomD [OF assms(2)] moves_state [of _ rid Connecting x R]
    by (auto simp: joins_def assms(4))
  with assms(1,5) show ?thesis by (simp add: grows_def)
qed

lemma grows_new:
  assumes "db_members d' = db_members d @ [\<lparr>m_room = r_id r, m_user = u, m_joined = t\<rparr>]"
    and "db_rooms d' = R @ [r]" "r_id r \<notin> r_id ` set (db_rooms d)" "unstarted (r_state r)"
    and "new_unstarted (db_rooms d) R"
  shows "grows d d'"
  using assms by (auto simp: grows_def joins_def intro!: new_unstarted_append)

section \<open>Every transaction grows the membership this way\<close>

lemma accept_unstarted: "transition s Accept = Ok nxt \<Longrightarrow> unstarted s \<and> nxt = Connecting"
  using accept_state by (simp add: unstarted_def)

lemma grows_create_room:
  assumes "create_room_txn env req rid aid d = Ok (b, d')"
  shows "grows d d'"
proof (cases b)
  case True
  let ?r = "new_room env rid aid (crq_game_id req) Waiting (crq_max_players req) (q_now env + hours 24)"
  from True assms have "db_rooms d' = db_rooms d @ [?r]" "rid \<notin> r_id ` set (db_rooms d)"
    and "db_members d' = db_members d @ [\<lparr>m_room = rid, m_user = q_user env, m_joined = q_now env\<rparr>]"
    by (auto simp: create_room_txn_def Let_def insert_roomD insert_memberD insert_attemptD row_simps new_room_def
        split: if_splits sum.splits)
  then show ?thesis
    by (intro grows_new [where r = ?r and R = "db_rooms d"]) (simp_all add: new_room_def unstarted_def)
next
  case False
  with assms have "d' = d" by (auto simp: create_room_txn_def Let_def split: if_splits sum.splits)
  then show ?thesis by (simp add: grows_rooms)
qed

lemma grows_accept_room:
  assumes "accept_room_txn env rid d = Ok (b, d')"
  shows "grows d d'"
proof (cases b)
  case True
  with assms show ?thesis by (auto simp: accept_room_txn_def Let_def grows_rooms split: if_splits sum.splits)
next
  case False
  from assms obtain h s k where l: "locked_room env d rid = Ok (h, s, k)"
    by (auto simp: accept_room_txn_def split: sum.splits)
  from locked_roomD [OF l] obtain r where r: "find_room d rid = Some r" "s = r_state r" by blast
  from False assms l obtain nxt t where nxt: "transition s Accept = Ok nxt"
    and rooms: "db_rooms d' = moves_to rid nxt t (db_rooms d)"
    and members: "db_members d' = db_members d \<or>
      db_members d' = db_members d @ [\<lparr>m_room = rid, m_user = q_user env, m_joined = q_now env\<rparr>]"
    by (auto simp: accept_room_txn_def Let_def row_simps insert_memberD split: if_splits sum.splits)
  note a = accept_unstarted [OF nxt]
  from members show ?thesis
  proof
    assume "db_members d' = db_members d"
    with rooms show ?thesis by (simp add: grows_rooms)
  next
    assume "db_members d' = db_members d @ [\<lparr>m_room = rid, m_user = q_user env, m_joined = q_now env\<rparr>]"
    from grows_join [OF this r(1)] a r(2) rooms show ?thesis by simp
  qed
qed

lemma grows_accept_challenge:
  assumes "accept_challenge_txn env cid d = Ok (x, d')"
  shows "grows d d'"
proof -
  from assms obtain c r where l: "locked_challenge env d cid = Ok (c, r)"
    by (auto simp: accept_challenge_txn_def split: sum.splits)
  note lc = locked_challengeD [OF l]
  have "d' = d \<or> (\<exists>t. r_state r = Challenging
      \<and> db_members d' = db_members d @ [\<lparr>m_room = c_room c, m_user = q_user env, m_joined = q_now env\<rparr>]
      \<and> db_rooms d' = moves_to (c_room c) Connecting t (db_rooms (cancel_waiting env (r_game r) d)))"
    using assms l
    by (auto simp: accept_challenge_txn_def Let_def row_simps insert_memberD split: if_splits sum.splits)
  then show ?thesis
  proof
    assume "\<exists>t. r_state r = Challenging
      \<and> db_members d' = db_members d @ [\<lparr>m_room = c_room c, m_user = q_user env, m_joined = q_now env\<rparr>]
      \<and> db_rooms d' = moves_to (c_room c) Connecting t (db_rooms (cancel_waiting env (r_game r) d))"
    with lc show ?thesis
      by (auto simp: cancel_waiting_rooms unstarted_def intro!: grows_join)
  qed (simp add: grows_rooms)
qed

lemma grows_join_invite:
  assumes "join_invite_txn env hash d = Ok (rid, d')"
  shows "grows d d'"
proof -
  from assms obtain i r where rid: "rid = i_room i" and r: "find_room d rid = Some r"
    and i: "find (invite_redeemable env hash) (db_invites d) = Some i"
    by (auto simp: join_invite_txn_def Let_def split: option.splits if_splits sum.splits)
  from assms i r rid obtain nxt t where t: "transition (r_state r) Accept = Ok nxt"
    and m: "db_members d' = db_members d @ [\<lparr>m_room = rid, m_user = q_user env, m_joined = q_now env\<rparr>]"
    and d': "db_rooms d' = moves_to rid nxt t (db_rooms (cancel_other_waiting env (r_game r) rid d))"
    by (auto simp: join_invite_txn_def Let_def row_simps insert_memberD split: if_splits sum.splits)
  note a = accept_unstarted [OF t]
  have "new_unstarted (db_rooms d) (db_rooms d')"
    unfolding d' by (simp add: cancel_other_waiting_def Let_def row_simps)
  with grows_join [OF m r] a d' show ?thesis by simp
qed

lemma grows_create_challenge:
  assumes "create_challenge_txn env req rid aid cid d = Ok (x, d')"
  shows "grows d d'"
proof -
  let ?R = "db_rooms (cancel_waiting env (ccr_game_id req) (expire_pending env d))"
  let ?r = "new_room env rid aid (ccr_game_id req) Challenging 2 (q_now env + minutes 5)"
  from assms have "db_rooms d' = ?R @ [?r]"
    and "db_members d' = db_members d @ [\<lparr>m_room = rid, m_user = q_user env, m_joined = q_now env\<rparr>]"
    and "rid \<notin> r_id ` set ?R"
    by (auto simp: create_challenge_txn_def Let_def row_simps insert_roomD insert_memberD insert_attemptD
        expire_pending_def new_room_def dest!: insert_challengeD split: if_splits sum.splits option.splits)
  moreover have "?R = upd_where (\<lambda>r. r_host r = q_user env \<and> r_game r = ccr_game_id req \<and> r_state r = Waiting)
      (\<lambda>r. r\<lparr>r_state := Cancelled\<rparr>) (db_rooms d)"
    by (simp add: cancel_waiting_rooms expire_pending_def row_simps)
  ultimately show ?thesis
    by (intro grows_new [where r = ?r and R = ?R]) (simp_all add: new_room_def unstarted_def ids_upd)
qed

lemma grows_receipt:
  assumes "create_receipt_txn env al ids source key d = Ok (y, d')"
  shows "grows d d'"
proof (cases "d' = d")
  case False
  with assms obtain game route payload where
    c: "continue_match env al ids source game key route d = Ok (payload, d')"
    by (auto simp: create_receipt_txn_def split: option.splits if_splits sum.splits)
  let ?R = "upd_where (\<lambda>q. r_host q = q_user env \<and> r_game q = game \<and> r_state q = Waiting)
      (\<lambda>q. q\<lparr>r_state := Cancelled\<rparr>) (db_rooms d)"
  let ?r = "new_room env (ri_room ids) (ri_attempt ids) game Waiting 2 (q_now env + hours 24)"
  from c obtain d0 d1 d2 d3 i d4 x d5 k where i: "insert_room ?r d0 = Ok d1"
      "insert_member (ri_room ids) (q_user env) (q_now env) d1 = Ok d2"
      "insert_attempt (ri_attempt ids) (ri_room ids) (q_now env + hours 24) d2 = Ok d3"
      "insert_invite i d3 = Ok d4" "insert_receipt x d4 = Ok d5" "insert_command k d5 = Ok d'"
    and d0: "db_rooms d0 = ?R" "db_members d0 = db_members d"
    by (auto simp: continue_match_def Let_def row_simps split: sum.splits)
  from i(4-6) have "db_rooms d' = db_rooms d3" "db_members d' = db_members d3"
    by (auto simp: insert_invite_def insert_receipt_def insert_command_def split: if_splits)
  with i(1-3) d0 have "db_rooms d' = ?R @ [?r]" "ri_room ids \<notin> r_id ` set ?R"
    and "db_members d' = db_members d @ [\<lparr>m_room = ri_room ids, m_user = q_user env, m_joined = q_now env\<rparr>]"
    unfolding insert_roomD insert_memberD insert_attemptD by (simp_all add: new_room_def)
  then show ?thesis
    by (intro grows_new [where r = ?r and R = ?R]) (simp_all add: new_room_def unstarted_def ids_upd)
qed (simp add: grows_rooms)

interpretation membership: request_relation grows
proof
  show "grows d d" for d by (simp add: grows_rooms)
  show "grows d d' \<Longrightarrow> grows d (d'\<lparr>db_rooms_created := n\<rparr>)" for d d' n
    by (simp add: grows_def)
  show "change_room_state_txn env rid ev host_only d = Ok (x, d') \<Longrightarrow> grows d d'" for env rid ev host_only d x d'
    by (rule grows_rooms) (auto simp: change_room_state_txn_def Let_def row_simps split: if_splits sum.splits)
  show "confirm_native_exit_txn env rid code d = Ok (x, d') \<Longrightarrow> grows d d'" for env rid code d x d'
    by (rule grows_rooms)
       (auto simp: confirm_native_exit_txn_def Let_def row_simps fail_before_start_def finish_match_def
          split: if_splits sum.splits)
  show "confirm_native_launch_txn env rid d = Ok (x, d') \<Longrightarrow> grows d d'" for env rid d x d'
    by (rule grows_rooms)
       (auto simp: confirm_native_launch_txn_def Let_def start_playing_rooms start_playing_def insert_match_def row_simps
          split: if_splits sum.splits option.splits)
  show "resolve_challenge_txn env cid cancel d = Ok (z, d') \<Longrightarrow> grows d d'" for env cid cancel d z d'
    by (rule grows_rooms) (auto simp: resolve_challenge_txn_def Let_def row_simps split: if_splits sum.splits)
  show "create_launch_grant_txn env gx rid local peer lreq d = Ok (x, d') \<Longrightarrow> grows d d'"
    for env gx rid local peer lreq d x d'
    by (rule grows_rooms) (auto simp: create_launch_grant_txn_def insert_grant_def row_simps split: sum.splits option.splits if_splits)
  show "grows d (snd (consume_launch_grant env hash g d))" for env hash g d
    by (rule grows_rooms) (auto simp: consume_launch_grant_def split: option.splits)
  show "grows d (snd (create_invite env al fresh rid d))" for env al fresh rid d
    by (rule grows_rooms) (auto simp: create_invite_def Let_def insert_invite_def row_simps split: sum.splits if_splits)
  show "submit_preflight_txn env rid p d = Ok (x, d') \<Longrightarrow> grows d d'" for env rid p d x d'
    by (rule grows_rooms) (auto simp: submit_preflight_txn_def Let_def upsert_preflight_def row_simps split: sum.splits if_splits)
  show "ready_to_launch_txn env rid d = Ok (x, d') \<Longrightarrow> grows d d'" for env rid d x d'
    by (rule grows_rooms) (auto simp: ready_to_launch_txn_def Let_def upsert_barrier_def row_simps split: sum.splits prod.splits if_splits)
  show "grows d (snd (submit_evidence env ex d))" for env ex d
    by (rule grows_rooms) (auto simp: submit_evidence_def Let_def split: sum.splits option.splits)
  show "grows d (fst (reconcile_expired now busy d))" for now busy d
    by (rule grows_rooms) (auto simp: reconcile_expired_def Let_def row_simps cancel_expired_def)
qed (blast intro: grows_create_room grows_accept_room grows_accept_challenge grows_join_invite
    grows_create_challenge grows_receipt)+

section \<open>The simulation\<close>

definition moves_on :: "room_state \<Rightarrow> room_state \<Rightarrow> bool" where
  "moves_on s s' \<longleftrightarrow> legal s s' \<or> s' = Cancelled"

lemma serve_moves: "server_inv d \<Longrightarrow> evolves moves_on (db_rooms d) (db_rooms (snd (serve req d)))"
  by (cases "resolves_challenge req")
     (auto intro: evolves_mono [OF serve_legal] evolves_mono [OF serve_resolve] simp: moves_on_def)

lemma reconcile_moves: "evolves moves_on (db_rooms d) (db_rooms (fst (reconcile_expired now busy d)))"
proof -
  have "db_rooms (fst (reconcile_expired now busy d)) =
      upd_where (\<lambda>r. r_id r \<in> set (map r_id (expired_rooms now busy (expire_challenge_batch now busy d))))
        (\<lambda>r. r\<lparr>r_state := Cancelled, r_deadline := None\<rparr>) (db_rooms d)"
    by (simp add: reconcile_expired_def Let_def row_simps cancel_expired_def)
  then show ?thesis by (auto intro!: evolves_upd simp: moves_on_def)
qed

lemma step_moves: "server_inv d \<Longrightarrow> server_step d d' \<Longrightarrow> evolves moves_on (db_rooms d) (db_rooms d')"
  by (auto elim!: server_stepE intro: serve_moves reconcile_moves)

lemma room_members:
  assumes "server_inv d" "r \<in> set (db_rooms d)"
  shows "distinct (members_of d (r_id r))" "r_host r \<in> set (members_of d (r_id r))" "length (members_of d (r_id r)) \<le> 2"
    and "unstarted (r_state r) \<Longrightarrow> length (members_of d (r_id r)) = 1"
    and "r_state r = Connecting \<or> r_state r = Playing \<or> r_state r = Finished \<Longrightarrow> length (members_of d (r_id r)) = 2"
    and "r_state r \<noteq> Ready"
  using tables_invD(3) [OF assms(1) [unfolded server_inv_def], of "r_id r"]
    tables_invD(7) [OF assms(1) [unfolded server_inv_def] assms(2)]
  by (auto simp: members_of_users room_ok_def unstarted_def)

lemma guest_none: "distinct us \<Longrightarrow> h \<in> set us \<Longrightarrow> length us = 1 \<Longrightarrow> us = [h] \<and> guest_of us h = None"
  by (cases us) (auto simp: guest_of_def)

lemma guest_some: "distinct us \<Longrightarrow> h \<in> set us \<Longrightarrow> length us = 2 \<Longrightarrow> \<exists>g. guest_of us h = Some g \<and> g \<noteq> h"
  by (cases us; cases "tl us") (auto simp: guest_of_def)

lemma legal_cases:
  assumes "legal s s'" "s \<noteq> Ready"
  shows "s' = s \<or> s' = Cancelled \<and> s \<noteq> Cancelled \<or> unstarted s \<and> s' = Connecting
     \<or> s = Connecting \<and> s' = Playing \<or> s = Playing \<and> s' = Finished"
proof -
  have "transition s ev = Ok s' \<Longrightarrow> ?thesis" for ev
    using assms(2) by (cases s; cases ev) (auto simp: unstarted_def)
  with assms(1) show ?thesis by (auto simp: legal_def)
qed

lemma members_unchanged:
  assumes "grows d d'" "r' \<in> set (db_rooms d')" "r \<in> set (db_rooms d)" "r_id r' = r_id r"
    and "\<not> (r_state r' = Connecting \<and> unstarted (r_state r))" "server_inv d"
  shows "members_of d' (r_id r) = members_of d (r_id r)"
  using assms(1) unfolding grows_def
proof (elim conjE disjE exE)
  fix m assume m: "db_members d' = db_members d @ [m]" "joins (db_rooms d) (db_rooms d') (m_room m)"
  have "distinct (map r_id (db_rooms d))"
    using assms(6) tables_invD(1) unfolding server_inv_def by blast
  then have "x = r" if "x \<in> set (db_rooms d)" "r_id x = r_id r" for x
    using that assms(3) by (meson inj_onD distinct_map)
  then have only: "\<And>x. x \<in> set (db_rooms d) \<Longrightarrow> r_id x = r_id r \<Longrightarrow> x = r" .
  have "m_room m \<noteq> r_id r"
  proof
    assume e: "m_room m = r_id r"
    with m(2) assms(3) obtain x where x: "x \<in> set (db_rooms d)" "r_id x = r_id r" "unstarted (r_state x)"
      and c: "\<forall>y \<in> set (db_rooms d'). r_id y = r_id r \<longrightarrow> r_state y = Connecting"
      unfolding joins_def by auto
    from only [OF x(1,2)] x(3) c assms(2,4,5) show False by simp
  qed
  then show ?thesis by (simp add: members_of_def m(1))
qed (simp add: members_of_def)

lemma abs_of_room:
  "server_inv d \<Longrightarrow> r \<in> set (db_rooms d) \<Longrightarrow> abs_room_of d (r_id r) =
     Some \<lparr>ar_host = r_host r, ar_guest = guest_of (members_of d (r_id r)) (r_host r), ar_state = r_state r\<rparr>"
  using find_room_in tables_invD(1) unfolding server_inv_def by (metis abs_room_of_def option.simps(9))

lemma abs_of_none: "rid \<notin> r_id ` set (db_rooms d) \<Longrightarrow> abs_room_of d rid = None"
  by (force simp: abs_room_of_def find_room_def find_None_iff)

text \<open>A room that was there before.\<close>

lemma simulate_old:
  assumes inv: "server_inv d" "server_inv d'" and g: "grows d d'"
    and r: "r \<in> set (db_rooms d)" "r' \<in> set (db_rooms d')" "same_identity r r'" "moves_on (r_state r) (r_state r')"
  shows "abs_room_of d' (r_id r) = abs_room_of d (r_id r) \<or> abs_step (abs_room_of d (r_id r)) (abs_room_of d' (r_id r))"
proof -
  have id: "r_id r' = r_id r" "r_host r' = r_host r" using r(3) by (simp_all add: same_identity_def)
  note m = room_members [OF inv(1) r(1)] and m' = room_members [OF inv(2) r(2), unfolded id]
  note a = abs_of_room [OF inv(1) r(1)] and a' = abs_of_room [OF inv(2) r(2), unfolded id]
  have "r_state r' = r_state r \<or> r_state r' = Cancelled \<and> r_state r \<noteq> Cancelled \<or> unstarted (r_state r) \<and> r_state r' = Connecting
     \<or> r_state r = Connecting \<and> r_state r' = Playing \<or> r_state r = Playing \<and> r_state r' = Finished"
    using r(4) m(6) legal_cases unfolding moves_on_def by metis
  moreover have "members_of d' (r_id r) = members_of d (r_id r)" if "\<not> (r_state r' = Connecting \<and> unstarted (r_state r))"
    using members_unchanged [OF g r(2,1) id(1) that inv(1)] .
  moreover have "abs_step (abs_room_of d (r_id r)) (abs_room_of d' (r_id r))"
    if "unstarted (r_state r)" "r_state r' = Connecting"
  proof -
    from that m have "guest_of (members_of d (r_id r)) (r_host r) = None" using guest_none by blast
    moreover from that m' obtain g where "guest_of (members_of d' (r_id r)) (r_host r) = Some g" "g \<noteq> r_host r"
      using guest_some by blast
    ultimately show ?thesis using that a a' abs_join by (auto simp: unstarted_def)
  qed
  moreover obtain g where "guest_of (members_of d (r_id r)) (r_host r) = Some g" if "r_state r = Connecting \<or> r_state r = Playing"
    using guest_some [OF m(1,2)] m(5) by blast
  ultimately show ?thesis
    unfolding a a' by (auto simp: unstarted_def intro: abs_step.intros)
qed

text \<open>A new room.\<close>

lemma simulate_new:
  assumes inv: "server_inv d" "server_inv d'" and g: "grows d d'"
    and r': "r' \<in> set (db_rooms d')" "r_id r' \<notin> r_id ` set (db_rooms d)"
  shows "abs_step (abs_room_of d (r_id r')) (abs_room_of d' (r_id r'))"
proof -
  have u: "unstarted (r_state r')" using g r' by (simp add: grows_def new_unstarted_def)
  note m' = room_members [OF inv(2) r'(1)]
  from guest_none [OF m'(1,2) m'(4) [OF u]] show ?thesis
    using u by (auto simp: abs_of_none [OF r'(2)] abs_of_room [OF inv(2) r'(1)] unstarted_def intro: abs_open)
qed

lemma simulate:
  assumes inv: "server_inv d" and step: "server_step d d'"
  shows "abs_room_of d' rid = abs_room_of d rid \<or> abs_step (abs_room_of d rid) (abs_room_of d' rid)"
proof -
  have inv': "server_inv d'" using inv step server.inv_step by blast
  note g = membership.of_step [OF inv step] and e = step_moves [OF inv step]
  show ?thesis
  proof (cases "rid \<in> r_id ` set (db_rooms d)")
    case True
    then obtain r where r: "r \<in> set (db_rooms d)" "rid = r_id r" by blast
    with e obtain r' where "r' \<in> set (db_rooms d')" "same_identity r r'" "moves_on (r_state r) (r_state r')"
      unfolding evolves_def by blast
    with simulate_old [OF inv inv' g r(1)] show ?thesis by (simp add: r(2))
  next
    case False
    show ?thesis
    proof (cases "rid \<in> r_id ` set (db_rooms d')")
      case True
      with False simulate_new [OF inv inv' g] show ?thesis by auto
    qed (use False in \<open>simp add: abs_of_none\<close>)
  qed
qed

text \<open>C4 The server refines the room protocol: whatever request or reconciler pass runs in a reachable
  state, each single room, seen through its host, guest and state, stays as it is or takes one step
  of the protocol: it is opened by a host alone, joined by one other user, started with that guest,
  finished by the same two, or cancelled.  No request swaps a guest, readmits one, or starts a room
  with one player.\<close>

theorem server_refines_rooms:
  assumes "reachable server_init server_step d" "server_step d d'"
  shows "abs_room_of d' rid = abs_room_of d rid \<or> abs_step (abs_room_of d rid) (abs_room_of d' rid)"
  using simulate [OF server.reachable_inv [OF assms(1)] assms(2)] .

theorem server_refines_rooms_witness:
  "abs_room_of demo_connecting (Uuid 10) = Some \<lparr>ar_host = Uuid 1, ar_guest = Some (Uuid 2), ar_state = Connecting\<rparr>
   \<and> abs_step (abs_room_of demo_waiting (Uuid 10)) (abs_room_of demo_connecting (Uuid 10))"
proof -
  have 1: "abs_room_of demo_connecting (Uuid 10) = Some \<lparr>ar_host = Uuid 1, ar_guest = Some (Uuid 2), ar_state = Connecting\<rparr>"
    by (simp add: demo_connecting_eq demo_waiting_eq abs_room_of_def find_room_def members_of_def guest_of_def demo_start_def empty_db_def)
  moreover have "abs_room_of demo_waiting (Uuid 10) = Some \<lparr>ar_host = Uuid 1, ar_guest = None, ar_state = Waiting\<rparr>"
    by (simp add: demo_waiting_eq abs_room_of_def find_room_def members_of_def guest_of_def demo_start_def empty_db_def)
  moreover have "server_step demo_waiting demo_connecting"
    unfolding demo_connecting_def by (rule step_request)
  from server_refines_rooms [OF demo_reachable(2) this, of "Uuid 10"]
  have "abs_room_of demo_connecting (Uuid 10) = abs_room_of demo_waiting (Uuid 10)
      \<or> abs_step (abs_room_of demo_waiting (Uuid 10)) (abs_room_of demo_connecting (Uuid 10))" .
  ultimately show ?thesis by auto
qed

end
