(* ===== verification/Server_Progress.thy ===== *)
theory Server_Progress
  imports Server_Demo
begin

text \<open>
  The consistency of rooms spelled out over the tables, and the progress of the reconciler: bounded
  passes that work off every overdue room, the longest overdue first, and every old telemetry row.
\<close>

section \<open>Consistent rooms\<close>

text \<open>C6 In every reachable state of the server each room is consistent with the other tables: its host
  is a member, members are distinct and at most two, a room that waits or carries a challenge has its
  host alone, a room that is connecting, playing or finished has two members, a playing or finished
  room has both of them as players and a match, a finished room has only ended players and a
  successful attempt, an active room has a deadline for the reconciler and an active attempt, and no
  user hosts two waiting rooms of one game.\<close>

theorem server_rooms_consistent:
  assumes "reachable server_init server_step d" "r \<in> set (db_rooms d)"
  shows "r_host r \<in> set (members_of d (r_id r)) \<and> distinct (members_of d (r_id r)) \<and> length (members_of d (r_id r)) \<le> 2
    \<and> (r_state r = Waiting \<or> r_state r = Challenging \<longrightarrow> members_of d (r_id r) = [r_host r])
    \<and> (r_state r = Connecting \<or> r_state r = Playing \<or> r_state r = Finished \<longrightarrow> length (members_of d (r_id r)) = 2)
    \<and> (r_state r = Playing \<or> r_state r = Finished \<longrightarrow>
        set (participants_of d (r_id r)) = set (members_of d (r_id r)) \<and> (\<exists>m \<in> set (db_matches d). mt_room m = r_id r))
    \<and> (r_state r = Finished \<longrightarrow> (\<forall>p \<in> set (db_runtime d). p_room p = r_id r \<longrightarrow> p_ended p \<noteq> None)
        \<and> (\<exists>a \<in> set (db_attempts d). a_id a = r_attempt r \<and> a_room a = r_id r \<and> a_state a = AtSucceeded))
    \<and> (active_state (r_state r) \<longrightarrow> r_deadline r \<noteq> None
        \<and> (\<exists>a \<in> set (db_attempts d). a_id a = r_attempt r \<and> a_room a = r_id r \<and> a_state a = AtActive))
    \<and> (\<forall>q \<in> set (db_rooms d). r_state r = Waiting \<and> r_state q = Waiting \<and> r_host q = r_host r \<and> r_game q = r_game r
        \<longrightarrow> q = r)"
proof -
  have inv: "tables_inv (db_rooms d) (db_members d) (db_attempts d) (db_runtime d) (db_matches d)"
    using server.reachable_inv [OF assms(1)] by (simp add: server_inv_def)
  note ok = tables_invD(7) [OF inv assms(2), unfolded room_ok_def, folded members_of_users participants_of_players]
  have m: "distinct (members_of d (r_id r))" "distinct (participants_of d (r_id r))"
    "set (participants_of d (r_id r)) \<subseteq> set (members_of d (r_id r))"
    using tables_invD(3,4,5) [OF inv] by (simp_all add: members_of_users participants_of_players)
  have one: "members_of d (r_id r) = [r_host r]" if "length (members_of d (r_id r)) = 1"
    using that ok by (cases "members_of d (r_id r)") auto
  have both: "set (participants_of d (r_id r)) = set (members_of d (r_id r))"
    if "length (participants_of d (r_id r)) = 2" "length (members_of d (r_id r)) = 2"
    using card_subset_eq [OF finite_set m(3)] m(1,2) that by (simp add: distinct_card)
  have waiting: "\<forall>q \<in> set (db_rooms d). r_state r = Waiting \<and> r_state q = Waiting \<and> r_host q = r_host r
      \<and> r_game q = r_game r \<longrightarrow> q = r"
    using tables_invD(8) [OF inv assms(2)] by metis
  show ?thesis
    using ok m one both waiting unfolding attempt_is_def has_match_def all_ended_def by (intro conjI impI) blast+
qed

theorem server_rooms_consistent_witness:
  "members_of demo_connecting (Uuid 10) = [Uuid 1, Uuid 2]
   \<and> (\<exists>a \<in> set (db_attempts demo_connecting). a_id a = Uuid 20 \<and> a_room a = Uuid 10 \<and> a_state a = AtActive)"
  using server_rooms_consistent [OF demo_reachable(3), of "hd (db_rooms demo_connecting)"]
  by (simp add: demo_connecting_eq demo_waiting_eq demo_start_def empty_db_def members_of_def active_state_def)

section \<open>Bounded batches\<close>

text \<open>Removing a batch of the first \<open>n\<close> rows in some order, by key.\<close>

lemma batch_rest:
  assumes "distinct (map key xs)"
  shows "length (filter (\<lambda>x. key x \<notin> key ` set (take n (sort_key f xs))) xs) = length xs - n"
proof -
  let ?ys = "sort_key f xs"
  have ys: "mset ?ys = mset xs" by simp
  have d: "distinct (map key ?ys)"
    using assms by (metis mset_map mset_eq_imp_distinct_iff ys)
  have "filter (\<lambda>x. key x \<notin> key ` set (take n ?ys)) ?ys
      = filter (\<lambda>x. key x \<notin> key ` set (take n ?ys)) (take n ?ys @ drop n ?ys)" by simp
  also have "\<dots> = drop n ?ys"
  proof -
    have "key x \<notin> key ` set (take n ?ys)" if "x \<in> set (drop n ?ys)" for x
      using d that by (metis append_take_drop_id distinct_append disjoint_iff list.set_map map_append rev_image_eqI)
    then show ?thesis unfolding filter_append by (simp add: filter_id_conv filter_empty_conv del: append_take_drop_id)
  qed
  finally have "length (filter (\<lambda>x. key x \<notin> key ` set (take n ?ys)) ?ys) = length xs - n" by simp
  moreover have "mset (filter (\<lambda>x. key x \<notin> key ` set (take n ?ys)) ?ys) = mset (filter (\<lambda>x. key x \<notin> key ` set (take n ?ys)) xs)"
    by (simp add: ys)
  ultimately show ?thesis by (metis size_mset)
qed

lemma batch_order:
  assumes "x \<in> set (take n (sort_key f xs))" "y \<in> set xs" "y \<notin> set (take n (sort_key f xs))"
  shows "f x \<le> f y"
proof -
  have "y \<in> set (drop n (sort_key f xs))"
    using assms(2,3) by (metis UnE append_take_drop_id set_append set_sort)
  moreover have "sorted (map f (take n (sort_key f xs) @ drop n (sort_key f xs)))" by simp
  ultimately show ?thesis
    using assms(1) unfolding map_append sorted_append by auto
qed

section \<open>The deadline pass\<close>

definition overdue :: "instant \<Rightarrow> uuid list \<Rightarrow> db \<Rightarrow> room_row list" where
  "overdue now busy d = filter (\<lambda>r. due now r \<and> r_id r \<notin> set busy) (db_rooms d)"

definition pass :: "instant \<Rightarrow> uuid list \<Rightarrow> db \<Rightarrow> db" where
  "pass now busy d = fst (reconcile_expired now busy d)"

lemma expired_rooms_overdue:
  "expired_rooms now busy d = take RECONCILE_BATCH_SIZE (sort_key deadline_of (overdue now busy d))"
  by (simp add: expired_rooms_def overdue_def)

lemma pass_rooms: "db_rooms (pass now busy d) =
    upd_where (\<lambda>r. r_id r \<in> r_id ` set (expired_rooms now busy d)) (\<lambda>r. r\<lparr>r_state := Cancelled, r_deadline := None\<rparr>) (db_rooms d)"
  by (simp add: pass_def reconcile_expired_def Let_def row_simps cancel_expired_def)

lemma filter_upd_gone:
  "(\<And>r. \<not> P (f r)) \<Longrightarrow> filter P (upd_where q f R) = filter (\<lambda>r. \<not> q r) (filter P R)"
  by (induction R) auto

lemma pass_overdue: "overdue now busy (pass now busy d) =
    filter (\<lambda>r. r_id r \<notin> r_id ` set (expired_rooms now busy d)) (overdue now busy d)"
  unfolding overdue_def pass_rooms by (subst filter_upd_gone) (simp_all add: due_def active_state_def)

lemma overdue_distinct: "server_inv d \<Longrightarrow> distinct (map r_id (overdue now busy d))"
  unfolding overdue_def server_inv_def using tables_invD(1) by (metis distinct_map_filter)

lemma pass_count: "server_inv d \<Longrightarrow> length (overdue now busy (pass now busy d)) = length (overdue now busy d) - 250"
  unfolding pass_overdue expired_rooms_overdue
  using batch_rest [OF overdue_distinct, where n = RECONCILE_BATCH_SIZE and f = deadline_of]
  by (simp add: RECONCILE_BATCH_SIZE_def)

lemma pass_inv: "server_inv d \<Longrightarrow> server_inv (pass now busy d)"
  unfolding pass_def by (rule inv_reconcile)

lemma passes_count:
  "server_inv d \<Longrightarrow> server_inv ((pass now busy ^^ k) d)
    \<and> length (overdue now busy ((pass now busy ^^ k) d)) = length (overdue now busy d) - 250 * k"
  by (induction k) (auto simp: pass_inv pass_count)


lemma demo_overdue: "overdue (hours 1) [] demo_connecting = db_rooms demo_connecting"
  by (simp add: overdue_def due_def active_state_def demo_connecting_eq demo_waiting_eq demo_start_def empty_db_def
      hours_def minutes_def seconds_def)


text \<open>One pass of the reconciler in a reachable state: it cancels the 250 longest overdue rooms that
  no other transaction holds, or all of them when there are fewer, reports exactly their ids, drops
  their deadlines, leaves every other room as it is, and passes over no room that was overdue for
  longer than one it took.\<close>

theorem reconciler_pass:
  assumes "reachable server_init server_step d" "reconcile_expired now busy d = (d', ids, notes)"
  shows "length ids = min 250 (length (overdue now busy d))
    \<and> (\<forall>r \<in> set (db_rooms d). (if r_id r \<in> set ids then due now r \<and> r_id r \<notin> set busy
          \<and> r\<lparr>r_state := Cancelled, r_deadline := None\<rparr> \<in> set (db_rooms d')
        else r \<in> set (db_rooms d')))
    \<and> (\<forall>r \<in> set (db_rooms d). \<forall>q \<in> set (overdue now busy d). r_id r \<in> set ids \<and> r_id q \<notin> set ids
        \<longrightarrow> deadline_of r \<le> deadline_of q)
    \<and> set notes = {(rid, u). rid \<in> set ids \<and> u \<in> set (members_of d rid)}"
proof -
  let ?ex = "expired_rooms now busy d"
  have inv: "server_inv d" by (rule server.reachable_inv [OF assms(1)])
  have ids: "ids = map r_id ?ex" and d': "d' = pass now busy d"
    using assms(2) by (simp_all add: reconcile_expired_def Let_def row_simps pass_def split: prod.splits)
  have only: "r \<in> set ?ex" if "r \<in> set (db_rooms d)" "r_id r \<in> r_id ` set ?ex" for r
  proof -
    from that(2) obtain x where x: "x \<in> set ?ex" "r_id r = r_id x" by blast
    moreover have "x \<in> set (db_rooms d)" using expired_rooms_in x(1) by blast
    moreover have "distinct (map r_id (db_rooms d))" using inv tables_invD(1) unfolding server_inv_def by blast
    ultimately show ?thesis using that(1) by (metis distinct_map inj_on_def)
  qed
  have ov: "r \<in> set (overdue now busy d)" if "r \<in> set ?ex" for r
    using that unfolding expired_rooms_overdue by (auto dest: in_set_takeD)
  have "length ids = min 250 (length (overdue now busy d))"
    by (simp add: ids expired_rooms_overdue RECONCILE_BATCH_SIZE_def)
  moreover have "if r_id r \<in> set ids then due now r \<and> r_id r \<notin> set busy
      \<and> r\<lparr>r_state := Cancelled, r_deadline := None\<rparr> \<in> set (db_rooms d') else r \<in> set (db_rooms d')"
    if r: "r \<in> set (db_rooms d)" for r
    using ov only [OF r] r by (auto simp: ids d' pass_rooms in_upd_where overdue_def)
  moreover have "deadline_of r \<le> deadline_of q"
    if "r \<in> set (db_rooms d)" "q \<in> set (overdue now busy d)" "r_id r \<in> set ids" "r_id q \<notin> set ids" for r q
  proof (rule batch_order [where f = deadline_of and n = RECONCILE_BATCH_SIZE and xs = "overdue now busy d"])
    show "r \<in> set (take RECONCILE_BATCH_SIZE (sort_key deadline_of (overdue now busy d)))"
      using only that(1,3) by (simp add: ids expired_rooms_overdue [symmetric])
  qed (use that in \<open>auto simp: ids expired_rooms_overdue\<close>)
  moreover have "notes = map (\<lambda>m. (m_room m, m_user m)) (filter (\<lambda>m. m_room m \<in> set ids) (db_members d))"
    using assms(2) by (auto simp: reconcile_expired_def Let_def row_simps cancel_expired_def)
  then have "set notes = {(rid, u). rid \<in> set ids \<and> u \<in> set (members_of d rid)}"
    by (force simp: members_of_def)
  ultimately show ?thesis by blast
qed

theorem reconciler_pass_witness:
  "\<exists>d' ids notes. reconcile_expired (hours 1) [] demo_connecting = (d', ids, notes) \<and> length ids = 1
     \<and> (\<forall>rid u. (rid, u) \<in> set notes \<longrightarrow> rid \<in> set ids)"
proof -
  obtain d' ids ns where e: "reconcile_expired (hours 1) [] demo_connecting = (d', ids, ns)"
    by (cases "reconcile_expired (hours 1) [] demo_connecting")
  from reconciler_pass [OF demo_reachable(3) e] have "length ids = 1" "\<forall>rid u. (rid, u) \<in> set ns \<longrightarrow> rid \<in> set ids"
    unfolding demo_overdue by (simp_all add: demo_connecting_eq)
  with e show ?thesis by blast
qed

section \<open>Telemetry retention\<close>

definition stale :: "instant \<Rightarrow> product_event_row \<Rightarrow> bool" where
  "stale now e \<longleftrightarrow> pe_received e < now - days TELEMETRY_RETENTION_DAYS"

lemma inj_on_key: "distinct (map key xs) \<Longrightarrow> x \<in> set xs \<Longrightarrow> y \<in> set xs \<Longrightarrow> key x = key y \<Longrightarrow> x = y"
  by (meson distinct_map inj_onD)

text \<open>Telemetry retention is bounded and exact: one pass deletes the 1000 oldest events that are more
  than 90 days old, or all of them when there are fewer, reports how many it deleted, and keeps every
  event that is not that old, in order.\<close>

theorem retention_pass:
  assumes "distinct (map pe_id es)" "reconcile_telemetry_retention now es = (kept, removed)"
  shows "removed = min 1000 (length (filter (stale now) es))
    \<and> length (filter (stale now) kept) = length (filter (stale now) es) - 1000
    \<and> filter (\<lambda>e. \<not> stale now e) kept = filter (\<lambda>e. \<not> stale now e) es
    \<and> (\<forall>e \<in> set es. \<forall>e' \<in> set kept. e \<notin> set kept \<and> stale now e' \<longrightarrow> pe_received e \<le> pe_received e')"
proof -
  let ?old = "filter (stale now) es"
  let ?batch = "take 1000 (sort_key pe_received ?old)"
  have st: "stale now = (\<lambda>e. pe_received e < now - days TELEMETRY_RETENTION_DAYS)"
    by (simp add: stale_def fun_eq_iff)
  have kept: "kept = filter (\<lambda>e. pe_id e \<notin> pe_id ` set ?batch) es" and removed: "removed = length es - length kept"
    using assms(2)
    by (simp_all add: reconcile_telemetry_retention_def Let_def st TELEMETRY_RETENTION_BATCH_SIZE_def eq_commute [of _ kept]
        eq_commute [of _ removed])
  have in_old: "x \<in> set es \<and> stale now x" if "x \<in> set ?batch" for x
    using in_set_takeD [OF that] by simp
  have batch: "pe_id e \<in> pe_id ` set ?batch \<longleftrightarrow> e \<in> set ?batch" if "e \<in> set es" for e
  proof
    assume "pe_id e \<in> pe_id ` set ?batch"
    then obtain x where "x \<in> set ?batch" "pe_id e = pe_id x" by blast
    with inj_on_key [OF assms(1) that] in_old show "e \<in> set ?batch" by metis
  qed (rule imageI)
  have fresh: "filter (\<lambda>e. \<not> stale now e) kept = filter (\<lambda>e. \<not> stale now e) es"
  proof -
    have "pe_id e \<notin> pe_id ` set ?batch" if "e \<in> set es" "\<not> stale now e" for e
      unfolding batch [OF that(1)] using in_old that(2) by blast
    then show ?thesis unfolding kept filter_filter by (intro filter_cong [OF refl]) blast
  qed
  have "filter (stale now) kept = filter (\<lambda>e. pe_id e \<notin> pe_id ` set ?batch) ?old"
    unfolding kept filter_filter by (intro filter_cong [OF refl]) blast
  then have old: "length (filter (stale now) kept) = length ?old - 1000"
    using batch_rest [where key = pe_id and xs = ?old and n = 1000 and f = pe_received] assms(1)
    by (simp add: distinct_map_filter)
  have "length xs = length (filter (stale now) xs) + length (filter (\<lambda>e. \<not> stale now e) xs)" for xs
    by (induction xs) auto
  from this [of es] this [of kept] fresh old removed have "removed = min 1000 (length ?old)" by simp
  moreover have "pe_received e \<le> pe_received e'" if "e \<in> set es" "e' \<in> set kept" "e \<notin> set kept" "stale now e'" for e e'
  proof (rule batch_order [where f = pe_received and n = 1000 and xs = ?old])
    show "e \<in> set ?batch" using that(1,3) batch [OF that(1)] by (simp add: kept)
    show "e' \<in> set ?old" "e' \<notin> set ?batch" using that(2,4) by (auto simp: kept)
  qed
  ultimately show ?thesis using old fresh by blast
qed

theorem retention_pass_witness:
  "fst (reconcile_telemetry_retention (days 91) [\<lparr>pe_id = Uuid 1, pe_received = 0\<rparr>, \<lparr>pe_id = Uuid 2, pe_received = days 2\<rparr>])
     = [\<lparr>pe_id = Uuid 2, pe_received = days 2\<rparr>]"
proof -
  let ?es = "[\<lparr>pe_id = Uuid 1, pe_received = 0\<rparr>, \<lparr>pe_id = Uuid 2, pe_received = days 2\<rparr>]"
  obtain kept removed where e: "reconcile_telemetry_retention (days 91) ?es = (kept, removed)"
    by (cases "reconcile_telemetry_retention (days 91) ?es")
  have s: "filter (stale (days 91)) ?es = [\<lparr>pe_id = Uuid 1, pe_received = 0\<rparr>]"
    "filter (\<lambda>e. \<not> stale (days 91) e) ?es = [\<lparr>pe_id = Uuid 2, pe_received = days 2\<rparr>]"
    by (simp_all add: stale_def TELEMETRY_RETENTION_DAYS_def days_def hours_def minutes_def seconds_def)
  from retention_pass [OF _ e] have "filter (stale (days 91)) kept = []"
    "filter (\<lambda>e. \<not> stale (days 91) e) kept = [\<lparr>pe_id = Uuid 2, pe_received = days 2\<rparr>]"
    unfolding s by simp_all
  then have "kept = [\<lparr>pe_id = Uuid 2, pe_received = days 2\<rparr>]"
    by (metis (no_types, lifting) filter_empty_conv filter_id_conv)
  with e show ?thesis by simp
qed

end
