(* ===== verification/Server_Demo_Match.thy ===== *)
theory Server_Demo_Match
  imports Server_Demo
begin

text \<open>
  The concrete run of \<open>Server_Demo\<close> played to its end: both members obtain and redeem launch
  grants, start and end the game, submit their evidence, and the host creates a receipt.
\<close>

definition demo_grant_env :: "nat \<Rightarrow> grant_env" where
  "demo_grant_env u =
     \<lparr>gx_parse = (\<lambda>_. Some (SocketAddr (V4 [192, 168, 1, 2]) RETROARCH_ALPHA_PORT)), gx_show = (\<lambda>_. ''addr''),
      gx_hash = (\<lambda>t. t), gx_token = replicate (32 + u) CHR ''a''\<rparr>"

definition demo_grant_request :: launch_grant_request where
  "demo_grant_request =
     \<lparr>lg_local_endpoint = ''l'', lg_peer_endpoint = ''p'', lg_input_delay_frames = 2, lg_campaign_mode = False\<rparr>"

definition demo_report :: "match_report_role \<Rightarrow> match_report" where
  "demo_report role = demo_tunnel_report role
     \<lparr>rep_compatibility := Some \<lparr>co_adapter = ''r'', co_emulator_version = None,
        co_executable_sha256 = replicate 64 CHR ''a'', co_core_sha256 = replicate 64 CHR ''b'',
        co_content_sha256 = replicate 64 CHR ''c''\<rparr>\<rparr>"

definition demo_evidence_env :: "match_report_role \<Rightarrow> evidence_env" where
  "demo_evidence_env role =
     \<lparr>ex_raw_size = 100, ex_decoded = Ok (MatchEvidence (demo_report role)), ex_room = (\<lambda>_. Some (Uuid 10)),
      ex_canonical = (\<lambda>_. JNull), ex_digest = (\<lambda>p. role_label (payload_role p))\<rparr>"

definition demo_grant_row :: "nat \<Rightarrow> nat \<Rightarrow> string \<Rightarrow> instant option \<Rightarrow> grant_row" where
  "demo_grant_row u v role consumed =
     \<lparr>g_hash = replicate (32 + u) CHR ''a'', g_room = Uuid 10, g_game = ''sf'', g_local = Uuid (of_nat u),
      g_peer = Uuid (of_nat v), g_role = role, g_local_endpoint = ''addr'', g_peer_endpoint = ''addr'',
      g_input_delay = 2, g_expires = seconds 90, g_consumed = consumed\<rparr>"

definition demo_player :: "nat \<Rightarrow> instant option \<Rightarrow> int option \<Rightarrow> runtime_row" where
  "demo_player u ended code =
     \<lparr>p_room = Uuid 10, p_user = Uuid (of_nat u), p_launched = 0, p_ended = ended, p_exit_code = code\<rparr>"

definition demo_evidence_row :: "nat \<Rightarrow> match_report_role \<Rightarrow> evidence_row" where
  "demo_evidence_row u role =
     \<lparr>e_digest = role_label role, e_room = Uuid 10, e_by = Uuid (of_nat u), e_role = role,
      e_payload = MatchEvidence (demo_report role)\<rparr>"

text \<open>A database with one room of both users; \<open>cs\<close> are the challenges.\<close>

definition demo_db ::
    "challenge_row list \<Rightarrow> room_state \<Rightarrow> instant option \<Rightarrow> attempt_state \<Rightarrow> instant option \<Rightarrow> match_row list \<Rightarrow> runtime_row list \<Rightarrow>
     grant_row list \<Rightarrow> evidence_row list \<Rightarrow> event_row list \<Rightarrow> db" where
  "demo_db cs s t astate afin ms ps gs es ev =
     \<lparr>db_users = [Uuid 1, Uuid 2], db_games = [''sf''],
      db_rooms = [\<lparr>r_id = Uuid 10, r_game = ''sf'', r_host = Uuid 1, r_state = s, r_max_players = 2,
        r_attempt = Uuid 20, r_deadline = t, r_created = 0\<rparr>],
      db_members = [\<lparr>m_room = Uuid 10, m_user = Uuid 1, m_joined = 0\<rparr>, \<lparr>m_room = Uuid 10, m_user = Uuid 2, m_joined = 0\<rparr>],
      db_challenges = cs,
      db_attempts = [\<lparr>a_id = Uuid 20, a_room = Uuid 10, a_state = astate, a_failure = None, a_deadline = t,
        a_finished = afin\<rparr>],
      db_events = ev, db_matches = ms, db_runtime = ps, db_grants = gs, db_invites = [], db_preflights = [],
      db_barriers = [], db_evidence = es, db_receipts = [], db_commands = [], db_rooms_created = (if cs = [] then 1 else 0)\<rparr>"

abbreviation "reaches D \<equiv> \<exists>ev. reachable server_init server_step (D ev)"

lemma demo_next:
  assumes "reaches D" "\<And>ev. \<exists>ev'. snd (serve req (D ev)) = D' ev'"
  shows "reaches D'"
proof -
  from assms(1) obtain ev where r: "reachable server_init server_step (D ev)" by blast
  from assms(2) [of ev] obtain ev' where "snd (serve req (D ev)) = D' ev'" by blast
  with reach_step [OF r step_request [of _ req]] show ?thesis by metis
qed

lemmas demo_rows = demo_env_def demo_grant_env_def demo_grant_request_def demo_grant_row_def demo_player_def
  demo_db_def

lemma demo_0: "reaches (demo_db [] Connecting (Some (minutes 2)) AtActive None [] [] [] [])"
  using demo_reachable(3)
  by (auto simp: demo_connecting_eq demo_waiting_eq demo_start_def empty_db_def demo_db_def)

lemma demo_endpoint: "native_endpoint_ok (SocketAddr (V4 [192, 168, 1, 2]) RETROARCH_ALPHA_PORT)"
  by (simp add: native_endpoint_ok_def is_unspecified_def is_multicast_def)

lemmas demo_grant_eval = create_launch_grant_def demo_endpoint transact_def create_launch_grant_txn_def locked_room_eq
  find_room_def is_member_def other_member_def insert_grant_def update_room_attempt_def update_attempts_def room_attempt_def

lemma demo_1: "reaches (demo_db cs Connecting (Some (minutes 2)) AtActive None [] [] [] []) \<Longrightarrow>
    reaches (demo_db cs Connecting (Some (minutes 2)) AtActive None [] [] [demo_grant_row 1 2 ''host'' None] [])"
  by (erule demo_next [where req = "CreateLaunchGrant (demo_env 1) (demo_grant_env 1) (Uuid 10) demo_grant_request"])
     (simp add: demo_rows demo_grant_eval)

lemma demo_2: "reaches (demo_db cs Connecting (Some (minutes 2)) AtActive None [] [] [] []) \<Longrightarrow>
    reaches (demo_db cs Connecting (Some (minutes 2)) AtActive None [] []
    [demo_grant_row 1 2 ''host'' None, demo_grant_row 2 1 ''guest'' None] [])"
  by (drule demo_1, erule demo_next [where req = "CreateLaunchGrant (demo_env 2) (demo_grant_env 2) (Uuid 10) demo_grant_request"])
     (simp add: demo_rows demo_grant_eval)

lemma demo_3: "reaches (demo_db cs Connecting (Some (minutes 2)) AtActive None [] [] [] []) \<Longrightarrow>
    reaches (demo_db cs Connecting (Some (minutes 2)) AtActive None [] []
    [demo_grant_row 1 2 ''host'' (Some 0), demo_grant_row 2 1 ''guest'' None] [])"
  by (drule demo_2, erule demo_next [where req = "ConsumeLaunchGrant (demo_env 1) (\<lambda>t. t) (replicate 33 CHR ''a'')"])
     (simp add: demo_rows consume_launch_grant_def grant_redeemable_def seconds_def)

lemma demo_4: "reaches (demo_db cs Connecting (Some (minutes 2)) AtActive None [] [] [] []) \<Longrightarrow>
    reaches (demo_db cs Connecting (Some (minutes 2)) AtActive None [] []
    [demo_grant_row 1 2 ''host'' (Some 0), demo_grant_row 2 1 ''guest'' (Some 0)] [])"
  by (drule demo_3, erule demo_next [where req = "ConsumeLaunchGrant (demo_env 2) (\<lambda>t. t) (replicate 34 CHR ''a'')"])
     (simp add: demo_rows consume_launch_grant_def grant_redeemable_def seconds_def)

lemmas demo_launch_eval = start_room_def confirm_native_launch_txn_def transact_def then_notify_def locked_room_eq
  find_room_def is_member_def members_of_def participants_of_def launch_authorized_def launch_row_def Let_def
  start_playing_def insert_match_def set_room_state_def update_rooms_def update_active_attempt_def
  update_attempts_def room_attempt_def log_room_event_def log_event_def

lemma demo_5: "reaches (demo_db cs Connecting (Some (minutes 2)) AtActive None [] [] [] []) \<Longrightarrow>
    reaches (demo_db cs Connecting (Some (minutes 2)) AtActive None [] [demo_player 1 None None]
    [demo_grant_row 2 1 ''guest'' (Some 0)] [])"
  by (drule demo_4, erule demo_next [where req = "StartRoom (demo_env 1) (Uuid 10)"])
     (simp add: demo_rows demo_launch_eval seconds_def)

definition demo_match :: "instant option \<Rightarrow> match_row" where
  "demo_match ended = \<lparr>mt_room = Uuid 10, mt_game = ''sf'', mt_started = 0, mt_ended = ended\<rparr>"

lemma demo_6: "reaches (demo_db cs Connecting (Some (minutes 2)) AtActive None [] [] [] []) \<Longrightarrow>
    reaches (demo_db cs Playing (Some (hours 4)) AtActive None [demo_match None]
    [demo_player 1 None None, demo_player 2 None None] [] [])"
  by (drule demo_5, erule demo_next [where req = "StartRoom (demo_env 2) (Uuid 10)"])
     (simp add: demo_rows demo_match_def demo_launch_eval seconds_def)

lemmas demo_exit_eval = finish_room_def confirm_native_exit_txn_def transact_def then_notify_def locked_room_eq
  find_room_def record_exit_def update_runtime_def coalesce_def members_of_def ended_count_def Let_def
  finish_match_def set_room_state_def update_rooms_def update_matches_def update_active_attempt_def
  update_attempts_def room_attempt_def log_room_event_def log_event_def

lemma demo_7: "reaches (demo_db cs Connecting (Some (minutes 2)) AtActive None [] [] [] []) \<Longrightarrow>
    reaches (demo_db cs Playing (Some (hours 4)) AtActive None [demo_match None]
    [demo_player 1 (Some 0) (Some 0), demo_player 2 None None] [] [])"
  by (drule demo_6, erule demo_next [where req = "FinishRoom (demo_env 1) (Uuid 10) (Some 0)"])
     (simp add: demo_rows demo_match_def demo_exit_eval)

definition demo_finished :: "challenge_row list \<Rightarrow> evidence_row list \<Rightarrow> event_row list \<Rightarrow> db" where
  "demo_finished cs = demo_db cs Finished None AtSucceeded (Some 0) [demo_match (Some 0)]
     [demo_player 1 (Some 0) (Some 0), demo_player 2 (Some 0) (Some 0)] []"

lemma demo_8: "reaches (demo_db cs Connecting (Some (minutes 2)) AtActive None [] [] [] []) \<Longrightarrow>
    reaches (demo_finished cs [])"
  unfolding demo_finished_def
  by (drule demo_7, erule demo_next [where req = "FinishRoom (demo_env 2) (Uuid 10) (Some 0)"])
     (simp add: demo_rows demo_match_def demo_exit_eval)

lemmas demo_evidence_eval = submit_evidence_def demo_evidence_env_def demo_report_def demo_tunnel_report_def
  is_member_def find_room_def Let_def same_kind_def

lemma demo_9: "reaches (demo_finished [] [demo_evidence_row 1 RoleHost])"
  by (rule demo_next [OF demo_8 [OF demo_0], where req = "SubmitEvidence (demo_env 1) (demo_evidence_env RoleHost)"])
     (simp add: demo_rows demo_finished_def demo_evidence_row_def demo_evidence_eval)

lemma demo_10: "reaches (demo_finished [] [demo_evidence_row 1 RoleHost, demo_evidence_row 2 RoleGuest])"
  by (rule demo_next [OF demo_9, where req = "SubmitEvidence (demo_env 2) (demo_evidence_env RoleGuest)"])
     (simp add: demo_rows demo_finished_def demo_evidence_row_def demo_evidence_eval)

lemma demo_verifies: "\<exists>v. verify_playable_match_reports (demo_report RoleGuest) (demo_report RoleHost) = Ok v"
  by (simp add: verify_playable_match_reports_def verify_match_reports_def validate_report_def demo_report_def
      demo_tunnel_report_def MATCH_REPORT_SCHEMA_VERSION_def ALPHA_MATCH_FRAMES_def valid_sha256_def
      is_blank_graphic graphic_def is_lower_hex_def is_ascii_digit_def list_all_iff)

lemma demo_role_order: "''guest'' < (''host'' :: string)"
  by simp

lemma demo_reports: "room_match_reports (demo_finished [] [demo_evidence_row 1 RoleHost, demo_evidence_row 2 RoleGuest] ev) (Uuid 10)
    = [demo_report RoleGuest, demo_report RoleHost]"
  using demo_role_order
  by (simp add: room_match_reports_def demo_finished_def demo_db_def demo_evidence_row_def List.map_filter_def not_le)

lemma demo_route: "verified_route (demo_finished [] [demo_evidence_row 1 RoleHost, demo_evidence_row 2 RoleGuest] ev) (Uuid 10)
    = Ok TcpTunnel"
proof -
  have "room_failures (demo_finished [] [demo_evidence_row 1 RoleHost, demo_evidence_row 2 RoleGuest] ev) (Uuid 10) = 0"
    by (simp add: room_failures_def demo_finished_def demo_db_def demo_evidence_row_def)
  moreover obtain v where "verify_playable_match_reports (demo_report RoleGuest) (demo_report RoleHost) = Ok v"
    using demo_verifies by blast
  moreover have "rep_native_route (demo_report role) = Some TcpTunnel" for role
    by (simp add: demo_report_def demo_tunnel_report_def)
  ultimately show ?thesis
    unfolding verified_route_def demo_reports by (simp add: parse_native_route_def native_route_label_def)
qed

text \<open>The last request of the run: the host's receipt.\<close>

definition demo_alpha :: alpha_env where
  "demo_alpha = \<lparr>al_simple = (\<lambda>_. ''0123456789abcdef''), al_hash = (\<lambda>t. t)\<rparr>"

definition demo_ids :: receipt_ids where
  "demo_ids = \<lparr>ri_room = Uuid 11, ri_attempt = Uuid 21, ri_receipt = Uuid 31, ri_code = Uuid 41\<rparr>"

lemma demo_receipt:
  "\<exists>y d'. serve (CreateReceipt (demo_env 1) demo_alpha demo_ids (Uuid 10) (Uuid 50)
       (demo_finished [] [demo_evidence_row 1 RoleHost, demo_evidence_row 2 RoleGuest] ev))
     (demo_finished [] [demo_evidence_row 1 RoleHost, demo_evidence_row 2 RoleGuest] ev) = (Inr y, d') \<and> y_status y = 201"
proof -
  let ?d = "demo_finished [] [demo_evidence_row 1 RoleHost, demo_evidence_row 2 RoleGuest] ev"
  have "\<exists>p d'. continue_match (demo_env 1) demo_alpha demo_ids (Uuid 10) ''sf'' (Uuid 50) TcpTunnel ?d = Ok (p, d')"
    by (simp add: continue_match_def demo_finished_def demo_rows demo_ids_def demo_alpha_def insert_room_def
        insert_member_def insert_attempt_def insert_invite_def insert_receipt_def insert_command_def new_room_def
        new_invite_def is_member_def update_rooms_def Let_def)
  moreover have "is_member ?d (Uuid 10) (q_user (demo_env 1))" "find_command (demo_env 1) (Uuid 50) ?d = None"
    "db_receipts ?d = []"
    "\<exists>r. find_room ?d (Uuid 10) = Some r \<and> r_state r = Finished \<and> r_game r = ''sf''"
    by (simp_all add: demo_finished_def demo_rows is_member_def find_command_def find_room_def)
  moreover note demo_route [of ev]
  ultimately show ?thesis
    by (auto simp: create_match_receipt_def transact_def create_receipt_txn_def created_reply_def ok_reply_def)
qed

section \<open>An invite of the waiting room, redeemed\<close>

definition demo_invited :: db where
  "demo_invited = snd (serve (CreateInvite (demo_env 1) demo_alpha (Uuid 60) (Uuid 10)) demo_waiting)"

lemma demo_invited_eq:
  "demo_invited = demo_waiting\<lparr>
     db_invites := [\<lparr>i_hash = ''0123456789'', i_room = Uuid 10, i_creator = Uuid 1, i_expires = minutes 15,
       i_consumed = None, i_consumer = None\<rparr>],
     db_events := db_events demo_waiting @ [\<lparr>ev_revision = 2, ev_room = Uuid 10, ev_attempt = None, ev_actor = None,
       ev_type = ''room.invite.created'', ev_payload = JObj []\<rparr>]\<rparr>"
  unfolding demo_invited_def demo_waiting_eq
  by (simp add: demo_defs demo_alpha_def create_invite_def Let_def invite_code_def new_invite_def insert_invite_def
      log_event_def INVITE_TTL_MINUTES_def to_ascii_uppercase_def ascii_upper_def
      is_ascii_lowercase_def)

lemma demo_invited_reachable: "reachable server_init server_step demo_invited"
  unfolding demo_invited_def by (rule reach_step [OF demo_reachable(2)]) (rule step_request)

lemma demo_code: "to_ascii_uppercase (trim ''0123456789'') = ''0123456789''" "valid_invite_code ''0123456789''"
  by (simp_all add: trim_graphic graphic_def to_ascii_uppercase_def ascii_upper_def is_ascii_lowercase_def
      valid_invite_code_def is_ascii_hexdigit_def is_ascii_digit_def)

lemma demo_join: "\<exists>y d'. serve (JoinInvite (demo_env 2) demo_alpha ''0123456789'') demo_invited = (Inr y, d')"
  unfolding demo_invited_eq demo_waiting_eq
  by (simp add: demo_code join_invite_def demo_defs demo_alpha_def join_invite_txn_def from_database_def transact_def Let_def
      invite_redeemable_def find_room_def minutes_def seconds_def cancel_other_waiting_def waiting_rooms_def
      insert_member_def is_member_def members_of_def set_room_state_def update_rooms_def update_active_attempt_def
      update_attempts_def log_event_def then_notify_def notify_room_state_def fetch_room_payload_def)

end
