(* ===== verification/Server_Records.thy ===== *)
theory Server_Records
  imports Server_Relations Server_Demo_Match
begin

text \<open>
  Rows that are never taken back: a redeemed invite stays redeemed, and the stored answer of a
  command stays what it was.
\<close>

section \<open>Invites and stored answers\<close>

definition spent :: "db \<Rightarrow> string \<Rightarrow> bool" where
  "spent d h \<longleftrightarrow> (\<exists>i \<in> set (db_invites d). i_hash i = h)
     \<and> (\<forall>i \<in> set (db_invites d). i_hash i = h \<longrightarrow> i_consumed i \<noteq> None)"

definition keeps_records :: "db \<Rightarrow> db \<Rightarrow> bool" where
  "keeps_records d d' \<longleftrightarrow> (\<forall>h. spent d h \<longrightarrow> spent d' h) \<and> (\<exists>ks. db_commands d' = db_commands d @ ks)"

lemma keeps_recordsI:
  "db_invites d' = db_invites d \<Longrightarrow> db_commands d' = db_commands d \<Longrightarrow> keeps_records d d'"
  by (simp add: keeps_records_def spent_def)

lemma keeps_records_trans: "keeps_records a b \<Longrightarrow> keeps_records b c \<Longrightarrow> keeps_records a c"
  by (auto simp: keeps_records_def)

text \<open>The statements that leave both tables alone.\<close>

lemma record_frame:
  "db_invites (log_event rid a u ty p d) = db_invites d"
  "db_commands (log_event rid a u ty p d) = db_commands d"
  "db_invites (log_room_event rid v ty p d) = db_invites d"
  "db_commands (log_room_event rid v ty p d) = db_commands d"
  "db_invites (set_room_state rid s t d) = db_invites d"
  "db_commands (set_room_state rid s t d) = db_commands d"
  "db_invites (update_rooms rp rf d) = db_invites d"
  "db_commands (update_rooms rp rf d) = db_commands d"
  "db_invites (update_attempts ap af d) = db_invites d"
  "db_commands (update_attempts ap af d) = db_commands d"
  "db_invites (update_challenges cp cf d) = db_invites d"
  "db_commands (update_challenges cp cf d) = db_commands d"
  "db_invites (update_matches mp mf d) = db_invites d"
  "db_commands (update_matches mp mf d) = db_commands d"
  "db_invites (update_runtime pp pf d) = db_invites d"
  "db_commands (update_runtime pp pf d) = db_commands d"
  "db_invites (update_room_attempt rid af d) = db_invites d"
  "db_commands (update_room_attempt rid af d) = db_commands d"
  "db_invites (update_active_attempt rid af d) = db_invites d"
  "db_commands (update_active_attempt rid af d) = db_commands d"
  "db_invites (insert_match env rid d) = db_invites d"
  "db_commands (insert_match env rid d) = db_commands d"
  "db_invites (cancel_waiting env game d) = db_invites d"
  "db_commands (cancel_waiting env game d) = db_commands d"
  "db_invites (expire_pending env d) = db_invites d"
  "db_commands (expire_pending env d) = db_commands d"
  "db_invites (cancel_other_waiting env game rid d) = db_invites d"
  "db_commands (cancel_other_waiting env game rid d) = db_commands d"
  "db_invites (start_playing env rid s d) = db_invites d"
  "db_commands (start_playing env rid s d) = db_commands d"
  "db_invites (record_exit env rid code d) = db_invites d"
  "db_commands (record_exit env rid code d) = db_commands d"
  "db_invites (fail_before_start env rid s d) = db_invites d"
  "db_commands (fail_before_start env rid s d) = db_commands d"
  "db_invites (finish_match env rid s d) = db_invites d"
  "db_commands (finish_match env rid s d) = db_commands d"
  "db_invites (expire_challenge_batch now busy d) = db_invites d"
  "db_commands (expire_challenge_batch now busy d) = db_commands d"
  "db_invites (cancel_expired now rs d) = db_invites d"
  "db_commands (cancel_expired now rs d) = db_commands d"
  by (simp_all add: log_event_def log_room_event_def set_room_state_def update_rooms_def update_attempts_def
      update_challenges_def update_matches_def update_runtime_def update_room_attempt_def update_active_attempt_def
      insert_match_def cancel_waiting_def expire_pending_def cancel_other_waiting_def start_playing_def
      record_exit_def fail_before_start_def finish_match_def expire_challenge_batch_def cancel_expired_def Let_def
      split: option.splits)

lemma record_frame_log [simp]:
  "db_invites (log_expired rs d) = db_invites d" "db_commands (log_expired rs d) = db_commands d"
proof -
  have "db_invites (log_expired rs d) = db_invites d \<and> db_commands (log_expired rs d) = db_commands d"
    unfolding log_expired_def by (induction rs arbitrary: d) (auto simp: record_frame)
  then show "db_invites (log_expired rs d) = db_invites d" "db_commands (log_expired rs d) = db_commands d" by auto
qed

lemma insert_inviteD: "insert_invite i d = Ok d' \<longleftrightarrow> (\<forall>j \<in> set (db_invites d). i_hash j \<noteq> i_hash i)
    \<and> d' = d\<lparr>db_invites := db_invites d @ [i]\<rparr>"
  by (auto simp: insert_invite_def list_ex_iff)

lemma keeps_records_invite:
  "\<forall>j \<in> set (db_invites d). i_hash j \<noteq> i_hash i \<Longrightarrow> db_invites d' = db_invites d @ [i] \<Longrightarrow>
   db_commands d' = db_commands d @ ks \<Longrightarrow> keeps_records d d'"
  by (auto simp: keeps_records_def spent_def)

lemma keeps_records_join:
  assumes "join_invite_txn env h d = Ok (rid, d')"
  shows "keeps_records d d'"
proof -
  from assms have "db_commands d' = db_commands d"
    and "db_invites d' = upd_where (\<lambda>j. i_hash j = h)
      (\<lambda>j. j\<lparr>i_consumed := Some (q_now env), i_consumer := Some (q_user env)\<rparr>) (db_invites d)"
    by (auto simp: join_invite_txn_def Let_def insert_memberD record_frame split: option.splits if_splits sum.splits)
  then show ?thesis
    by (auto simp: keeps_records_def spent_def in_upd_where bex_upd_where ball_upd_where)
qed

lemma keeps_records_receipt:
  assumes "create_receipt_txn env al ids source key d = Ok (y, d')"
  shows "keeps_records d d'"
proof (cases "d' = d")
  case False
  with assms obtain game route payload where
    "continue_match env al ids source game key route d = Ok (payload, d')"
    by (auto simp: create_receipt_txn_def split: option.splits if_splits sum.splits)
  then have "\<exists>i ks. (\<forall>j \<in> set (db_invites d). i_hash j \<noteq> i_hash i) \<and> db_invites d' = db_invites d @ [i]
      \<and> db_commands d' = db_commands d @ ks"
    by (auto simp: continue_match_def Let_def insert_roomD insert_memberD insert_attemptD insert_inviteD
        insert_receipt_def insert_command_def record_frame split: sum.splits if_splits)
  then show ?thesis by (auto intro: keeps_records_invite)
qed (simp add: keeps_recordsI)

interpretation records: request_relation keeps_records
proof
  show "keeps_records d d" for d by (simp add: keeps_recordsI)
  show "keeps_records d d' \<Longrightarrow> keeps_records d (d'\<lparr>db_rooms_created := n\<rparr>)" for d d' n
    by (simp add: keeps_records_def spent_def)
  show "join_invite_txn env h d = Ok (rid, d') \<Longrightarrow> keeps_records d d'" for env h d rid d'
    by (rule keeps_records_join)
  show "create_receipt_txn env al ids source key d = Ok (r, d') \<Longrightarrow> keeps_records d d'"
    for env al ids source key d r d'
    by (rule keeps_records_receipt)
  show "keeps_records d (snd (create_invite env al fresh rid d))" for env al fresh rid d
    by (auto simp: create_invite_def Let_def insert_inviteD record_frame keeps_recordsI
        intro!: keeps_records_invite split: sum.splits)
  show "change_room_state_txn env rid ev host_only d = Ok (x, d') \<Longrightarrow> keeps_records d d'"
    for env rid ev host_only d x d'
    by (rule keeps_recordsI) (auto simp: change_room_state_txn_def Let_def record_frame split: if_splits sum.splits)
  show "confirm_native_exit_txn env rid code d = Ok (x, d') \<Longrightarrow> keeps_records d d'" for env rid code d x d'
    by (rule keeps_recordsI) (auto simp: confirm_native_exit_txn_def Let_def record_frame split: if_splits sum.splits)
  show "confirm_native_launch_txn env rid d = Ok (x, d') \<Longrightarrow> keeps_records d d'" for env rid d x d'
    by (rule keeps_recordsI)
       (auto simp: confirm_native_launch_txn_def Let_def record_frame split: if_splits sum.splits option.splits)
  show "create_challenge_txn env creq rid aid cid d = Ok (x, d') \<Longrightarrow> keeps_records d d'"
    for env creq rid aid cid d x d'
    by (rule keeps_recordsI)
       (auto simp: create_challenge_txn_def Let_def insert_room_def insert_memberD insert_attemptD insert_challenge_def
          record_frame split: if_splits sum.splits option.splits)
  show "accept_challenge_txn env cid d = Ok (y, d') \<Longrightarrow> keeps_records d d'" for env cid d y d'
    by (rule keeps_recordsI)
       (auto simp: accept_challenge_txn_def Let_def insert_memberD record_frame split: if_splits sum.splits)
  show "accept_room_txn env rid d = Ok (b, d') \<Longrightarrow> keeps_records d d'" for env rid d b d'
    by (rule keeps_recordsI)
       (auto simp: accept_room_txn_def Let_def insert_memberD record_frame split: if_splits sum.splits)
  show "create_room_txn env req rid aid d = Ok (b, d') \<Longrightarrow> keeps_records d d'" for env req rid aid d b d'
    by (rule keeps_recordsI)
       (auto simp: create_room_txn_def Let_def insert_room_def insert_memberD insert_attemptD record_frame
          split: if_splits sum.splits)
  show "submit_preflight_txn env rid p d = Ok (x, d') \<Longrightarrow> keeps_records d d'" for env rid p d x d'
    by (rule keeps_recordsI)
       (auto simp: submit_preflight_txn_def Let_def upsert_preflight_def record_frame split: if_splits sum.splits)
  show "ready_to_launch_txn env rid d = Ok (x, d') \<Longrightarrow> keeps_records d d'" for env rid d x d'
    by (rule keeps_recordsI)
       (auto simp: ready_to_launch_txn_def Let_def upsert_barrier_def record_frame
          split: if_splits sum.splits prod.splits)
  show "keeps_records d (snd (submit_evidence env ex d))" for env ex d
    by (rule keeps_recordsI) (auto simp: submit_evidence_def Let_def split: sum.splits option.splits)
qed (auto simp: create_launch_grant_txn_def insert_grant_def consume_launch_grant_def resolve_challenge_txn_def
      reconcile_expired_def Let_def record_frame intro!: keeps_recordsI split: if_splits sum.splits option.splits)

section \<open>What callers see of it\<close>

lemma server_invI: "reachable server_init server_step d \<Longrightarrow> server_step d d' \<Longrightarrow> server_inv d'"
  using server.reachable_inv reach_step by metis

lemma join_invite_spends:
  assumes "join_invite env al code d = (Inr y, d')"
  shows "spent d' (al_hash al (to_ascii_uppercase (trim code)))"
proof -
  define h where "h = al_hash al (to_ascii_uppercase (trim code))"
  from assms obtain rid where j: "join_invite_txn env h d = Ok (rid, d')"
    by (cases "join_invite_txn env h d")
       (auto simp: join_invite_def Let_def h_def then_notify_def split: if_splits sum.splits)
  then have "\<exists>i \<in> set (db_invites d). i_hash i = h"
    and "db_invites d' = upd_where (\<lambda>j. i_hash j = h)
      (\<lambda>j. j\<lparr>i_consumed := Some (q_now env), i_consumer := Some (q_user env)\<rparr>) (db_invites d)"
    by (auto simp: join_invite_txn_def Let_def insert_memberD record_frame invite_redeemable_def
        dest!: find_SomeD split: option.splits if_splits sum.splits)
  then show ?thesis
    by (auto simp: spent_def h_def [symmetric] bex_upd_where ball_upd_where)
qed

lemma spent_not_redeemable: "spent d h \<Longrightarrow> find (invite_redeemable env h) (db_invites d) = None"
  by (auto simp: spent_def find_None_iff invite_redeemable_def)

lemma join_spent:
  assumes "spent d (al_hash al (to_ascii_uppercase (trim code)))"
  shows "join_invite env al code d =
    (if valid_invite_code (to_ascii_uppercase (trim code))
     then (Err (NotFound ''invite is invalid, expired, or already used''), d)
     else (Err (BadRequest ''invite code is invalid''), d))"
  using spent_not_redeemable [OF assms] by (simp add: join_invite_def Let_def join_invite_txn_def transact_def)

text \<open>C29 An invite is redeemed at most once: after a reply that let a user in, no later request with
  the same code succeeds, whoever sends it, however the code is written (surrounding blanks, letter
  case) and whatever else the server did in between; it is answered as used and changes nothing.\<close>

theorem invite_single_use:
  assumes "reachable server_init server_step d" "serve (JoinInvite env al code) d = (Inr y, d1)"
    and "server_step\<^sup>*\<^sup>* d1 d2" "to_ascii_uppercase (trim code') = to_ascii_uppercase (trim code)"
    and "valid_invite_code (to_ascii_uppercase (trim code))"
  shows "serve (JoinInvite env' al code') d2 = (Err (NotFound ''invite is invalid, expired, or already used''), d2)"
proof -
  have "server_step d d1" using step_request [of d "JoinInvite env al code"] assms(2) by simp
  then have "server_inv d1" by (rule server_invI [OF assms(1)])
  then have "keeps_records d1 d2" by (rule records.of_run [OF assms(3)]) (rule keeps_records_trans)
  moreover have "spent d1 (al_hash al (to_ascii_uppercase (trim code)))"
    using assms(2) by (simp add: join_invite_spends)
  ultimately have "spent d2 (al_hash al (to_ascii_uppercase (trim code')))"
    by (simp add: keeps_records_def assms(4))
  with join_spent show ?thesis by (simp add: assms(4,5))
qed

theorem invite_single_use_witness:
  "\<exists>y d'. serve (JoinInvite (demo_env 2) demo_alpha ''0123456789'') demo_invited = (Inr y, d')
     \<and> serve (JoinInvite (demo_env 3) demo_alpha ''0123456789'') d' =
         (Err (NotFound ''invite is invalid, expired, or already used''), d')"
proof -
  from demo_join obtain y d' where j: "serve (JoinInvite (demo_env 2) demo_alpha ''0123456789'') demo_invited = (Inr y, d')"
    by blast
  have "valid_invite_code (to_ascii_uppercase (trim ''0123456789''))" by (simp only: demo_code)
  from invite_single_use [OF demo_invited_reachable j rtranclp.rtrancl_refl refl this, where env' = "demo_env 3"] j
  show ?thesis by blast
qed

lemma find_append_Some: "find p xs = Some x \<Longrightarrow> find p (xs @ ys) = Some x"
  by (induction xs) auto

lemma find_append_None: "find p xs = None \<Longrightarrow> find p (xs @ ys) = find p ys"
  by (induction xs) (auto split: if_splits)

lemma keeps_command: "keeps_records d d' \<Longrightarrow> find_command env key d = Some k \<Longrightarrow> find_command env key d' = Some k"
  by (auto simp: keeps_records_def find_command_def intro: find_append_Some)

lemma receipt_stored:
  assumes "create_receipt_txn env al ids source key d = Ok (y, d')" "find_command env key d = None"
  shows "\<exists>p. y = created_reply ''match.receipt.created'' (BodyReceipt p)
    \<and> find_command env key d' = Some \<lparr>k_actor = q_user env, k_key = key, k_type = ''match.receipt.create'', k_response = p\<rparr>"
proof -
  from assms obtain game route p where y: "y = created_reply ''match.receipt.created'' (BodyReceipt p)"
    and c: "continue_match env al ids source game key route d = Ok (p, d')"
    by (auto simp: create_receipt_txn_def split: option.splits if_splits sum.splits)
  from c have "db_commands d' = db_commands d @
      [\<lparr>k_actor = q_user env, k_key = key, k_type = ''match.receipt.create'', k_response = p\<rparr>]"
    by (auto simp: continue_match_def Let_def insert_roomD insert_memberD insert_attemptD insert_inviteD
        insert_receipt_def insert_command_def record_frame split: sum.splits if_splits)
  with assms(2) y show ?thesis
    by (auto simp: find_command_def find_append_None)
qed

text \<open>C28 Creating a match receipt is idempotent: once a key was answered with a new receipt, every
  later request of the same user with that key, at any later time and for whatever room, is answered
  with status 200 and the very same receipt, and changes nothing.\<close>

theorem receipt_idempotent:
  assumes "reachable server_init server_step d" "serve (CreateReceipt env al ids source key d) d = (Inr y, d1)"
    and "y_status y = 201" "server_step\<^sup>*\<^sup>* d1 d2" "q_user env' = q_user env"
  shows "\<exists>p. y_body y = BodyReceipt p
    \<and> serve (CreateReceipt env' al' ids' source' key d2) d2 = (Ok (ok_reply ''match.receipt.created'' (BodyReceipt p)), d2)"
proof -
  have step: "server_step d d1" using step_request [of d "CreateReceipt env al ids source key d"] assms(2) by simp
  then have "server_inv d1" by (rule server_invI [OF assms(1)])
  then have kept: "keeps_records d1 d2" by (rule records.of_run [OF assms(4)]) (rule keeps_records_trans)
  have none: "find_command env key d = None"
    using assms(2,3) by (auto simp: create_match_receipt_def replay_command_def ok_reply_def split: option.splits if_splits)
  with assms(2) have "create_receipt_txn env al ids source key d = Ok (y, d1)"
    by (cases "create_receipt_txn env al ids source key d") (auto simp: create_match_receipt_def)
  from receipt_stored [OF this none] obtain p where y: "y = created_reply ''match.receipt.created'' (BodyReceipt p)"
    and k: "find_command env key d1 = Some \<lparr>k_actor = q_user env, k_key = key, k_type = ''match.receipt.create'', k_response = p\<rparr>"
    by blast
  from keeps_command [OF kept k] have "find_command env' key d2 = Some
      \<lparr>k_actor = q_user env, k_key = key, k_type = ''match.receipt.create'', k_response = p\<rparr>"
    by (simp add: find_command_def assms(5))
  with y show ?thesis by (simp add: create_match_receipt_def replay_command_def created_reply_def ok_reply_def)
qed

theorem receipt_idempotent_witness:
  "\<exists>d p d'. reachable server_init server_step d
     \<and> serve (CreateReceipt (demo_env 1) demo_alpha demo_ids (Uuid 10) (Uuid 50) d) d
         = (Ok (created_reply ''match.receipt.created'' (BodyReceipt p)), d')
     \<and> serve (CreateReceipt (demo_env 1) demo_alpha demo_ids (Uuid 12) (Uuid 50) d') d'
         = (Ok (ok_reply ''match.receipt.created'' (BodyReceipt p)), d')"
proof -
  from demo_10 obtain ev where r: "reachable server_init server_step
      (demo_finished [] [demo_evidence_row 1 RoleHost, demo_evidence_row 2 RoleGuest] ev)" (is "reachable _ _ ?d")
    by blast
  from demo_receipt [of ev] obtain y d' where y: "serve (CreateReceipt (demo_env 1) demo_alpha demo_ids (Uuid 10) (Uuid 50) ?d) ?d
      = (Inr y, d')" "y_status y = 201" by blast
  have "\<exists>p. y = created_reply ''match.receipt.created'' (BodyReceipt p)"
    using y by (auto simp: create_match_receipt_def create_receipt_txn_def replay_command_def ok_reply_def transact_def
        split: option.splits if_splits sum.splits)
  then obtain p where p: "y = created_reply ''match.receipt.created'' (BodyReceipt p)" by blast
  from receipt_idempotent [OF r y rtranclp.rtrancl_refl refl, where source' = "Uuid 12" and al' = demo_alpha
      and ids' = demo_ids] p
  have "serve (CreateReceipt (demo_env 1) demo_alpha demo_ids (Uuid 12) (Uuid 50) d') d'
      = (Ok (ok_reply ''match.receipt.created'' (BodyReceipt p)), d')"
    by (auto simp: created_reply_def ok_reply_def)
  with r y(1) p show ?thesis by blast
qed

end
