(* ===== verification/Server_Launch.thy ===== *)
theory Server_Launch
  imports Server_Demo_Match
begin

text \<open>
  Starting the native game needs a redeemed launch grant, once per player; and a pending challenge
  whose room was accepted through the room route can still cancel that room after it finished.
\<close>

section \<open>Launch confirmation\<close>

lemma find_player: "find (\<lambda>p. p_room p = rid \<and> p_user p = u) P = Some p \<Longrightarrow> u \<in> set (players_in P rid)"
  by (auto simp: players_in_def dest!: find_SomeD)

lemma start_playing_frame:
  "db_runtime (start_playing env rid s d) = db_runtime d"
  "db_grants (start_playing env rid s d) = db_grants d"
  by (simp_all add: start_playing_def insert_match_def log_room_event_def log_event_def update_active_attempt_def
      update_attempts_def set_room_state_def update_rooms_def split: option.splits)

lemma launch_confirmed:
  assumes inv: "server_inv d" and t: "confirm_native_launch_txn env rid d = Ok (x, d')"
  shows "(q_user env \<in> set (participants_of d rid) \<and> d' = d)
    \<or> (launch_authorized env d rid \<and> q_user env \<in> set (members_of d rid)
       \<and> participants_of d' rid = participants_of d rid @ [q_user env]
       \<and> (\<forall>g \<in> set (db_grants d'). \<not> (g_room g = rid \<and> g_local g = q_user env))
       \<and> (\<exists>r \<in> set (db_rooms d'). r_id r = rid
            \<and> r_state r = (if length (participants_of d' rid) = 2 then Playing else Connecting)))"
proof -
  from t obtain h s k where l: "locked_room env d rid = Ok (h, s, k)"
    by (auto simp: confirm_native_launch_txn_def split: sum.splits)
  from locked_roomD [OF l] obtain r where f: "find_room d rid = Some r" and s: "s = r_state r" by blast
  from find_roomD [OF f] have r: "r \<in> set (db_rooms d)" "r_id r = rid" by blast+
  have tab: "tables_inv (db_rooms d) (db_members d) (db_attempts d) (db_runtime d) (db_matches d)"
    using inv by (simp add: server_inv_def)
  note ok = tables_invD(7) [OF tab r(1), unfolded room_ok_def r(2)]
  show ?thesis
  proof (cases "find (\<lambda>p. p_room p = rid \<and> p_user p = q_user env) (db_runtime d)")
    case (Some p)
    with t l find_player [OF Some] show ?thesis
      by (auto simp: confirm_native_launch_txn_def participants_of_players split: if_splits)
  next
    case None
    let ?d2 = "d\<lparr>db_runtime := db_runtime d @ [launch_row env rid],
      db_grants := filter (\<lambda>g. \<not> (g_room g = rid \<and> g_local g = q_user env)) (db_grants d)\<rparr>"
    have u: "q_user env \<notin> set (players_in (db_runtime d) rid)" by (rule players_find [OF None])
    from t l None have auth: "launch_authorized env d rid" "is_member d rid (q_user env)" and st: "s = Connecting \<or> s = Playing"
      by (auto simp: confirm_native_launch_txn_def Let_def split: if_splits)
    have mem: "q_user env \<in> set (users_in (db_members d) rid)" using auth(2) by (simp add: is_member_iff members_of_users)
    have conn: "s = Connecting"
    proof (rule ccontr)
      assume "s \<noteq> Connecting"
      with st s ok have "length (players_in (db_runtime d) rid) = 2" "length (users_in (db_members d) rid) = 2" by auto
      with tables_invD(3-5) [OF tab, of rid] have "set (players_in (db_runtime d) rid) = set (users_in (db_members d) rid)"
        by (intro card_subset_eq) (simp_all add: distinct_card)
      with u mem show False by blast
    qed
    have two: "length (members_of ?d2 rid) = 2" using ok conn s by (simp add: members_of_def users_in_def)
    have parts: "participants_of ?d2 rid = participants_of d rid @ [q_user env]"
      by (simp add: participants_of_players launch_row_def)
    have d': "d' = (if length (participants_of ?d2 rid) = 2 then start_playing env rid Playing ?d2 else ?d2)"
      using t l None auth conn two by (auto simp: confirm_native_launch_txn_def Let_def)
    have "\<exists>r \<in> set (db_rooms d'). r_id r = rid \<and> r_state r = (if length (participants_of ?d2 rid) = 2 then Playing else Connecting)"
    proof (cases "length (participants_of ?d2 rid) = 2")
      case True
      then have "db_rooms d' = moves_to rid Playing (Some (q_now env + hours 4)) (db_rooms d)"
        by (simp add: d' start_playing_def row_simps insert_match_def split: option.splits)
      with True r show ?thesis by (auto simp: moves_to_def bex_upd_where intro!: bexI [of _ r])
    next
      case False
      with r conn s show ?thesis by (auto simp: d' intro!: bexI [of _ r])
    qed
    moreover have "participants_of d' rid = participants_of ?d2 rid" "db_grants d' = db_grants ?d2"
      by (simp_all add: d' participants_of_def start_playing_frame)
    ultimately show ?thesis
      using auth mem parts by (auto simp: members_of_users)
  qed
qed



section \<open>A challenge that outlives the acceptance of its room\<close>

definition demo_challenge :: challenge_row where
  "demo_challenge = \<lparr>c_id = Uuid 70, c_room = Uuid 10, c_challenger = Uuid 1, c_challenged = Uuid 2, c_state = ChPending,
     c_expires = minutes 5, c_created = 0\<rparr>"

definition demo_challenged :: db where
  "demo_challenged = snd (serve (CreateChallenge (demo_env 1) \<lparr>ccr_game_id = ''sf'', ccr_challenged_id = Uuid 2\<rparr>
     (Uuid 10) (Uuid 20) (Uuid 70) demo_start) demo_start)"

lemma demo_challenged_eq:
  "demo_challenged = demo_start\<lparr>
     db_rooms := [\<lparr>r_id = Uuid 10, r_game = ''sf'', r_host = Uuid 1, r_state = Challenging, r_max_players = 2,
       r_attempt = Uuid 20, r_deadline = Some (minutes 5), r_created = 0\<rparr>],
     db_members := [\<lparr>m_room = Uuid 10, m_user = Uuid 1, m_joined = 0\<rparr>],
     db_challenges := [demo_challenge],
     db_attempts := [\<lparr>a_id = Uuid 20, a_room = Uuid 10, a_state = AtActive, a_failure = None,
       a_deadline = Some (minutes 5), a_finished = None\<rparr>],
     db_events := [\<lparr>ev_revision = 1, ev_room = Uuid 10, ev_attempt = Some (Uuid 20), ev_actor = Some (Uuid 1),
       ev_type = ''challenge.created'', ev_payload = challenge_json (demo_env 1) (Uuid 70)\<rparr>]\<rparr>"
  unfolding demo_challenged_def
  by (simp add: demo_defs demo_challenge_def create_challenge_def is_blank_graphic graphic_def transact_def
      create_challenge_txn_def recent_challenges_def cancel_waiting_def expire_pending_def waiting_rooms_def
      update_rooms_def update_attempts_def update_challenges_def insert_room_def insert_member_def insert_attempt_def
      insert_challenge_def new_room_def log_event_def is_member_def Let_def)

lemma demo_challenge_accepted: "reaches (demo_db [demo_challenge] Connecting (Some (minutes 2)) AtActive None [] [] [] [])"
proof -
  have "reachable server_init server_step demo_challenged"
    unfolding demo_challenged_def by (rule reach_step [OF demo_reachable(1)]) (rule step_request)
  then have "reaches (\<lambda>_. demo_challenged)" by blast
  then show ?thesis
    by (rule demo_next [where req = "AcceptRoom (demo_env 2) (Uuid 10)"])
       (simp add: demo_challenged_eq demo_defs demo_db_def accept_room_def Let_def transact_def
        accept_room_txn_def locked_room_eq find_room_def is_member_def members_of_def insert_member_def
        set_room_state_def update_rooms_def update_room_attempt_def update_attempts_def room_attempt_def
        log_room_event_def log_event_def then_notify_def)
qed

text \<open>A finished room can still be cancelled: the room of a challenge can be accepted through the
  room route, which leaves the challenge pending; after the match has been played to its end, the
  challenger's cancellation of that challenge moves the finished room to the cancelled state, although
  the state machine has no such transition.\<close>

theorem finished_room_cancelled:
  "\<exists>d. reachable server_init server_step d
     \<and> map r_state (db_rooms d) = [Finished]
     \<and> map r_state (db_rooms (snd (serve (CancelChallenge (demo_env 1) (Uuid 70)) d))) = [Cancelled]
     \<and> (\<forall>ev. \<not> is_ok (transition Finished ev))"
proof -
  from demo_8 [OF demo_challenge_accepted] obtain ev where
    r: "reachable server_init server_step (demo_finished [demo_challenge] [] ev)" (is "reachable _ _ ?d") by blast
  have "map r_state (db_rooms ?d) = [Finished]" by (simp add: demo_finished_def demo_db_def)
  moreover have "map r_state (db_rooms (snd (serve (CancelChallenge (demo_env 1) (Uuid 70)) ?d))) = [Cancelled]"
    by (simp add: demo_finished_def demo_rows demo_challenge_def cancel_challenge_def resolve_challenge_def transact_def
        resolve_challenge_txn_def locked_challenge_def find_room_def require_pending_def minutes_def seconds_def Let_def
        update_challenges_def set_room_state_def update_rooms_def update_active_attempt_def update_attempts_def
        log_room_event_def log_event_def)
  moreover have "\<forall>ev. \<not> is_ok (transition Finished ev)"
    by (intro allI, rename_tac ev, case_tac ev) simp_all
  ultimately show ?thesis using r by (intro exI [of _ ?d] conjI) assumption+
qed

end
