(* ===== verification/Server_Exit.thy ===== *)
theory Server_Exit
  imports Server_Relations Server_Demo_Match
begin

text \<open>
  Reporting the exit of a native game more than once (\<open>routes/rooms.rs\<close>, called in a retry loop by
  \<open>commands/process.rs\<close> of the client): what is recorded about a player is never taken back, a room
  of which a player has ended is playing with another player still in the game, finished, or
  cancelled, and so a repeated report finds nothing to do.
\<close>

section \<open>What a step does to the players\<close>

definition keeps_exit :: "runtime_row \<Rightarrow> runtime_row \<Rightarrow> bool" where
  "keeps_exit p p' \<longleftrightarrow> p_room p' = p_room p \<and> p_user p' = p_user p
     \<and> (p_ended p \<noteq> None \<longrightarrow> p_ended p' = p_ended p) \<and> (p_exit_code p \<noteq> None \<longrightarrow> p_exit_code p' = p_exit_code p)"

definition settled :: "db \<Rightarrow> uuid \<Rightarrow> bool" where
  "settled d rid \<longleftrightarrow> (\<forall>r \<in> set (db_rooms d). r_id r = rid \<longrightarrow> r_state r = Finished \<or> r_state r = Cancelled
     \<or> (r_state r = Playing \<and> (\<exists>q \<in> set (db_runtime d). p_room q = rid \<and> p_ended q = None)))"

definition runtime_step :: "db \<Rightarrow> db \<Rightarrow> bool" where
  "runtime_step d d' \<longleftrightarrow> (\<exists>g ps. db_runtime d' = map g (db_runtime d) @ ps \<and> (\<forall>p. keeps_exit p (g p))
     \<and> (\<forall>p \<in> set ps. p_ended p = None)
     \<and> (\<forall>p \<in> set (db_runtime d). p_ended p = None \<and> p_ended (g p) \<noteq> None \<longrightarrow> settled d' (p_room p)))"

lemma keeps_exit_refl [simp]: "keeps_exit p p"
  by (simp add: keeps_exit_def)

lemma keeps_exit_trans: "keeps_exit p q \<Longrightarrow> keeps_exit q r \<Longrightarrow> keeps_exit p r"
  by (simp add: keeps_exit_def)

lemma runtime_same: "db_runtime d' = db_runtime d \<Longrightarrow> runtime_step d d'"
  unfolding runtime_step_def by (rule exI [of _ "\<lambda>p. p"], rule exI [of _ "[]"]) auto

lemma runtime_launched: "db_runtime d' = db_runtime d @ [p] \<Longrightarrow> p_ended p = None \<Longrightarrow> runtime_step d d'"
  unfolding runtime_step_def by (rule exI [of _ "\<lambda>p. p"], rule exI [of _ "[p]"]) auto

lemma runtime_updated:
  assumes "db_runtime d' = upd_where q g (db_runtime d)" "\<And>p. keeps_exit p (g p)"
    and "\<And>p. p \<in> set (db_runtime d) \<Longrightarrow> q p \<Longrightarrow> settled d' (p_room p)"
  shows "runtime_step d d'"
  unfolding runtime_step_def
  by (rule exI [of _ "\<lambda>p. if q p then g p else p"], rule exI [of _ "[]"])
     (use assms in \<open>auto simp: upd_where_def\<close>)

lemma keeps_exit_updates [simp]:
  "keeps_exit p (p\<lparr>p_ended := coalesce (p_ended p) now\<rparr>)"
  "keeps_exit p (p\<lparr>p_ended := coalesce (p_ended p) now,
     p_exit_code := (case p_exit_code p of None \<Rightarrow> code | Some x \<Rightarrow> Some x)\<rparr>)"
  by (auto simp: keeps_exit_def coalesce_def split: option.splits)

lemma moved_state:
  assumes "r \<in> set (moves_to rid s t R)" "r_id r = rid"
  shows "r_state r = s"
proof -
  from assms(1) obtain q where q: "r = (if r_id q = rid then q\<lparr>r_state := s, r_deadline := t\<rparr> else q)"
    unfolding moves_to_def set_upd_where by blast
  with assms(2) show ?thesis by (cases "r_id q = rid") simp_all
qed

lemma settled_moved:
  "db_rooms d = moves_to rid s t R \<Longrightarrow> s = Finished \<or> s = Cancelled \<Longrightarrow> settled d rid"
  unfolding settled_def by (auto dest: moved_state)

lemma not_all_ended:
  assumes inv: "server_inv d" and r: "find_room d rid = Some r" "r_state r = Playing"
    and some: "ended_count d rid \<noteq> 2"
  shows "\<exists>q \<in> set (db_runtime d). p_room q = rid \<and> p_ended q = None"
proof (rule ccontr)
  assume "\<not> ?thesis"
  then have "filter (\<lambda>p. p_room p = rid \<and> p_ended p \<noteq> None) (db_runtime d) = filter (\<lambda>p. p_room p = rid) (db_runtime d)"
    by (intro filter_cong) auto
  moreover have "length (players_in (db_runtime d) rid) = 2"
    using tables_invD(7) [OF inv [unfolded server_inv_def]] find_roomD [OF r(1)] r(2) by (auto simp: room_ok_def)
  ultimately show False using some by (simp add: ended_count_def players_in_def)
qed

lemma runtime_exit:
  assumes inv: "server_inv d" and c: "confirm_native_exit_txn env rid code d = Ok (x, d')"
  shows "runtime_step d d'"
proof -
  from c obtain h s k where l: "locked_room env d rid = Ok (h, s, k)"
    by (auto simp: confirm_native_exit_txn_def split: sum.splits)
  from locked_roomD [OF l] obtain r where r: "find_room d rid = Some r" "s = r_state r" by blast
  let ?d1 = "record_exit env rid code d"
  have r1: "find_room ?d1 rid = Some r" using r by (simp add: row_simps)
  have inv1: "server_inv ?d1" by (rule record_exit_inv [OF inv])
  have two: "length (members_of ?d1 rid) = 2" if "s = Playing"
    using tables_invD(7) [OF inv1 [unfolded server_inv_def]] find_roomD [OF r1] r(2) that
    by (auto simp: room_ok_def members_of_users)
  have only: "q = r" if "q \<in> set (db_rooms d)" "r_id q = rid" for q
    using found_only [OF inv r(1)] that by blast
  have rt: "db_runtime d' = upd_where (\<lambda>p. p_room p = rid \<and> p_user p = q_user env)
      (\<lambda>p. p\<lparr>p_ended := coalesce (p_ended p) (q_now env),
             p_exit_code := (case p_exit_code p of None \<Rightarrow> code | Some x \<Rightarrow> Some x)\<rparr>) (db_runtime d)"
    using c l by (auto simp: confirm_native_exit_txn_def Let_def record_exit_def fail_before_start_def
        finish_match_def row_simps update_runtime_def split: if_splits sum.splits)
  have "settled d' rid"
  proof -
    have "db_rooms d' = moves_to rid Cancelled None (db_rooms d) \<or> db_rooms d' = moves_to rid Finished None (db_rooms d)
      \<or> (d' = ?d1 \<and> (s = Finished \<or> s = Cancelled \<or> s = Playing \<and> ended_count ?d1 rid \<noteq> 2))"
      using c two unfolding confirm_native_exit_txn_def l Let_def sum.case prod.case
      by (cases s) (auto simp: row_simps fail_before_start_def finish_match_def split: if_splits)
    then consider "db_rooms d' = moves_to rid Cancelled None (db_rooms d) \<or> db_rooms d' = moves_to rid Finished None (db_rooms d)"
      | "d' = ?d1" "s = Finished \<or> s = Cancelled" | "d' = ?d1" "s = Playing" "ended_count ?d1 rid \<noteq> 2"
      by blast
    then show ?thesis
    proof cases
      case 1
      then show ?thesis using settled_moved by blast
    next
      case 2
      then show ?thesis using only r(2) by (auto simp: settled_def row_simps)
    next
      case 3
      with not_all_ended [OF inv1 r1] r(2) only show ?thesis by (auto simp: settled_def row_simps)
    qed
  qed
  with rt show ?thesis by (intro runtime_updated [OF rt]) simp_all
qed

lemma runtime_change:
  assumes "change_room_state_txn env rid ev host_only d = Ok (x, d')"
  shows "runtime_step d d'"
proof (cases "db_runtime d' = db_runtime d")
  case False
  with assms have rt: "db_runtime d' = upd_where (\<lambda>p. p_room p = rid) (\<lambda>p. p\<lparr>p_ended := coalesce (p_ended p) (q_now env)\<rparr>) (db_runtime d)"
    and rooms: "db_rooms d' = moves_to rid Cancelled None (db_rooms d)"
    by (auto simp: change_room_state_txn_def Let_def row_simps update_runtime_def split: if_splits sum.splits)
  show ?thesis by (rule runtime_updated [OF rt]) (use settled_moved [OF rooms] in simp_all)
qed (rule runtime_same)

lemma runtime_launch:
  assumes "confirm_native_launch_txn env rid d = Ok (x, d')"
  shows "runtime_step d d'"
proof (cases "db_runtime d' = db_runtime d")
  case False
  with assms have "db_runtime d' = db_runtime d @ [launch_row env rid]"
    by (auto simp: confirm_native_launch_txn_def Let_def start_playing_def insert_match_def row_simps
        split: if_splits sum.splits option.splits)
  then show ?thesis by (rule runtime_launched) (simp add: launch_row_def)
qed (rule runtime_same)

lemma runtime_reconcile: "runtime_step d (fst (reconcile_expired now busy d))"
proof -
  let ?ids = "set (map r_id (expired_rooms now busy d))" and ?d' = "fst (reconcile_expired now busy d)"
  have rt: "db_runtime ?d' = upd_where (\<lambda>p. p_room p \<in> ?ids) (\<lambda>p. p\<lparr>p_ended := coalesce (p_ended p) now\<rparr>) (db_runtime d)"
    and rooms: "db_rooms ?d' = upd_where (\<lambda>r. r_id r \<in> ?ids) (\<lambda>r. r\<lparr>r_state := Cancelled, r_deadline := None\<rparr>) (db_rooms d)"
    by (simp_all add: reconcile_expired_def Let_def row_simps cancel_expired_def update_runtime_def)
  show ?thesis
    by (rule runtime_updated [OF rt]) (auto simp: settled_def rooms set_upd_where split: if_splits)
qed

interpretation runtime: request_relation runtime_step
proof
  show "runtime_step d d" for d by (rule runtime_same) simp
  show "runtime_step d d' \<Longrightarrow> runtime_step d (d'\<lparr>db_rooms_created := n\<rparr>)" for d d' n
    by (simp add: runtime_step_def settled_def)
  show "confirm_native_exit_txn env rid code d = Ok (x, d') \<Longrightarrow> server_inv d \<Longrightarrow> runtime_step d d'" for env rid code d x d'
    by (rule runtime_exit)
  show "change_room_state_txn env rid ev host_only d = Ok (x, d') \<Longrightarrow> runtime_step d d'" for env rid ev host_only d x d'
    by (rule runtime_change)
  show "confirm_native_launch_txn env rid d = Ok (x, d') \<Longrightarrow> runtime_step d d'" for env rid d x d'
    by (rule runtime_launch)
  show "runtime_step d (fst (reconcile_expired now busy d))" for now busy d
    by (rule runtime_reconcile)
  show "join_invite_txn env h d = Ok (rid, d') \<Longrightarrow> runtime_step d d'" for env h d rid d'
    by (rule runtime_same)
       (auto simp: join_invite_txn_def Let_def insert_memberD row_simps cancel_other_waiting_def
          split: option.splits if_splits sum.splits)
  show "create_receipt_txn env al ids source key d = Ok (r, d') \<Longrightarrow> runtime_step d d'"
    for env al ids source key d r d'
    by (rule runtime_same)
       (auto simp: create_receipt_txn_def continue_match_def Let_def insert_roomD insert_memberD insert_attemptD
          insert_invite_def insert_receipt_def insert_command_def row_simps split: option.splits if_splits sum.splits)
  show "create_challenge_txn env creq rid aid cid d = Ok (x, d') \<Longrightarrow> runtime_step d d'"
    for env creq rid aid cid d x d'
    by (rule runtime_same)
       (auto simp: create_challenge_txn_def Let_def insert_roomD insert_memberD insert_attemptD cancel_waiting_def
          expire_pending_def row_simps dest!: insert_challengeD split: if_splits sum.splits option.splits)
  show "accept_challenge_txn env cid d = Ok (y, d') \<Longrightarrow> runtime_step d d'" for env cid d y d'
    by (rule runtime_same)
       (auto simp: accept_challenge_txn_def Let_def insert_memberD cancel_waiting_def row_simps split: if_splits sum.splits)
  show "accept_room_txn env rid d = Ok (b, d') \<Longrightarrow> runtime_step d d'" for env rid d b d'
    by (rule runtime_same)
       (auto simp: accept_room_txn_def Let_def insert_memberD row_simps split: if_splits sum.splits)
  show "create_room_txn env req rid aid d = Ok (b, d') \<Longrightarrow> runtime_step d d'" for env req rid aid d b d'
    by (rule runtime_same)
       (auto simp: create_room_txn_def Let_def insert_roomD insert_memberD insert_attemptD row_simps
          split: if_splits sum.splits)
  show "resolve_challenge_txn env cid cancel d = Ok (z, d') \<Longrightarrow> runtime_step d d'" for env cid cancel d z d'
    by (rule runtime_same) (auto simp: resolve_challenge_txn_def Let_def row_simps split: if_splits sum.splits)
  show "submit_preflight_txn env rid q d = Ok (x, d') \<Longrightarrow> runtime_step d d'" for env rid q d x d'
    by (rule runtime_same)
       (auto simp: submit_preflight_txn_def Let_def upsert_preflight_def row_simps split: if_splits sum.splits)
  show "ready_to_launch_txn env rid d = Ok (x, d') \<Longrightarrow> runtime_step d d'" for env rid d x d'
    by (rule runtime_same)
       (auto simp: ready_to_launch_txn_def Let_def upsert_barrier_def row_simps split: if_splits sum.splits prod.splits)
  show "create_launch_grant_txn env gx rid local peer lreq d = Ok (x, d') \<Longrightarrow> runtime_step d d'"
    for env gx rid local peer lreq d x d'
    by (rule runtime_same)
       (auto simp: create_launch_grant_txn_def insert_grant_def row_simps split: if_splits sum.splits option.splits)
  show "runtime_step d (snd (consume_launch_grant env hash g d))" for env hash g d
    by (rule runtime_same) (auto simp: consume_launch_grant_def split: option.splits)
  show "runtime_step d (snd (create_invite env al fresh rid d))" for env al fresh rid d
    by (rule runtime_same) (auto simp: create_invite_def Let_def insert_invite_def row_simps split: sum.splits)
  show "runtime_step d (snd (submit_evidence env ex d))" for env ex d
    by (rule runtime_same) (auto simp: submit_evidence_def Let_def split: sum.splits option.splits)
qed

section \<open>Rooms with an ended player\<close>

text \<open>Edges of the state machine, and the cancellations outside it.\<close>

definition room_moves :: "room_state \<Rightarrow> room_state \<Rightarrow> bool" where
  "room_moves s s' \<longleftrightarrow> s' = s \<or> s' = Finished \<or> s' = Cancelled \<or> s \<notin> {Playing, Finished, Cancelled}"

lemma legal_moves: "legal s s' \<Longrightarrow> room_moves s s'"
  by (auto simp: legal_def room_moves_def elim!: transition.elims)

lemma step_room_moves:
  assumes "server_inv d" "server_step d d'"
  shows "evolves room_moves (db_rooms d) (db_rooms d')"
proof -
  consider req where "d' = snd (serve req d)" | now busy where "d' = fst (reconcile_expired now busy d)"
    using assms(2) by (auto elim: server_stepE)
  then show ?thesis
  proof cases
    case (1 req)
    show ?thesis
    proof (cases "resolves_challenge req")
      case True
      from serve_resolve [OF this, of d] show ?thesis
        unfolding 1 by (rule evolves_mono) (auto simp: room_moves_def)
    next
      case False
      from serve_legal [OF assms(1) this] show ?thesis
        unfolding 1 by (rule evolves_mono) (rule legal_moves)
    qed
  next
    case (2 now busy)
    have "db_rooms d' = upd_where (\<lambda>r. r_id r \<in> set (map r_id (expired_rooms now busy d)))
        (\<lambda>r. r\<lparr>r_state := Cancelled, r_deadline := None\<rparr>) (db_rooms d)"
      by (simp add: 2 reconcile_expired_def Let_def row_simps cancel_expired_def)
    then show ?thesis by (simp only:) (rule evolves_upd, simp_all add: room_moves_def)
  qed
qed

definition exits_ok :: "db \<Rightarrow> bool" where
  "exits_ok d \<longleftrightarrow> (\<forall>p \<in> set (db_runtime d). p_ended p \<noteq> None \<longrightarrow> settled d (p_room p))"

text \<open>A room of the database after a step whose players' rooms existed before it.\<close>

lemma moved_from:
  assumes inv: "server_inv d" "server_inv d'" and e: "evolves room_moves (db_rooms d) (db_rooms d')"
    and p: "p \<in> set (db_runtime d)" and r': "r' \<in> set (db_rooms d')" "r_id r' = p_room p"
  shows "\<exists>r \<in> set (db_rooms d). r_id r = p_room p \<and> room_moves (r_state r) (r_state r')"
proof -
  note tab = inv(1) [unfolded server_inv_def]
  from p have "p_user p \<in> set (players_in (db_runtime d) (p_room p))" by (force simp: players_in_def)
  with tables_invD(5) [OF tab] have "p_user p \<in> set (users_in (db_members d) (p_room p))" by blast
  then obtain m where "m \<in> set (db_members d)" "m_room m = p_room p" by (auto simp: users_in_def)
  with tables_invD(6) [OF tab] obtain r where r: "r \<in> set (db_rooms d)" "r_id r = p_room p" by force
  with e obtain x where x: "x \<in> set (db_rooms d')" "same_identity r x" "room_moves (r_state r) (r_state x)"
    unfolding evolves_def by blast
  have "x = r'"
    using tables_invD(1) [OF inv(2) [unfolded server_inv_def]] x(1,2) r' r(2)
    by (simp add: same_identity_def distinct_map inj_on_def)
  with r x show ?thesis by blast
qed

lemma exits_ok_step:
  assumes inv: "server_inv d" and ok: "exits_ok d" and step: "server_step d d'"
  shows "exits_ok d'"
proof -
  have inv': "server_inv d'" using server.inv_step [OF inv step] .
  note e = step_room_moves [OF inv step]
  from runtime.of_step [OF inv step] obtain g ps where rt: "db_runtime d' = map g (db_runtime d) @ ps"
    and g: "\<And>p. keeps_exit p (g p)" and ps: "\<And>p. p \<in> set ps \<Longrightarrow> p_ended p = None"
    and ended: "\<And>p. p \<in> set (db_runtime d) \<Longrightarrow> p_ended p = None \<Longrightarrow> p_ended (g p) \<noteq> None \<Longrightarrow> settled d' (p_room p)"
    unfolding runtime_step_def by blast
  show ?thesis unfolding exits_ok_def
  proof (intro ballI impI)
    fix p' assume "p' \<in> set (db_runtime d')" and p': "p_ended p' \<noteq> None"
    with rt ps obtain p where p: "p \<in> set (db_runtime d)" "p' = g p" by auto
    have room: "p_room p' = p_room p" using g [of p] p(2) by (simp add: keeps_exit_def)
    show "settled d' (p_room p')"
    proof (cases "p_ended p = None")
      case True
      with ended [OF p(1)] p p' room show ?thesis by simp
    next
      case False
      with ok p(1) have st: "settled d (p_room p)" by (simp add: exits_ok_def)
      show ?thesis unfolding settled_def room
      proof (intro ballI impI)
        fix r' assume r': "r' \<in> set (db_rooms d')" "r_id r' = p_room p"
        from moved_from [OF inv inv' e p(1) r'] obtain r where r: "r \<in> set (db_rooms d)" "r_id r = p_room p"
          and m: "room_moves (r_state r) (r_state r')" by blast
        show "r_state r' = Finished \<or> r_state r' = Cancelled
          \<or> r_state r' = Playing \<and> (\<exists>q \<in> set (db_runtime d'). p_room q = p_room p \<and> p_ended q = None)"
        proof (cases "r_state r' = Finished \<or> r_state r' = Cancelled")
          case False
          with m st r have pl: "r_state r' = Playing" "r_state r = Playing" by (auto simp: settled_def room_moves_def)
          with st r obtain q where q: "q \<in> set (db_runtime d)" "p_room q = p_room p" "p_ended q = None"
            by (auto simp: settled_def)
          have gq: "g q \<in> set (db_runtime d')" "p_room (g q) = p_room p"
            using q rt g [of q] by (auto simp: keeps_exit_def)
          have "\<exists>x \<in> set (db_runtime d'). p_room x = p_room p \<and> p_ended x = None"
          proof (cases "p_ended (g q) = None")
            case True
            with gq show ?thesis by blast
          next
            case ne: False
            from ended [OF q(1,3) ne] q(2) r' False show ?thesis by (auto simp: settled_def)
          qed
          with pl show ?thesis by blast
        qed blast
      qed
    qed
  qed
qed

lemma exits_ok_init: "server_init d \<Longrightarrow> exits_ok d"
  by (auto simp: server_init_def exits_ok_def empty_db_def)

interpretation exits: invariant_system server_init server_step "\<lambda>d. server_inv d \<and> exits_ok d"
  by unfold_locales (auto intro: server.inv_init server.inv_step exits_ok_init exits_ok_step)

section \<open>A repeated report\<close>

text \<open>The user's game in the room has ended, and its exit code is recorded if there was one.\<close>

definition exit_recorded :: "uuid \<Rightarrow> uuid \<Rightarrow> int option \<Rightarrow> db \<Rightarrow> bool" where
  "exit_recorded rid u code d \<longleftrightarrow> (\<exists>p \<in> set (db_runtime d). p_room p = rid \<and> p_user p = u
     \<and> p_ended p \<noteq> None \<and> (code \<noteq> None \<longrightarrow> p_exit_code p \<noteq> None))"

lemma exit_recorded_step:
  assumes "server_inv d" "exit_recorded rid u code d" "server_step d d'"
  shows "exit_recorded rid u code d'"
proof -
  from assms(2) obtain p where p: "p \<in> set (db_runtime d)" "p_room p = rid" "p_user p = u" "p_ended p \<noteq> None"
    "code \<noteq> None \<longrightarrow> p_exit_code p \<noteq> None" by (auto simp: exit_recorded_def)
  from runtime.of_step [OF assms(1,3)] obtain g ps where "db_runtime d' = map g (db_runtime d) @ ps" "keeps_exit p (g p)"
    unfolding runtime_step_def by blast
  moreover from this p(1) have "g p \<in> set (db_runtime d')" by simp
  ultimately show ?thesis using p unfolding exit_recorded_def keeps_exit_def by (intro bexI [of _ "g p"]) auto
qed

lemma exit_recorded_run:
  assumes "server_step\<^sup>*\<^sup>* d d'" "server_inv d" "exit_recorded rid u code d"
  shows "exit_recorded rid u code d'"
  using assms(1)
proof (induction rule: rtranclp_induct)
  case (step b c)
  from server.steps_inv [OF assms(2) step(1)] step show ?case by (blast intro: exit_recorded_step)
qed (rule assms(3))

lemma exit_records:
  assumes "confirm_native_exit_txn env rid code d = Ok (x, d')"
  shows "exit_recorded rid (q_user env) code d'"
proof -
  from assms obtain h s k where l: "locked_room env d rid = Ok (h, s, k)"
    by (auto simp: confirm_native_exit_txn_def split: sum.splits)
  from assms l have "db_runtime d' = db_runtime (record_exit env rid code d)"
    and "list_ex (\<lambda>p. p_room p = rid \<and> p_user p = q_user env) (db_runtime d)"
    by (auto simp: confirm_native_exit_txn_def Let_def fail_before_start_def finish_match_def row_simps
        split: if_splits sum.splits)
  then show ?thesis
    by (auto simp: exit_recorded_def record_exit_def update_runtime_def bex_upd_where list_ex_iff coalesce_def
        split: option.splits)
qed

text \<open>Recording the exit again changes nothing: the row of the user in the room is unique.\<close>

lemma record_exit_again:
  assumes inv: "server_inv d" and rec: "exit_recorded rid (q_user env) code d"
  shows "record_exit env rid code d = d"
proof -
  have uniq: "p = q" if "p \<in> set (db_runtime d)" "q \<in> set (db_runtime d)" "p_room p = rid" "p_room q = rid"
      "p_user p = p_user q" for p q
    using tables_invD(4) [OF inv [unfolded server_inv_def], of rid] that
    by (auto simp: players_in_def distinct_map inj_on_def)
  have "upd_where (\<lambda>p. p_room p = rid \<and> p_user p = q_user env)
      (\<lambda>p. p\<lparr>p_ended := coalesce (p_ended p) (q_now env),
             p_exit_code := (case p_exit_code p of None \<Rightarrow> code | Some x \<Rightarrow> Some x)\<rparr>) (db_runtime d) = db_runtime d"
    unfolding upd_where_def
  proof (rule map_idI)
    fix p assume p: "p \<in> set (db_runtime d)"
    show "(if p_room p = rid \<and> p_user p = q_user env
        then p\<lparr>p_ended := coalesce (p_ended p) (q_now env),
               p_exit_code := (case p_exit_code p of None \<Rightarrow> code | Some x \<Rightarrow> Some x)\<rparr> else p) = p"
    proof (cases "p_room p = rid \<and> p_user p = q_user env")
      case True
      from rec obtain q where q: "q \<in> set (db_runtime d)" "p_room q = rid" "p_user q = q_user env"
        and e: "p_ended q \<noteq> None" "code \<noteq> None \<longrightarrow> p_exit_code q \<noteq> None"
        unfolding exit_recorded_def by (elim bexE conjE) (rule that)
      have "p = q" by (rule uniq [OF p q(1)]) (use True q in simp_all)
      with e have "p_ended p \<noteq> None" "code \<noteq> None \<longrightarrow> p_exit_code p \<noteq> None" by blast+
      then show ?thesis by (cases "p_ended p"; cases "p_exit_code p"; cases p) (auto simp: coalesce_def)
    qed auto
  qed
  then show ?thesis by (simp add: record_exit_def update_runtime_def)
qed

lemma exit_repeated:
  assumes inv: "server_inv d" "exits_ok d" and rec: "exit_recorded rid (q_user env) code d"
  shows "confirm_native_exit_txn env rid code d = Ok ((), d)"
proof -
  from rec obtain p where p: "p \<in> set (db_runtime d)" "p_room p = rid" "p_user p = q_user env" "p_ended p \<noteq> None"
    by (auto simp: exit_recorded_def)
  then have st: "settled d rid" using inv(2) by (auto simp: exits_ok_def)
  note tab = inv(1) [unfolded server_inv_def]
  from p have "p_user p \<in> set (players_in (db_runtime d) rid)" by (force simp: players_in_def)
  with tables_invD(5) [OF tab] have "p_user p \<in> set (users_in (db_members d) rid)" by blast
  then have "rid \<in> r_id ` set (db_rooms d)" using tables_invD(6) [OF tab] by (auto simp: users_in_def)
  then have "find_room d rid \<noteq> None" unfolding find_room_def find_None_iff by blast
  then obtain r where r: "find_room d rid = Some r" by blast
  note rin = find_roomD [OF r]
  from st rin have s: "r_state r = Finished \<or> r_state r = Cancelled
      \<or> r_state r = Playing \<and> (\<exists>q \<in> set (db_runtime d). p_room q = rid \<and> p_ended q = None)"
    by (auto simp: settled_def)
  have count: "ended_count d rid \<noteq> 2" if "r_state r = Playing"
  proof
    assume "ended_count d rid = 2"
    with all_ended_count [OF inv(1) r that] have all: "all_ended (db_runtime d) rid" .
    from s that obtain q where q: "q \<in> set (db_runtime d)" "p_room q = rid" "p_ended q = None" by auto
    with bspec [OF all [unfolded all_ended_def] q(1)] show False by simp
  qed
  have some: "list_ex (\<lambda>p. p_room p = rid \<and> p_user p = q_user env) (db_runtime d)"
    using p by (auto simp: list_ex_iff)
  from s count some show ?thesis
    by (auto simp: confirm_native_exit_txn_def locked_room_eq r Let_def record_exit_again [OF inv(1) rec])
qed

text \<open>C27 Reporting the exit of a native game is idempotent across retries: once the server has
  answered a player's exit report with success, every later report of that player for the room with
  the same exit code, whenever it arrives and whatever other requests and deadline passes were served
  in between, is answered with success and changes nothing.  So the client may repeat a report whose
  answer was lost: no second finish, no second event, no changed end time or exit code.\<close>

theorem exit_report_idempotent:
  assumes "reachable server_init server_step d" "serve (FinishRoom env rid code) d = (Inr y, d1)"
    and "server_step\<^sup>*\<^sup>* d1 d2" "q_user env' = q_user env"
  shows "\<exists>y'. serve (FinishRoom env' rid code) d2 = (Inr y', d2)"
proof -
  have step: "server_step d d1" using step_request [of d "FinishRoom env rid code"] assms(2) by simp
  have "reachable server_init server_step d1" by (rule reach_step [OF assms(1) step])
  with assms(1) have inv1: "server_inv d1 \<and> exits_ok d1" using exits.reachable_inv by blast
  then have inv2: "server_inv d2 \<and> exits_ok d2" using exits.steps_inv assms(3) by blast
  from assms(2) obtain x where t: "confirm_native_exit_txn env rid code d = Ok (x, d1)"
    by (cases "confirm_native_exit_txn env rid code d") (auto simp: finish_room_def then_notify_def)
  from exit_recorded_run [OF assms(3) _ exit_records [OF t]] inv1
  have "exit_recorded rid (q_user env') code d2" by (simp add: assms(4))
  with inv2 have again: "confirm_native_exit_txn env' rid code d2 = Ok ((), d2)" by (blast intro: exit_repeated)
  with inv_confirm_native_exit inv2 have "is_member d2 rid (q_user env') \<and> find_room d2 rid \<noteq> None" by blast
  then obtain p where "fetch_room_payload env' d2 rid (q_user env') = Ok p" using payload_ok by blast
  with again show ?thesis by (simp add: finish_room_def then_notify_def notify_room_state_def)
qed

theorem exit_report_idempotent_witness:
  "\<exists>d y d1 y'. reachable server_init server_step d
     \<and> serve (FinishRoom (demo_env 1) (Uuid 10) (Some 0)) d = (Inr y, d1)
     \<and> map p_ended (db_runtime d) = [None, None] \<and> map p_ended (db_runtime d1) = [Some 0, None]
     \<and> serve (FinishRoom ((demo_env 1)\<lparr>q_now := 9\<rparr>) (Uuid 10) (Some 0)) d1 = (Inr y', d1)"
proof -
  from demo_6 [OF demo_0] obtain ev where r: "reachable server_init server_step
      (demo_db [] Playing (Some (hours 4)) AtActive None [demo_match None]
        [demo_player 1 None None, demo_player 2 None None] [] [] ev)" (is "reachable _ _ ?d") by blast
  obtain y d1 where y: "serve (FinishRoom (demo_env 1) (Uuid 10) (Some 0)) ?d = (Inr y, d1)"
    and e: "map p_ended (db_runtime d1) = [Some 0, None]"
    by (simp add: demo_rows demo_match_def demo_exit_eval notify_room_state_def fetch_room_payload_def
        from_database_def is_member_def)
  have e0: "map p_ended (db_runtime ?d) = [None, None]" by (simp add: demo_rows)
  from exit_report_idempotent [OF r y rtranclp.rtrancl_refl, where env' = "(demo_env 1)\<lparr>q_now := 9\<rparr>"]
  obtain y' where "serve (FinishRoom ((demo_env 1)\<lparr>q_now := 9\<rparr>) (Uuid 10) (Some 0)) d1 = (Inr y', d1)" by auto
  with r y e e0 show ?thesis by (intro exI conjI) assumption+
qed

end
