(* ===== verification/Signaling.thy ===== *)
theory Signaling
  imports Server_DB Rate_Limits Channel Std_Text
begin

text \<open>
  The server's WebSocket side (\<open>apps/server/src/ws.rs\<close>, \<open>AppState::notify_user\<close> of
  \<open>state.rs\<close>): the hub of live connections, the socket loop, the validation of signalling frames
  and their relay to the other member of a room.

  An \<open>mpsc::Sender\<close> is a shared handle, so queues are kept by connection id.  \<open>send().await\<close>
  on a full queue suspends the connection's task: the message is then pending and the task
  takes no further frame until the writer has made room.  JSON, UUID and address parsing and
  clock readings are parameters.
\<close>

section \<open>Frames and state\<close>

datatype ws_in = InText string | InPing bytes | InPong | InBinary | InClose | InError | InEnd

datatype ws_out = OutText string | OutPong bytes | OutClose nat string

definition MAX_TEXT_BYTES :: nat where "MAX_TEXT_BYTES = 16 * 1024"
definition OUTBOUND_QUEUE_CAPACITY :: nat where "OUTBOUND_QUEUE_CAPACITY = 64"

record hub =
  hb_hub :: "uuid \<Rightarrow> uuid option"
  hb_queues :: "uuid \<Rightarrow> ws_out channel"
  hb_pending :: "uuid \<Rightarrow> ws_out option"

record ws_session =
  wx_id :: uuid
  wx_user :: uuid
  wx_limiter :: rate_limiter

record match_endpoint_ref =
  er_room_id :: string
  er_endpoint :: string
  er_reflexive :: "string option"
  er_nonce :: string

record match_completed_ref =
  cr_room_id :: string
  cr_frames_received :: u32
  cr_transcript_checksum :: string

text \<open>\<open>serde_json\<close> on the frame and on the payloads, \<open>Uuid::parse_str\<close>, the \<open>SocketAddr\<close> parser,
  the RFC 3339 check, the JSON of an outgoing envelope, and a fresh request id.\<close>

record ws_codec =
  wc_envelope :: "string \<Rightarrow> borrowed_envelope option"
  wc_rfc3339 :: "string \<Rightarrow> bool"
  wc_room :: "string \<Rightarrow> string option"
  wc_endpoint :: "string \<Rightarrow> match_endpoint_ref option"
  wc_completed :: "string \<Rightarrow> match_completed_ref option"
  wc_uuid :: "string \<Rightarrow> uuid option"
  wc_addr :: "string \<Rightarrow> bool"
  wc_render :: "json envelope \<Rightarrow> string"
  wc_fresh :: string
  wc_show :: "uuid \<Rightarrow> string"

section \<open>Sending\<close>

text \<open>\<open>sender.try_send\<close>.\<close>

definition hub_try_send :: "uuid \<Rightarrow> ws_out \<Rightarrow> hub \<Rightarrow> (try_send_error + unit) \<times> hub" where
  "hub_try_send cid m h =
     (case channel_try_send (hb_queues h cid) m of
        Inl e \<Rightarrow> (Err e, h)
      | Inr q \<Rightarrow> (Ok (), h\<lparr>hb_queues := (hb_queues h)(cid := q)\<rparr>))"

text \<open>\<open>sender.send(m).await\<close>; \<open>False\<close> is an error, the receiver is gone.\<close>

definition hub_send :: "uuid \<Rightarrow> ws_out \<Rightarrow> hub \<Rightarrow> bool \<times> hub" where
  "hub_send cid m h =
     (case hub_try_send cid m h of
        (Inr _, h') \<Rightarrow> (True, h')
      | (Inl ChannelClosed, h') \<Rightarrow> (False, h')
      | (Inl ChannelFull, h') \<Rightarrow> (True, h'\<lparr>hb_pending := (hb_pending h')(cid := Some m)\<rparr>))"

definition send_envelope :: "ws_codec \<Rightarrow> uuid \<Rightarrow> json envelope \<Rightarrow> hub \<Rightarrow> bool \<times> hub" where
  "send_envelope codec cid e h = hub_send cid (OutText (wc_render codec e)) h"

definition send_error ::
    "ws_codec \<Rightarrow> instant \<Rightarrow> uuid \<Rightarrow> string \<Rightarrow> string \<Rightarrow> string option \<Rightarrow> hub \<Rightarrow> bool \<times> hub" where
  "send_error codec now cid code msg request_id h =
     (let body = JObj [(''code'', JStr code), (''message'', JStr msg)] in
      send_envelope codec cid
        (case request_id of
           Some r \<Rightarrow> envelope_reply now ''error'' r body
         | None \<Rightarrow> envelope_new (wc_fresh codec) now ''error'' body) h)"

text \<open>\<open>AppState::notify_user\<close>: best effort, nothing is reported.\<close>

definition notify_user :: "ws_codec \<Rightarrow> instant \<Rightarrow> uuid \<Rightarrow> string \<Rightarrow> json \<Rightarrow> hub \<Rightarrow> hub" where
  "notify_user codec now user ty payload h =
     (case hb_hub h user of
        None \<Rightarrow> h
      | Some cid \<Rightarrow>
          snd (hub_try_send cid (OutText (wc_render codec (envelope_new (wc_fresh codec) now ty payload))) h))"

section \<open>Authenticating the upgrade\<close>

text \<open>\<open>header\<close> is the value of \<open>Sec-WebSocket-Protocol\<close> where it is visible ASCII.\<close>

definition websocket_token :: "string option \<Rightarrow> string option" where
  "websocket_token header =
     (case header of
        None \<Rightarrow> None
      | Some value \<Rightarrow>
          (case List.map_filter (\<lambda>p. strip_prefix ''opencade.auth.'' (trim p)) (split_commas value) of
             [] \<Rightarrow> None
           | tok # _ \<Rightarrow> (if tok = [] then None else Some tok)))"

section \<open>Validating frames\<close>

definition parse_room_id :: "ws_codec \<Rightarrow> string \<Rightarrow> uuid option" where
  "parse_room_id codec payload =
     (case wc_room codec payload of None \<Rightarrow> None | Some room \<Rightarrow> wc_uuid codec room)"

definition validate_match_endpoint :: "ws_codec \<Rightarrow> string \<Rightarrow> uuid option" where
  "validate_match_endpoint codec payload =
     (case wc_endpoint codec payload of
        None \<Rightarrow> None
      | Some c \<Rightarrow>
          (if \<not> wc_addr codec (er_endpoint c) then None
           else if (case er_reflexive c of None \<Rightarrow> False | Some r \<Rightarrow> \<not> wc_addr codec r) then None
           else if wc_uuid codec (er_nonce c) = None then None
           else wc_uuid codec (er_room_id c)))"

definition validate_match_completion :: "ws_codec \<Rightarrow> string \<Rightarrow> uuid option" where
  "validate_match_completion codec payload =
     (case wc_completed codec payload of
        None \<Rightarrow> None
      | Some c \<Rightarrow>
          (if cr_frames_received c = 0 \<or> cr_frames_received c > 10000 then None
           else if length (cr_transcript_checksum c) \<noteq> 16
             \<or> \<not> list_all (\<lambda>b. is_ascii_hexdigit b \<and> \<not> is_ascii_uppercase b) (cr_transcript_checksum c)
           then None
           else wc_uuid codec (cr_room_id c)))"

section \<open>Relaying\<close>

datatype relay_error = RelayForbidden | RelayPeerUnavailable | RelayDatabase

fun relay_error_code :: "relay_error \<Rightarrow> string" where
  "relay_error_code RelayForbidden = ''forbidden''"
| "relay_error_code RelayPeerUnavailable = ''peer_unavailable''"
| "relay_error_code RelayDatabase = ''internal_error''"

fun relay_error_message :: "relay_error \<Rightarrow> string" where
  "relay_error_message RelayForbidden = ''sender is not a room member''"
| "relay_error_message RelayPeerUnavailable = ''peer signaling connection is unavailable''"
| "relay_error_message RelayDatabase = ''unable to authorize signaling message''"

text \<open>\<open>source\<close> is the database the query sees, \<open>None\<close> when the query fails.  The query's
  \<open>LIMIT 1\<close> has no order; the rooms of the server have one other member at most.\<close>

definition relay_to_room_members :: "db option \<Rightarrow> uuid \<Rightarrow> uuid \<Rightarrow> ws_out \<Rightarrow> hub \<Rightarrow> (relay_error + unit) \<times> hub" where
  "relay_to_room_members source sender_id room_id original h =
     (case source of
        None \<Rightarrow> (Err RelayDatabase, h)
      | Some d \<Rightarrow>
          (if \<not> is_member d room_id sender_id then (Err RelayForbidden, h)
           else case find (\<lambda>u. u \<noteq> sender_id) (members_of d room_id) of
               None \<Rightarrow> (Err RelayPeerUnavailable, h)
             | Some peer_id \<Rightarrow>
                 (case hb_hub h peer_id of
                    None \<Rightarrow> (Err RelayPeerUnavailable, h)
                  | Some target \<Rightarrow>
                      (case hub_try_send target original h of
                         (Inl _, h') \<Rightarrow> (Err RelayPeerUnavailable, h')
                       | (Inr _, h') \<Rightarrow> (Ok (), h')))))"

definition signaling_types :: "string list" where
  "signaling_types = [''signaling.offer'', ''signaling.answer'', ''signaling.candidate'', ''match.endpoint'',
     ''match.probe.completed'']"

text \<open>The room a signalling frame names, or the error it is answered with.\<close>

definition signaling_room :: "ws_codec \<Rightarrow> borrowed_envelope \<Rightarrow> (string \<times> string) + uuid" where
  "signaling_room codec e =
     (if be_msg_type e = ''match.endpoint''
      then ok_or (validate_match_endpoint codec (be_payload e))
             (''invalid_candidate'', ''match endpoint candidate is invalid'')
      else if be_msg_type e = ''match.probe.completed''
      then ok_or (validate_match_completion codec (be_payload e))
             (''invalid_probe_report'', ''match probe completion is invalid'')
      else ok_or (parse_room_id codec (be_payload e))
             (''bad_request'', ''payload must contain a valid room_id''))"

definition relayed_type :: "string \<Rightarrow> string" where
  "relayed_type ty =
     (if ty = ''match.endpoint'' then ''match.endpoint.relayed''
      else if ty = ''match.probe.completed'' then ''match.probe.completed.relayed''
      else ''signaling.relayed'')"

definition handle_text :: "ws_codec \<Rightarrow> instant \<Rightarrow> db option \<Rightarrow> ws_session \<Rightarrow> string \<Rightarrow> hub \<Rightarrow> bool \<times> hub" where
  "handle_text codec now source s txt h =
     (if length txt > MAX_TEXT_BYTES
      then send_error codec now (wx_id s) ''payload_too_large'' ''message exceeds 16 KiB'' None h
      else case wc_envelope codec txt of
        None \<Rightarrow> send_error codec now (wx_id s) ''bad_request'' ''invalid envelope'' None h
      | Some e \<Rightarrow>
          (if \<not> is_supported_version (be_version e)
           then send_error codec now (wx_id s) ''version_unsupported'' ''unsupported protocol version''
                  (Some (be_request_id e)) h
           else if borrowed_validate (wc_rfc3339 codec) e \<noteq> Ok ()
           then send_error codec now (wx_id s) ''bad_request'' ''invalid envelope'' (Some (be_request_id e)) h
           else if be_msg_type e = ''ping'' \<or> be_msg_type e = ''connection.ping''
           then send_envelope codec (wx_id s) (envelope_reply now ''pong'' (be_request_id e) (JObj [])) h
           else if be_msg_type e \<in> set signaling_types
           then (case signaling_room codec e of
               Inl (code, msg) \<Rightarrow> send_error codec now (wx_id s) code msg (Some (be_request_id e)) h
             | Inr room_id \<Rightarrow>
                 (case relay_to_room_members source (wx_user s) room_id (OutText txt) h of
                    (Inl err, h') \<Rightarrow>
                      send_error codec now (wx_id s) (relay_error_code err) (relay_error_message err)
                        (Some (be_request_id e)) h'
                  | (Inr _, h') \<Rightarrow>
                      send_envelope codec (wx_id s)
                        (envelope_reply now (relayed_type (be_msg_type e)) (be_request_id e)
                          (JObj [(''status'', JStr ''relayed'')])) h'))
           else send_error codec now (wx_id s) ''unknown_type'' ''unknown message type'' (Some (be_request_id e)) h))"

section \<open>The socket\<close>

definition remove_hub :: "uuid \<Rightarrow> hub \<Rightarrow> hub" where
  "remove_hub user h = h\<lparr>hb_hub := (hb_hub h)(user := None)\<rparr>"

definition abort_writer :: "uuid \<Rightarrow> hub \<Rightarrow> hub" where
  "abort_writer cid h =
     h\<lparr>hb_queues := (hb_queues h)(cid := (hb_queues h cid)\<lparr>ch_receiver := False\<rparr>),
       hb_pending := (hb_pending h)(cid := None)\<rparr>"

text \<open>The beginning of \<open>handle_socket\<close>: the connection takes the user's place in the hub, the
  previous one is told to close, and the greeting is sent.\<close>

definition open_socket :: "ws_codec \<Rightarrow> instant \<Rightarrow> uuid \<Rightarrow> uuid \<Rightarrow> hub \<Rightarrow> ws_session option \<times> hub" where
  "open_socket codec now cid user h =
     (let previous = hb_hub h user;
          h1 = h\<lparr>hb_hub := (hb_hub h)(user \<mapsto> cid),
                 hb_queues := (hb_queues h)(cid := channel_new OUTBOUND_QUEUE_CAPACITY),
                 hb_pending := (hb_pending h)(cid := None)\<rparr>;
          h2 = (case previous of
                  None \<Rightarrow> h1
                | Some p \<Rightarrow> snd (hub_try_send p (OutClose 1000 ''replaced by a newer connection'') h1))
      in case send_envelope codec cid
           (envelope_new (wc_fresh codec) now ''connection.hello''
             (JObj [(''user_id'', JStr (wc_show codec user)), (''protocol_version'', JStr PROTOCOL_VERSION)])) h2 of
           (False, h3) \<Rightarrow> (None, abort_writer cid (remove_hub user h3))
         | (True, h3) \<Rightarrow> (Some \<lparr>wx_id = cid, wx_user = user, wx_limiter = \<lparr>rl_received_at = []\<rparr>\<rparr>, h3))"

text \<open>One frame of the loop; \<open>None\<close> is \<open>break\<close>.\<close>

definition on_inbound :: "ws_codec \<Rightarrow> instant \<Rightarrow> db option \<Rightarrow> ws_in \<Rightarrow> ws_session \<Rightarrow> hub \<Rightarrow> ws_session option \<times> hub" where
  "on_inbound codec now source frame s h =
     (case frame of
        InText txt \<Rightarrow>
          (case allow now (wx_limiter s) of
             (False, l) \<Rightarrow>
               (case send_error codec now (wx_id s) ''rate_limited'' ''message rate limit exceeded'' None h of
                  (ok, h') \<Rightarrow> (if ok then Some (s\<lparr>wx_limiter := l\<rparr>) else None, h'))
           | (True, l) \<Rightarrow>
               (case handle_text codec now source s txt h of
                  (ok, h') \<Rightarrow> (if ok then Some (s\<lparr>wx_limiter := l\<rparr>) else None, h')))
      | InPing payload \<Rightarrow>
          (case hub_send (wx_id s) (OutPong payload) h of (ok, h') \<Rightarrow> (if ok then Some s else None, h'))
      | InPong \<Rightarrow> (Some s, h)
      | InBinary \<Rightarrow>
          (case send_error codec now (wx_id s) ''binary_not_supported'' ''binary frames are not accepted'' None h of
             (ok, h') \<Rightarrow> (if ok then Some s else None, h'))
      | _ \<Rightarrow> (None, h))"

text \<open>The end of \<open>handle_socket\<close>: only the connection's own entry is removed.\<close>

definition close_socket :: "ws_session \<Rightarrow> hub \<Rightarrow> hub" where
  "close_socket s h =
     (let h1 = (if hb_hub h (wx_user s) = Some (wx_id s) then remove_hub (wx_user s) h else h)
      in abort_writer (wx_id s) h1)"

text \<open>The writer task takes one message; a pending send then completes.\<close>

definition writer_step :: "uuid \<Rightarrow> hub \<Rightarrow> ws_out option \<times> hub" where
  "writer_step cid h =
     (case channel_pop (hb_queues h cid) of
        None \<Rightarrow> (None, h)
      | Some (m, q) \<Rightarrow>
          (let h1 = h\<lparr>hb_queues := (hb_queues h)(cid := q)\<rparr>
           in case hb_pending h1 cid of
                None \<Rightarrow> (Some m, h1)
              | Some p \<Rightarrow> (Some m, snd (hub_try_send cid p (h1\<lparr>hb_pending := (hb_pending h1)(cid := None)\<rparr>)))))"

end
