(* ===== verification/Signaling_Correct.thy ===== *)
theory Signaling_Correct
  imports Signaling Reachability Route_Policy
begin

text \<open>
  What the WebSocket side promises.  A frame reaches nobody but the sender and the connected
  other member of the room it names; the hub's entries follow the connections: they point at
  the newest live connection of their user, and the end of a replaced connection removes nothing.
\<close>

section \<open>What sending changes\<close>

lemma hub_try_send_ok:
  "hub_try_send cid m h = (Ok (), h') \<longleftrightarrow>
     ch_receiver (hb_queues h cid) \<and> length (ch_items (hb_queues h cid)) < ch_capacity (hb_queues h cid)
     \<and> h' = h\<lparr>hb_queues := (hb_queues h)(cid := (hb_queues h cid)\<lparr>ch_items := ch_items (hb_queues h cid) @ [m]\<rparr>)\<rparr>"
  by (auto simp: hub_try_send_def channel_try_send_def)

lemma hub_try_send_err: "hub_try_send cid m h = (Inl e, h') \<Longrightarrow> h' = h"
  by (auto simp: hub_try_send_def split: sum.splits)

text \<open>\<open>hub_reply cid h h'\<close>: from \<open>h\<close> to \<open>h'\<close> at most one message was added to connection \<open>cid\<close>, or
  left pending for it, and nothing else happened.\<close>

definition hub_reply :: "uuid \<Rightarrow> hub \<Rightarrow> hub \<Rightarrow> bool" where
  "hub_reply cid h h' \<longleftrightarrow>
     hb_hub h' = hb_hub h
     \<and> (\<forall>c. c \<noteq> cid \<longrightarrow> hb_queues h' c = hb_queues h c \<and> hb_pending h' c = hb_pending h c)
     \<and> ((h' = h)
        \<or> (\<exists>m. length (ch_items (hb_queues h cid)) < ch_capacity (hb_queues h cid)
             \<and> hb_queues h' cid = (hb_queues h cid)\<lparr>ch_items := ch_items (hb_queues h cid) @ [m]\<rparr>
             \<and> hb_pending h' cid = hb_pending h cid)
        \<or> (hb_queues h' cid = hb_queues h cid \<and> hb_pending h' cid \<noteq> None))"

lemma hub_reply_refl [simp]: "hub_reply cid h h"
  by (simp add: hub_reply_def)

lemma hub_try_send_reply: "hub_reply cid h (snd (hub_try_send cid m h))"
  by (auto simp: hub_reply_def hub_try_send_def channel_try_send_def)

lemma hub_send_reply: "hub_send cid m h = (ok, h') \<Longrightarrow> hub_reply cid h h'"
  by (auto simp: hub_reply_def hub_send_def hub_try_send_def channel_try_send_def split: if_splits)

lemma send_envelope_reply: "send_envelope codec cid e h = (ok, h') \<Longrightarrow> hub_reply cid h h'"
  by (auto simp: send_envelope_def intro: hub_send_reply)

lemma send_error_reply: "send_error codec now cid code msg rid h = (ok, h') \<Longrightarrow> hub_reply cid h h'"
  by (auto simp: send_error_def Let_def intro: send_envelope_reply)

text \<open>A send fails only on a closed queue, and then changes nothing.\<close>

lemma send_envelope_open:
  "ch_receiver (hb_queues h cid) \<Longrightarrow> fst (send_envelope codec cid e h)"
  by (simp add: send_envelope_def hub_send_def hub_try_send_def channel_try_send_def)

section \<open>What a frame changes\<close>

text \<open>A message that was relayed: who may send it, where it goes, and that it goes unchanged.\<close>

definition relays :: "ws_codec \<Rightarrow> db option \<Rightarrow> uuid \<Rightarrow> string \<Rightarrow> hub \<Rightarrow> uuid \<Rightarrow> bool" where
  "relays codec source sender_id txt h target \<longleftrightarrow>
     length txt \<le> MAX_TEXT_BYTES
     \<and> (\<exists>e room d peer.
          wc_envelope codec txt = Some e \<and> borrowed_validate (wc_rfc3339 codec) e = Ok ()
          \<and> be_msg_type e \<in> set signaling_types \<and> signaling_room codec e = Ok room
          \<and> source = Some d \<and> is_member d room sender_id
          \<and> peer \<in> set (members_of d room) \<and> peer \<noteq> sender_id \<and> hb_hub h peer = Some target)"

lemma relay_ok:
  assumes "relay_to_room_members source sender_id room_id m h = (Ok (), h')"
  obtains d peer target where "source = Some d" "is_member d room_id sender_id"
    "peer \<in> set (members_of d room_id)" "peer \<noteq> sender_id" "hb_hub h peer = Some target"
    "hub_try_send target m h = (Ok (), h')"
proof -
  from assms obtain d peer target where "source = Some d" "is_member d room_id sender_id"
    and f: "find (\<lambda>u. u \<noteq> sender_id) (members_of d room_id) = Some peer"
    and "hb_hub h peer = Some target" "hub_try_send target m h = (Ok (), h')"
    by (auto simp: relay_to_room_members_def split: option.splits if_splits prod.splits sum.splits)
  moreover from f have "peer \<in> set (members_of d room_id)" "peer \<noteq> sender_id"
    by (auto simp: find_Some_iff)
  ultimately show ?thesis using that by blast
qed

lemma relay_err: "relay_to_room_members source sender_id room_id m h = (Inl e, h') \<Longrightarrow> h' = h"
  by (auto simp: relay_to_room_members_def dest: hub_try_send_err
      split: option.splits if_splits prod.splits sum.splits)

lemma handle_text_cases:
  assumes "handle_text codec now source s txt h = (ok, h')"
  shows "hub_reply (wx_id s) h h' \<or>
    (\<exists>target h1. relays codec source (wx_user s) txt h target
       \<and> hub_try_send target (OutText txt) h = (Ok (), h1) \<and> hub_reply (wx_id s) h1 h')"
proof (cases "\<exists>e room h1. length txt \<le> MAX_TEXT_BYTES \<and> wc_envelope codec txt = Some e
    \<and> borrowed_validate (wc_rfc3339 codec) e = Ok () \<and> be_msg_type e \<in> set signaling_types
    \<and> signaling_room codec e = Ok room
    \<and> relay_to_room_members source (wx_user s) room (OutText txt) h = (Ok (), h1)")
  case True
  then obtain e room h1 where e: "length txt \<le> MAX_TEXT_BYTES" "wc_envelope codec txt = Some e"
      "borrowed_validate (wc_rfc3339 codec) e = Ok ()" "be_msg_type e \<in> set signaling_types"
      "signaling_room codec e = Ok room"
    and r: "relay_to_room_members source (wx_user s) room (OutText txt) h = (Ok (), h1)" by blast
  from r obtain d peer target where "source = Some d" "is_member d room (wx_user s)"
    "peer \<in> set (members_of d room)" "peer \<noteq> wx_user s" "hb_hub h peer = Some target"
    and sent: "hub_try_send target (OutText txt) h = (Ok (), h1)" by (rule relay_ok)
  with e have "relays codec source (wx_user s) txt h target" unfolding relays_def by blast
  moreover from assms e r have "hub_reply (wx_id s) h1 h'"
    by (auto simp: handle_text_def borrowed_validate_ok signaling_types_def dest: send_envelope_reply
        split: if_splits)
  ultimately show ?thesis using sent by blast
next
  case False
  with assms have "hub_reply (wx_id s) h h'"
    by (auto simp: handle_text_def not_less dest!: relay_err dest: send_error_reply send_envelope_reply
        split: if_splits option.splits sum.splits prod.splits)
  then show ?thesis ..
qed

lemma on_inbound_cases:
  assumes "on_inbound codec now source frame s h = (out, h')"
  shows "hub_reply (wx_id s) h h' \<or>
    (\<exists>txt target h1. frame = InText txt \<and> relays codec source (wx_user s) txt h target
       \<and> hub_try_send target (OutText txt) h = (Ok (), h1) \<and> hub_reply (wx_id s) h1 h')"
  using assms
  by (cases frame)
    (auto simp: on_inbound_def dest!: handle_text_cases dest: send_error_reply hub_send_reply
      split: prod.splits bool.splits)

text \<open>C12  Isolation of the signalling channel: whatever a client sends, the only connection other than
  its own whose queue can change is the hub's connection of another member of the room that a
  valid signalling frame names, the sender being a member too, and that queue then grows by the very text
  that came in, within its capacity.  The client itself gets at most one answer, and no hub entry is touched.\<close>

theorem signaling_isolation:
  assumes "on_inbound codec now source frame s h = (out, h')"
    and "\<forall>u. hb_hub h u = Some (wx_id s) \<longrightarrow> u = wx_user s"
  shows "hb_hub h' = hb_hub h
    \<and> (\<forall>c. c \<noteq> wx_id s \<longrightarrow> hb_pending h' c = hb_pending h c
         \<and> (hb_queues h' c = hb_queues h c
            \<or> (\<exists>txt. frame = InText txt \<and> relays codec source (wx_user s) txt h c
                 \<and> length (ch_items (hb_queues h c)) < ch_capacity (hb_queues h c)
                 \<and> hb_queues h' c = (hb_queues h c)\<lparr>ch_items := ch_items (hb_queues h c) @ [OutText txt]\<rparr>)))
    \<and> (\<exists>answers. length answers \<le> 1
         \<and> ch_items (hb_queues h' (wx_id s)) = ch_items (hb_queues h (wx_id s)) @ answers)"
  using on_inbound_cases [OF assms(1)]
proof (elim disjE exE conjE)
  assume "hub_reply (wx_id s) h h'"
  then show ?thesis
    by (auto simp: hub_reply_def intro: exI [of _ "[]"] exI [of _ "[_]"])
next
  fix body target h1
  assume frame: "frame = InText body" and relays: "relays codec source (wx_user s) body h target"
    and sent: "hub_try_send target (OutText body) h = (Ok (), h1)" and reply: "hub_reply (wx_id s) h1 h'"
  from relays assms(2) have other: "target \<noteq> wx_id s" by (auto simp: relays_def)
  from sent other have same: "hb_queues h1 (wx_id s) = hb_queues h (wx_id s)" by (auto simp: hub_try_send_ok)
  from reply sent have "hb_hub h' = hb_hub h"
    "\<And>c. c \<noteq> wx_id s \<Longrightarrow> hb_pending h' c = hb_pending h c \<and> hb_queues h' c = hb_queues h1 c"
    by (auto simp: hub_reply_def hub_try_send_ok)
  moreover from reply same have "\<exists>answers. length answers \<le> 1
      \<and> ch_items (hb_queues h' (wx_id s)) = ch_items (hb_queues h (wx_id s)) @ answers"
    by (auto simp: hub_reply_def intro: exI [of _ "[]"] exI [of _ "[_]"])
  ultimately show ?thesis
    using frame relays sent by (auto simp: hub_try_send_ok)
qed


section \<open>The system of connections\<close>

record ws_world =
  ww_hub :: hub
  ww_sessions :: "uuid \<Rightarrow> ws_session option"
  ww_ids :: "uuid set"

text \<open>A connection is opened under an identity of its own, takes frames while nothing of its own is
  pending, and ends when a frame ends it, when the peer closes, or when its writer has failed; the
  handlers of the REST side notify users.\<close>

inductive ws_step :: "ws_codec \<Rightarrow> ws_world \<Rightarrow> ws_world \<Rightarrow> bool" for codec where
  step_connect: "cid \<notin> ww_ids w \<Longrightarrow> open_socket codec now cid user (ww_hub w) = (out, h) \<Longrightarrow>
     ws_step codec w \<lparr>ww_hub = h, ww_sessions = (ww_sessions w)(cid := out), ww_ids = insert cid (ww_ids w)\<rparr>"
| step_frame: "ww_sessions w cid = Some s \<Longrightarrow> hb_pending (ww_hub w) cid = None \<Longrightarrow>
     on_inbound codec now source frame s (ww_hub w) = (Some s', h) \<Longrightarrow>
     ws_step codec w (w\<lparr>ww_hub := h, ww_sessions := (ww_sessions w)(cid \<mapsto> s')\<rparr>)"
| step_break: "ww_sessions w cid = Some s \<Longrightarrow> hb_pending (ww_hub w) cid = None \<Longrightarrow>
     on_inbound codec now source frame s (ww_hub w) = (None, h) \<Longrightarrow>
     ws_step codec w (w\<lparr>ww_hub := close_socket s h, ww_sessions := (ww_sessions w)(cid := None)\<rparr>)"
| step_end: "ww_sessions w cid = Some s \<Longrightarrow>
     ws_step codec w (w\<lparr>ww_hub := close_socket s (ww_hub w), ww_sessions := (ww_sessions w)(cid := None)\<rparr>)"
| step_writer: "ww_sessions w cid = Some s \<Longrightarrow> writer_step cid (ww_hub w) = (out, h) \<Longrightarrow>
     ws_step codec w (w\<lparr>ww_hub := h\<rparr>)"
| step_writer_failed: "ww_sessions w cid = Some s \<Longrightarrow> hb_pending (ww_hub w) cid = None \<Longrightarrow>
     ws_step codec w (w\<lparr>ww_hub := abort_writer cid (ww_hub w)\<rparr>)"
| step_notify: "ws_step codec w (w\<lparr>ww_hub := notify_user codec now user ty payload (ww_hub w)\<rparr>)"

definition ws_init :: "ws_world \<Rightarrow> bool" where
  "ws_init w \<longleftrightarrow> ww_hub w = \<lparr>hb_hub = (\<lambda>_. None), hb_queues = (\<lambda>_. channel_new OUTBOUND_QUEUE_CAPACITY),
       hb_pending = (\<lambda>_. None)\<rparr> \<and> ww_sessions w = (\<lambda>_. None) \<and> ww_ids w = {}"

text \<open>The entries follow the sessions, and no queue holds more than its capacity.\<close>

definition queues_ok :: "hub \<Rightarrow> bool" where
  "queues_ok h \<longleftrightarrow> (\<forall>c. ch_capacity (hb_queues h c) = OUTBOUND_QUEUE_CAPACITY
       \<and> length (ch_items (hb_queues h c)) \<le> OUTBOUND_QUEUE_CAPACITY)"

definition entries_ok :: "ws_world \<Rightarrow> bool" where
  "entries_ok w \<longleftrightarrow>
     (\<forall>u c. hb_hub (ww_hub w) u = Some c \<longrightarrow> (\<exists>s. ww_sessions w c = Some s \<and> wx_user s = u))
     \<and> (\<forall>c s. ww_sessions w c = Some s \<longrightarrow> wx_id s = c \<and> c \<in> ww_ids w
          \<and> length (rl_received_at (wx_limiter s)) \<le> RATE_LIMIT_MESSAGES)"

definition ws_inv :: "ws_world \<Rightarrow> bool" where
  "ws_inv w \<longleftrightarrow> queues_ok (ww_hub w) \<and> entries_ok w"

lemma queues_ok_try_send: "queues_ok h \<Longrightarrow> hub_try_send c m h = (r, h') \<Longrightarrow> queues_ok h'"
  by (cases r) (auto simp: queues_ok_def hub_try_send_ok dest!: hub_try_send_err)

lemma queues_ok_reply:
  assumes "queues_ok h" "hub_reply cid h h'"
  shows "queues_ok h'"
proof -
  have "ch_capacity (hb_queues h' c) = OUTBOUND_QUEUE_CAPACITY
      \<and> length (ch_items (hb_queues h' c)) \<le> OUTBOUND_QUEUE_CAPACITY" for c
  proof (cases "c = cid")
    case True
    with assms show ?thesis by (fastforce simp: queues_ok_def hub_reply_def)
  next
    case False
    with assms show ?thesis by (auto simp: queues_ok_def hub_reply_def)
  qed
  then show ?thesis by (simp add: queues_ok_def)
qed

lemma queues_ok_simps [simp]:
  "queues_ok (h\<lparr>hb_hub := f\<rparr>) = queues_ok h"
  "queues_ok (h\<lparr>hb_pending := g\<rparr>) = queues_ok h"
  "queues_ok h \<Longrightarrow> queues_ok (h\<lparr>hb_queues := (hb_queues h)(c := channel_new OUTBOUND_QUEUE_CAPACITY)\<rparr>)"
  "queues_ok h \<Longrightarrow> queues_ok (abort_writer c h)"
  by (auto simp: queues_ok_def channel_new_def abort_writer_def)

lemma abort_writer_hub: "hb_hub (abort_writer c h) = hb_hub h"
  by (simp add: abort_writer_def)

lemma close_socket_hub:
  "hb_hub (close_socket s h) u =
     (if u = wx_user s \<and> hb_hub h u = Some (wx_id s) then None else hb_hub h u)"
  by (auto simp: close_socket_def abort_writer_def remove_hub_def)

lemma queues_ok_close [simp]: "queues_ok h \<Longrightarrow> queues_ok (close_socket s h)"
  by (auto simp: close_socket_def remove_hub_def Let_def)

lemma hub_try_send_hub: "hub_try_send c m h = (r, h') \<Longrightarrow> hb_hub h' = hb_hub h"
  by (cases r) (auto simp: hub_try_send_ok dest!: hub_try_send_err)

lemma on_inbound_hub: "on_inbound codec now source frame s h = (out, h') \<Longrightarrow> hb_hub h' = hb_hub h"
  by (drule on_inbound_cases) (auto simp: hub_reply_def dest!: hub_try_send_hub)

lemma on_inbound_queues: "on_inbound codec now source frame s h = (out, h') \<Longrightarrow> queues_ok h \<Longrightarrow> queues_ok h'"
  by (drule on_inbound_cases) (auto intro: queues_ok_reply queues_ok_try_send)

lemma allow_bounded:
  assumes "length (rl_received_at l) \<le> RATE_LIMIT_MESSAGES" "allow now l = (ok, l')"
  shows "length (rl_received_at l') \<le> RATE_LIMIT_MESSAGES"
  using assms length_dropWhile_le [of "\<lambda>received. now - received \<ge> RATE_LIMIT_WINDOW" "rl_received_at l"]
  by (auto simp: allow_def Let_def split: if_splits)

lemma on_inbound_session:
  "on_inbound codec now source frame s h = (Some s', h') \<Longrightarrow>
     wx_id s' = wx_id s \<and> wx_user s' = wx_user s
     \<and> (length (rl_received_at (wx_limiter s)) \<le> RATE_LIMIT_MESSAGES \<longrightarrow>
        length (rl_received_at (wx_limiter s')) \<le> RATE_LIMIT_MESSAGES)"
  by (cases frame)
    (auto simp: on_inbound_def dest: allow_bounded split: prod.splits bool.splits if_splits)

text \<open>A fresh connection always gets its greeting queued.\<close>

lemma open_socket_opened:
  assumes "open_socket codec now cid user h = (out, h')" "\<forall>u. hb_hub h u \<noteq> Some cid"
  shows "out = Some \<lparr>wx_id = cid, wx_user = user, wx_limiter = \<lparr>rl_received_at = []\<rparr>\<rparr>"
    and "hb_hub h' = (hb_hub h)(user \<mapsto> cid)"
    and "queues_ok h \<Longrightarrow> queues_ok h'"
proof -
  define h1 where "h1 = h\<lparr>hb_hub := (hb_hub h)(user \<mapsto> cid),
      hb_queues := (hb_queues h)(cid := channel_new OUTBOUND_QUEUE_CAPACITY),
      hb_pending := (hb_pending h)(cid := None)\<rparr>"
  define h2 where "h2 = (case hb_hub h user of None \<Rightarrow> h1
      | Some p \<Rightarrow> snd (hub_try_send p (OutClose 1000 ''replaced by a newer connection'') h1))"
  define hello where "hello = envelope_new (wc_fresh codec) now ''connection.hello''
      (JObj [(''user_id'', JStr (wc_show codec user)), (''protocol_version'', JStr PROTOCOL_VERSION)])"
  have h2: "hb_hub h2 = hb_hub h1" "hb_queues h2 cid = hb_queues h1 cid"
    using assms(2) by (auto simp: h2_def hub_try_send_def split: option.splits sum.splits)
  have ok2: "queues_ok h2" if "queues_ok h"
  proof -
    have "queues_ok h1" using that by (auto simp: h1_def queues_ok_def channel_new_def)
    then show ?thesis
      by (auto simp: h2_def split: option.splits) (metis queues_ok_try_send surjective_pairing)
  qed
  obtain ok h3 where sent: "send_envelope codec cid hello h2 = (ok, h3)" by fastforce
  have "ch_receiver (hb_queues h2 cid)" by (simp add: h2 h1_def channel_new_def)
  with sent have ok by (metis send_envelope_open fst_conv)
  with sent assms(1) have res: "out = Some \<lparr>wx_id = cid, wx_user = user, wx_limiter = \<lparr>rl_received_at = []\<rparr>\<rparr>" "h' = h3"
    by (auto simp: open_socket_def Let_def h1_def [symmetric] h2_def [symmetric] hello_def [symmetric])
  then show "out = Some \<lparr>wx_id = cid, wx_user = user, wx_limiter = \<lparr>rl_received_at = []\<rparr>\<rparr>" by simp
  from send_envelope_reply [OF sent] res h2 show "hb_hub h' = (hb_hub h)(user \<mapsto> cid)"
    by (simp add: hub_reply_def h1_def)
  from queues_ok_reply [OF ok2 send_envelope_reply [OF sent]] res show "queues_ok h \<Longrightarrow> queues_ok h'" by simp
qed

lemma writer_step_keeps:
  assumes "writer_step c h = (out, h')" "queues_ok h"
  shows "hb_hub h' = hb_hub h" "queues_ok h'"
proof -
  show "hb_hub h' = hb_hub h"
    using assms(1) by (auto simp: writer_step_def Let_def hub_try_send_def split: option.splits sum.splits)
  show "queues_ok h'"
  proof (cases "channel_pop (hb_queues h c)")
    case None
    with assms show ?thesis by (auto simp: writer_step_def)
  next
    case (Some r)
    then obtain m q where pop: "channel_pop (hb_queues h c) = Some (m, q)" by (cases r) auto
    define h1 where "h1 = h\<lparr>hb_queues := (hb_queues h)(c := q)\<rparr>"
    from mpsc.pop_some [OF pop] assms(2) have q: "ch_capacity q = OUTBOUND_QUEUE_CAPACITY"
        "length (ch_items q) \<le> OUTBOUND_QUEUE_CAPACITY"
      by (auto simp: queues_ok_def dest: spec [of _ c])
    with assms(2) have h1: "queues_ok h1" by (simp add: h1_def queues_ok_def)
    from assms(1) pop h1 show ?thesis
      by (auto simp: writer_step_def Let_def h1_def [symmetric] split: option.splits
          intro!: queues_ok_try_send [OF _ prod.collapse [symmetric]])
  qed
qed

lemma notify_user_keeps:
  assumes "queues_ok h"
  shows "hb_hub (notify_user codec now u ty payload h) = hb_hub h"
    and "queues_ok (notify_user codec now u ty payload h)"
proof -
  show "hb_hub (notify_user codec now u ty payload h) = hb_hub h"
    by (auto simp: notify_user_def hub_try_send_def split: option.splits sum.splits)
  show "queues_ok (notify_user codec now u ty payload h)"
    using assms by (auto simp: notify_user_def split: option.splits
        intro!: queues_ok_try_send [OF assms prod.collapse [symmetric]])
qed

lemma entries_okD:
  assumes "entries_ok w"
  shows "hb_hub (ww_hub w) u = Some c \<Longrightarrow> \<exists>s. ww_sessions w c = Some s \<and> wx_user s = u"
    and "ww_sessions w c = Some s \<Longrightarrow> wx_id s = c"
    and "ww_sessions w c = Some s \<Longrightarrow> c \<in> ww_ids w"
    and "ww_sessions w c = Some s \<Longrightarrow> length (rl_received_at (wx_limiter s)) \<le> RATE_LIMIT_MESSAGES"
  using assms by (auto simp: entries_ok_def)

lemma entries_ok_hub:
  "entries_ok w \<Longrightarrow> hb_hub h = hb_hub (ww_hub w) \<Longrightarrow> entries_ok (w\<lparr>ww_hub := h\<rparr>)"
  by (simp add: entries_ok_def)

lemma entries_ok_closed:
  assumes "entries_ok w" "ww_sessions w c = Some s" "hb_hub h = hb_hub (ww_hub w)"
  shows "entries_ok (w\<lparr>ww_hub := close_socket s h, ww_sessions := (ww_sessions w)(c := None)\<rparr>)"
  using assms by (auto simp: entries_ok_def close_socket_hub split: if_splits) (metis option.inject)+

lemma ws_inv_step: "ws_inv w \<Longrightarrow> ws_step codec w w' \<Longrightarrow> ws_inv w'"
proof (erule ws_step.cases)
  fix v cid now user out h
  assume inv: "ws_inv w" and v: "w = v" and fresh: "cid \<notin> ww_ids v"
    and opened: "open_socket codec now cid user (ww_hub v) = (out, h)"
    and w': "w' = \<lparr>ww_hub = h, ww_sessions = (ww_sessions v)(cid := out), ww_ids = insert cid (ww_ids v)\<rparr>"
  from inv v have q: "queues_ok (ww_hub v)" and e: "entries_ok v" by (auto simp: ws_inv_def)
  from entries_okD [OF e] fresh have unused: "\<forall>u. hb_hub (ww_hub v) u \<noteq> Some cid" by blast
  note o = open_socket_opened [OF opened unused]
  have "entries_ok w'"
    using e fresh unfolding w' o(1) entries_ok_def by (auto simp: o(2))
  with o(3) [OF q] show "ws_inv w'" by (simp add: ws_inv_def w')
next
  fix v cid s now source frame s' h
  assume inv: "ws_inv w" and v: "w = v" and s: "ww_sessions v cid = Some s"
    and f: "on_inbound codec now source frame s (ww_hub v) = (Some s', h)"
    and w': "w' = v\<lparr>ww_hub := h, ww_sessions := (ww_sessions v)(cid \<mapsto> s')\<rparr>"
  from inv v have q: "queues_ok (ww_hub v)" and e: "entries_ok v" by (auto simp: ws_inv_def)
  from on_inbound_hub [OF f] on_inbound_session [OF f] e s have "entries_ok w'"
    unfolding w' entries_ok_def by (fastforce split: if_splits)
  with on_inbound_queues [OF f q] show "ws_inv w'" by (simp add: ws_inv_def w')
next
  fix v cid s now source frame h
  assume inv: "ws_inv w" and v: "w = v" and s: "ww_sessions v cid = Some s"
    and f: "on_inbound codec now source frame s (ww_hub v) = (None, h)"
    and w': "w' = v\<lparr>ww_hub := close_socket s h, ww_sessions := (ww_sessions v)(cid := None)\<rparr>"
  from inv v have q: "queues_ok (ww_hub v)" and e: "entries_ok v" by (auto simp: ws_inv_def)
  from entries_ok_closed [OF e s on_inbound_hub [OF f]] on_inbound_queues [OF f q]
  show "ws_inv w'" by (simp add: ws_inv_def w')
qed (auto simp: ws_inv_def writer_step_keeps notify_user_keeps entries_ok_closed abort_writer_hub
    intro: entries_ok_hub entries_ok_closed)

interpretation sockets: invariant_system ws_init "ws_step codec" ws_inv for codec
proof
  fix w assume "ws_init w"
  then show "ws_inv w" by (simp add: ws_init_def ws_inv_def queues_ok_def entries_ok_def channel_new_def)
qed (rule ws_inv_step)

text \<open>How one step can change the hub: an entry is replaced only by a later connection of the same user,
  and removed only by the end of the connection it points at.\<close>

lemma ws_step_hub:
  assumes "ws_step codec w w'" "ws_inv w" "hb_hub (ww_hub w) u = Some c"
  shows "hb_hub (ww_hub w') u = Some c
    \<or> (\<exists>c'. c' \<notin> ww_ids w \<and> hb_hub (ww_hub w') u = Some c')
    \<or> (hb_hub (ww_hub w') u = None \<and> ww_sessions w' c = None)"
  using assms(1)
proof cases
  case (step_connect cid now user out h)
  from assms(2) entries_okD [of w] step_connect(2) have "\<forall>u. hb_hub (ww_hub w) u \<noteq> Some cid"
    by (auto simp: ws_inv_def) blast
  with open_socket_opened [OF step_connect(3)] step_connect assms(3) show ?thesis by auto
next
  case (step_frame cid s now source frame s' h)
  with on_inbound_hub [OF step_frame(4)] assms(3) show ?thesis by simp
next
  case (step_break cid s now source frame h)
  from on_inbound_hub [OF step_break(4)] step_break assms(2,3) show ?thesis
    by (auto simp: close_socket_hub ws_inv_def dest: entries_okD(2))
next
  case (step_end cid s)
  with assms(2,3) show ?thesis by (auto simp: close_socket_hub ws_inv_def dest: entries_okD(2))
qed (use assms(2,3) in \<open>auto simp: ws_inv_def writer_step_keeps notify_user_keeps abort_writer_hub\<close>)


section \<open>A concrete conversation\<close>

text \<open>Users 1 and 2 of the room 10 are connected as 101 and 102, and 1 sends an offer.\<close>

definition demo_offer :: borrowed_envelope where
  "demo_offer = \<lparr>be_msg_type = ''signaling.offer'', be_version = PROTOCOL_VERSION, be_request_id = ''r1'',
     be_timestamp = ''t'', be_payload = ''p''\<rparr>"

definition demo_ws_codec :: ws_codec where
  "demo_ws_codec = \<lparr>wc_envelope = (\<lambda>s. if s = ''offer'' then Some demo_offer else None),
     wc_rfc3339 = (\<lambda>_. True), wc_room = (\<lambda>_. Some ''room''), wc_endpoint = (\<lambda>_. None), wc_completed = (\<lambda>_. None),
     wc_uuid = (\<lambda>_. Some (Uuid 10)), wc_addr = (\<lambda>_. False), wc_render = env_msg_type, wc_fresh = ''fresh'',
     wc_show = (\<lambda>_. ''user'')\<rparr>"

definition demo_room :: db where
  "demo_room = empty_db\<lparr>db_members := [\<lparr>m_room = Uuid 10, m_user = Uuid 1, m_joined = 0\<rparr>,
     \<lparr>m_room = Uuid 10, m_user = Uuid 2, m_joined = 0\<rparr>]\<rparr>"

definition demo_empty :: ws_world where
  "demo_empty = \<lparr>ww_hub = \<lparr>hb_hub = (\<lambda>_. None), hb_queues = (\<lambda>_. channel_new OUTBOUND_QUEUE_CAPACITY),
     hb_pending = (\<lambda>_. None)\<rparr>, ww_sessions = (\<lambda>_. None), ww_ids = {}\<rparr>"

definition demo_session :: "uuid \<Rightarrow> uuid \<Rightarrow> ws_session" where
  "demo_session cid user = \<lparr>wx_id = cid, wx_user = user, wx_limiter = \<lparr>rl_received_at = []\<rparr>\<rparr>"

definition demo_hub :: hub where
  "demo_hub = snd (open_socket demo_ws_codec 0 (Uuid 102) (Uuid 2)
     (snd (open_socket demo_ws_codec 0 (Uuid 101) (Uuid 1) (ww_hub demo_empty))))"

lemmas demo_hub_eval = demo_hub_def open_socket_def send_envelope_def hub_send_def hub_try_send_def channel_try_send_def
  channel_new_def demo_empty_def demo_ws_codec_def demo_offer_def envelope_new_def OUTBOUND_QUEUE_CAPACITY_def

lemma signaling_isolation_witness:
  "(let h' = snd (on_inbound demo_ws_codec 5 (Some demo_room) (InText ''offer'') (demo_session (Uuid 101) (Uuid 1)) demo_hub)
    in (\<exists>answers. length answers \<le> 1 \<and> ch_items (hb_queues h' (Uuid 101)) = [OutText ''connection.hello''] @ answers)
       \<and> ch_items (hb_queues h' (Uuid 102)) = [OutText ''connection.hello'', OutText ''offer''])"
proof -
  have h: "hb_hub demo_hub = (\<lambda>_. None)(Uuid 1 \<mapsto> Uuid 101, Uuid 2 \<mapsto> Uuid 102)"
    "ch_items (hb_queues demo_hub (Uuid 101)) = [OutText ''connection.hello'']"
    by (simp_all add: demo_hub_eval)
  have "\<forall>u. hb_hub demo_hub u = Some (wx_id (demo_session (Uuid 101) (Uuid 1))) \<longrightarrow> u = wx_user (demo_session (Uuid 101) (Uuid 1))"
    by (simp add: h demo_session_def)
  from signaling_isolation [OF prod.collapse [symmetric] this,
      of demo_ws_codec 5 "Some demo_room" "InText ''offer''"]
  have "\<exists>answers. length answers \<le> 1
      \<and> ch_items (hb_queues (snd (on_inbound demo_ws_codec 5 (Some demo_room) (InText ''offer'') (demo_session (Uuid 101) (Uuid 1)) demo_hub)) (Uuid 101))
        = [OutText ''connection.hello''] @ answers"
    by (simp add: h demo_session_def)
  moreover have "ch_items (hb_queues (snd (on_inbound demo_ws_codec 5 (Some demo_room) (InText ''offer'') (demo_session (Uuid 101) (Uuid 1)) demo_hub)) (Uuid 102))
      = [OutText ''connection.hello'', OutText ''offer'']"
    by (simp add: demo_hub_eval on_inbound_def allow_def RATE_LIMIT_MESSAGES_def demo_session_def handle_text_def
        MAX_TEXT_BYTES_def borrowed_validate_def is_blank_graphic graphic_def signaling_types_def signaling_room_def
        parse_room_id_def relay_to_room_members_def demo_room_def is_member_def members_of_def empty_db_def
        relayed_type_def envelope_reply_def)
  ultimately show ?thesis by (simp add: Let_def)
qed



end
