(* ===== verification/Accounts.thy ===== *)
theory Accounts
  imports Server_DB Rate_Limits Std_Text
begin

text \<open>
  Accounts and sessions (\<open>apps/server/src/routes/auth.rs\<close>, \<open>authn.rs\<close> and the operator check of
  \<open>state.rs\<close>) over the tables of \<open>migrations/001_users.sql\<close>.  Argon2, SHA-256, PostgreSQL's
  \<open>lower\<close>, the random generator and the clocks are parameters; the password worker answers.
\<close>

section \<open>State\<close>

record user_row =
  u_id :: uuid
  u_username :: string
  u_email :: "string option"
  u_password_hash :: string

record session_row =
  s_user :: uuid
  s_token_hash :: string
  s_expires :: instant
  s_revoked :: "instant option"

record accounts =
  at_users :: "user_row list"
  at_sessions :: "session_row list"
  at_limiter :: auth_rate_limiter

text \<open>\<open>ae_now\<close> is the wall clock and the database's \<open>now()\<close>, \<open>ae_tick\<close> the monotonic clock.\<close>

record auth_env =
  ae_now :: instant
  ae_tick :: instant
  ae_hash :: "string \<Rightarrow> string option"
  ae_verify :: "string \<Rightarrow> string \<Rightarrow> bool"
  ae_digest :: "string \<Rightarrow> string"
  ae_sql_lower :: "string \<Rightarrow> string"
  ae_uuid :: uuid
  ae_random :: bytes

record register_request =
  rr_username :: string
  rr_password :: string
  rr_email :: "string option"

record login_request =
  lr_identifier :: string
  lr_password :: string

text \<open>The payload of \<open>auth.registered\<close> and \<open>auth.logged_in\<close>.\<close>

record session_grant =
  sg_user :: uuid
  sg_username :: string
  sg_email :: "string option"
  sg_token :: string
  sg_expires_at :: instant

record auth_user =
  au_id :: uuid
  au_username :: string
  au_token_hash :: string

section \<open>Validation\<close>

text \<open>The expression \<open>^[a-zA-Z0-9_]{3,32}$\<close>.\<close>

definition username_char :: "char \<Rightarrow> bool" where
  "username_char c \<longleftrightarrow> is_ascii_lowercase c \<or> is_ascii_uppercase c \<or> is_ascii_digit c \<or> c = CHR ''_''"

definition validate_username :: "string \<Rightarrow> app_error + unit" where
  "validate_username s =
     (if 3 \<le> length s \<and> length s \<le> 32 \<and> list_all username_char s then Ok ()
      else Err (BadRequest ''username must be 3-32 characters using letters, numbers, or underscore''))"

text \<open>\<open>str::split_once\<close>.\<close>

fun split_once :: "char \<Rightarrow> string \<Rightarrow> (string \<times> string) option" where
  "split_once sep [] = None"
| "split_once sep (c # cs) =
     (if c = sep then Some ([], cs) else map_option (\<lambda>(a, b). (c # a, b)) (split_once sep cs))"

definition validate_email :: "string \<Rightarrow> app_error + unit" where
  "validate_email email =
     (case split_once (CHR ''@'') email of
        None \<Rightarrow> Err (BadRequest ''email must contain a valid domain'')
      | Some (local, domain) \<Rightarrow>
          (if local \<noteq> [] \<and> CHR ''.'' \<in> set domain \<and> length email \<le> 254 then Ok ()
           else Err (BadRequest ''email must contain a valid domain'')))"

definition validate_password :: "string \<Rightarrow> app_error + unit" where
  "validate_password p =
     (if 8 \<le> length p \<and> length p \<le> 128 then Ok ()
      else Err (BadRequest ''password must contain between 8 and 128 characters''))"

section \<open>Tokens\<close>

definition generate_session_token :: "bytes \<Rightarrow> string" where
  "generate_session_token bs =
     concat (map (\<lambda>b. [digit_char (unat (drop_bit 4 b)), digit_char (unat (and b 0x0f))]) bs)"

definition bearer_token :: "string option \<Rightarrow> app_error + string" where
  "bearer_token header =
     (case header of
        None \<Rightarrow> Err (Unauthorized ''missing bearer token'')
      | Some v \<Rightarrow>
          (case strip_prefix ''Bearer '' v of
             None \<Rightarrow> Err (Unauthorized ''missing bearer token'')
           | Some t \<Rightarrow> (if t = [] then Err (Unauthorized ''missing bearer token'') else Ok t)))"

definition authenticate_token :: "auth_env \<Rightarrow> string \<Rightarrow> accounts \<Rightarrow> app_error + auth_user" where
  "authenticate_token env token st =
     (if length token \<noteq> 64 then Err (Unauthorized ''invalid session'')
      else let h = ae_digest env token in
        case find (\<lambda>s. s_token_hash s = h \<and> s_revoked s = None \<and> s_expires s > ae_now env) (at_sessions st) of
          None \<Rightarrow> Err (Unauthorized ''invalid or expired session'')
        | Some s \<Rightarrow>
            (case find (\<lambda>u. u_id u = s_user s) (at_users st) of
               None \<Rightarrow> Err (Unauthorized ''invalid or expired session'')
             | Some u \<Rightarrow> Ok \<lparr>au_id = u_id u, au_username = u_username u, au_token_hash = h\<rparr>))"

text \<open>\<open>AppState::require_operator\<close> with its digest function.\<close>

definition require_operator :: "(string \<Rightarrow> bytes) \<Rightarrow> string \<Rightarrow> string option \<Rightarrow> app_error + unit" where
  "require_operator sha256 operator_token supplied =
     (case supplied of
        None \<Rightarrow> Err (Unauthorized ''missing operator token'')
      | Some t \<Rightarrow>
          (if sha256 operator_token = sha256 t then Ok () else Err (Unauthorized ''invalid operator token'')))"

section \<open>Handlers\<close>

definition unique_violation :: app_error where
  "unique_violation = Conflict ''username or email already exists''"

text \<open>The two insertions with their unique constraints.\<close>

definition insert_user :: "user_row \<Rightarrow> accounts \<Rightarrow> app_error + accounts" where
  "insert_user u st =
     (if list_ex (\<lambda>v. u_id v = u_id u \<or> u_username v = u_username u \<or> (u_email u \<noteq> None \<and> u_email v = u_email u))
           (at_users st)
      then Err unique_violation
      else Ok (st\<lparr>at_users := at_users st @ [u]\<rparr>))"

definition insert_session :: "session_row \<Rightarrow> accounts \<Rightarrow> app_error + accounts" where
  "insert_session s st =
     (if list_ex (\<lambda>v. s_token_hash v = s_token_hash s) (at_sessions st) then Err unique_violation
      else Ok (st\<lparr>at_sessions := at_sessions st @ [s]\<rparr>))"

text \<open>Both limits of a request: the second is consulted only when the first admits.\<close>

definition rate_checks :: "string \<Rightarrow> nat \<Rightarrow> string \<Rightarrow> instant \<Rightarrow> auth_rate_limiter \<Rightarrow> bool \<times> auth_rate_limiter" where
  "rate_checks global_key global_limit key now m =
     (case check_at global_key global_limit now m of
        (False, m') \<Rightarrow> (False, m')
      | (True, m') \<Rightarrow> check_key key now m')"

definition register_user :: "auth_env \<Rightarrow> register_request \<Rightarrow> accounts \<Rightarrow> (app_error + session_grant) \<times> accounts" where
  "register_user env req st =
     (case validate_username (rr_username req) of
        Inl e \<Rightarrow> (Err e, st)
      | Inr _ \<Rightarrow>
     (case validate_password (rr_password req) of
        Inl e \<Rightarrow> (Err e, st)
      | Inr _ \<Rightarrow>
     (case (case rr_email req of None \<Rightarrow> Ok () | Some m \<Rightarrow> validate_email m) of
        Inl e \<Rightarrow> (Err e, st)
      | Inr _ \<Rightarrow>
          (let rate_key = ''register:'' @ to_ascii_lowercase (trim (rr_username req)) in
           case rate_checks ''register-global'' 30 rate_key (ae_tick env) (at_limiter st) of
             (False, m) \<Rightarrow>
               (Err (RateLimited ''too many account creation attempts; retry in one minute''), st\<lparr>at_limiter := m\<rparr>)
           | (True, m) \<Rightarrow>
               (let st1 = st\<lparr>at_limiter := m\<rparr> in
                case ae_hash env (rr_password req) of
                  None \<Rightarrow> (Err (Internal ''password hashing failed''), st1)
                | Some password_hash \<Rightarrow>
                    (let token = generate_session_token (ae_random env);
                         expires_at = ae_now env + days 30
                     in case insert_user \<lparr>u_id = ae_uuid env, u_username = rr_username req,
                            u_email = rr_email req, u_password_hash = password_hash\<rparr> st1 of
                       Inl e \<Rightarrow> (Err e, st1)
                     | Inr st2 \<Rightarrow>
                         (case insert_session \<lparr>s_user = ae_uuid env, s_token_hash = ae_digest env token,
                             s_expires = expires_at, s_revoked = None\<rparr> st2 of
                            Inl e \<Rightarrow> (Err e, st1)
                          | Inr st3 \<Rightarrow>
                              (Ok \<lparr>sg_user = ae_uuid env, sg_username = rr_username req, sg_email = rr_email req,
                                 sg_token = token, sg_expires_at = expires_at\<rparr>,
                               st3\<lparr>at_limiter := clear_key rate_key (at_limiter st3)\<rparr>))))))))"

text \<open>The query's \<open>LIMIT 1\<close> has no order; the first row of the table stands for the one it returns.\<close>

definition find_login :: "auth_env \<Rightarrow> string \<Rightarrow> accounts \<Rightarrow> user_row option" where
  "find_login env identifier st =
     find (\<lambda>u. ae_sql_lower env (u_username u) = ae_sql_lower env identifier
        \<or> (case u_email u of None \<Rightarrow> False | Some m \<Rightarrow> ae_sql_lower env m = ae_sql_lower env identifier)) (at_users st)"

definition login :: "auth_env \<Rightarrow> login_request \<Rightarrow> accounts \<Rightarrow> (app_error + session_grant) \<times> accounts" where
  "login env req st =
     (case validate_password (lr_password req) of
        Inl e \<Rightarrow> (Err e, st)
      | Inr _ \<Rightarrow>
          (if is_blank (lr_identifier req) then (Err (BadRequest ''identifier must not be empty''), st)
           else (let rate_key = ''login:'' @ to_ascii_lowercase (trim (lr_identifier req)) in
             case rate_checks ''login-global'' 120 rate_key (ae_tick env) (at_limiter st) of
               (False, m) \<Rightarrow>
                 (Err (RateLimited ''too many sign-in attempts; retry in one minute''), st\<lparr>at_limiter := m\<rparr>)
             | (True, m) \<Rightarrow>
                 (let st1 = st\<lparr>at_limiter := m\<rparr> in
                  case find_login env (trim (lr_identifier req)) st1 of
                    None \<Rightarrow> (Err (Unauthorized ''invalid credentials''), st1)
                  | Some u \<Rightarrow>
                      (if \<not> ae_verify env (u_password_hash u) (lr_password req)
                       then (Err (Unauthorized ''invalid credentials''), st1)
                       else (let st2 = st1\<lparr>at_limiter := clear_key rate_key (at_limiter st1)\<rparr>;
                                 token = generate_session_token (ae_random env);
                                 expires_at = ae_now env + days 30
                             in case insert_session \<lparr>s_user = u_id u, s_token_hash = ae_digest env token,
                                    s_expires = expires_at, s_revoked = None\<rparr> st2 of
                                  Inl e \<Rightarrow> (Err e, st2)
                                | Inr st3 \<Rightarrow>
                                    (Ok \<lparr>sg_user = u_id u, sg_username = u_username u, sg_email = u_email u,
                                       sg_token = token, sg_expires_at = expires_at\<rparr>, st3)))))))"

text \<open>\<open>logout\<close> with its \<open>AuthUser\<close> extractor.\<close>

definition revoke :: "instant \<Rightarrow> string \<Rightarrow> accounts \<Rightarrow> accounts" where
  "revoke now h st =
     st\<lparr>at_sessions := map (\<lambda>s. if s_token_hash s = h then s\<lparr>s_revoked := Some now\<rparr> else s) (at_sessions st)\<rparr>"

definition authenticate_header :: "auth_env \<Rightarrow> string option \<Rightarrow> accounts \<Rightarrow> app_error + auth_user" where
  "authenticate_header env header st =
     (case bearer_token header of Inl e \<Rightarrow> Err e | Inr t \<Rightarrow> authenticate_token env t st)"

definition logout :: "auth_env \<Rightarrow> string option \<Rightarrow> accounts \<Rightarrow> (app_error + unit) \<times> accounts" where
  "logout env header st =
     (case authenticate_header env header st of
        Inl e \<Rightarrow> (Err e, st)
      | Inr user \<Rightarrow> (Ok (), revoke (ae_now env) (au_token_hash user) st))"

definition me :: "auth_env \<Rightarrow> string option \<Rightarrow> accounts \<Rightarrow> app_error + (uuid \<times> string)" where
  "me env header st =
     (case authenticate_header env header st of Inl e \<Rightarrow> Err e | Inr user \<Rightarrow> Ok (au_id user, au_username user))"

end
