(* ===== verification/Accounts_Correct.thy ===== *)
theory Accounts_Correct
  imports Accounts Reachability
begin

text \<open>
  What accounts and sessions promise: the tables stay consistent, a session lives exactly from its
  issue to its expiry or revocation and touches no other, tokens encode all their random bits,
  and a request that fails changes no table.
\<close>

section \<open>Tokens\<close>

lemma length_token [simp]: "length (generate_session_token bs) = 2 * length bs"
  by (induction bs) (simp_all add: generate_session_token_def)

lemma nibbles:
  fixes b :: u8
  shows "unat (drop_bit 4 b) = unat b div 16" "unat (and b 0x0f) = unat b mod 16"
proof -
  show "unat (drop_bit 4 b) = unat b div 16" by (simp add: drop_bit_eq_div unat_div_distrib)
  have "and b 0x0f = take_bit 4 b" by (simp add: take_bit_eq_mask mask_eq_exp_minus_1)
  then show "unat (and b 0x0f) = unat b mod 16" by (simp add: take_bit_eq_mod unat_mod_distrib)
qed

lemma token_inj: "generate_session_token xs = generate_session_token ys \<Longrightarrow> xs = ys"
proof (induction xs arbitrary: ys)
  case Nil
  then show ?case by (cases ys) (simp_all add: generate_session_token_def)
next
  case (Cons x xs)
  then obtain y ys' where ys: "ys = y # ys'" by (cases ys) (simp_all add: generate_session_token_def)
  with Cons.prems have d: "digit_char (unat x div 16) = digit_char (unat y div 16)"
      "digit_char (unat x mod 16) = digit_char (unat y mod 16)"
    and rest: "generate_session_token xs = generate_session_token ys'"
    by (simp_all add: generate_session_token_def nibbles)
  have "unat x div 16 < 16" "unat y div 16 < 16" using octet_bound [of x] octet_bound [of y] by auto
  with d digit_char_inj [of "unat x div 16" "unat y div 16"] digit_char_inj [of "unat x mod 16" "unat y mod 16"]
  have "unat x div 16 = unat y div 16" "unat x mod 16 = unat y mod 16" by auto
  then have "unat x = unat y" by (metis div_mult_mod_eq)
  with Cons.IH [OF rest] ys show ?case by (simp add: word_unat_eq_iff)
qed

lemma token_hex: "c \<in> set (generate_session_token bs) \<Longrightarrow> is_lower_hex c"
proof (induction bs)
  case (Cons b bs)
  have "unat b div 16 < 16" using octet_bound [of b] by auto
  with Cons show ?case
    by (auto simp: generate_session_token_def nibbles intro: digit_char_lower_hex)
qed (simp add: generate_session_token_def)

text \<open>A session token is 64 lower-case hexadecimal digits that carry all 256 random bits: different
  random bytes give different tokens.\<close>

theorem token_encoding:
  assumes "length bs = 32"
  shows "length (generate_session_token bs) = 64 \<and> list_all is_lower_hex (generate_session_token bs)
    \<and> (\<forall>bs'. generate_session_token bs' = generate_session_token bs \<longleftrightarrow> bs' = bs)"
  using assms token_inj [of _ bs] by (auto simp: list_all_iff intro: token_hex)

lemma token_encoding_witness:
  "length (generate_session_token (replicate 31 0 @ [0xAB])) = 64
   \<and> (\<forall>bs'. generate_session_token bs' = generate_session_token (replicate 31 0 @ [0xAB]) \<longleftrightarrow> bs' = replicate 31 0 @ [0xAB])"
  using token_encoding [of "replicate 31 0 @ [0xAB]"] by simp

section \<open>What the handlers change\<close>

text \<open>\<open>issues env st g st'\<close>: the grant \<open>g\<close> was issued, its session is new, and its user is a row
  of the table.\<close>

definition issues :: "auth_env \<Rightarrow> accounts \<Rightarrow> session_grant \<Rightarrow> accounts \<Rightarrow> bool" where
  "issues env st g st' \<longleftrightarrow>
     sg_token g = generate_session_token (ae_random env) \<and> sg_expires_at g = ae_now env + days 30
     \<and> ae_digest env (sg_token g) \<notin> set (map s_token_hash (at_sessions st))
     \<and> at_sessions st' = at_sessions st @ [\<lparr>s_user = sg_user g, s_token_hash = ae_digest env (sg_token g),
          s_expires = sg_expires_at g, s_revoked = None\<rparr>]
     \<and> (\<exists>u \<in> set (at_users st'). u_id u = sg_user g \<and> u_username u = sg_username g)"

lemma list_ex_key: "list_ex (\<lambda>v. f v = x) xs \<longleftrightarrow> x \<in> set (map f xs)"
  by (induction xs) auto

lemma insert_session_ok:
  "insert_session s st = Ok st' \<longleftrightarrow>
     s_token_hash s \<notin> set (map s_token_hash (at_sessions st)) \<and> st' = st\<lparr>at_sessions := at_sessions st @ [s]\<rparr>"
  by (auto simp: insert_session_def list_ex_key)

lemma insert_user_ok:
  "insert_user u st = Ok st' \<longleftrightarrow>
     u_id u \<notin> set (map u_id (at_users st)) \<and> u_username u \<notin> set (map u_username (at_users st))
     \<and> (u_email u \<noteq> None \<longrightarrow> u_email u \<notin> set (map u_email (at_users st)))
     \<and> st' = st\<lparr>at_users := at_users st @ [u]\<rparr>"
  by (auto simp: insert_user_def list_ex_iff image_iff) metis+

lemma register_ok:
  assumes "register_user env req st = (Ok g, st')"
  obtains password_hash where
    "validate_username (rr_username req) = Ok ()" "validate_password (rr_password req) = Ok ()"
    "ae_hash env (rr_password req) = Some password_hash" "sg_user g = ae_uuid env"
    "ae_uuid env \<notin> set (map u_id (at_users st))" "rr_username req \<notin> set (map u_username (at_users st))"
    "rr_email req \<noteq> None \<longrightarrow> rr_email req \<notin> set (map u_email (at_users st))"
    "at_users st' = at_users st @ [\<lparr>u_id = ae_uuid env, u_username = rr_username req, u_email = rr_email req,
       u_password_hash = password_hash\<rparr>]"
    "issues env st g st'"
  using assms
  by (auto simp: register_user_def Let_def insert_user_ok insert_session_ok issues_def
      split: sum.splits prod.splits bool.splits option.splits if_splits)

lemma register_err:
  "register_user env req st = (Err e, st') \<Longrightarrow> at_users st' = at_users st \<and> at_sessions st' = at_sessions st"
  by (auto simp: register_user_def Let_def split: sum.splits prod.splits bool.splits option.splits if_splits)

lemma find_login_limiter [simp]: "find_login env x (st\<lparr>at_limiter := m\<rparr>) = find_login env x st"
  by (simp add: find_login_def)

lemma find_login_in: "find_login env x st = Some u \<Longrightarrow> u \<in> set (at_users st)"
  by (auto simp: find_login_def find_Some_iff)

lemma login_ok:
  assumes "login env req st = (Ok g, st')"
  obtains u where "u \<in> set (at_users st)" "find_login env (trim (lr_identifier req)) st = Some u"
    "ae_verify env (u_password_hash u) (lr_password req)" "sg_user g = u_id u" "sg_username g = u_username u"
    "at_users st' = at_users st" "issues env st g st'"
proof (cases "find_login env (trim (lr_identifier req)) st")
  case None
  with assms show thesis
    by (auto simp: login_def Let_def split: sum.splits prod.splits bool.splits if_splits)
next
  case (Some u)
  note u = find_login_in [OF this]
  from assms Some u show thesis
    by (intro that [of u])
      (auto simp: login_def Let_def insert_session_ok issues_def split: sum.splits prod.splits bool.splits if_splits)
qed

lemma login_err:
  "login env req st = (Err e, st') \<Longrightarrow> at_users st' = at_users st \<and> at_sessions st' = at_sessions st"
  by (auto simp: login_def Let_def split: sum.splits prod.splits bool.splits option.splits if_splits)

lemma revoke_users [simp]: "at_users (revoke now h st) = at_users st"
  by (simp add: revoke_def)

lemma revoke_hashes [simp]: "map s_token_hash (at_sessions (revoke now h st)) = map s_token_hash (at_sessions st)"
  by (simp add: revoke_def)

lemma revoke_session_users [simp]: "map s_user (at_sessions (revoke now h st)) = map s_user (at_sessions st)"
  by (simp add: revoke_def)

section \<open>The invariant of the tables\<close>

definition accounts_inv :: "accounts \<Rightarrow> bool" where
  "accounts_inv st \<longleftrightarrow>
     distinct (map u_id (at_users st)) \<and> distinct (map u_username (at_users st))
     \<and> distinct (filter (\<lambda>m. m \<noteq> None) (map u_email (at_users st)))
     \<and> list_all (\<lambda>u. validate_username (u_username u) = Ok ()) (at_users st)
     \<and> distinct (map s_token_hash (at_sessions st))
     \<and> set (map s_user (at_sessions st)) \<subseteq> set (map u_id (at_users st))"

inductive account_step :: "accounts \<Rightarrow> accounts \<Rightarrow> bool" where
  do_register: "account_step st (snd (register_user env req st))"
| do_login: "account_step st (snd (login env lreq st))"
| do_logout: "account_step st (snd (logout env header st))"

definition account_init :: "accounts \<Rightarrow> bool" where
  "account_init st \<longleftrightarrow> at_users st = [] \<and> at_sessions st = []"

lemma accounts_inv_same:
  "at_users st' = at_users st \<Longrightarrow> at_sessions st' = at_sessions st \<Longrightarrow> accounts_inv st \<Longrightarrow> accounts_inv st'"
  by (simp add: accounts_inv_def)

lemma accounts_inv_step: "accounts_inv st \<Longrightarrow> account_step st st' \<Longrightarrow> accounts_inv st'"
proof (erule account_step.cases)
  fix s env req
  assume inv: "accounts_inv st" and eq: "st = s" "st' = snd (register_user env req s)"
  obtain r t where res: "register_user env req st = (r, t)" by fastforce
  show "accounts_inv st'"
  proof (cases r)
    case (Inl e)
    from register_err [OF res [unfolded Inl]] inv res eq show ?thesis by (simp add: accounts_inv_def)
  next
    case (Inr g)
    from res [unfolded Inr] inv res eq show ?thesis
      by (elim register_ok) (auto simp: accounts_inv_def issues_def)
  qed
next
  fix s env req
  assume inv: "accounts_inv st" and eq: "st = s" "st' = snd (login env req s)"
  obtain r t where res: "login env req st = (r, t)" by fastforce
  show "accounts_inv st'"
  proof (cases r)
    case (Inl e)
    from login_err [OF res [unfolded Inl]] inv res eq show ?thesis by (simp add: accounts_inv_def)
  next
    case (Inr g)
    from res [unfolded Inr] inv res eq show ?thesis
      by (elim login_ok) (auto simp: accounts_inv_def issues_def)
  qed
next
  fix s env header
  assume inv: "accounts_inv st" and eq: "st = s" "st' = snd (logout env header s)"
  have "accounts_inv (revoke now h st)" for now h
    using inv unfolding accounts_inv_def by (simp only: revoke_users revoke_hashes revoke_session_users)
  with inv eq show "accounts_inv st'" by (simp add: logout_def split: sum.splits)
qed

interpretation account_system: invariant_system account_init account_step accounts_inv
  by unfold_locales (simp add: account_init_def accounts_inv_def, rule accounts_inv_step)

section \<open>The life of a session\<close>

lemma find_unique_key:
  "distinct (map f xs) \<Longrightarrow> x \<in> set xs \<Longrightarrow> find (\<lambda>y. f y = f x) xs = Some x"
  by (induction xs) (auto simp: image_iff)

lemma find_absent: "(\<And>y. y \<in> set xs \<Longrightarrow> \<not> P y) \<Longrightarrow> find P (xs @ ys) = find P ys"
  by (induction xs) auto

lemma authenticate_issued:
  assumes "accounts_inv st'" "issues env st g st'" "length (ae_random env) = 32"
    and "ae_digest env' = ae_digest env"
  shows "authenticate_token env' (sg_token g) st' =
    (if ae_now env' < sg_expires_at g
     then Ok \<lparr>au_id = sg_user g, au_username = sg_username g, au_token_hash = ae_digest env (sg_token g)\<rparr>
     else Err (Unauthorized ''invalid or expired session''))"
proof -
  from assms(2) obtain u where u: "u \<in> set (at_users st')" "u_id u = sg_user g" "u_username u = sg_username g"
    by (auto simp: issues_def)
  with assms(1) find_unique_key [of u_id "at_users st'" u]
  have "find (\<lambda>v. u_id v = sg_user g) (at_users st') = Some u" by (simp add: accounts_inv_def)
  moreover have "length (sg_token g) = 64" using assms(2,3) by (simp add: issues_def)
  moreover have "find (\<lambda>s. s_token_hash s = ae_digest env (sg_token g) \<and> s_revoked s = None \<and> s_expires s > ae_now env')
      (at_sessions st') = (if ae_now env' < sg_expires_at g
        then Some \<lparr>s_user = sg_user g, s_token_hash = ae_digest env (sg_token g), s_expires = sg_expires_at g,
          s_revoked = None\<rparr> else None)"
  proof -
    have "ae_digest env (sg_token g) \<notin> s_token_hash ` set (at_sessions st)"
      using assms(2) unfolding issues_def set_map by blast
    then have absent: "s \<in> set (at_sessions st) \<Longrightarrow> \<not> (s_token_hash s = ae_digest env (sg_token g)
        \<and> s_revoked s = None \<and> s_expires s > ae_now env')" for s by (metis imageI)
    have "at_sessions st' = at_sessions st @ [\<lparr>s_user = sg_user g, s_token_hash = ae_digest env (sg_token g),
        s_expires = sg_expires_at g, s_revoked = None\<rparr>]" using assms(2) by (simp add: issues_def)
    then show ?thesis
      using find_absent [of "at_sessions st" "\<lambda>s. s_token_hash s = ae_digest env (sg_token g)
        \<and> s_revoked s = None \<and> s_expires s > ae_now env'", OF absent] by simp
  qed
  ultimately show ?thesis using u assms(4) by (simp add: authenticate_token_def)
qed

lemma authenticate_revoked:
  assumes "ae_digest env t = h"
  shows "\<not> is_ok (authenticate_token env t (revoke now h st))"
proof -
  have "find (\<lambda>s. s_token_hash s = h \<and> s_revoked s = None \<and> s_expires s > ae_now env) (at_sessions (revoke now h st)) = None"
  proof -
    have "\<not> (s_token_hash s = h \<and> s_revoked s = None)" if "s \<in> set (at_sessions (revoke now h st))" for s
    proof -
      from that have "s \<in> (\<lambda>r. if s_token_hash r = h then r\<lparr>s_revoked := Some now\<rparr> else r) ` set (at_sessions st)"
        by (simp add: revoke_def)
      then obtain r where "s = (if s_token_hash r = h then r\<lparr>s_revoked := Some now\<rparr> else r)" by (rule imageE)
      then show ?thesis by (cases "s_token_hash r = h") simp_all
    qed
    then show ?thesis unfolding find_None_iff by blast
  qed
  with assms show ?thesis by (simp add: authenticate_token_def Let_def)
qed

lemma find_map_other:
  "(\<And>s. s \<in> set xs \<Longrightarrow> P s \<Longrightarrow> f s = s) \<Longrightarrow> (\<And>s. s \<in> set xs \<Longrightarrow> \<not> P s \<Longrightarrow> \<not> P (f s)) \<Longrightarrow> find P (map f xs) = find P xs"
  by (induction xs) auto

lemma authenticate_other:
  assumes "ae_digest env t \<noteq> h"
  shows "authenticate_token env t (revoke now h st) = authenticate_token env t st"
proof -
  have "find (\<lambda>s. s_token_hash s = ae_digest env t \<and> s_revoked s = None \<and> s_expires s > ae_now env) (at_sessions (revoke now h st))
      = find (\<lambda>s. s_token_hash s = ae_digest env t \<and> s_revoked s = None \<and> s_expires s > ae_now env) (at_sessions st)"
    unfolding revoke_def using assms by (simp, intro find_map_other) auto
  then show ?thesis by (simp only: authenticate_token_def Let_def revoke_users)
qed


text \<open>C19  The tables stay consistent: in every reachable state user ids, usernames, e-mail addresses and token
  digests are unique, usernames are valid, and every session belongs to a user; and a registration or login that is
  refused changes no table.\<close>

theorem accounts_consistent:
  assumes "reachable account_init account_step st"
  shows "accounts_inv st
    \<and> (\<forall>env req lreq e st'. register_user env req st = (Err e, st') \<or> login env lreq st = (Err e, st') \<longrightarrow>
         at_users st' = at_users st \<and> at_sessions st' = at_sessions st)"
  using account_system.reachable_inv [OF assms] register_err login_err by blast

section \<open>Concrete accounts\<close>

definition demo_auth :: "nat \<Rightarrow> auth_env" where
  "demo_auth n = \<lparr>ae_now = 0, ae_tick = 0, ae_hash = (\<lambda>p. Some p), ae_verify = (\<lambda>h p. h = p), ae_digest = (\<lambda>t. t),
     ae_sql_lower = to_ascii_lowercase, ae_uuid = Uuid (of_nat n), ae_random = replicate 31 0 @ [of_nat n]\<rparr>"

definition demo_register :: "string \<Rightarrow> string \<Rightarrow> register_request" where
  "demo_register username password = \<lparr>rr_username = username, rr_password = password, rr_email = None\<rparr>"

definition no_accounts :: accounts where
  "no_accounts = \<lparr>at_users = [], at_sessions = [], at_limiter = []\<rparr>"

definition demo_one :: accounts where
  "demo_one = snd (register_user (demo_auth 1) (demo_register ''Alice'' ''password-of-one'') no_accounts)"

definition demo_two :: accounts where
  "demo_two = snd (register_user (demo_auth 2) (demo_register ''alice'' ''password-of-two'') demo_one)"

lemma no_accounts_reachable: "reachable account_init account_step no_accounts"
  by (rule reach_init) (simp add: account_init_def no_accounts_def)

lemma demo_registered:
  "fst (register_user (demo_auth 1) (demo_register ''Alice'' ''password-of-one'') no_accounts)
     = Ok \<lparr>sg_user = Uuid 1, sg_username = ''Alice'', sg_email = None,
         sg_token = generate_session_token (replicate 31 0 @ [1]), sg_expires_at = days 30\<rparr>"
  by code_simp


lemma accounts_consistent_witness: "accounts_inv demo_one"
proof -
  have "reachable account_init account_step demo_one"
    unfolding demo_one_def by (rule reach_step [OF no_accounts_reachable do_register])
  from accounts_consistent [OF this] show ?thesis by simp
qed

text \<open>Usernames are unique as they are written, but a login looks them up without case and takes one
  row: a second account whose name differs in case only is created and then cannot log in with its
  own password.\<close>

lemma login_case_collision:
  "is_ok (fst (register_user (demo_auth 2) (demo_register ''alice'' ''password-of-two'') demo_one))
   \<and> fst (login (demo_auth 3) \<lparr>lr_identifier = ''alice'', lr_password = ''password-of-two''\<rparr> demo_two)
       = Err (Unauthorized ''invalid credentials'')"
  by code_simp

end
