(* ===== verification/Telemetry.thy ===== *)
theory Telemetry
  imports Lifecycle Rate_Limits Label_Codec Reachability Accounts
begin

text \<open>
  Product telemetry (\<open>apps/server/src/routes/telemetry.rs\<close>): the closed event contract, the
  idempotent insertion, and the activation funnel with its two queries.  A rate of the summary is
  the pair of integers whose \<open>f64\<close> quotient the code reports.  \<open>Uuid::parse_str\<close> is a parameter.
\<close>

section \<open>Labels\<close>

fun event_label :: "product_event_name \<Rightarrow> string" where
  "event_label GameSelected = ''game_selected''"
| "event_label ReadinessCompleted = ''readiness_completed''"
| "event_label ReadinessBlocked = ''readiness_blocked''"
| "event_label LobbyEntered = ''lobby_entered''"
| "event_label LaunchAttempted = ''launch_attempted''"
| "event_label LaunchSucceeded = ''launch_succeeded''"

text \<open>The label that \<open>serde\<close> writes for a check, and the table that reads it.\<close>

fun check_label :: "readiness_check_id \<Rightarrow> string" where
  "check_label CheckDesktop = ''desktop''"
| "check_label CheckControlPlane = ''control_plane''"
| "check_label CheckGameRuntime = ''game_runtime''"
| "check_label CheckNativePort = ''native_port''"
| "check_label CheckNetwork = ''network''"

definition parse_check_label :: "string \<Rightarrow> app_error + readiness_check_id" where
  "parse_check_label label =
     (if label = ''desktop'' then Ok CheckDesktop
      else if label = ''control_plane'' then Ok CheckControlPlane
      else if label = ''game_runtime'' then Ok CheckGameRuntime
      else if label = ''native_port'' then Ok CheckNativePort
      else if label = ''network'' then Ok CheckNetwork
      else Err (Internal ''invalid telemetry aggregate''))"

interpretation check_labels: label_codec check_label parse_check_label
proof
  fix c :: readiness_check_id and t
  show "parse_check_label (check_label c) = Inr c" by (cases c) (simp_all add: parse_check_label_def)
  show "parse_check_label t = Inr c \<Longrightarrow> t = check_label c" by (auto simp: parse_check_label_def split: if_splits)
qed

lemma event_label_inj: "event_label a = event_label b \<longleftrightarrow> a = b"
  by (cases a; cases b) simp_all

section \<open>Recording\<close>

definition ACTIVATION_WINDOW_DAYS :: int where "ACTIVATION_WINDOW_DAYS = 30"
definition MIN_AGGREGATE_COHORT :: nat where "MIN_AGGREGATE_COHORT = 3"
definition MAX_EVENTS_PER_MINUTE :: nat where "MAX_EVENTS_PER_MINUTE = 60"

record telemetry_row = product_event_row +
  te_session :: uuid
  te_name :: string
  te_game :: string
  te_checks :: "string list"

record telemetry_state =
  ts_events :: "telemetry_row list"
  ts_limiter :: auth_rate_limiter

definition validate_event :: "product_event_payload \<Rightarrow> app_error + unit" where
  "validate_event p =
     (if length (pe_game_id p) < 3 \<or> length (pe_game_id p) > 20
         \<or> \<not> list_all (\<lambda>b. is_ascii_lowercase b \<or> is_ascii_digit b \<or> b = CHR ''_'') (pe_game_id p)
      then Err (BadRequest ''telemetry game id is invalid'')
      else let unique = remdups (pe_blocked_checks p) in
        if length unique \<noteq> length (pe_blocked_checks p)
        then Err (BadRequest ''telemetry blocked checks must be unique'')
        else case pe_event p of
          ReadinessBlocked \<Rightarrow>
            (if unique = [] \<or> CheckNetwork \<in> set unique \<or> length unique > 4
             then Err (BadRequest ''readiness_blocked requires one or more blocking checks'')
             else Ok ())
        | _ \<Rightarrow>
            (if unique \<noteq> [] then Err (BadRequest ''blocked checks are only valid for readiness_blocked'')
             else Ok ()))"

definition parse_telemetry_uuid :: "(string \<Rightarrow> uuid option) \<Rightarrow> string \<Rightarrow> string \<Rightarrow> app_error + uuid" where
  "parse_telemetry_uuid parse value field =
     ok_or (parse value) (BadRequest (''telemetry '' @ field @ '' is invalid''))"

text \<open>The reply is whether the event was a duplicate, which also decides between 200 and 201.\<close>

definition record_event ::
    "(string \<Rightarrow> uuid option) \<Rightarrow> instant \<Rightarrow> instant \<Rightarrow> string \<Rightarrow> string list \<Rightarrow> product_event_payload \<Rightarrow> telemetry_state \<Rightarrow>
     (app_error + bool) \<times> telemetry_state" where
  "record_event parse now tick user games p st =
     (case check_at (''telemetry:'' @ user) MAX_EVENTS_PER_MINUTE tick (ts_limiter st) of
        (False, m) \<Rightarrow> (Err (RateLimited ''product telemetry rate limit exceeded''), st\<lparr>ts_limiter := m\<rparr>)
      | (True, m) \<Rightarrow>
          (let st1 = st\<lparr>ts_limiter := m\<rparr> in
           case parse_telemetry_uuid parse (pe_event_id p) ''event id'' of
             Inl e \<Rightarrow> (Err e, st1)
           | Inr event_id \<Rightarrow>
          (case parse_telemetry_uuid parse (pe_anonymous_session_id p) ''anonymous session id'' of
             Inl e \<Rightarrow> (Err e, st1)
           | Inr session \<Rightarrow>
          (case validate_event p of
             Inl e \<Rightarrow> (Err e, st1)
           | Inr _ \<Rightarrow>
               (if pe_game_id p \<notin> set games then (Err (BadRequest ''telemetry game id is unknown''), st1)
                else if list_ex (\<lambda>r. pe_id r = event_id) (ts_events st1) then (Ok True, st1)
                else (Ok False, st1\<lparr>ts_events := ts_events st1 @
                  [\<lparr>pe_id = event_id, pe_received = now, te_session = session, te_name = event_label (pe_event p),
                    te_game = pe_game_id p, te_checks = map check_label (pe_blocked_checks p)\<rparr>]\<rparr>))))))"

section \<open>The activation funnel\<close>

record activation_summary_payload =
  as_window_days :: int
  as_selected_sessions :: nat
  as_ready_sessions :: nat
  as_lobby_sessions :: nat
  as_launch_attempted_sessions :: nat
  as_launch_succeeded_sessions :: nat
  as_readiness_blocked_events :: nat
  as_selected_to_ready_rate :: "nat \<times> nat"
  as_selected_to_lobby_rate :: "nat \<times> nat"
  as_selected_to_launch_rate :: "nat \<times> nat"
  as_blocked_by_check :: "(readiness_check_id \<times> nat) list"

definition ratio :: "nat \<Rightarrow> nat \<Rightarrow> nat \<times> nat" where
  "ratio numerator denominator = (if denominator = 0 then (0, 1) else (numerator, denominator))"

definition empty_summary :: activation_summary_payload where
  "empty_summary =
     \<lparr>as_window_days = ACTIVATION_WINDOW_DAYS, as_selected_sessions = 0, as_ready_sessions = 0, as_lobby_sessions = 0,
      as_launch_attempted_sessions = 0, as_launch_succeeded_sessions = 0, as_readiness_blocked_events = 0,
      as_selected_to_ready_rate = (0, 1), as_selected_to_lobby_rate = (0, 1), as_selected_to_launch_rate = (0, 1),
      as_blocked_by_check = []\<rparr>"

text \<open>The common part of the two queries: \<open>windowed\<close>, \<open>selected\<close>, and their join.\<close>

definition row_key :: "telemetry_row \<Rightarrow> uuid \<times> string" where
  "row_key r = (te_session r, te_game r)"

definition windowed :: "instant \<Rightarrow> telemetry_row list \<Rightarrow> telemetry_row list" where
  "windowed now es = filter (\<lambda>r. pe_received r \<ge> now - days ACTIVATION_WINDOW_DAYS) es"

definition selection_rows :: "instant \<Rightarrow> telemetry_row list \<Rightarrow> telemetry_row list" where
  "selection_rows now es = filter (\<lambda>r. te_name r = ''game_selected'') (windowed now es)"

definition selected_keys :: "instant \<Rightarrow> telemetry_row list \<Rightarrow> (uuid \<times> string) list" where
  "selected_keys now es = remdups (map row_key (selection_rows now es))"

definition selected_at :: "instant \<Rightarrow> telemetry_row list \<Rightarrow> uuid \<times> string \<Rightarrow> instant" where
  "selected_at now es k = Min (set (map pe_received (filter (\<lambda>r. row_key r = k) (selection_rows now es))))"

definition joined :: "instant \<Rightarrow> telemetry_row list \<Rightarrow> telemetry_row list" where
  "joined now es = concat (map (\<lambda>k. filter (\<lambda>r. row_key r = k \<and> pe_received r \<ge> selected_at now es k) (windowed now es))
     (selected_keys now es))"

definition sessions_with :: "string \<Rightarrow> telemetry_row list \<Rightarrow> nat" where
  "sessions_with label rows = length (remdups (map te_session (filter (\<lambda>r. te_name r = label) rows)))"

definition blocked_counts :: "instant \<Rightarrow> telemetry_row list \<Rightarrow> (string \<times> nat) list" where
  "blocked_counts now es =
     (let checks = concat (map te_checks (filter (\<lambda>r. te_name r = ''readiness_blocked'') (joined now es)));
          counted = map (\<lambda>c. (c, count_list checks c)) (remdups checks)
      in sort_key (\<lambda>(c, n). (- int n, c)) (filter (\<lambda>(c, n). n \<ge> MIN_AGGREGATE_COHORT) counted))"

fun parse_counts :: "(string \<times> nat) list \<Rightarrow> app_error + (readiness_check_id \<times> nat) list" where
  "parse_counts [] = Ok []"
| "parse_counts ((label, n) # rest) =
     (case parse_check_label label of
        Inl e \<Rightarrow> Err e
      | Inr c \<Rightarrow> (case parse_counts rest of Inl e \<Rightarrow> Err e | Inr cs \<Rightarrow> Ok ((c, n) # cs)))"

text \<open>\<open>operator\<close> is the outcome of the \<open>x-operator-token\<close> check.\<close>

definition activation_summary ::
    "app_error + unit \<Rightarrow> instant \<Rightarrow> telemetry_row list \<Rightarrow> app_error + activation_summary_payload" where
  "activation_summary operator now es =
     (case operator of
        Inl e \<Rightarrow> Err e
      | Inr _ \<Rightarrow>
          (let rows = joined now es;
               selected = length (remdups (map fst (selected_keys now es)));
               ready = sessions_with ''readiness_completed'' rows;
               lobby = sessions_with ''lobby_entered'' rows;
               attempted = sessions_with ''launch_attempted'' rows;
               succeeded = sessions_with ''launch_succeeded'' rows;
               blocked = length (filter (\<lambda>r. te_name r = ''readiness_blocked'') rows)
           in if selected < MIN_AGGREGATE_COHORT then Ok empty_summary
           else (case parse_counts (blocked_counts now es) of
               Inl e \<Rightarrow> Err e
             | Inr by_check \<Rightarrow>
                 Ok \<lparr>as_window_days = ACTIVATION_WINDOW_DAYS, as_selected_sessions = selected, as_ready_sessions = ready,
                   as_lobby_sessions = lobby, as_launch_attempted_sessions = attempted,
                   as_launch_succeeded_sessions = succeeded, as_readiness_blocked_events = blocked,
                   as_selected_to_ready_rate = ratio ready selected, as_selected_to_lobby_rate = ratio lobby selected,
                   as_selected_to_launch_rate = ratio succeeded selected, as_blocked_by_check = by_check\<rparr>)))"

section \<open>The stored events keep to the contract\<close>

definition row_ok :: "telemetry_row \<Rightarrow> bool" where
  "row_ok r \<longleftrightarrow>
     (\<exists>ev checks. te_name r = event_label ev \<and> te_checks r = map check_label checks \<and> distinct checks
        \<and> CheckNetwork \<notin> set checks \<and> (checks \<noteq> [] \<longleftrightarrow> ev = ReadinessBlocked))"

definition telemetry_inv :: "telemetry_state \<Rightarrow> bool" where
  "telemetry_inv st \<longleftrightarrow> distinct (map pe_id (ts_events st)) \<and> list_all row_ok (ts_events st)"

definition telemetry_init :: "telemetry_state \<Rightarrow> bool" where
  "telemetry_init st \<longleftrightarrow> ts_events st = []"

inductive telemetry_step :: "telemetry_state \<Rightarrow> telemetry_state \<Rightarrow> bool" where
  recorded: "telemetry_step st (snd (record_event parse now tick user games p st))"
| dropped: "telemetry_step st (st\<lparr>ts_events := filter keep (ts_events st)\<rparr>)"

lemma validate_event_ok:
  "validate_event p = Ok () \<Longrightarrow> distinct (pe_blocked_checks p)
     \<and> CheckNetwork \<notin> set (pe_blocked_checks p) \<and> (pe_blocked_checks p \<noteq> [] \<longleftrightarrow> pe_event p = ReadinessBlocked)"
  by (auto simp: validate_event_def Let_def length_remdups_card_conv card_distinct split: if_splits product_event_name.splits)

lemma telemetry_inv_step: "telemetry_inv st \<Longrightarrow> telemetry_step st st' \<Longrightarrow> telemetry_inv st'"
proof (erule telemetry_step.cases)
  fix s parse now tick user games p
  assume inv: "telemetry_inv st" and eq: "st = s" "st' = snd (record_event parse now tick user games p s)"
  show "telemetry_inv st'"
  proof (cases "ts_events st' = ts_events st")
    case True
    with inv show ?thesis by (simp add: telemetry_inv_def)
  next
    case False
    with eq obtain event_id session where v: "validate_event p = Ok ()"
      and new: "\<not> list_ex (\<lambda>r. pe_id r = event_id) (ts_events st)"
      and st': "ts_events st' = ts_events st @
          [\<lparr>pe_id = event_id, pe_received = now, te_session = session, te_name = event_label (pe_event p),
            te_game = pe_game_id p, te_checks = map check_label (pe_blocked_checks p)\<rparr>]"
      by (auto simp: record_event_def Let_def split: prod.splits bool.splits sum.splits if_splits)
    from validate_event_ok [OF v]
    have "row_ok \<lparr>pe_id = event_id, pe_received = now, te_session = session, te_name = event_label (pe_event p),
            te_game = pe_game_id p, te_checks = map check_label (pe_blocked_checks p)\<rparr>"
      unfolding row_ok_def by auto
    with inv new st' show ?thesis by (auto simp: telemetry_inv_def list_ex_iff)
  qed
qed (auto simp: telemetry_inv_def list_all_iff distinct_map_filter)

interpretation telemetry: invariant_system telemetry_init telemetry_step telemetry_inv
  by unfold_locales (simp add: telemetry_init_def telemetry_inv_def, rule telemetry_inv_step)

section \<open>What the funnel reports\<close>

lemma sessions_with_le: "sessions_with label (joined now es) \<le> length (remdups (map fst (selected_keys now es)))"
proof -
  have "te_session ` set (filter (\<lambda>r. te_name r = label) (joined now es)) \<subseteq> fst ` set (selected_keys now es)"
    by (force simp: joined_def row_key_def)
  then show ?thesis
    by (simp add: sessions_with_def length_remdups_card_conv card_mono)
qed

lemma parse_counts_written:
  "(\<And>l n. (l, n) \<in> set cs \<Longrightarrow> \<exists>c. l = check_label c) \<Longrightarrow>
   \<exists>ps. parse_counts cs = Ok ps \<and> map (\<lambda>(c, n). (check_label c, n)) ps = cs"
proof (induction cs)
  case (Cons x cs)
  obtain l n where x: "x = (l, n)" by fastforce
  with Cons.prems [of l n] obtain c where "l = check_label c" by auto
  with x Cons show ?case by (force simp: check_labels.read_write)
qed simp

lemma blocked_counts_labels:
  assumes "list_all row_ok es" "(l, n) \<in> set (blocked_counts now es)"
  shows "\<exists>c. l = check_label c \<and> c \<noteq> CheckNetwork" "n \<ge> MIN_AGGREGATE_COHORT"
proof -
  from assms(2) have "n \<ge> MIN_AGGREGATE_COHORT"
    and "l \<in> set (concat (map te_checks (filter (\<lambda>r. te_name r = ''readiness_blocked'') (joined now es))))"
    by (auto simp: blocked_counts_def Let_def)
  then obtain r where "r \<in> set (joined now es)" and l: "l \<in> set (te_checks r)" by auto
  then have "r \<in> set es" by (auto simp: joined_def windowed_def)
  with assms(1) have "row_ok r" by (simp add: list_all_iff)
  with l show "\<exists>c. l = check_label c \<and> c \<noteq> CheckNetwork" by (auto simp: row_ok_def)
  show "n \<ge> MIN_AGGREGATE_COHORT" by fact
qed

lemma blocked_counts_distinct: "distinct (map fst (blocked_counts now es))"
  by (auto simp: blocked_counts_def Let_def distinct_map inj_on_def intro!: distinct_filter)

text \<open>C24  The activation funnel over whatever the endpoint has recorded: the operator always gets a summary,
  no stage counts more sessions than selected a game, fewer than three sessions are reported as none, and the
  blocker list names each check once, never the advisory network check, and only with three or more events.\<close>

theorem activation_funnel:
  assumes "reachable telemetry_init telemetry_step st"
  shows "\<exists>p. activation_summary (Ok ()) now (ts_events st) = Ok p
    \<and> as_ready_sessions p \<le> as_selected_sessions p \<and> as_lobby_sessions p \<le> as_selected_sessions p
    \<and> as_launch_attempted_sessions p \<le> as_selected_sessions p
    \<and> as_launch_succeeded_sessions p \<le> as_selected_sessions p
    \<and> (p = empty_summary \<or> 3 \<le> as_selected_sessions p)
    \<and> distinct (map fst (as_blocked_by_check p))
    \<and> list_all (\<lambda>(c, n). c \<noteq> CheckNetwork \<and> 3 \<le> n) (as_blocked_by_check p)"
proof -
  have ok: "list_all row_ok (ts_events st)"
    using telemetry.reachable_inv [OF assms] by (simp add: telemetry_inv_def)
  obtain ps where ps: "parse_counts (blocked_counts now (ts_events st)) = Ok ps"
      "map (\<lambda>(c, n). (check_label c, n)) ps = blocked_counts now (ts_events st)"
    using parse_counts_written [of "blocked_counts now (ts_events st)"] blocked_counts_labels [OF ok] by blast
  have "map check_label (map fst ps) = map fst (blocked_counts now (ts_events st))"
    unfolding ps(2) [symmetric] by (simp add: comp_def case_prod_beta)
  then have "distinct (map fst ps)"
    using blocked_counts_distinct [of now "ts_events st"] distinct_map by metis
  moreover have "list_all (\<lambda>(c, n). c \<noteq> CheckNetwork \<and> 3 \<le> n) ps"
  proof -
    have "c \<noteq> CheckNetwork \<and> 3 \<le> n" if "(c, n) \<in> set ps" for c n
    proof -
      from that have "(check_label c, n) \<in> set (blocked_counts now (ts_events st))"
        unfolding ps(2) [symmetric] by force
      from blocked_counts_labels [OF ok this] show ?thesis
        by (auto simp: check_labels.write_inj MIN_AGGREGATE_COHORT_def)
    qed
    then show ?thesis by (auto simp: list_all_iff)
  qed
  ultimately show ?thesis
    using ps(1) sessions_with_le [of _ now "ts_events st"]
    by (auto simp: activation_summary_def Let_def MIN_AGGREGATE_COHORT_def empty_summary_def)
qed

section \<open>A concrete funnel\<close>

text \<open>Three sessions select a game; one of them reports the same blocked check three times.\<close>

definition demo_event :: "string \<Rightarrow> string \<Rightarrow> product_event_name \<Rightarrow> readiness_check_id list \<Rightarrow> product_event_payload" where
  "demo_event i s ev checks = \<lparr>pe_event_id = i, pe_anonymous_session_id = s, pe_event = ev, pe_game_id = ''sfiii3'',
     pe_blocked_checks = checks\<rparr>"

definition demo_parse :: "string \<Rightarrow> uuid option" where
  "demo_parse s = (case s of [] \<Rightarrow> None | c # _ \<Rightarrow> Some (Uuid (of_nat (of_char c))))"

definition demo_record :: "product_event_payload \<Rightarrow> telemetry_state \<Rightarrow> telemetry_state" where
  "demo_record p st = snd (record_event demo_parse 0 0 ''user'' [''sfiii3''] p st)"

definition demo_telemetry :: telemetry_state where
  "demo_telemetry = fold demo_record
     [demo_event ''a'' ''A'' GameSelected [], demo_event ''b'' ''B'' GameSelected [],
      demo_event ''c'' ''C'' GameSelected [], demo_event ''d'' ''A'' ReadinessBlocked [CheckDesktop],
      demo_event ''e'' ''A'' ReadinessBlocked [CheckDesktop], demo_event ''f'' ''A'' ReadinessBlocked [CheckDesktop]]
     \<lparr>ts_events = [], ts_limiter = []\<rparr>"

lemma demo_telemetry_reachable: "reachable telemetry_init telemetry_step demo_telemetry"
proof -
  have step: "reachable telemetry_init telemetry_step st \<Longrightarrow> reachable telemetry_init telemetry_step (demo_record p st)" for p st
    unfolding demo_record_def by (erule reach_step) (rule recorded)
  have "reachable telemetry_init telemetry_step \<lparr>ts_events = [], ts_limiter = []\<rparr>"
    by (rule reach_init) (simp add: telemetry_init_def)
  then show ?thesis unfolding demo_telemetry_def by (simp add: step)
qed

lemma demo_summary:
  "activation_summary (Ok ()) 0 (ts_events demo_telemetry) =
     Ok \<lparr>as_window_days = 30, as_selected_sessions = 3, as_ready_sessions = 0, as_lobby_sessions = 0,
       as_launch_attempted_sessions = 0, as_launch_succeeded_sessions = 0, as_readiness_blocked_events = 3,
       as_selected_to_ready_rate = (0, 3), as_selected_to_lobby_rate = (0, 3), as_selected_to_launch_rate = (0, 3),
       as_blocked_by_check = [(CheckDesktop, 3)]\<rparr>"
  by code_simp

lemma activation_funnel_witness:
  "\<exists>p. activation_summary (Ok ()) 0 (ts_events demo_telemetry) = Ok p \<and> as_selected_sessions p = 3
     \<and> list_all (\<lambda>(c, n). c \<noteq> CheckNetwork \<and> 3 \<le> n) (as_blocked_by_check p)"
  using activation_funnel [OF demo_telemetry_reachable, of 0] demo_summary by auto

text \<open>The suppression of small cohorts does not reach the blocker list: it counts events, so a check that a
  single session was blocked by is reported once that session has met it three times.\<close>

lemma single_session_blocker_reported:
  "(case activation_summary (Ok ()) 0 (ts_events demo_telemetry) of
      Inl _ \<Rightarrow> False
    | Inr p \<Rightarrow> (CheckDesktop, 3) \<in> set (as_blocked_by_check p))
   \<and> sessions_with ''readiness_blocked'' (ts_events demo_telemetry) = 1"
proof -
  have "sessions_with ''readiness_blocked'' (ts_events demo_telemetry) = 1" by code_simp
  then show ?thesis by (simp add: demo_summary)
qed

end
