(* ===== verification/Hole_Punch.thy ===== *)
theory Hole_Punch
  imports Stun_Client
begin

text \<open>
  UDP hole punching (\<open>packages/networking/src/traversal.rs\<close>): the validated configuration and the
  bounded rounds of sending to every candidate and listening until the round's deadline.  The
  socket is given by what it answers: for each round the outcomes of the sends and the receive
  events, the deadline being met after the listed events at the latest.  JSON is a parameter.
\<close>

section \<open>Configuration\<close>

definition MAX_PUNCH_CANDIDATES :: nat where "MAX_PUNCH_CANDIDATES = 8"
definition MAX_PUNCH_BYTES :: nat where "MAX_PUNCH_BYTES = 1024"

record hole_punch_config =
  hp_room_id :: string
  hp_session_key :: string
  hp_peer_candidates :: "socket_addr list"
  hp_attempts :: u8
  hp_interval :: int

text \<open>The first occurrence of each candidate, in order.\<close>

definition first_occurrences :: "'a list \<Rightarrow> 'a list" where
  "first_occurrences xs = rev (remdups (rev xs))"

definition hole_punch_config_new ::
    "string \<Rightarrow> string \<Rightarrow> socket_addr list \<Rightarrow> u8 \<Rightarrow> int \<Rightarrow> transport_error + hole_punch_config" where
  "hole_punch_config_new room_id session_key candidates attempts interval =
     (let peer_candidates = first_occurrences candidates in
      if is_blank room_id \<or> length room_id > 128 \<or> is_blank session_key \<or> length session_key > 128
      then Err (InvalidConfiguration ''hole punch requires bounded room and session identifiers'')
      else if peer_candidates = [] \<or> length peer_candidates > MAX_PUNCH_CANDIDATES
        \<or> list_ex (\<lambda>c. is_unspecified (sa_ip c) \<or> sa_port c = 0) peer_candidates
      then Err (InvalidConfiguration ''hole punch requires 1 to 8 usable peer candidates'')
      else if attempts = 0 \<or> attempts > 10 \<or> interval = 0
      then Err (InvalidConfiguration ''hole punch requires 1 to 10 attempts and a non-zero interval'')
      else Ok \<lparr>hp_room_id = room_id, hp_session_key = session_key, hp_peer_candidates = peer_candidates,
        hp_attempts = attempts, hp_interval = interval\<rparr>)"

section \<open>Punching\<close>

record punch_packet =
  pp_version :: u8
  pp_room_id :: string
  pp_session_key :: string

record hole_punch_report =
  hr_selected_peer :: socket_addr
  hr_attempts :: u8

record punch_round =
  rd_sends :: "socket_addr \<Rightarrow> io_error option"
  rd_events :: "recv_event list"

definition punch_packet_of :: "hole_punch_config \<Rightarrow> punch_packet" where
  "punch_packet_of c = \<lparr>pp_version = 1, pp_room_id = hp_room_id c, pp_session_key = hp_session_key c\<rparr>"

text \<open>The sends of a round in order; a refused one is passed over, any other error ends the punch.
  The result lists the addresses that were sent to.\<close>

fun send_round :: "(socket_addr \<Rightarrow> io_error option) \<Rightarrow> socket_addr list \<Rightarrow> socket_addr list \<times> transport_error option" where
  "send_round sends [] = ([], None)"
| "send_round sends (c # cs) =
     (case sends c of
        Some e \<Rightarrow>
          (if e = ConnectionRefused
           then (case send_round sends cs of (done_list, r) \<Rightarrow> (c # done_list, r))
           else ([c], Some (map_udp_error e)))
      | None \<Rightarrow> (case send_round sends cs of (done_list, r) \<Rightarrow> (c # done_list, r)))"

text \<open>A datagram that ends the search: from a candidate, and a packet of this room and session.\<close>

definition punch_match :: "(bytes \<Rightarrow> punch_packet option) \<Rightarrow> hole_punch_config \<Rightarrow> socket_addr \<Rightarrow> bytes \<Rightarrow> bool" where
  "punch_match decode c sender b \<longleftrightarrow>
     sender \<in> set (hp_peer_candidates c)
     \<and> (case decode (take MAX_PUNCH_BYTES b) of
          None \<Rightarrow> False
        | Some p \<Rightarrow> pp_version p = 1 \<and> pp_room_id p = hp_room_id c \<and> pp_session_key p = hp_session_key c)"

fun receive_round ::
    "(bytes \<Rightarrow> punch_packet option) \<Rightarrow> hole_punch_config \<Rightarrow> recv_event list \<Rightarrow> transport_error + socket_addr option" where
  "receive_round decode c [] = Ok None"
| "receive_round decode c (RecvElapsed # evs) = Ok None"
| "receive_round decode c (RecvError e # evs) =
     (if e = ConnectionRefused then receive_round decode c evs else Err (map_udp_error e))"
| "receive_round decode c (RecvFrom sender b # evs) =
     (if punch_match decode c sender b then Ok (Some sender) else receive_round decode c evs)"

text \<open>The rounds from attempt \<open>n\<close> on; \<open>reply\<close> and \<open>connect\<close> are the last send and
  \<open>peer.connect\<close>.\<close>

fun punch_rounds ::
    "(bytes \<Rightarrow> punch_packet option) \<Rightarrow> hole_punch_config \<Rightarrow> (socket_addr \<Rightarrow> io_error option) \<Rightarrow>
     (socket_addr \<Rightarrow> transport_error + 'p) \<Rightarrow> u8 \<Rightarrow> punch_round list \<Rightarrow>
     socket_addr list \<times> (transport_error + ('p \<times> hole_punch_report))" where
  "punch_rounds decode c reply connect n [] = ([], Err (HolePunchTimeout (hp_attempts c)))"
| "punch_rounds decode c reply connect n (r # rs) =
     (case send_round (rd_sends r) (hp_peer_candidates c) of
        (sent, Some e) \<Rightarrow> (sent, Err e)
      | (sent, None) \<Rightarrow>
          (case receive_round decode c (rd_events r) of
             Inl e \<Rightarrow> (sent, Err e)
           | Inr None \<Rightarrow>
               (case punch_rounds decode c reply connect (n + 1) rs of (more_sent, res) \<Rightarrow> (sent @ more_sent, res))
           | Inr (Some peer) \<Rightarrow>
               (case reply peer of
                  Some e \<Rightarrow> (sent @ [peer], Err (map_udp_error e))
                | None \<Rightarrow>
                    (case connect peer of
                       Inl e \<Rightarrow> (sent @ [peer], Err e)
                     | Inr p \<Rightarrow> (sent @ [peer], Ok (p, \<lparr>hr_selected_peer = peer, hr_attempts = n\<rparr>))))))"

text \<open>\<open>punch_hole\<close>: the addresses sent to, and the result.\<close>

definition punch_hole ::
    "(punch_packet \<Rightarrow> string + bytes) \<Rightarrow> (bytes \<Rightarrow> punch_packet option) \<Rightarrow> hole_punch_config \<Rightarrow>
     (socket_addr \<Rightarrow> io_error option) \<Rightarrow> (socket_addr \<Rightarrow> transport_error + 'p) \<Rightarrow> (nat \<Rightarrow> punch_round) \<Rightarrow>
     socket_addr list \<times> (transport_error + ('p \<times> hole_punch_report))" where
  "punch_hole encode decode c reply connect rounds =
     (case encode (punch_packet_of c) of
        Inl m \<Rightarrow> ([], Err (Serialization m))
      | Inr _ \<Rightarrow> punch_rounds decode c reply connect 1 (map rounds [1..<Suc (unat (hp_attempts c))]))"

section \<open>Bounds and soundness\<close>

lemma hole_punch_config_ok:
  assumes "hole_punch_config_new room key cs n i = Ok c"
  shows "hp_peer_candidates c \<noteq> [] \<and> length (hp_peer_candidates c) \<le> 8 \<and> distinct (hp_peer_candidates c)
    \<and> 0 < unat (hp_attempts c) \<and> unat (hp_attempts c) \<le> 10 \<and> hp_interval c \<noteq> 0
    \<and> list_all (\<lambda>a. \<not> is_unspecified (sa_ip a) \<and> sa_port a \<noteq> 0) (hp_peer_candidates c)
    \<and> set (hp_peer_candidates c) = set cs"
proof -
  from assms have "\<not> hp_attempts c > 10" "hp_attempts c \<noteq> 0"
    by (auto simp: hole_punch_config_new_def Let_def split: if_splits)
  then have "0 < unat (hp_attempts c) \<and> unat (hp_attempts c) \<le> 10"
    by (simp add: word_less_nat_alt unat_gt_0)
  with assms show ?thesis
    by (auto simp: hole_punch_config_new_def Let_def first_occurrences_def MAX_PUNCH_CANDIDATES_def list_all_iff
        list_ex_iff split: if_splits)
qed

lemma send_round_bounds:
  "send_round sends cs = (sent, r) \<Longrightarrow> length sent \<le> length cs \<and> set sent \<subseteq> set cs"
  by (induction cs arbitrary: sent r) (fastforce split: option.splits if_splits prod.splits)+

lemma receive_round_some:
  "receive_round decode c evs = Ok (Some a) \<Longrightarrow> \<exists>b. RecvFrom a b \<in> set evs \<and> punch_match decode c a b"
  by (induction decode c evs rule: receive_round.induct) (auto split: if_splits)

lemma punch_match_candidate: "punch_match decode c a b \<Longrightarrow> a \<in> set (hp_peer_candidates c)"
  by (simp add: punch_match_def)

lemma punch_rounds_sound:
  assumes "punch_rounds decode c reply connect n rs = (sent, res)"
    and "unat n + length rs < 256"
  shows "length sent \<le> length (hp_peer_candidates c) * length rs + 1
    \<and> set sent \<subseteq> set (hp_peer_candidates c)
    \<and> (case res of
         Inl _ \<Rightarrow> True
       | Inr (p, rep) \<Rightarrow>
           unat n \<le> unat (hr_attempts rep) \<and> unat (hr_attempts rep) - unat n < length rs
           \<and> connect (hr_selected_peer rep) = Ok p
           \<and> (\<exists>b. RecvFrom (hr_selected_peer rep) b \<in> set (rd_events (rs ! (unat (hr_attempts rep) - unat n)))
                \<and> punch_match decode c (hr_selected_peer rep) b))"
  using assms
proof (induction rs arbitrary: n sent res)
  case (Cons r rs)
  obtain sent1 e1 where s: "send_round (rd_sends r) (hp_peer_candidates c) = (sent1, e1)" by fastforce
  note b1 = send_round_bounds [OF s]
  show ?case
  proof (cases e1)
    case (Some e)
    with Cons.prems s b1 show ?thesis by auto
  next
    case None
    show ?thesis
    proof (cases "receive_round decode c (rd_events r)")
      case (Inl e)
      with Cons.prems s None b1 show ?thesis by auto
    next
      case (Inr found)
      show ?thesis
      proof (cases found)
        case None': None
        obtain sent2 res2 where rest: "punch_rounds decode c reply connect (n + 1) rs = (sent2, res2)" by fastforce
        from Cons.prems(2) have n1: "unat (n + 1) = Suc (unat n)"
          by (simp add: unat_word_ariths)
        with Cons.prems(2) have "unat (n + 1) + length rs < 256" by simp
        note IH = Cons.IH [OF rest this]
        from Cons.prems(1) s None Inr None' rest have "sent = sent1 @ sent2" "res = res2" by auto
        with IH b1 n1 show ?thesis
          by (auto split: sum.splits simp: nth_Cons' Suc_diff_Suc)
      next
        case (Some a)
        from receive_round_some [OF Inr [unfolded Some]] obtain b where
          "RecvFrom a b \<in> set (rd_events r)" "punch_match decode c a b" by blast
        with Cons.prems s None Inr Some b1 show ?thesis
          by (auto split: option.splits sum.splits dest: punch_match_candidate)
      qed
    qed
  qed
qed auto

text \<open>C22  Hole punching is bounded and only connects to a peer that proved itself: with any validated
  configuration and whatever the socket does, at most attempts times candidates packets and one reply are sent,
  all to configured candidates; and a success names a candidate that, within the attempt reported, sent a packet of
  version 1 with this room and this session key, and is connected to that candidate.\<close>

theorem hole_punch_sound:
  assumes "hole_punch_config_new room key candidates attempts interval = Ok c"
    and "punch_hole encode decode c reply connect rounds = (sent, res)"
  shows "length sent \<le> length (hp_peer_candidates c) * unat attempts + 1 \<and> length sent \<le> 81
    \<and> set sent \<subseteq> set candidates
    \<and> (case res of
         Inl _ \<Rightarrow> True
       | Inr (p, rep) \<Rightarrow>
           1 \<le> unat (hr_attempts rep) \<and> unat (hr_attempts rep) \<le> unat attempts
           \<and> connect (hr_selected_peer rep) = Ok p \<and> hr_selected_peer rep \<in> set candidates
           \<and> (\<exists>b pkt. RecvFrom (hr_selected_peer rep) b \<in> set (rd_events (rounds (unat (hr_attempts rep))))
                \<and> decode (take 1024 b) = Some pkt
                \<and> pp_version pkt = 1 \<and> pp_room_id pkt = room \<and> pp_session_key pkt = key))"
proof -
  note ok = hole_punch_config_ok [OF assms(1)]
  from assms(1) have same: "hp_attempts c = attempts" "hp_room_id c = room" "hp_session_key c = key"
    by (auto simp: hole_punch_config_new_def Let_def split: if_splits)
  let ?rs = "map rounds [1..<Suc (unat (hp_attempts c))]"
  show ?thesis
  proof (cases "encode (punch_packet_of c)")
    case (Inl m)
    with assms(2) show ?thesis by (auto simp: punch_hole_def)
  next
    case (Inr packet)
    with assms(2) have run: "punch_rounds decode c reply connect 1 ?rs = (sent, res)" by (simp add: punch_hole_def)
    have "unat (1 :: u8) + length ?rs < 256" using ok by simp
    note b = punch_rounds_sound [OF run this]
    have len: "length ?rs = unat attempts" using ok same by simp
    from b have "length sent \<le> length (hp_peer_candidates c) * unat attempts + 1" unfolding len by blast
    moreover have "length (hp_peer_candidates c) * unat attempts \<le> 8 * 10"
      using ok same by (intro mult_le_mono) auto
    moreover have "set sent \<subseteq> set candidates" using b ok by simp
    moreover have "case res of Inl _ \<Rightarrow> True | Inr (p, rep) \<Rightarrow>
        1 \<le> unat (hr_attempts rep) \<and> unat (hr_attempts rep) \<le> unat attempts
        \<and> connect (hr_selected_peer rep) = Ok p \<and> hr_selected_peer rep \<in> set candidates
        \<and> (\<exists>b pkt. RecvFrom (hr_selected_peer rep) b \<in> set (rd_events (rounds (unat (hr_attempts rep))))
             \<and> decode (take 1024 b) = Some pkt
             \<and> pp_version pkt = 1 \<and> pp_room_id pkt = room \<and> pp_session_key pkt = key)"
    proof (cases res)
      case (Inr r)
      obtain p rep where r: "r = (p, rep)" by fastforce
      from b Inr r have k: "1 \<le> unat (hr_attempts rep)" "unat (hr_attempts rep) - 1 < length ?rs"
        and conn: "connect (hr_selected_peer rep) = Ok p"
        and got: "\<exists>b. RecvFrom (hr_selected_peer rep) b \<in> set (rd_events (?rs ! (unat (hr_attempts rep) - 1)))
            \<and> punch_match decode c (hr_selected_peer rep) b" by (auto simp del: upt_Suc)
      from k have "?rs ! (unat (hr_attempts rep) - 1) = rounds (unat (hr_attempts rep))" by (simp add: nth_upt del: upt_Suc)
      with got have "\<exists>b pkt. RecvFrom (hr_selected_peer rep) b \<in> set (rd_events (rounds (unat (hr_attempts rep))))
             \<and> decode (take 1024 b) = Some pkt
             \<and> pp_version pkt = 1 \<and> pp_room_id pkt = room \<and> pp_session_key pkt = key"
        by (fastforce simp: punch_match_def same MAX_PUNCH_BYTES_def split: option.splits)
      moreover have "hr_selected_peer rep \<in> set candidates"
        using got ok by (auto dest: punch_match_candidate)
      ultimately show ?thesis using k conn len Inr r by auto
    qed simp
    ultimately show ?thesis by simp
  qed
qed

text \<open>Two candidates; the packet of the second arrives in the second round, after one of another room.\<close>

definition demo_peer :: "u8 \<Rightarrow> socket_addr" where
  "demo_peer n = SocketAddr (V4 [203, 0, 113, n]) 4000"

definition demo_decode :: "bytes \<Rightarrow> punch_packet option" where
  "demo_decode b = Some \<lparr>pp_version = 1, pp_room_id = (if b = [1] then ''room'' else ''other''), pp_session_key = ''key''\<rparr>"

definition demo_rounds :: "nat \<Rightarrow> punch_round" where
  "demo_rounds k = \<lparr>rd_sends = (\<lambda>_. None),
     rd_events = (if k = 2 then [RecvFrom (demo_peer 1) [0], RecvFrom (demo_peer 2) [1]] else [RecvElapsed])\<rparr>"

lemma hole_punch_sound_witness:
  "(case punch_hole (\<lambda>_. Ok []) demo_decode
        \<lparr>hp_room_id = ''room'', hp_session_key = ''key'', hp_peer_candidates = [demo_peer 1, demo_peer 2],
          hp_attempts = 3, hp_interval = 1\<rparr> (\<lambda>_. None) (\<lambda>a. Ok a) demo_rounds of
      (sent, res) \<Rightarrow> length sent \<le> 81 \<and> res = Ok (demo_peer 2, \<lparr>hr_selected_peer = demo_peer 2, hr_attempts = 2\<rparr>))"
proof -
  define c where "c = \<lparr>hp_room_id = ''room'', hp_session_key = ''key'', hp_peer_candidates = [demo_peer 1, demo_peer 2],
          hp_attempts = 3, hp_interval = 1\<rparr>"
  have c: "hole_punch_config_new ''room'' ''key'' [demo_peer 1, demo_peer 2] 3 1 = Ok c" unfolding c_def by code_simp
  have res: "snd (punch_hole (\<lambda>_. Ok []) demo_decode c (\<lambda>_. None) (\<lambda>a. Ok a) demo_rounds)
      = Ok (demo_peer 2, \<lparr>hr_selected_peer = demo_peer 2, hr_attempts = 2\<rparr>)" unfolding c_def by code_simp
  obtain sent r where run: "punch_hole (\<lambda>_. Ok []) demo_decode c (\<lambda>_. None) (\<lambda>a. Ok a) demo_rounds = (sent, r)" by fastforce
  from hole_punch_sound [OF c run] have "length sent \<le> 81" by blast
  with res run show ?thesis by (simp add: c_def)
qed

end
