(* ===== verification/Adapters.thy ===== *)
theory Adapters
  imports Std_Text
begin

text \<open>
  The emulator adapters (\<open>adapters/retroarch/src/lib.rs\<close>, \<open>adapters/fbneo/src/lib.rs\<close>): the files
  they look for, the validation of content, compatibility fingerprints, and the command line of
  a match.  The file system and the process launcher are given by what they answer; an argument
  that is text is a path of one component.
\<close>

section \<open>Files\<close>

record file_system =
  fs_is_file :: "path \<Rightarrow> bool"
  fs_canon :: "path \<Rightarrow> string + path"
  fs_read :: "path \<Rightarrow> string option"
  fs_open :: "path \<Rightarrow> string + bytes"
  fs_sha256 :: "bytes \<Rightarrow> bytes"

datatype platform = Windows | Macos | OtherOs

text \<open>\<open>Path::extension\<close> of the last component: what follows its last dot, unless there is none, it is the
  first character, or the component is \<open>..\<close>.\<close>

definition name_extension :: "string \<Rightarrow> string option" where
  "name_extension name =
     (let after = rev (takeWhile (\<lambda>c. c \<noteq> CHR ''.'') (rev name));
          before = take (length name - length after - 1) name
      in if name = ''..'' \<or> CHR ''.'' \<notin> set name \<or> before = [] then None else Some after)"

definition path_extension :: "path \<Rightarrow> string option" where
  "path_extension p = (if p = [] then None else name_extension (last p))"

definition read_version :: "file_system \<Rightarrow> path \<Rightarrow> string option" where
  "read_version fs root =
     (case fs_read fs (root @ [''VERSION.txt'']) of
        None \<Rightarrow> None
      | Some v \<Rightarrow> (if trim v = [] then None else Some (trim v)))"

section \<open>RetroArch\<close>

definition MAX_HASHED_FILE_BYTES :: nat where "MAX_HASHED_FILE_BYTES = 512 * 1024 * 1024"

definition TEST_GAME_ID :: string where "TEST_GAME_ID = ''opencade_test''"

definition EXECUTABLE :: "platform \<Rightarrow> string" where
  "EXECUTABLE os = (case os of Windows \<Rightarrow> ''retroarch.exe'' | _ \<Rightarrow> ''retroarch'')"

definition FBNEO_CORE :: "platform \<Rightarrow> string" where
  "FBNEO_CORE os = (case os of Windows \<Rightarrow> ''fbneo_libretro.dll'' | Macos \<Rightarrow> ''fbneo_libretro.dylib''
     | OtherOs \<Rightarrow> ''fbneo_libretro.so'')"

definition TEST_CORE :: "platform \<Rightarrow> string" where
  "TEST_CORE os = (case os of Windows \<Rightarrow> ''opencade_test_libretro.dll'' | Macos \<Rightarrow> ''opencade_test_libretro.dylib''
     | OtherOs \<Rightarrow> ''opencade_test_libretro.so'')"

datatype core_profile = Fbneo | OpenCadeTest

definition for_game :: "string \<Rightarrow> core_profile" where
  "for_game game_id = (if game_id = TEST_GAME_ID then OpenCadeTest else Fbneo)"

definition core_name :: "platform \<Rightarrow> core_profile \<Rightarrow> string" where
  "core_name os p = (case p of Fbneo \<Rightarrow> FBNEO_CORE os | OpenCadeTest \<Rightarrow> TEST_CORE os)"

fun profile_adapter_id :: "core_profile \<Rightarrow> string" where
  "profile_adapter_id Fbneo = ''retroarch_fbneo''"
| "profile_adapter_id OpenCadeTest = ''retroarch_test''"

fun content_extension :: "core_profile \<Rightarrow> string" where
  "content_extension Fbneo = ''zip''"
| "content_extension OpenCadeTest = ''ocade''"

record compatibility_fingerprint =
  fp_retroarch_version :: "string option"
  fp_executable_sha256 :: string
  fp_core_sha256 :: string
  fp_content_sha256 :: string

definition rom_root :: "path \<Rightarrow> path" where "rom_root root = root @ [''ROMs'']"

definition executable_path :: "platform \<Rightarrow> path \<Rightarrow> path" where
  "executable_path os root = root @ [EXECUTABLE os]"

definition core_path :: "platform \<Rightarrow> path \<Rightarrow> core_profile \<Rightarrow> path" where
  "core_path os root p = root @ [''cores'', core_name os p]"

definition hex_bytes :: "bytes \<Rightarrow> string" where
  "hex_bytes bs = concat (map (\<lambda>b. [digit_char (unat b div 16), digit_char (unat b mod 16)]) bs)"

definition sha256_file :: "file_system \<Rightarrow> path \<Rightarrow> adapter_error + string" where
  "sha256_file fs p =
     (case fs_open fs p of
        Inl e \<Rightarrow> Err (AdapterIo e)
      | Inr content \<Rightarrow>
          (if length content > MAX_HASHED_FILE_BYTES
           then Err (Validation ''compatibility input exceeds 512 MiB hashing limit'')
           else Ok (hex_bytes (fs_sha256 fs content))))"

definition fingerprint_for_game ::
    "file_system \<Rightarrow> platform \<Rightarrow> path \<Rightarrow> string \<Rightarrow> path \<Rightarrow> adapter_error + compatibility_fingerprint" where
  "fingerprint_for_game fs os root game_id content_path =
     (let profile = for_game game_id in
      case canonicalize_below (fs_canon fs) (executable_path os root) root of Inl e \<Rightarrow> Err e | Inr executable \<Rightarrow>
     (case canonicalize_below (fs_canon fs) (core_path os root profile) root of Inl e \<Rightarrow> Err e | Inr core \<Rightarrow>
     (case canonicalize_below (fs_canon fs) content_path (rom_root root) of Inl e \<Rightarrow> Err e | Inr content \<Rightarrow>
     (case sha256_file fs executable of Inl e \<Rightarrow> Err e | Inr executable_sha \<Rightarrow>
     (case sha256_file fs core of Inl e \<Rightarrow> Err e | Inr core_sha \<Rightarrow>
     (case sha256_file fs content of Inl e \<Rightarrow> Err e | Inr content_sha \<Rightarrow>
        Ok \<lparr>fp_retroarch_version = read_version fs root, fp_executable_sha256 = executable_sha,
          fp_core_sha256 = core_sha, fp_content_sha256 = content_sha\<rparr>))))))"

definition fingerprint :: "file_system \<Rightarrow> platform \<Rightarrow> path \<Rightarrow> path \<Rightarrow> adapter_error + compatibility_fingerprint" where
  "fingerprint fs os root rom_path = fingerprint_for_game fs os root ''fbneo'' rom_path"

definition is_available_for_game :: "file_system \<Rightarrow> platform \<Rightarrow> path \<Rightarrow> string \<Rightarrow> bool" where
  "is_available_for_game fs os root game_id =
     (let profile = for_game game_id;
          file_name = game_id @ ''.'' @ content_extension profile;
          content_exists = (fs_is_file fs (rom_root root @ [file_name]) \<or> fs_is_file fs (root @ [file_name])
            \<or> fs_is_file fs (root @ [''build'', file_name]));
          core_exists = (fs_is_file fs (core_path os root profile) \<or> fs_is_file fs (root @ [core_name os profile])
            \<or> fs_is_file fs (root @ [''build'', core_name os profile]));
          is_flat_fixture = fs_is_file fs (root @ [''opencade_test_core.c''])
      in if game_id = TEST_GAME_ID \<and> is_flat_fixture then content_exists else content_exists \<and> core_exists)"

definition adapter_id_for_game :: "string \<Rightarrow> string" where
  "adapter_id_for_game game_id = profile_adapter_id (for_game game_id)"

definition validate_profile ::
    "file_system \<Rightarrow> platform \<Rightarrow> path \<Rightarrow> core_profile \<Rightarrow> path \<Rightarrow> adapter_error + validation_report" where
  "validate_profile fs os root profile content_path =
     (if \<not> fs_is_file fs (executable_path os root) \<or> \<not> fs_is_file fs (core_path os root profile)
      then Err (NotDetected (''expected '' @ EXECUTABLE os @ '' and cores/'' @ core_name os profile @
             '' below the RetroArch root''))
      else case canonicalize_below (fs_canon fs) content_path (rom_root root) of
        Inl e \<Rightarrow> Err e
      | Inr _ \<Rightarrow>
          (if path_extension content_path \<noteq> Some (content_extension profile)
           then Err (Validation (profile_adapter_id profile @ '' content must use .'' @ content_extension profile))
           else Ok (validation_report_valid\<lparr>vr_warnings :=
             (if read_version fs root = None
              then [''VERSION.txt is missing; exact RetroArch version will not appear in evidence''] else [])\<rparr>)))"

definition retroarch_capabilities :: adapter_capabilities where
  "retroarch_capabilities = \<lparr>cap_local_play = True, cap_netplay = NativeProcess\<rparr>"

definition text_arg :: "string \<Rightarrow> path" where "text_arg s = [s]"

definition match_launch_spec_for_game ::
    "file_system \<Rightarrow> platform \<Rightarrow> path \<Rightarrow> string \<Rightarrow> path \<Rightarrow> match_descriptor \<Rightarrow> adapter_error + launch_spec" where
  "match_launch_spec_for_game fs os root game_id content_path d =
     (let profile = for_game game_id in
      case prepare_match ''retroarch_fbneo'' retroarch_capabilities d of Inl e \<Rightarrow> Err e | Inr _ \<Rightarrow>
     (case descriptor_transport_lease d of Inl e \<Rightarrow> Err e | Inr transport \<Rightarrow>
     (case validate_profile fs os root profile content_path of Inl e \<Rightarrow> Err e | Inr _ \<Rightarrow>
     (case canonicalize_below (fs_canon fs) (executable_path os root) root of Inl e \<Rightarrow> Err e | Inr executable \<Rightarrow>
     (case canonicalize_below (fs_canon fs) (core_path os root profile) root of Inl e \<Rightarrow> Err e | Inr core \<Rightarrow>
     (case canonicalize_below (fs_canon fs) content_path (rom_root root) of Inl e \<Rightarrow> Err e | Inr content \<Rightarrow>
        (if executable = [] then Err (Validation ''RetroArch has no parent directory'')
         else (let netplay = (case md_role d of
                   Host \<Rightarrow> [text_arg ''--host'']
                 | Guest \<Rightarrow> [text_arg ''--connect'', text_arg (show_ip (sa_ip (tl_peer_endpoint transport)))]);
               netplay_port = (case md_role d of
                   Host \<Rightarrow> sa_port (tl_local_endpoint transport)
                 | Guest \<Rightarrow> sa_port (tl_peer_endpoint transport))
           in Ok \<lparr>ls_executable = executable, ls_current_dir = butlast executable,
                ls_args = [text_arg ''-L'', core] @ netplay @
                  [text_arg ''--port'', text_arg (nat_str (unat netplay_port)),
                   text_arg ''--frames'', text_arg (nat_str (unat (md_input_delay_frames d))),
                   text_arg ''--verbose'', content]\<rparr>))))))))"

definition match_launch_spec ::
    "file_system \<Rightarrow> platform \<Rightarrow> path \<Rightarrow> path \<Rightarrow> match_descriptor \<Rightarrow> adapter_error + launch_spec" where
  "match_launch_spec fs os root rom_path d = match_launch_spec_for_game fs os root ''fbneo'' rom_path d"

definition launch_match_for_game_with ::
    "file_system \<Rightarrow> platform \<Rightarrow> path \<Rightarrow> (launch_spec \<Rightarrow> adapter_error + 'h) \<Rightarrow> string \<Rightarrow> path \<Rightarrow> match_descriptor \<Rightarrow>
     adapter_error + 'h" where
  "launch_match_for_game_with fs os root spawn game_id content_path d =
     (case match_launch_spec_for_game fs os root game_id content_path d of Inl e \<Rightarrow> Err e | Inr spec \<Rightarrow> spawn spec)"

text \<open>The entry points for the FBNeo profile and those with the standard launcher; \<open>spawn\<close> is then
  \<open>Command::spawn\<close>.\<close>

definition launch_match_with ::
    "file_system \<Rightarrow> platform \<Rightarrow> path \<Rightarrow> (launch_spec \<Rightarrow> adapter_error + 'h) \<Rightarrow> path \<Rightarrow> match_descriptor \<Rightarrow>
     adapter_error + 'h" where
  "launch_match_with fs os root spawn rom_path d =
     (case match_launch_spec fs os root rom_path d of Inl e \<Rightarrow> Err e | Inr spec \<Rightarrow> spawn spec)"

definition launch_match_for_game ::
    "file_system \<Rightarrow> platform \<Rightarrow> path \<Rightarrow> (process_command \<Rightarrow> string + 'h) \<Rightarrow> string \<Rightarrow> path \<Rightarrow> match_descriptor \<Rightarrow>
     adapter_error + 'h" where
  "launch_match_for_game fs os root spawn game_id content_path d =
     launch_match_for_game_with fs os root (std_spawn spawn) game_id content_path d"

definition retroarch_launch_match ::
    "file_system \<Rightarrow> platform \<Rightarrow> path \<Rightarrow> (process_command \<Rightarrow> string + 'h) \<Rightarrow> path \<Rightarrow> match_descriptor \<Rightarrow>
     adapter_error + 'h" where
  "retroarch_launch_match fs os root spawn rom_path d = launch_match_with fs os root (std_spawn spawn) rom_path d"

definition retroarch_validate ::
    "file_system \<Rightarrow> platform \<Rightarrow> path \<Rightarrow> path \<Rightarrow> adapter_error + validation_report" where
  "retroarch_validate fs os root rom_path = validate_profile fs os root Fbneo rom_path"

definition retroarch_detect ::
    "file_system \<Rightarrow> platform \<Rightarrow> path \<Rightarrow> path \<Rightarrow> adapter_error + detected_emulator" where
  "retroarch_detect fs os root install_dir =
     (let executable = install_dir @ [EXECUTABLE os] in
      if \<not> fs_is_file fs executable \<or> \<not> fs_is_file fs (install_dir @ [''cores'', FBNEO_CORE os])
      then Err (NotDetected (''expected '' @ EXECUTABLE os @ '' and cores/'' @ FBNEO_CORE os @ '' below the RetroArch root''))
      else case fs_canon fs executable of Inl e \<Rightarrow> Err (AdapterIo e) | Inr exe \<Rightarrow>
     (case fs_canon fs install_dir of Inl e \<Rightarrow> Err (AdapterIo e) | Inr dir \<Rightarrow>
        Ok \<lparr>de_id = ''retroarch_fbneo'', de_executable = exe, de_install_root = dir,
          de_version = read_version fs root\<rparr>))"

definition retroarch_launch ::
    "file_system \<Rightarrow> platform \<Rightarrow> path \<Rightarrow> (launch_spec \<Rightarrow> adapter_error + 'h) \<Rightarrow> path \<Rightarrow> adapter_error + 'h" where
  "retroarch_launch fs os root spawn rom_path =
     (case validate_profile fs os root Fbneo rom_path of Inl e \<Rightarrow> Err e | Inr _ \<Rightarrow>
     (case canonicalize_below (fs_canon fs) (executable_path os root) root of Inl e \<Rightarrow> Err e | Inr executable \<Rightarrow>
     (case canonicalize_below (fs_canon fs) (core_path os root Fbneo) root of Inl e \<Rightarrow> Err e | Inr core \<Rightarrow>
     (case canonicalize_below (fs_canon fs) rom_path (rom_root root) of Inl e \<Rightarrow> Err e | Inr rom \<Rightarrow>
        (if executable = [] then Err (Validation ''RetroArch has no parent directory'')
         else spawn \<lparr>ls_executable = executable, ls_current_dir = butlast executable,
                ls_args = [text_arg ''-L'', core, text_arg ''--verbose'', rom]\<rparr>)))))"

section \<open>FBNeo\<close>

definition FBNEO_EXECUTABLE :: string where "FBNEO_EXECUTABLE = ''fcadefbneo.exe''"
definition CONFIG_FILE :: string where "CONFIG_FILE = ''fcadefbneo.default.ini''"
definition EXPECTED_VERSION :: string where "EXPECTED_VERSION = ''2.1.45''"

definition fbneo_capabilities :: adapter_capabilities where
  "fbneo_capabilities = \<lparr>cap_local_play = True, cap_netplay = BlockedNoPublicInterface\<rparr>"

definition fbneo_detect :: "file_system \<Rightarrow> path \<Rightarrow> adapter_error + detected_emulator" where
  "fbneo_detect fs install_dir =
     (if \<not> fs_is_file fs (install_dir @ [FBNEO_EXECUTABLE]) \<or> \<not> fs_is_file fs (install_dir @ [CONFIG_FILE])
      then Err (NotDetected (''expected '' @ FBNEO_EXECUTABLE @ '' and '' @ CONFIG_FILE @ '' below the FBNeo root''))
      else case fs_canon fs (install_dir @ [FBNEO_EXECUTABLE]) of Inl e \<Rightarrow> Err (AdapterIo e) | Inr exe \<Rightarrow>
     (case fs_canon fs install_dir of Inl e \<Rightarrow> Err (AdapterIo e) | Inr dir \<Rightarrow>
        Ok \<lparr>de_id = ''fbneo'', de_executable = exe, de_install_root = dir, de_version = read_version fs install_dir\<rparr>))"

definition fbneo_validate :: "file_system \<Rightarrow> path \<Rightarrow> path \<Rightarrow> adapter_error + validation_report" where
  "fbneo_validate fs root rom_path =
     (case canonicalize_below (fs_canon fs) rom_path (rom_root root) of Inl e \<Rightarrow> Err e | Inr _ \<Rightarrow>
        (if path_extension rom_path \<noteq> Some ''zip'' then Err (Validation ''FBNeo ROM must be a .zip file'')
         else if \<not> fs_is_file fs (rom_root root @ [''neogeo.zip''])
         then Err (Validation ''required BIOS file neogeo.zip is missing'')
         else Ok (validation_report_valid\<lparr>vr_warnings :=
           (case read_version fs root of
              Some version \<Rightarrow>
                (if version \<noteq> EXPECTED_VERSION
                 then [''FBNeo version '' @ version @ '' differs from tested version '' @ EXPECTED_VERSION] else [])
            | None \<Rightarrow> [''VERSION.txt is missing; compatibility is unknown''])\<rparr>)))"

definition fbneo_launch ::
    "file_system \<Rightarrow> path \<Rightarrow> (launch_spec \<Rightarrow> adapter_error + 'h) \<Rightarrow> path \<Rightarrow> adapter_error + 'h" where
  "fbneo_launch fs root spawn rom_path =
     (case fbneo_detect fs root of Inl e \<Rightarrow> Err e | Inr _ \<Rightarrow>
     (case fbneo_validate fs root rom_path of Inl e \<Rightarrow> Err e | Inr _ \<Rightarrow>
        spawn_validated (fs_canon fs) spawn (root @ [FBNEO_EXECUTABLE]) root rom_path (rom_root root) []))"

definition fbneo_launch_match ::
    "file_system \<Rightarrow> path \<Rightarrow> (launch_spec \<Rightarrow> adapter_error + 'h) \<Rightarrow> path \<Rightarrow> match_descriptor \<Rightarrow> adapter_error + 'h" where
  "fbneo_launch_match fs root spawn rom d =
     launch_match (fbneo_launch fs root spawn) ''fbneo'' fbneo_capabilities rom d"

text \<open>\<open>get_version\<close> of either adapter, and \<open>stop\<close> with the outcomes of \<open>kill\<close> and \<open>wait\<close>.\<close>

definition get_version :: "file_system \<Rightarrow> path \<Rightarrow> adapter_error + string" where
  "get_version fs root = ok_or (read_version fs root) (NotDetected ''VERSION.txt not found'')"

definition stop_child :: "string + unit \<Rightarrow> string + unit \<Rightarrow> adapter_error + unit" where
  "stop_child kill wait =
     (case kill of Inl e \<Rightarrow> Err (AdapterIo e) | Inr _ \<Rightarrow> (case wait of Inl e \<Rightarrow> Err (AdapterIo e) | Inr _ \<Rightarrow> Ok ()))"

section \<open>The contract of an adapter\<close>

text \<open>What callers of \<open>EmulatorAdapter\<close> rely on: preparation accepts only valid descriptors of an adapter
  with netplay, a match starts only after preparation, and whatever is then started is an executable below
  the installation with content below the ROM folder.\<close>

locale emulator_adapter =
  fixes canon :: "path \<Rightarrow> string + path"
    and install_root :: path
    and roms :: path
    and caps :: adapter_capabilities
    and prepare :: "match_descriptor \<Rightarrow> adapter_error + unit"
    and start_match :: "(launch_spec \<Rightarrow> adapter_error + nat) \<Rightarrow> path \<Rightarrow> match_descriptor \<Rightarrow> adapter_error + nat"
  assumes prepare_valid: "prepare d = Ok () \<Longrightarrow> descriptor_validate d = Ok () \<and> supports_netplay caps"
    and start_prepared: "start_match spawn rom d = Ok h \<Longrightarrow> prepare d = Ok ()"
    and start_confined: "start_match spawn rom d = Ok h \<Longrightarrow>
      \<exists>spec exe content. spawn spec = Ok h \<and> canonicalize_below canon exe install_root = Ok (ls_executable spec)
        \<and> canonicalize_below canon content roms = Ok (last (ls_args spec))"
begin

lemma blocked_never_starts: "\<not> supports_netplay caps \<Longrightarrow> start_match spawn rom d \<noteq> Ok h"
  using start_prepared prepare_valid by blast

lemma started_is_confined:
  assumes "start_match spawn rom d = Ok h"
  shows "descriptor_validate d = Ok () \<and> (\<exists>spec canon_root e canon_roms r. spawn spec = Ok h
    \<and> canon install_root = Ok canon_root \<and> ls_executable spec = canon_root @ e \<and> e \<noteq> []
    \<and> canon roms = Ok canon_roms \<and> last (ls_args spec) = canon_roms @ r \<and> r \<noteq> [])"
proof -
  from start_confined [OF assms] obtain spec exe content where s: "spawn spec = Ok h"
    and e: "canonicalize_below canon exe install_root = Ok (ls_executable spec)"
    and c: "canonicalize_below canon content roms = Ok (last (ls_args spec))" by blast
  from canonicalize_below_ok [OF e] canonicalize_below_ok [OF c] s start_prepared [OF assms] prepare_valid
  show ?thesis by blast
qed

end

lemma prepare_match_ok: "prepare_match i caps d = Ok () \<longleftrightarrow> descriptor_validate d = Ok () \<and> supports_netplay caps"
  by (auto simp: prepare_match_def split: sum.splits)

section \<open>What reaches the launcher\<close>

lemma launch_spec_ok:
  assumes "match_launch_spec_for_game fs os root game content d = Ok spec"
  obtains exe core rom where
    "descriptor_validate d = Ok ()" "md_transport d = DirectUdp"
    "sa_port (md_local_endpoint d) \<noteq> 0" "sa_port (md_peer_endpoint d) \<noteq> 0"
    "path_extension content = Some (content_extension (for_game game))"
    "canonicalize_below (fs_canon fs) (executable_path os root) root = Ok exe"
    "canonicalize_below (fs_canon fs) (core_path os root (for_game game)) root = Ok core"
    "canonicalize_below (fs_canon fs) content (rom_root root) = Ok rom"
    "ls_executable spec = exe" "ls_current_dir spec = butlast exe"
    "ls_args spec = [text_arg ''-L'', core] @
       (case md_role d of
          Host \<Rightarrow> [text_arg ''--host'']
        | Guest \<Rightarrow> [text_arg ''--connect'', text_arg (show_ip (sa_ip (md_peer_endpoint d)))]) @
       [text_arg ''--port'', text_arg (nat_str (unat (case md_role d of
            Host \<Rightarrow> sa_port (md_local_endpoint d) | Guest \<Rightarrow> sa_port (md_peer_endpoint d)))),
        text_arg ''--frames'', text_arg (nat_str (unat (md_input_delay_frames d))), text_arg ''--verbose'', rom]"
  using assms
  by (cases "md_role d") (auto simp: match_launch_spec_for_game_def Let_def prepare_match_def retroarch_capabilities_def supports_netplay_def
      descriptor_transport_lease_def native_process_def validate_profile_def split: sum.splits if_splits)

interpretation retroarch: emulator_adapter "fs_canon fs" root "rom_root root" retroarch_capabilities
  "prepare_match ''retroarch_fbneo'' retroarch_capabilities" "launch_match_with fs os root" for fs os root
proof
  fix spawn :: "launch_spec \<Rightarrow> adapter_error + nat" and rom d h
  assume "launch_match_with fs os root spawn rom d = Ok h"
  then obtain spec where s: "match_launch_spec_for_game fs os root ''fbneo'' rom d = Ok spec" "spawn spec = Ok h"
    by (auto simp: launch_match_with_def match_launch_spec_def split: sum.splits)
  from s(1) show "prepare_match ''retroarch_fbneo'' retroarch_capabilities d = Ok ()"
    by (rule launch_spec_ok) (simp add: prepare_match_ok retroarch_capabilities_def supports_netplay_def)
  from s(1) have "\<exists>exe content. canonicalize_below (fs_canon fs) exe root = Ok (ls_executable spec)
      \<and> canonicalize_below (fs_canon fs) content (rom_root root) = Ok (last (ls_args spec))"
    by (rule launch_spec_ok) (auto split: peer_role.split)
  with s(2) show "\<exists>spec exe content. spawn spec = Ok h \<and> canonicalize_below (fs_canon fs) exe root = Ok (ls_executable spec)
      \<and> canonicalize_below (fs_canon fs) content (rom_root root) = Ok (last (ls_args spec))" by blast
qed (simp add: prepare_match_ok)

interpretation fbneo: emulator_adapter "fs_canon fs" root "rom_root root" fbneo_capabilities
  "prepare_match ''fbneo'' fbneo_capabilities" "fbneo_launch_match fs root" for fs root
proof
  fix spawn :: "launch_spec \<Rightarrow> adapter_error + nat" and rom d h
  assume run: "fbneo_launch_match fs root spawn rom d = Ok h"
  then show "prepare_match ''fbneo'' fbneo_capabilities d = Ok ()"
    by (auto simp: fbneo_launch_match_def launch_match_def split: sum.splits)
  from run have "supports_netplay fbneo_capabilities"
    by (auto simp: fbneo_launch_match_def launch_match_ok)
  then show "\<exists>spec exe content. spawn spec = Ok h \<and> canonicalize_below (fs_canon fs) exe root = Ok (ls_executable spec)
      \<and> canonicalize_below (fs_canon fs) content (rom_root root) = Ok (last (ls_args spec))"
    by (simp add: fbneo_capabilities_def supports_netplay_def)
qed (simp add: prepare_match_ok)

text \<open>FBNeo, which has no public netplay interface, never starts a match.\<close>

lemma fbneo_never_starts: "fbneo_launch_match fs root spawn rom d \<noteq> Ok (h :: nat)"
  by (rule fbneo.blocked_never_starts) (simp add: fbneo_capabilities_def supports_netplay_def)

text \<open>C21  The RetroArch command line: it is built only for a valid descriptor over an authorised direct route with
  usable ports, and then the executable and the core lie strictly below the canonical installation root, the
  content strictly below the canonical ROM folder with the extension of its game, and every other argument is fixed
  text, the peer's address, a port or the frame delay; a guest connects to the peer's address and port and a host listens
  on its own.\<close>

theorem retroarch_launch_confined:
  assumes "launch_match_for_game_with fs os root spawn game content d = Ok h"
  shows "\<exists>canon_root canon_roms e c r.
    fs_canon fs root = Ok canon_root \<and> fs_canon fs (rom_root root) = Ok canon_roms
    \<and> e \<noteq> [] \<and> c \<noteq> [] \<and> r \<noteq> []
    \<and> descriptor_validate d = Ok () \<and> md_transport d = DirectUdp
    \<and> path_extension content = Some (if game = ''opencade_test'' then ''ocade'' else ''zip'')
    \<and> (let port = (case md_role d of Host \<Rightarrow> sa_port (md_local_endpoint d) | Guest \<Rightarrow> sa_port (md_peer_endpoint d))
       in port \<noteq> 0
         \<and> spawn \<lparr>ls_executable = canon_root @ e, ls_current_dir = canon_root @ butlast e,
             ls_args = [[''-L''], canon_root @ c] @
               (case md_role d of Host \<Rightarrow> [[''--host'']]
                | Guest \<Rightarrow> [[''--connect''], [show_ip (sa_ip (md_peer_endpoint d))]]) @
               [[''--port''], [nat_str (unat port)], [''--frames''], [nat_str (unat (md_input_delay_frames d))],
                [''--verbose''], canon_roms @ r]\<rparr> = Ok h)"
proof -
  from assms obtain spec where spec: "match_launch_spec_for_game fs os root game content d = Ok spec"
    and h: "spawn spec = Ok h"
    by (auto simp: launch_match_for_game_with_def split: sum.splits)
  from spec show ?thesis
  proof (rule launch_spec_ok)
    fix exe core rom
    assume ok: "descriptor_validate d = Ok ()" "md_transport d = DirectUdp"
      "sa_port (md_local_endpoint d) \<noteq> 0" "sa_port (md_peer_endpoint d) \<noteq> 0"
      "path_extension content = Some (content_extension (for_game game))"
      and exe: "canonicalize_below (fs_canon fs) (executable_path os root) root = Ok exe"
      and core: "canonicalize_below (fs_canon fs) (core_path os root (for_game game)) root = Ok core"
      and rom: "canonicalize_below (fs_canon fs) content (rom_root root) = Ok rom"
      and parts: "ls_executable spec = exe" "ls_current_dir spec = butlast exe"
        "ls_args spec = [text_arg ''-L'', core] @
          (case md_role d of Host \<Rightarrow> [text_arg ''--host'']
           | Guest \<Rightarrow> [text_arg ''--connect'', text_arg (show_ip (sa_ip (md_peer_endpoint d)))]) @
          [text_arg ''--port'', text_arg (nat_str (unat (case md_role d of
            Host \<Rightarrow> sa_port (md_local_endpoint d) | Guest \<Rightarrow> sa_port (md_peer_endpoint d)))),
           text_arg ''--frames'', text_arg (nat_str (unat (md_input_delay_frames d))), text_arg ''--verbose'', rom]"
    from canonicalize_below_ok [OF exe] canonicalize_below_ok [OF core] canonicalize_below_ok [OF rom]
    obtain canon_root canon_roms e c r where below: "fs_canon fs root = Ok canon_root" "fs_canon fs (rom_root root) = Ok canon_roms"
      "exe = canon_root @ e" "core = canon_root @ c" "rom = canon_roms @ r" "e \<noteq> []" "c \<noteq> []" "r \<noteq> []"
      by auto
    have "\<lparr>ls_executable = ls_executable spec, ls_current_dir = ls_current_dir spec, ls_args = ls_args spec\<rparr> = spec"
      by (rule launch_spec.equality) simp_all
    note called = trans [OF arg_cong [OF this, of spawn] h, unfolded parts below(3-5) text_arg_def]
    have dir: "butlast (canon_root @ e) = canon_root @ butlast e" using below(6) by (simp add: butlast_append)
    have ext: "path_extension content = Some (if game = ''opencade_test'' then ''ocade'' else ''zip'')"
      using ok(5) by (auto simp: for_game_def TEST_GAME_ID_def)
    let ?port = "case md_role d of Host \<Rightarrow> sa_port (md_local_endpoint d) | Guest \<Rightarrow> sa_port (md_peer_endpoint d)"
    have port: "?port \<noteq> 0" using ok(3,4) by (simp split: peer_role.split)
    show ?thesis
      unfolding Let_def
      by (intro exI conjI) (fact below(1) below(2) below(6) below(7) below(8) ok(1) ok(2) ext port called [unfolded dir])+
  qed
qed

text \<open>A guest joins a match from \<open>/srv/ra\<close>.\<close>

definition demo_fs :: file_system where
  "demo_fs = \<lparr>fs_is_file = (\<lambda>_. True), fs_canon = (\<lambda>p. Ok (''srv'' # p)), fs_read = (\<lambda>_. None), fs_open = (\<lambda>_. Ok []),
     fs_sha256 = (\<lambda>b. b)\<rparr>"

definition demo_native_descriptor :: match_descriptor where
  "demo_native_descriptor = \<lparr>md_room_id = ''r'', md_game_id = ''sfiii3'', md_local_user_id = ''a'', md_peer_user_id = ''b'',
     md_role = Guest, md_transport = DirectUdp, md_local_endpoint = SocketAddr (V4 [192, 168, 1, 10]) 42000,
     md_peer_endpoint = SocketAddr (V4 [192, 168, 1, 11]) 42001, md_input_delay_frames = 2\<rparr>"

lemma demo_launch:
  "launch_match_for_game_with demo_fs OtherOs [''ra''] (\<lambda>s. Ok s) ''sfiii3'' [''ra'', ''ROMs'', ''sfiii3.zip''] demo_native_descriptor
     = Ok \<lparr>ls_executable = [''srv'', ''ra'', ''retroarch''], ls_current_dir = [''srv'', ''ra''],
         ls_args = [[''-L''], [''srv'', ''ra'', ''cores'', ''fbneo_libretro.so''], [''--connect''], [''192.168.1.11''],
           [''--port''], [''42001''], [''--frames''], [''2''], [''--verbose''], [''srv'', ''ra'', ''ROMs'', ''sfiii3.zip'']]\<rparr>"
  by (simp add: launch_match_for_game_with_def match_launch_spec_for_game_def demo_fs_def demo_native_descriptor_def
      for_game_def TEST_GAME_ID_def prepare_match_def retroarch_capabilities_def supports_netplay_def
      descriptor_validate_def descriptor_transport_lease_def native_process_def is_blank_graphic graphic_def
      validate_profile_def canonicalize_below_def starts_with_def rom_root_def executable_path_def core_path_def
      core_name_def EXECUTABLE_def FBNEO_CORE_def path_extension_def name_extension_def text_arg_def show_ip_def
      show_ipv4_def nat_str.simps digit_char_def)

lemma retroarch_launch_confined_witness:
  "\<exists>canon_root e. fs_canon demo_fs [''ra''] = Ok canon_root \<and> e \<noteq> [] \<and> canon_root @ e = [''srv'', ''ra'', ''retroarch'']"
  using retroarch_launch_confined [OF demo_launch] by (auto simp: demo_native_descriptor_def Let_def)

end
