(* ===== verification/Run_Registry.thy ===== *)
theory Run_Registry
  imports Main
begin

text \<open>
  The interface of the program's registries of running work: the hub of WebSocket connections, the
  client's match probes, native tunnels and emulator processes.  A key holds at most one run; a
  run that ends removes the entry of its key only while that entry is its own, because a
  newer run may have taken the place.
\<close>

locale run_registry =
  fixes current :: "'s \<Rightarrow> 'k \<Rightarrow> 'r option"
    and finish :: "'k \<Rightarrow> 'r \<Rightarrow> 's \<Rightarrow> 's"
  assumes finish_own: "current s k = Some r \<Longrightarrow> current (finish k r s) k = None"
    and finish_stale: "current s k \<noteq> Some r \<Longrightarrow> current (finish k r s) k = current s k"
    and finish_frame: "k' \<noteq> k \<Longrightarrow> current (finish k r s) k' = current s k'"
begin

lemma current_finish:
  "current (finish k r s) k' = (if k' = k \<and> current s k = Some r then None else current s k')"
  using finish_own finish_stale finish_frame by metis

lemma newer_run_kept: "current s k = Some r' \<Longrightarrow> r' \<noteq> r \<Longrightarrow> current (finish k r s) k = Some r'"
  by (simp add: current_finish)

lemma finish_idem: "current (finish k r (finish k r s)) = current (finish k r s)"
  by (rule ext) (simp add: current_finish)

lemma finish_commute: "current (finish k r (finish k' r' s)) = current (finish k' r' (finish k r s))"
  by (rule ext) (auto simp: current_finish)

text \<open>However many other runs end, in any order, a run keeps its place until it ends itself.\<close>

lemma finishes_keep:
  "current s k = Some r \<Longrightarrow> (k, r) \<notin> set ends \<Longrightarrow> current (fold (\<lambda>(k, r). finish k r) ends s) k = Some r"
proof (induction ends arbitrary: s)
  case (Cons e ends)
  obtain k' r' where "e = (k', r')" by fastforce
  with Cons.prems have "current ((\<lambda>(k, r). finish k r) e s) k = Some r" by (auto simp: current_finish)
  from Cons.IH [OF this] Cons.prems(2) show ?case by simp
qed simp

end

end
