(* ===== verification/Client_Probe.thy ===== *)
theory Client_Probe
  imports Proof_Of_Match Hole_Punch Relay_Ticket Run_Registry Reachability "HOL-Library.AList"
begin

text \<open>
  The desktop client's match probe commands (\<open>apps/client/src-tauri/src/commands/match_probe.rs\<close>).
  A command awaits network operations between its critical sections on the registry, so it is split
  where the lock is given up; other commands may run in between.  The sockets, \<open>Uuid\<close>'s parser and
  printer, and the punch and probe runs are parameters.
\<close>

section \<open>Data\<close>

definition MAX_ACTIVE_PROBES :: nat where "MAX_ACTIVE_PROBES = 8"
definition MIN_PROBE_TIMEOUT_MS :: u64 where "MIN_PROBE_TIMEOUT_MS = 500"
definition MAX_PROBE_TIMEOUT_MS :: u64 where "MAX_PROBE_TIMEOUT_MS = 15000"
definition MAX_COMMAND_FRAMES :: u64 where "MAX_COMMAND_FRAMES = 600"

record match_endpoint_candidate =
  ec_endpoint :: socket_addr
  ec_reflexive_endpoint :: "socket_addr option"
  ec_nat :: nat_mapping_state
  ec_nonce :: string

datatype probe_slot = Prepared match_endpoint_candidate | Running uuid

text \<open>The slots by room, and the runs whose cancel signal was sent.\<close>

record probe_registry =
  pg_slots :: "(string \<times> probe_slot) list"
  pg_cancelled :: "uuid list"

record reserve_request =
  rv_room_id :: string
  rv_advertised_host :: "bytes option"
  rv_stun_server :: "socket_addr option"

record run_request =
  rq_room_id :: string
  rq_game_id :: string
  rq_local_user_id :: string
  rq_peer_user_id :: string
  rq_role :: peer_role
  rq_peer_endpoint :: socket_addr
  rq_peer_reflexive_endpoint :: "socket_addr option"
  rq_peer_nonce :: string
  rq_frame_count :: u64
  rq_timeout_ms :: u64

record relay_request =
  rl_ticket :: relay_ticket
  rl_room_id :: string
  rl_game_id :: string
  rl_local_user_id :: string
  rl_peer_user_id :: string
  rl_role :: peer_role
  rl_local_nonce :: string
  rl_peer_nonce :: string
  rl_frame_count :: u64
  rl_timeout_ms :: u64

definition default_frame_count :: u64 where "default_frame_count = 60"
definition default_timeout_ms :: u64 where "default_timeout_ms = 5000"

section \<open>Checks\<close>

definition validate_room_id :: "(string \<Rightarrow> uuid option) \<Rightarrow> string \<Rightarrow> string + unit" where
  "validate_room_id parse room_id = (if parse room_id = None then Err ''room_id must be a UUID'' else Ok ())"

definition validate_probe_limits :: "u64 \<Rightarrow> u64 \<Rightarrow> string + unit" where
  "validate_probe_limits frame_count timeout_ms =
     (if \<not> (1 \<le> frame_count \<and> frame_count \<le> MAX_COMMAND_FRAMES)
      then Err ''frame_count must be between 1 and 600''
      else if \<not> (MIN_PROBE_TIMEOUT_MS \<le> timeout_ms \<and> timeout_ms \<le> MAX_PROBE_TIMEOUT_MS)
      then Err ''timeout_ms must be between 500 and 15000''
      else Ok ())"

definition combined_session_key ::
    "(string \<Rightarrow> uuid option) \<Rightarrow> (uuid \<Rightarrow> string) \<Rightarrow> string \<Rightarrow> string \<Rightarrow> string + string" where
  "combined_session_key parse show_uuid local_nonce peer_nonce =
     (case parse local_nonce of
        None \<Rightarrow> Err ''local nonce is invalid''
      | Some a \<Rightarrow>
          (case parse peer_nonce of
             None \<Rightarrow> Err ''peer nonce is invalid''
           | Some b \<Rightarrow>
               (if a = b then Err ''peer nonce must differ from local nonce''
                else if a < b then Ok (show_uuid a @ CHR '':'' # show_uuid b)
                else Ok (show_uuid b @ CHR '':'' # show_uuid a))))"

section \<open>Reserving\<close>

text \<open>What the sockets answer: the bound port, the local address found, and STUN.\<close>

record reserve_env =
  ev_bind :: "transport_error + u16"
  ev_local_ipv4 :: "string + bytes"
  ev_stun :: "socket_addr \<Rightarrow> transport_error + stun_observation"
  ev_nonce :: uuid

text \<open>\<open>discover_local_ipv4\<close> on the outcomes of its socket calls.\<close>

definition discover_local_ipv4 :: "string + unit \<Rightarrow> string + unit \<Rightarrow> string + ip_addr \<Rightarrow> string + bytes" where
  "discover_local_ipv4 bound connect local_addr =
     (case bound of Inl e \<Rightarrow> Err (''failed to inspect local network: '' @ e) | Inr _ \<Rightarrow>
     (case connect of Inl e \<Rightarrow> Err (''failed to select a LAN interface: '' @ e) | Inr _ \<Rightarrow>
     (case local_addr of Inl e \<Rightarrow> Err (''failed to read LAN address: '' @ e) | Inr a \<Rightarrow>
     (case a of
        V4 octets \<Rightarrow> (if \<not> is_unspecified a then Ok octets else Err ''no usable IPv4 LAN address was detected'')
      | V6 _ \<Rightarrow> Err ''no usable IPv4 LAN address was detected''))))"

definition reserve_lookup :: "string \<Rightarrow> probe_registry \<Rightarrow> (string + match_endpoint_candidate) option" where
  "reserve_lookup room st =
     (case map_of (pg_slots st) room of
        None \<Rightarrow> None
      | Some (Prepared c) \<Rightarrow> Some (Ok c)
      | Some (Running _) \<Rightarrow> Some (Err ''match probe is already running for this room''))"

definition reserve_candidate ::
    "(uuid \<Rightarrow> string) \<Rightarrow> reserve_env \<Rightarrow> reserve_request \<Rightarrow> string + match_endpoint_candidate" where
  "reserve_candidate show_uuid env req =
     (case ev_bind env of Inl e \<Rightarrow> Err (transport_error_str e) | Inr port \<Rightarrow>
     (case (case rv_advertised_host req of
              Some host \<Rightarrow> (if \<not> is_unspecified (V4 host) then Ok host else Err ''advertised_host must not be unspecified'')
            | None \<Rightarrow> ev_local_ipv4 env) of
        Inl e \<Rightarrow> Err e
      | Inr host \<Rightarrow>
          (let endpoint = SocketAddr (V4 host) port;
               stun = (case rv_stun_server req of
                   None \<Rightarrow> None
                 | Some server \<Rightarrow> (case ev_stun env server of Inl _ \<Rightarrow> None | Inr obs \<Rightarrow> Some (so_reflexive_endpoint obs)))
           in Ok \<lparr>ec_endpoint = endpoint,
                ec_reflexive_endpoint = (if stun = Some endpoint then None else stun),
                ec_nat = (case stun of None \<Rightarrow> MappingUnknown
                    | Some reflexive \<Rightarrow> (if reflexive = endpoint then MappingOpen else MappingMapped)),
                ec_nonce = show_uuid (ev_nonce env)\<rparr>)))"

text \<open>\<open>st\<close> is the registry at the first, \<open>st'\<close> at the second critical section.\<close>

definition reserve_match_probe ::
    "(string \<Rightarrow> uuid option) \<Rightarrow> (uuid \<Rightarrow> string) \<Rightarrow> reserve_env \<Rightarrow> reserve_request \<Rightarrow> probe_registry \<Rightarrow> probe_registry \<Rightarrow>
     (string + match_endpoint_candidate) \<times> probe_registry" where
  "reserve_match_probe parse show_uuid env req st st' =
     (case validate_room_id parse (rv_room_id req) of Inl e \<Rightarrow> (Err e, st') | Inr _ \<Rightarrow>
     (case reserve_lookup (rv_room_id req) st of Some r \<Rightarrow> (r, st') | None \<Rightarrow>
     (case reserve_candidate show_uuid env req of Inl e \<Rightarrow> (Err e, st') | Inr candidate \<Rightarrow>
     (case reserve_lookup (rv_room_id req) st' of Some r \<Rightarrow> (r, st') | None \<Rightarrow>
        (if length (pg_slots st') \<ge> MAX_ACTIVE_PROBES
         then (Err ''too many active match probes; cancel an older room first'', st')
         else (Ok candidate, st'\<lparr>pg_slots := AList.update (rv_room_id req) (Prepared candidate) (pg_slots st')\<rparr>))))))"

section \<open>Running\<close>

definition run_begin ::
    "(string \<Rightarrow> uuid option) \<Rightarrow> run_request \<Rightarrow> uuid \<Rightarrow> probe_registry \<Rightarrow>
     (string + match_endpoint_candidate) \<times> probe_registry" where
  "run_begin parse req run_id st =
     (case validate_room_id parse (rq_room_id req) of Inl e \<Rightarrow> (Err e, st) | Inr _ \<Rightarrow>
     (case validate_probe_limits (rq_frame_count req) (rq_timeout_ms req) of Inl e \<Rightarrow> (Err e, st) | Inr _ \<Rightarrow>
     (case map_of (pg_slots st) (rq_room_id req) of
        None \<Rightarrow> (Err ''match probe is not reserved for this room'', st)
      | Some (Running _) \<Rightarrow> (Err ''match probe is already running for this room'', st)
      | Some (Prepared candidate) \<Rightarrow>
          (Ok candidate, st\<lparr>pg_slots := AList.update (rq_room_id req) (Running run_id) (pg_slots st)\<rparr>))))"

text \<open>The work between the critical sections: the two session nonces, the punch over both candidates of
  the peer, and the probe with the punched peer.\<close>

definition run_body ::
    "(string \<Rightarrow> uuid option) \<Rightarrow> (uuid \<Rightarrow> string) \<Rightarrow> (hole_punch_config \<Rightarrow> transport_error + ('p \<times> hole_punch_report)) \<Rightarrow>
     ('p \<Rightarrow> match_probe_config \<Rightarrow> transport_error + match_probe_report) \<Rightarrow>
     match_endpoint_candidate \<Rightarrow> run_request \<Rightarrow> string + match_probe_report" where
  "run_body parse show_uuid punch run_probe candidate req =
     (case combined_session_key parse show_uuid (ec_nonce candidate) (rq_peer_nonce req) of Inl e \<Rightarrow> Err e | Inr session_key \<Rightarrow>
        (let peer_candidates = rq_peer_endpoint req #
               (case rq_peer_reflexive_endpoint req of None \<Rightarrow> [] | Some r \<Rightarrow> [r])
         in
     (case hole_punch_config_new (rq_room_id req) session_key peer_candidates 3 (500 * 1000000) of
        Inl e \<Rightarrow> Err (transport_error_str e) | Inr punch_config \<Rightarrow>
     (case punch punch_config of Inl e \<Rightarrow> Err (transport_error_str e) | Inr (peer, punched) \<Rightarrow>
        (let kind = (if rq_peer_reflexive_endpoint req = Some (hr_selected_peer punched)
                 \<and> rq_peer_reflexive_endpoint req \<noteq> Some (rq_peer_endpoint req)
               then CandidateReflexive else CandidateHost);
             descriptor = \<lparr>md_room_id = rq_room_id req, md_game_id = rq_game_id req,
               md_local_user_id = rq_local_user_id req, md_peer_user_id = rq_peer_user_id req, md_role = rq_role req,
               md_transport = DirectUdp, md_local_endpoint = ec_endpoint candidate,
               md_peer_endpoint = hr_selected_peer punched, md_input_delay_frames = 2\<rparr>
         in case match_probe_config_new descriptor session_key (rq_frame_count req) (uint (rq_timeout_ms req) * 1000000) of
           Inl e \<Rightarrow> Err (transport_error_str e)
         | Inr config \<Rightarrow>
             (case run_probe peer config of
                Inl e \<Rightarrow> Err (transport_error_str e)
              | Inr report \<Rightarrow>
                  Ok (report\<lparr>mp_nat := ec_nat candidate, mp_candidate := kind,
                        mp_punch_attempts := hr_attempts punched\<rparr>)))))))"

text \<open>\<open>cancel_or_complete\<close>: whether the signal was there before, and whether it came first.\<close>

definition cancel_or_complete :: "bool \<Rightarrow> bool \<Rightarrow> string + 'a \<Rightarrow> string + 'a" where
  "cancel_or_complete already first result =
     (if already then Err ''match probe cancelled'' else if first then Err ''match probe cancelled'' else result)"

definition remove_running_probe :: "string \<Rightarrow> uuid \<Rightarrow> probe_registry \<Rightarrow> probe_registry" where
  "remove_running_probe room run_id st =
     (if map_of (pg_slots st) room = Some (Running run_id)
      then st\<lparr>pg_slots := AList.delete room (pg_slots st)\<rparr> else st)"

section \<open>Probing over the relay\<close>

text \<open>Everything up to the probe itself; the configuration is built after the slot was taken.\<close>

definition relay_begin ::
    "(string \<Rightarrow> uuid option) \<Rightarrow> (uuid \<Rightarrow> string) \<Rightarrow> relay_request \<Rightarrow> uuid \<Rightarrow> probe_registry \<Rightarrow>
     (string + match_probe_config) \<times> probe_registry" where
  "relay_begin parse show_uuid req run_id st =
     (case validate_room_id parse (rl_room_id req) of Inl e \<Rightarrow> (Err e, st) | Inr _ \<Rightarrow>
     (case validate_probe_limits (rl_frame_count req) (rl_timeout_ms req) of Inl e \<Rightarrow> (Err e, st) | Inr _ \<Rightarrow>
        (if rt_room_id (rl_ticket req) \<noteq> rl_room_id req \<or> rt_user_id (rl_ticket req) \<noteq> rl_local_user_id req
         then (Err ''relay ticket does not match the local room participant'', st)
         else
     (case combined_session_key parse show_uuid (rl_local_nonce req) (rl_peer_nonce req) of Inl e \<Rightarrow> (Err e, st)
      | Inr session_key \<Rightarrow>
        (if map_of (pg_slots st) (rl_room_id req) \<noteq> None
         then (Err ''match probe is already active for this room'', st)
         else if length (pg_slots st) \<ge> MAX_ACTIVE_PROBES
         then (Err ''too many active match probes; cancel an older room first'', st)
         else (let st1 = st\<lparr>pg_slots := AList.update (rl_room_id req) (Running run_id) (pg_slots st)\<rparr>;
                   unspecified = SocketAddr (V4 [0, 0, 0, 0]) 0;
                   descriptor = \<lparr>md_room_id = rl_room_id req, md_game_id = rl_game_id req,
                     md_local_user_id = rl_local_user_id req, md_peer_user_id = rl_peer_user_id req,
                     md_role = rl_role req, md_transport = Relay, md_local_endpoint = unspecified,
                     md_peer_endpoint = unspecified, md_input_delay_frames = 2\<rparr>
               in case match_probe_config_new descriptor session_key (rl_frame_count req)
                      (uint (rl_timeout_ms req) * 1000000) of
                    Inl e \<Rightarrow> (Err (transport_error_str e), st1)
                  | Inr config \<Rightarrow> (Ok config, st1)))))))"

definition relay_body ::
    "(transport_error + 'p) \<Rightarrow> ('p \<Rightarrow> match_probe_config \<Rightarrow> transport_error + match_probe_report) \<Rightarrow>
     match_probe_config \<Rightarrow> string + match_probe_report" where
  "relay_body connect run_probe config =
     (case connect of
        Inl e \<Rightarrow> Err (transport_error_str e)
      | Inr peer \<Rightarrow> map_err transport_error_str (run_probe peer config))"

section \<open>Cancelling\<close>

definition cancel_probe :: "string \<Rightarrow> probe_registry \<Rightarrow> probe_registry" where
  "cancel_probe room st =
     (case map_of (pg_slots st) room of
        None \<Rightarrow> st
      | Some (Prepared _) \<Rightarrow> st\<lparr>pg_slots := AList.delete room (pg_slots st)\<rparr>
      | Some (Running r) \<Rightarrow> st\<lparr>pg_slots := AList.delete room (pg_slots st), pg_cancelled := r # pg_cancelled st\<rparr>)"

definition cancel_match_probe ::
    "(string \<Rightarrow> uuid option) \<Rightarrow> string \<Rightarrow> probe_registry \<Rightarrow> (string + unit) \<times> probe_registry" where
  "cancel_match_probe parse room st =
     (case validate_room_id parse room of Inl e \<Rightarrow> (Err e, st) | Inr _ \<Rightarrow> (Ok (), cancel_probe room st))"

text \<open>\<open>shutdown_all\<close> does nothing when the lock is taken.\<close>

definition shutdown_probes :: "bool \<Rightarrow> probe_registry \<Rightarrow> probe_registry" where
  "shutdown_probes locked st =
     (if locked then st
      else st\<lparr>pg_slots := [],
        pg_cancelled := List.map_filter (\<lambda>(_, slot). case slot of Running r \<Rightarrow> Some r | Prepared _ \<Rightarrow> None) (pg_slots st)
          @ pg_cancelled st\<rparr>)"

section \<open>The registry\<close>

definition running_in :: "probe_registry \<Rightarrow> string \<Rightarrow> uuid option" where
  "running_in st room = (case map_of (pg_slots st) room of Some (Running r) \<Rightarrow> Some r | _ \<Rightarrow> None)"

interpretation probe_runs: run_registry running_in remove_running_probe
  by unfold_locales
    (auto simp: running_in_def remove_running_probe_def delete_conv' split: option.splits probe_slot.splits)

text \<open>The commands as they interleave.\<close>

inductive registry_step :: "probe_registry \<Rightarrow> probe_registry \<Rightarrow> bool" where
  "registry_step st (snd (reserve_match_probe parse show_uuid env req earlier st))"
| "registry_step st (snd (run_begin parse rreq run_id st))"
| "registry_step st (snd (relay_begin parse show_uuid lreq run_id st))"
| "registry_step st (remove_running_probe room run_id st)"
| "registry_step st (snd (cancel_match_probe parse room st))"
| "registry_step st (shutdown_probes locked st)"

definition registry_init :: "probe_registry \<Rightarrow> bool" where
  "registry_init st \<longleftrightarrow> pg_slots st = [] \<and> pg_cancelled st = []"

definition registry_inv :: "probe_registry \<Rightarrow> bool" where
  "registry_inv st \<longleftrightarrow> distinct (map fst (pg_slots st)) \<and> length (pg_slots st) \<le> MAX_ACTIVE_PROBES"

lemma length_update: "length (AList.update k v al) = (if map_of al k = None then Suc (length al) else length al)"
  by (induction al) auto

text \<open>The three ways in which the slots can change.\<close>

lemma reserve_cases:
  "snd (reserve_match_probe parse show_uuid env req earlier st) = st
   \<or> (\<exists>c. map_of (pg_slots st) (rv_room_id req) = None \<and> length (pg_slots st) < MAX_ACTIVE_PROBES
        \<and> snd (reserve_match_probe parse show_uuid env req earlier st)
          = st\<lparr>pg_slots := AList.update (rv_room_id req) (Prepared c) (pg_slots st)\<rparr>)"
  by (auto simp: reserve_match_probe_def reserve_lookup_def split: sum.splits option.splits probe_slot.splits)

lemma run_begin_cases:
  "snd (run_begin parse req run_id st) = st
   \<or> (\<exists>c. map_of (pg_slots st) (rq_room_id req) = Some (Prepared c)
        \<and> snd (run_begin parse req run_id st) = st\<lparr>pg_slots := AList.update (rq_room_id req) (Running run_id) (pg_slots st)\<rparr>)"
  by (auto simp: run_begin_def split: sum.splits option.splits probe_slot.splits)

lemma relay_begin_cases:
  "snd (relay_begin parse show_uuid req run_id st) = st
   \<or> (map_of (pg_slots st) (rl_room_id req) = None \<and> length (pg_slots st) < MAX_ACTIVE_PROBES
        \<and> snd (relay_begin parse show_uuid req run_id st)
          = st\<lparr>pg_slots := AList.update (rl_room_id req) (Running run_id) (pg_slots st)\<rparr>)"
  by (auto simp: relay_begin_def Let_def split: sum.splits option.splits if_splits)

lemma registry_inv_step: "registry_inv st \<Longrightarrow> registry_step st st' \<Longrightarrow> registry_inv st'"
proof (erule registry_step.cases)
  fix s parse show_uuid env req earlier
  assume "registry_inv st" "st = s" "st' = snd (reserve_match_probe parse show_uuid env req earlier s)"
  with reserve_cases [of parse show_uuid env req earlier s] show "registry_inv st'"
    by (auto simp: registry_inv_def distinct_update length_update)
next
  fix s parse rreq run_id
  assume "registry_inv st" "st = s" "st' = snd (run_begin parse rreq run_id s)"
  with run_begin_cases [of parse rreq run_id s] show "registry_inv st'"
    by (auto simp: registry_inv_def distinct_update length_update)
next
  fix s parse show_uuid lreq run_id
  assume "registry_inv st" "st = s" "st' = snd (relay_begin parse show_uuid lreq run_id s)"
  with relay_begin_cases [of parse show_uuid lreq run_id s] show "registry_inv st'"
    by (auto simp: registry_inv_def distinct_update length_update)
qed (auto simp: registry_inv_def remove_running_probe_def cancel_match_probe_def cancel_probe_def shutdown_probes_def
    distinct_delete intro: order_trans [OF length_delete_le] split: sum.splits option.splits probe_slot.splits)

interpretation registry: invariant_system registry_init registry_step registry_inv
  by unfold_locales (simp add: registry_init_def registry_inv_def, rule registry_inv_step)


section \<open>The session key\<close>

text \<open>Both sides of a room derive the same session key from the two nonces, whichever is theirs, and, with
  a UUID printer that gives texts of one length and never the same for two UUIDs, no other pair of nonces gives it.\<close>

theorem session_key_agreement:
  assumes "\<And>u v. show_uuid u = show_uuid v \<Longrightarrow> u = v" "\<And>u v. length (show_uuid u) = length (show_uuid v)"
    and "combined_session_key parse show_uuid a b = Ok k"
  shows "combined_session_key parse show_uuid b a = Ok k
    \<and> (\<forall>c d. combined_session_key parse show_uuid c d = Ok k \<longrightarrow> {parse c, parse d} = {parse a, parse b})"
proof -
  have inj: "show_uuid u @ x # show_uuid v = show_uuid u' @ x # show_uuid v' \<Longrightarrow> u = u' \<and> v = v'" for u v u' v' x
    using assms(1,2) by (metis append_eq_append_conv list.inject)
  from assms(3) obtain u v where uv: "parse a = Some u" "parse b = Some v" "u \<noteq> v"
    "k = (if u < v then show_uuid u @ CHR '':'' # show_uuid v else show_uuid v @ CHR '':'' # show_uuid u)"
    by (auto simp: combined_session_key_def split: option.splits if_splits)
  then have "combined_session_key parse show_uuid b a = Ok k"
    by (auto simp: combined_session_key_def)
  moreover have "{parse c, parse d} = {parse a, parse b}" if "combined_session_key parse show_uuid c d = Ok k" for c d
  proof -
    from that obtain u' v' where "parse c = Some u'" "parse d = Some v'"
      "k = (if u' < v' then show_uuid u' @ CHR '':'' # show_uuid v' else show_uuid v' @ CHR '':'' # show_uuid u')"
      by (auto simp: combined_session_key_def split: option.splits if_splits)
    with uv show ?thesis by (auto dest!: inj split: if_splits)
  qed
  ultimately show ?thesis by blast
qed

section \<open>Concrete commands\<close>

definition demo_bits :: "uuid \<Rightarrow> string" where
  "demo_bits u = map (\<lambda>i. if bit (uuid_bits u) i then CHR ''1'' else CHR ''0'') [0..<128]"

lemma demo_bits_inj: "demo_bits u = demo_bits v \<Longrightarrow> u = v"
proof -
  assume "demo_bits u = demo_bits v"
  then have eq: "(if bit (uuid_bits u) i then CHR ''1'' else CHR ''0'') = (if bit (uuid_bits v) i then CHR ''1'' else CHR ''0'')"
    if "i \<in> set [0..<128]" for i
    using that unfolding demo_bits_def map_eq_conv by blast
  have "bit (uuid_bits u) i = bit (uuid_bits v) i" if "i < 128" for i
    using eq [of i] that by (auto split: if_splits)
  then have "uuid_bits u = uuid_bits v" by (intro bit_word_eqI) simp
  then show "u = v" by (rule uuid.expand)
qed

definition demo_nonce :: "string \<Rightarrow> uuid option" where
  "demo_nonce s = (if s = ''a'' then Some (Uuid 1) else if s = ''b'' then Some (Uuid 2) else if s = ''room'' then Some (Uuid 9) else None)"

lemma session_key_agreement_witness:
  "combined_session_key demo_nonce demo_bits ''b'' ''a'' = Ok (demo_bits (Uuid 1) @ CHR '':'' # demo_bits (Uuid 2))"
proof -
  have len: "length (demo_bits u) = length (demo_bits v)" for u v by (simp add: demo_bits_def)
  have "combined_session_key demo_nonce demo_bits ''a'' ''b'' = Ok (demo_bits (Uuid 1) @ CHR '':'' # demo_bits (Uuid 2))"
    by (simp add: combined_session_key_def demo_nonce_def less_uuid_def)
  from session_key_agreement [where show_uuid = demo_bits, OF demo_bits_inj len this] show ?thesis by blast
qed

definition demo_registry :: probe_registry where
  "demo_registry = \<lparr>pg_slots = [], pg_cancelled = []\<rparr>"

text \<open>A relay request whose game id is empty, otherwise valid.\<close>

definition demo_relay_request :: relay_request where
  "demo_relay_request = \<lparr>rl_ticket = \<lparr>rt_room_id = ''room'', rt_user_id = ''u'', rt_expires_at = 0,
       rt_capability = Probe, rt_nonce = Uuid 5, rt_signature = []\<rparr>,
     rl_room_id = ''room'', rl_game_id = [], rl_local_user_id = ''u'', rl_peer_user_id = ''v'', rl_role = Host,
     rl_local_nonce = ''a'', rl_peer_nonce = ''b'', rl_frame_count = 60, rl_timeout_ms = 5000\<rparr>"

text \<open>The relay command takes the room's slot before it builds the configuration, and an error there returns without
  giving the slot back: the room stays occupied by a run that does not exist, and later probes of the
  room are refused.\<close>

lemma relay_error_keeps_slot:
  "\<not> is_ok (fst (relay_begin demo_nonce demo_bits demo_relay_request (Uuid 7) demo_registry))
   \<and> running_in (snd (relay_begin demo_nonce demo_bits demo_relay_request (Uuid 7) demo_registry)) ''room'' = Some (Uuid 7)
   \<and> fst (relay_begin demo_nonce demo_bits (demo_relay_request\<lparr>rl_game_id := ''sfiii3''\<rparr>) (Uuid 8)
        (snd (relay_begin demo_nonce demo_bits demo_relay_request (Uuid 7) demo_registry)))
      = Err ''match probe is already active for this room''"
  by (simp add: relay_begin_def validate_room_id_def demo_nonce_def demo_relay_request_def validate_probe_limits_def
      MAX_COMMAND_FRAMES_def MIN_PROBE_TIMEOUT_MS_def MAX_PROBE_TIMEOUT_MS_def combined_session_key_def less_uuid_def
      demo_registry_def MAX_ACTIVE_PROBES_def match_probe_config_new_def descriptor_validate_def Let_def
      running_in_def)


end
