(* ===== verification/Client_Native.thy ===== *)
theory Client_Native
  imports Adapters Match_Probe Launch_Routes Relay_Ticket Server_Config Run_Registry "HOL-Library.AList"
begin

text \<open>
  The desktop client's native side (\<open>apps/client/src-tauri/src/commands\<close>: \<open>process.rs\<close>, \<open>tunnel.rs\<close>,
  \<open>session.rs\<close>, \<open>runtime.rs\<close>, \<open>fs.rs\<close>): launching and supervising emulators, native TCP
  tunnels, the stored session token, the runtime configuration and the scan for games.  The
  operating system, the HTTP client and the credential store are given by what they answer.
\<close>

section \<open>Sessions\<close>

text \<open>\<open>token.chars().any(char::is_whitespace)\<close>.\<close>

definition has_whitespace :: "string \<Rightarrow> bool" where
  "has_whitespace s = list_ex (\<lambda>i. list_ex (\<lambda>w. take (length w) (drop i s) = w) ws_seqs) [0..<length s]"

definition validate_session_token :: "string \<Rightarrow> string + unit" where
  "validate_session_token t =
     (if length t < 32 \<or> length t > 512 \<or> has_whitespace t then Err ''session token is invalid'' else Ok ())"

text \<open>The credential store: \<open>None\<close> when it is unavailable, otherwise the entry.\<close>

type_synonym credential_store = "string option option"

definition store_unavailable :: string where
  "store_unavailable = ''operating system credential storage is unavailable''"

definition store_session_token :: "string \<Rightarrow> credential_store \<Rightarrow> (string + unit) \<times> credential_store" where
  "store_session_token t store =
     (case validate_session_token t of
        Inl e \<Rightarrow> (Err e, store)
      | Inr _ \<Rightarrow> (case store of None \<Rightarrow> (Err store_unavailable, None) | Some _ \<Rightarrow> (Ok (), Some (Some t))))"

definition load_session_token :: "credential_store \<Rightarrow> string + string option" where
  "load_session_token store =
     (case store of
        None \<Rightarrow> Err store_unavailable
      | Some None \<Rightarrow> Ok None
      | Some (Some t) \<Rightarrow> (case validate_session_token t of Inl e \<Rightarrow> Err e | Inr _ \<Rightarrow> Ok (Some t)))"

definition require_session_token :: "credential_store \<Rightarrow> string + string" where
  "require_session_token store =
     (case load_session_token store of
        Inl e \<Rightarrow> Err e
      | Inr t \<Rightarrow> ok_or t ''an authenticated desktop session is required'')"

definition clear_session_token :: "credential_store \<Rightarrow> (string + unit) \<times> credential_store" where
  "clear_session_token store =
     (case store of None \<Rightarrow> (Err store_unavailable, None) | Some _ \<Rightarrow> (Ok (), Some None))"

section \<open>Runtime configuration\<close>

record runtime_config =
  rc_api_url :: string
  rc_stun_server :: "string option"

definition validate_api_url :: "(string \<Rightarrow> url option) \<Rightarrow> string \<Rightarrow> string + unit" where
  "validate_api_url parse_url value =
     (case parse_url value of
        None \<Rightarrow> Err ''OPENCADE_API_URL must be a valid http(s) URL''
      | Some u \<Rightarrow>
          (if url_scheme u \<notin> {''http'', ''https''} \<or> url_username u \<noteq> [] \<or> url_password u \<noteq> None
              \<or> url_query u \<noteq> None \<or> url_fragment u \<noteq> None
           then Err ''OPENCADE_API_URL must be a credential-free http(s) origin''
           else if url_scheme u = ''http'' \<and> url_host u \<notin> {Some ''localhost'', Some ''127.0.0.1'', Some ''::1''}
           then Err ''remote OPENCADE_API_URL values must use HTTPS''
           else Ok ()))"

text \<open>\<open>trim_end_matches('/')\<close>.\<close>

definition trim_slashes :: "string \<Rightarrow> string" where
  "trim_slashes s = rev (dropWhile (\<lambda>c. c = CHR ''/'') (rev s))"

definition runtime_from_env ::
    "(string \<Rightarrow> url option) \<Rightarrow> (string \<Rightarrow> string option) \<Rightarrow> string + runtime_config" where
  "runtime_from_env parse_url lookup =
     (let api_url = or_default (lookup ''OPENCADE_API_URL'') ''http://127.0.0.1:8080'' in
      case validate_api_url parse_url api_url of Inl e \<Rightarrow> Err e | Inr _ \<Rightarrow>
        (let stun_server = trimmed_setting (lookup ''OPENCADE_STUN_SERVER'') in
         if (case stun_server of None \<Rightarrow> False | Some s \<Rightarrow> parse_socket_addr s = None)
         then Err ''OPENCADE_STUN_SERVER must be a numeric IP:port''
         else Ok \<lparr>rc_api_url = trim_slashes api_url, rc_stun_server = stun_server\<rparr>))"

section \<open>Launching\<close>

definition CLIENT_ALPHA_PORT :: u16 where "CLIENT_ALPHA_PORT = 55435"

definition validate_game_id :: "string \<Rightarrow> string + unit" where
  "validate_game_id g =
     (if length g < 3 \<or> length g > 20 \<or> \<not> list_all (\<lambda>c. is_ascii_lowercase c \<or> is_ascii_digit c \<or> c = CHR ''_'') g
      then Err ''invalid game id'' else Ok ())"

text \<open>The installation roots: the override of the environment and the resource directory.\<close>

definition fbneo_root :: "path option \<Rightarrow> string + path" where
  "fbneo_root resource_dir =
     (case resource_dir of
        None \<Rightarrow> Err ''application resource directory is unavailable''
      | Some r \<Rightarrow> Ok (r @ [''emulator'', ''fbneo'']))"

definition retroarch_root :: "(path \<Rightarrow> bool) \<Rightarrow> path option \<Rightarrow> path option \<Rightarrow> string + path" where
  "retroarch_root absolute override_root resource_dir =
     (case override_root of
        Some r \<Rightarrow> (if absolute r then Ok r else Err ''OPENCADE_RETROARCH_ROOT must be an absolute path'')
      | None \<Rightarrow>
          (case resource_dir of
             None \<Rightarrow> Err ''application resource directory is unavailable''
           | Some r \<Rightarrow> Ok (r @ [''emulator'', ''retroarch''])))"

record authorized_launch =
  al_room_id :: string
  al_game_id :: string
  al_local_user_id :: string
  al_peer_user_id :: string
  al_role :: peer_role
  al_local_endpoint :: socket_addr
  al_peer_endpoint :: socket_addr
  al_input_delay_frames :: u8

text \<open>\<open>consume_launch_grant\<close> of the client on the answer of the HTTP client: unreachable, an error status, or a body.\<close>

datatype grant_answer = GrantUnreachable | GrantRejected | GrantBody "authorized_launch option"

definition request_launch_grant :: "string \<Rightarrow> string \<Rightarrow> grant_answer \<Rightarrow> string + authorized_launch" where
  "request_launch_grant session_token launch_grant answer =
     (if session_token = [] \<or> launch_grant = [] then Err ''authenticated launch grant is required''
      else case answer of
        GrantUnreachable \<Rightarrow> Err ''launch authorization server is unreachable''
      | GrantRejected \<Rightarrow> Err ''launch grant was rejected by the server''
      | GrantBody b \<Rightarrow> ok_or b ''launch authorization response is invalid'')"

definition content_path :: "path \<Rightarrow> string \<Rightarrow> path" where
  "content_path root game_id =
     root @ [''ROMs'', game_id @ ''.'' @ (if game_id = TEST_GAME_ID then ''ocade'' else ''zip'')]"

text \<open>\<open>bindable ip port\<close>: a TCP listener can be bound there.\<close>

definition ensure_native_port_available :: "(ip_addr \<Rightarrow> u16 \<Rightarrow> bool) \<Rightarrow> socket_addr \<Rightarrow> string + unit" where
  "ensure_native_port_available bindable endpoint =
     (let bind_ip = (case sa_ip endpoint of V4 _ \<Rightarrow> V4 (replicate 4 0) | V6 _ \<Rightarrow> V6 (replicate 16 0)) in
      if bindable bind_ip (sa_port endpoint) then Ok ()
      else Err (''native netplay TCP port '' @ nat_str (unat (sa_port endpoint)) @ '' is unavailable''))"

definition validate_native_endpoints :: "match_descriptor \<Rightarrow> string + unit" where
  "validate_native_endpoints d =
     (if list_ex (\<lambda>e. sa_port e \<noteq> CLIENT_ALPHA_PORT \<or> is_unspecified (sa_ip e) \<or> is_multicast (sa_ip e))
           [md_local_endpoint d, md_peer_endpoint d]
      then Err ''native alpha endpoints must be unicast on TCP port 55435'' else Ok ())"

section \<open>Supervised processes\<close>

text \<open>The registered children by process id, each with the identity of its \<open>Arc\<close>, and the
  identities that were killed.\<close>

record process_registry =
  cr_children :: "(nat \<times> nat) list"
  cr_killed :: "nat list"

definition register_child :: "nat \<Rightarrow> nat \<Rightarrow> process_registry \<Rightarrow> (string + nat) \<times> process_registry" where
  "register_child pid child st =
     (if map_of (cr_children st) pid \<noteq> None
      then (Err ''process id is already supervised'', st\<lparr>cr_killed := child # cr_killed st\<rparr>)
      else (Ok pid, st\<lparr>cr_children := AList.update pid child (cr_children st)\<rparr>))"

text \<open>The supervisor thread when its child has ended: it removes its own entry only.\<close>

definition child_ended :: "nat \<Rightarrow> nat \<Rightarrow> process_registry \<Rightarrow> process_registry" where
  "child_ended pid child st =
     (if map_of (cr_children st) pid = Some child
      then st\<lparr>cr_children := AList.delete pid (cr_children st)\<rparr> else st)"

definition stop_game :: "nat \<Rightarrow> process_registry \<Rightarrow> process_registry" where
  "stop_game pid st =
     (case map_of (cr_children st) pid of None \<Rightarrow> st | Some child \<Rightarrow> st\<lparr>cr_killed := child # cr_killed st\<rparr>)"

definition shutdown_children :: "process_registry \<Rightarrow> process_registry" where
  "shutdown_children st = st\<lparr>cr_children := [], cr_killed := map snd (cr_children st) @ cr_killed st\<rparr>"

text \<open>\<open>report_native_exit\<close>: the outcomes of its posts in turn; how many were made, and whether
  the server has answered with success.\<close>

definition report_native_exit :: "(nat \<Rightarrow> bool) \<Rightarrow> nat \<times> bool" where
  "report_native_exit success =
     (if success 1 then (1, True) else if success 2 then (2, True) else (3, success 3))"

definition retroarch_preflight ::
    "file_system \<Rightarrow> platform \<Rightarrow> (ip_addr \<Rightarrow> u16 \<Rightarrow> bool) \<Rightarrow> string + path \<Rightarrow> string \<Rightarrow>
     string + (string \<times> compatibility_fingerprint \<times> bool)" where
  "retroarch_preflight fs os bindable root_result game_id =
     (case validate_game_id game_id of Inl e \<Rightarrow> Err e | Inr _ \<Rightarrow>
     (case root_result of Inl e \<Rightarrow> Err e | Inr root \<Rightarrow>
     (case fingerprint_for_game fs os root game_id (content_path root game_id) of Inl e \<Rightarrow> Err (adapter_error_str e)
      | Inr f \<Rightarrow> Ok (adapter_id_for_game game_id, f,
          is_ok (ensure_native_port_available bindable (SocketAddr (V4 (replicate 4 0)) CLIENT_ALPHA_PORT))))))"

definition launch_game ::
    "file_system \<Rightarrow> string + path \<Rightarrow> (launch_spec \<Rightarrow> adapter_error + (nat \<times> nat)) \<Rightarrow> string \<Rightarrow> process_registry \<Rightarrow>
     (string + nat) \<times> process_registry" where
  "launch_game fs root_result spawn game_id st =
     (case validate_game_id game_id of Inl e \<Rightarrow> (Err e, st) | Inr _ \<Rightarrow>
     (case root_result of Inl e \<Rightarrow> (Err e, st) | Inr root \<Rightarrow>
     (case fbneo_launch fs root spawn (root @ [''ROMs'', game_id @ ''.zip'']) of
        Inl e \<Rightarrow> (Err (adapter_error_str e), st)
      | Inr (pid, child) \<Rightarrow> register_child pid child st)))"

definition launch_descriptor :: "authorized_launch \<Rightarrow> match_descriptor" where
  "launch_descriptor a =
     \<lparr>md_room_id = al_room_id a, md_game_id = al_game_id a, md_local_user_id = al_local_user_id a,
      md_peer_user_id = al_peer_user_id a, md_role = al_role a, md_transport = DirectUdp,
      md_local_endpoint = al_local_endpoint a, md_peer_endpoint = al_peer_endpoint a,
      md_input_delay_frames = al_input_delay_frames a\<rparr>"

definition launch_retroarch_match ::
    "file_system \<Rightarrow> platform \<Rightarrow> (ip_addr \<Rightarrow> u16 \<Rightarrow> bool) \<Rightarrow> string + path \<Rightarrow>
     (launch_spec \<Rightarrow> adapter_error + (nat \<times> nat)) \<Rightarrow> credential_store \<Rightarrow> string \<Rightarrow> grant_answer \<Rightarrow> process_registry \<Rightarrow>
     (string + (nat \<times> string \<times> string \<times> compatibility_fingerprint)) \<times> process_registry" where
  "launch_retroarch_match fs os bindable root_result spawn store launch_grant answer st =
     (case require_session_token store of Inl e \<Rightarrow> (Err e, st) | Inr session_token \<Rightarrow>
     (case request_launch_grant session_token launch_grant answer of Inl e \<Rightarrow> (Err e, st) | Inr a \<Rightarrow>
     (case validate_game_id (al_game_id a) of Inl e \<Rightarrow> (Err e, st) | Inr _ \<Rightarrow>
     (case root_result of Inl e \<Rightarrow> (Err e, st) | Inr root \<Rightarrow>
        (let content = content_path root (al_game_id a);
             d = launch_descriptor a
         in case descriptor_transport_lease d of Inl e \<Rightarrow> (Err (adapter_error_str e), st) | Inr _ \<Rightarrow>
     (case validate_native_endpoints d of Inl e \<Rightarrow> (Err e, st) | Inr _ \<Rightarrow>
     (case (if md_role d = Host then ensure_native_port_available bindable (md_local_endpoint d) else Ok ()) of
        Inl e \<Rightarrow> (Err e, st) | Inr _ \<Rightarrow>
     (case fingerprint_for_game fs os root (al_game_id a) content of Inl e \<Rightarrow> (Err (adapter_error_str e), st) | Inr f \<Rightarrow>
     (case launch_match_for_game_with fs os root spawn (al_game_id a) content d of
        Inl e \<Rightarrow> (Err (adapter_error_str e), st)
      | Inr (pid, child) \<Rightarrow>
          (case register_child pid child st of
             (Inl e, st') \<Rightarrow> (Err e, st')
           | (Inr p, st') \<Rightarrow> (Ok (p, adapter_id_for_game (al_game_id a), al_room_id a, f), st')))))))))))"

section \<open>Scanning for games\<close>

record game_availability =
  ga_game_id :: string
  ga_available :: bool
  ga_warnings :: "string list"

definition scan_fbneo_rom :: "file_system \<Rightarrow> path \<Rightarrow> string \<Rightarrow> string + game_availability" where
  "scan_fbneo_rom fs root game_id =
     (case validate_game_id game_id of Inl e \<Rightarrow> Err e | Inr _ \<Rightarrow>
     (case fbneo_detect fs root of Inl e \<Rightarrow> Err (adapter_error_str e) | Inr _ \<Rightarrow>
     (case fbneo_validate fs root (root @ [''ROMs'', game_id @ ''.zip'']) of
        Inr report \<Rightarrow> Ok \<lparr>ga_game_id = game_id, ga_available = vr_valid report, ga_warnings = vr_warnings report\<rparr>
      | Inl e \<Rightarrow> Ok \<lparr>ga_game_id = game_id, ga_available = False, ga_warnings = [adapter_error_str e]\<rparr>)))"

section \<open>Native tunnels\<close>

datatype tunnel_mode = Listen | Connect

record tunnel_registry =
  tg_tasks :: "(string \<times> uuid) list"
  tg_aborted :: "uuid list"

definition is_loopback :: "ip_addr \<Rightarrow> bool" where
  "is_loopback a =
     (case a of V4 octets \<Rightarrow> (case octets of b # _ \<Rightarrow> b = 127 | [] \<Rightarrow> False)
      | V6 octets \<Rightarrow> octets = replicate 15 0 @ [1])"

text \<open>\<open>listen\<close> is what binding and reading the listener's address answer.\<close>

definition start_native_tcp_tunnel ::
    "(socket_addr \<Rightarrow> string + socket_addr) \<Rightarrow> relay_ticket \<Rightarrow> tunnel_mode \<Rightarrow> socket_addr \<Rightarrow> uuid \<Rightarrow> tunnel_registry \<Rightarrow>
     (string + (string \<times> socket_addr)) \<times> tunnel_registry" where
  "start_native_tcp_tunnel listen ticket mode local_endpoint run_id st =
     (if rt_capability ticket \<noteq> NativeTcpTunnel then (Err ''native tunnel requires a capability-scoped ticket'', st)
      else if \<not> is_loopback (sa_ip local_endpoint) then (Err ''native tunnel endpoints must be loopback-only'', st)
      else case (case mode of Listen \<Rightarrow> listen local_endpoint | Connect \<Rightarrow> Ok local_endpoint) of
        Inl e \<Rightarrow> (Err e, st)
      | Inr address \<Rightarrow>
          (let room = rt_room_id ticket;
               aborted = (case map_of (tg_tasks st) room of None \<Rightarrow> [] | Some previous \<Rightarrow> [previous])
           in (Ok (room, address),
               st\<lparr>tg_tasks := AList.update room run_id (tg_tasks st), tg_aborted := aborted @ tg_aborted st\<rparr>)))"

text \<open>\<open>ticket_deadline\<close>: seconds left, on the Unix time where it is readable; \<open>i64\<close> subtraction saturates.\<close>

definition saturate_i64 :: "int \<Rightarrow> int" where
  "saturate_i64 i = max (- (2 ^ 63)) (min (2 ^ 63 - 1) i)"

definition ticket_deadline :: "int option \<Rightarrow> relay_ticket \<Rightarrow> nat" where
  "ticket_deadline unix_time ticket =
     (let now = (case unix_time of None \<Rightarrow> rt_expires_at ticket | Some t \<Rightarrow> t)
      in nat (saturate_i64 (rt_expires_at ticket - now)))"

definition remove_completed_task :: "string \<Rightarrow> uuid \<Rightarrow> tunnel_registry \<Rightarrow> tunnel_registry" where
  "remove_completed_task room run_id st =
     (if map_of (tg_tasks st) room = Some run_id then st\<lparr>tg_tasks := AList.delete room (tg_tasks st)\<rparr> else st)"

definition stop_native_tcp_tunnel :: "string \<Rightarrow> tunnel_registry \<Rightarrow> tunnel_registry" where
  "stop_native_tcp_tunnel room st =
     (case map_of (tg_tasks st) room of
        None \<Rightarrow> st
      | Some r \<Rightarrow> st\<lparr>tg_tasks := AList.delete room (tg_tasks st), tg_aborted := r # tg_aborted st\<rparr>)"

definition shutdown_tunnels :: "tunnel_registry \<Rightarrow> tunnel_registry" where
  "shutdown_tunnels st = st\<lparr>tg_tasks := [], tg_aborted := map snd (tg_tasks st) @ tg_aborted st\<rparr>"

section \<open>The registries\<close>

interpretation child_runs: run_registry "\<lambda>st. map_of (cr_children st)" child_ended
  by unfold_locales (auto simp: child_ended_def delete_conv')

interpretation tunnel_runs: run_registry "\<lambda>st. map_of (tg_tasks st)" remove_completed_task
  by unfold_locales (auto simp: remove_completed_task_def delete_conv')

section \<open>What the commands guarantee\<close>

lemma game_id_plain:
  assumes "validate_game_id g = Ok ()"
  shows "3 \<le> length g \<and> length g \<le> 20 \<and> CHR ''/'' \<notin> set g \<and> CHR 0x5C \<notin> set g \<and> CHR ''.'' \<notin> set g"
proof -
  from assms have "3 \<le> length g" "length g \<le> 20"
    and "list_all (\<lambda>c. is_ascii_lowercase c \<or> is_ascii_digit c \<or> c = CHR ''_'') g"
    by (auto simp: validate_game_id_def split: if_splits)
  moreover have "\<not> (is_ascii_lowercase c \<or> is_ascii_digit c \<or> c = CHR ''_'')" if "c \<in> {CHR ''/'', CHR 0x5C, CHR ''.''}" for c
    using that by (auto simp: is_ascii_lowercase_def is_ascii_digit_def less_eq_char_def)
  ultimately show ?thesis by (auto simp: list_all_iff)
qed

text \<open>C20  A native match is started only with the server's word: a stored session token and a launch grant that the
  server redeemed, for a game id that is a plain file name, between unicast endpoints on the alpha port; the launcher
  is given the command line of the granted room, and the child is then supervised under its process id, which no
  other child had.\<close>

theorem native_launch_authorized:
  assumes "launch_retroarch_match fs os bindable root_result spawn store launch_grant answer st
    = (Ok (pid, adapter, room, f), st')"
  shows "\<exists>token a root child.
    store = Some (Some token) \<and> 32 \<le> length token \<and> launch_grant \<noteq> [] \<and> answer = GrantBody (Some a)
    \<and> room = al_room_id a \<and> root_result = Ok root
    \<and> 3 \<le> length (al_game_id a) \<and> length (al_game_id a) \<le> 20
    \<and> CHR ''/'' \<notin> set (al_game_id a) \<and> CHR ''.'' \<notin> set (al_game_id a)
    \<and> list_all (\<lambda>e. sa_port e = 55435 \<and> \<not> is_unspecified (sa_ip e) \<and> \<not> is_multicast (sa_ip e))
        [al_local_endpoint a, al_peer_endpoint a]
    \<and> launch_match_for_game_with fs os root spawn (al_game_id a) (content_path root (al_game_id a)) (launch_descriptor a)
        = Ok (pid, child)
    \<and> map_of (cr_children st) pid = None \<and> map_of (cr_children st') pid = Some child
    \<and> (\<forall>p. p \<noteq> pid \<longrightarrow> map_of (cr_children st') p = map_of (cr_children st) p)"
proof -
  from assms obtain token a root child where
    token: "require_session_token store = Ok token" and a: "request_launch_grant token launch_grant answer = Ok a"
    and id: "validate_game_id (al_game_id a) = Ok ()" and root: "root_result = Ok root"
    and ends: "validate_native_endpoints (launch_descriptor a) = Ok ()"
    and run: "launch_match_for_game_with fs os root spawn (al_game_id a) (content_path root (al_game_id a)) (launch_descriptor a)
        = Ok (pid, child)"
    and reg: "register_child pid child st = (Ok pid, st')" and room: "room = al_room_id a"
    by (auto simp: launch_retroarch_match_def Let_def register_child_def split: sum.splits prod.splits if_splits)
  from token have "store = Some (Some token)" "32 \<le> length token"
    by (auto simp: require_session_token_def load_session_token_def validate_session_token_def ok_or_def
        split: option.splits sum.splits if_splits)
  moreover from a have "launch_grant \<noteq> []" "answer = GrantBody (Some a)"
    by (auto simp: request_launch_grant_def ok_or_def split: if_splits grant_answer.splits option.splits)
  moreover from ends have "list_all (\<lambda>e. sa_port e = 55435 \<and> \<not> is_unspecified (sa_ip e) \<and> \<not> is_multicast (sa_ip e))
        [al_local_endpoint a, al_peer_endpoint a]"
    by (auto simp: validate_native_endpoints_def launch_descriptor_def CLIENT_ALPHA_PORT_def split: if_splits)
  moreover from reg have "map_of (cr_children st) pid = None" "map_of (cr_children st') pid = Some child"
    "\<forall>p. p \<noteq> pid \<longrightarrow> map_of (cr_children st') p = map_of (cr_children st) p"
    by (auto simp: register_child_def update_conv' split: if_splits)
  ultimately show ?thesis using game_id_plain [OF id] root run room by blast
qed

text \<open>The end of a run is harmless to newer ones: however many supervisor threads of other children, or
  cleanups of other tunnel runs, finish and in whatever order, the child registered under a process id and the tunnel
  registered for a room stay registered.\<close>

theorem stale_cleanups_harmless:
  "(map_of (cr_children st) pid = Some child \<and> (pid, child) \<notin> set ended \<longrightarrow>
      map_of (cr_children (fold (\<lambda>(p, c). child_ended p c) ended st)) pid = Some child)
   \<and> (map_of (tg_tasks ts) room = Some run_id \<and> (room, run_id) \<notin> set finished \<longrightarrow>
      map_of (tg_tasks (fold (\<lambda>(k, r). remove_completed_task k r) finished ts)) room = Some run_id)"
  using child_runs.finishes_keep tunnel_runs.finishes_keep by blast

text \<open>Tunnels: only with a tunnel ticket, only from the loopback interface, one per room, the replaced one aborted.\<close>

lemma tunnel_started:
  assumes "start_native_tcp_tunnel listen ticket mode local_endpoint run_id st = (Ok (room, address), st')"
  shows "rt_capability ticket = NativeTcpTunnel \<and> is_loopback (sa_ip local_endpoint) \<and> room = rt_room_id ticket
    \<and> map_of (tg_tasks st') room = Some run_id
    \<and> (\<forall>other. other \<noteq> room \<longrightarrow> map_of (tg_tasks st') other = map_of (tg_tasks st) other)
    \<and> (\<forall>previous. map_of (tg_tasks st) room = Some previous \<longrightarrow> previous \<in> set (tg_aborted st'))"
  using assms
  by (auto simp: start_native_tcp_tunnel_def Let_def update_conv' split: if_splits sum.splits)

section \<open>A concrete launch\<close>

definition demo_authorized :: authorized_launch where
  "demo_authorized = \<lparr>al_room_id = ''room'', al_game_id = ''sfiii3'', al_local_user_id = ''a'', al_peer_user_id = ''b'',
     al_role = Guest, al_local_endpoint = SocketAddr (V4 [192, 168, 1, 10]) 55435,
     al_peer_endpoint = SocketAddr (V4 [192, 168, 1, 11]) 55435, al_input_delay_frames = 2\<rparr>"

definition demo_token :: string where "demo_token = replicate 64 (CHR ''a'')"

definition demo_children :: process_registry where
  "demo_children = \<lparr>cr_children = [(40, 1)], cr_killed = []\<rparr>"

lemma demo_native_launch:
  "launch_retroarch_match demo_fs OtherOs (\<lambda>_ _. True) (Ok [''ra'']) (\<lambda>_. Ok (41, 2)) (Some (Some demo_token)) ''grant''
     (GrantBody (Some demo_authorized)) demo_children
   = (Ok (41, ''retroarch_fbneo'', ''room'', \<lparr>fp_retroarch_version = None, fp_executable_sha256 = [],
        fp_core_sha256 = [], fp_content_sha256 = []\<rparr>), \<lparr>cr_children = [(40, 1), (41, 2)], cr_killed = []\<rparr>)"
proof -
  have "validate_session_token demo_token = Ok ()" by code_simp
  moreover have "demo_token \<noteq> []" by (simp add: demo_token_def)
  moreover have "validate_game_id ''sfiii3'' = Ok ()" by code_simp
  ultimately show ?thesis
    by (simp add: launch_retroarch_match_def require_session_token_def load_session_token_def request_launch_grant_def
        demo_authorized_def launch_descriptor_def descriptor_transport_lease_def native_process_def
        validate_native_endpoints_def CLIENT_ALPHA_PORT_def is_unspecified_def is_multicast_def
        fingerprint_for_game_def demo_fs_def for_game_def TEST_GAME_ID_def canonicalize_below_def starts_with_def
        executable_path_def core_path_def rom_root_def content_path_def sha256_file_def MAX_HASHED_FILE_BYTES_def
        hex_bytes_def launch_match_for_game_with_def match_launch_spec_for_game_def prepare_match_def
        retroarch_capabilities_def supports_netplay_def descriptor_validate_def is_blank_graphic graphic_def
        validate_profile_def path_extension_def name_extension_def register_child_def demo_children_def
        adapter_id_for_game_def read_version_def)
qed

lemma native_launch_authorized_witness:
  "map_of (cr_children \<lparr>cr_children = [(40 :: nat, 1), (41, 2 :: nat)], cr_killed = []\<rparr>) (41 :: nat) \<noteq> None \<and> 32 \<le> length demo_token"
  using native_launch_authorized [OF demo_native_launch] by auto

lemma stale_cleanups_harmless_witness:
  "map_of (cr_children (fold (\<lambda>(p, c). child_ended p c) [(40, 7), (40, 8), (41, 1)] demo_children)) 40 = Some 1"
proof -
  have "map_of (cr_children demo_children) 40 = Some 1" by (simp add: demo_children_def)
  moreover have "(40 :: nat, 1 :: nat) \<notin> set [(40, 7), (40, 8), (41, 1)]" by simp
  ultimately show ?thesis
    using stale_cleanups_harmless [where st = demo_children and pid = 40 and child = 1 and ended = "[(40, 7), (40, 8), (41, 1)]"]
    by blast
qed

end
