(* ===== verification/Client_Exit.thy ===== *)
theory Client_Exit
  imports Client_Native Server_Exit
begin

text \<open>
  The end of a supervised native game (\<open>commands/process.rs\<close>): waiting for the child, forgetting it,
  reporting its exit to the server in up to three posts, and the event for the user interface; and
  what the server makes of the posts when some of them or their answers are lost.
\<close>

section \<open>The supervisor thread\<close>

record exit_status =
  xs_code :: "int option"
  xs_success :: bool

text \<open>One look at the child: an error of the lock or of \<open>try_wait\<close> ends the wait.\<close>

datatype child_poll = StillRunning | Exited exit_status | PollFailed

text \<open>\<open>None\<close> while the loop goes on.\<close>

fun await_child :: "child_poll list \<Rightarrow> exit_status option option" where
  "await_child [] = None"
| "await_child (Exited status # _) = Some (Some status)"
| "await_child (StillRunning # polls) = await_child polls"
| "await_child (PollFailed # _) = Some None"

record exit_callback =
  xc_api_url :: string
  xc_session_token :: string
  xc_room_id :: string

record exit_post =
  xp_endpoint :: string
  xp_bearer :: string
  xp_exit_code :: "int option"

definition native_exit_post :: "exit_callback \<Rightarrow> int option \<Rightarrow> exit_post" where
  "native_exit_post callback exit_code =
     \<lparr>xp_endpoint = trim_slashes (xc_api_url callback) @ ''/api/v1/rooms/'' @ xc_room_id callback @ ''/finish'',
      xp_bearer = xc_session_token callback, xp_exit_code = exit_code\<rparr>"

record emulator_exit_event =
  xe_pid :: nat
  xe_room_id :: "string option"
  xe_exit_code :: "int option"
  xe_success :: bool

text \<open>What the thread does once its wait is over: the registry, the posts that were sent, given
  whether the client could be built and which of them succeed, and the event.\<close>

definition supervise_exit ::
    "bool \<Rightarrow> (nat \<Rightarrow> bool) \<Rightarrow> nat \<Rightarrow> nat \<Rightarrow> exit_callback option \<Rightarrow> exit_status option \<Rightarrow> process_registry \<Rightarrow>
     process_registry \<times> exit_post list \<times> emulator_exit_event" where
  "supervise_exit client_built success pid child exit_callback status st =
     (let exit_code = Option.bind status xs_code;
          posts = (case exit_callback of
                     None \<Rightarrow> []
                   | Some callback \<Rightarrow>
                       (if client_built
                        then replicate (fst (report_native_exit success)) (native_exit_post callback exit_code)
                        else []))
      in (child_ended pid child st, posts,
          \<lparr>xe_pid = pid, xe_room_id = map_option xc_room_id exit_callback, xe_exit_code = exit_code,
           xe_success = (case status of None \<Rightarrow> False | Some s \<Rightarrow> xs_success s)\<rparr>))"

lemma first_poll:
  "x \<noteq> y \<Longrightarrow> x # xs = replicate n y @ z # ys \<longleftrightarrow> n = 0 \<and> x = z \<and> xs = ys"
  by (cases n) auto

lemma await_child_done:
  "await_child polls = Some r \<longleftrightarrow>
     (\<exists>n rest. (\<exists>s. polls = replicate n StillRunning @ Exited s # rest \<and> r = Some s)
        \<or> (polls = replicate n StillRunning @ PollFailed # rest \<and> r = None))"
proof (induction polls rule: await_child.induct)
  case (3 polls)
  show ?case
  proof
    assume "await_child (StillRunning # polls) = Some r"
    with 3 obtain n rest where "(\<exists>s. polls = replicate n StillRunning @ Exited s # rest \<and> r = Some s)
        \<or> (polls = replicate n StillRunning @ PollFailed # rest \<and> r = None)" by auto
    then show "\<exists>n rest. (\<exists>s. StillRunning # polls = replicate n StillRunning @ Exited s # rest \<and> r = Some s)
        \<or> (StillRunning # polls = replicate n StillRunning @ PollFailed # rest \<and> r = None)"
      by (intro exI [of _ "Suc n"] exI [of _ rest]) simp
  next
    assume "\<exists>n rest. (\<exists>s. StillRunning # polls = replicate n StillRunning @ Exited s # rest \<and> r = Some s)
        \<or> (StillRunning # polls = replicate n StillRunning @ PollFailed # rest \<and> r = None)"
    then obtain n rest where n: "(\<exists>s. StillRunning # polls = replicate n StillRunning @ Exited s # rest \<and> r = Some s)
        \<or> (StillRunning # polls = replicate n StillRunning @ PollFailed # rest \<and> r = None)" by blast
    then obtain m where "n = Suc m" by (cases n) auto
    with n 3 show "await_child (StillRunning # polls) = Some r" by auto
  qed
qed (auto simp: first_poll)

text \<open>The posts are at most three, alike, and none follows a successful one.\<close>

lemma supervise_posts:
  assumes "supervise_exit built success pid child (Some cb) status st = (st', posts, ev)"
  shows "length posts \<le> 3 \<and> set posts \<subseteq> {native_exit_post cb (Option.bind status xs_code)}
    \<and> (\<forall>i. 0 < i \<and> i < length posts \<longrightarrow> \<not> success i)
    \<and> xe_room_id ev = Some (xc_room_id cb) \<and> map_of (cr_children st') pid \<noteq> Some child"
proof -
  have "\<not> success i" if "0 < i" "i < fst (report_native_exit success)" for i
    using that by (cases "i = 1") (auto simp: report_native_exit_def less_Suc_eq numeral_3_eq_3 numeral_2_eq_2 split: if_splits)
  moreover have "fst (report_native_exit success) \<le> 3" by (simp add: report_native_exit_def)
  ultimately show ?thesis
    using assms by (auto simp: supervise_exit_def Let_def child_ended_def delete_conv' split: if_splits)
qed

section \<open>The posts at the server\<close>

datatype post_fate = PostLost | AnswerLost | Answered

text \<open>The posts of one report in turn, each with the server's view of it; sending stops at the first
  answer of success that arrives.\<close>

fun deliver_exit ::
    "uuid \<Rightarrow> int option \<Rightarrow> (request_env \<times> post_fate) list \<Rightarrow> db \<Rightarrow> nat \<times> db" where
  "deliver_exit rid code [] d = (0, d)"
| "deliver_exit rid code ((env, PostLost) # posts) d =
     (let (n, d') = deliver_exit rid code posts d in (Suc n, d'))"
| "deliver_exit rid code ((env, AnswerLost) # posts) d =
     (let (n, d') = deliver_exit rid code posts (snd (finish_room env rid code d)) in (Suc n, d'))"
| "deliver_exit rid code ((env, Answered) # posts) d =
     (case finish_room env rid code d of
        (Inr _, d1) \<Rightarrow> (1, d1)
      | (Inl _, d1) \<Rightarrow> (let (n, d') = deliver_exit rid code posts d1 in (Suc n, d')))"

lemma finish_room_snd: "snd (finish_room env rid code d) = snd (transact (confirm_native_exit_txn env rid code) d)"
  by (simp add: finish_room_def)

lemma deliver_recorded:
  "server_inv d \<Longrightarrow> exits_ok d \<Longrightarrow> exit_recorded rid u code d \<Longrightarrow> \<forall>p \<in> set posts. q_user (fst p) = u \<Longrightarrow>
   snd (deliver_exit rid code posts d) = d"
proof (induction rid code posts d rule: deliver_exit.induct)
  case (4 rid code env posts d)
  then have "confirm_native_exit_txn env rid code d = Ok ((), d)" by (intro exit_repeated) simp_all
  then have "snd (finish_room env rid code d) = d" by (simp add: finish_room_snd)
  with 4 show ?case by (cases "finish_room env rid code d") (auto split: sum.splits prod.splits)
next
  case (3 rid code env posts d)
  then have "confirm_native_exit_txn env rid code d = Ok ((), d)" by (intro exit_repeated) simp_all
  then have "snd (finish_room env rid code d) = d" by (simp add: finish_room_snd)
  with 3 show ?case by (auto split: prod.splits)
qed (auto split: prod.splits)

text \<open>However the posts and answers are lost, the server's state after a report is its state before
  or after exactly one of the posts.\<close>

theorem exit_reported_once:
  "server_inv d \<Longrightarrow> exits_ok d \<Longrightarrow> \<forall>p \<in> set posts. q_user (fst p) = u \<Longrightarrow>
   snd (deliver_exit rid code posts d) = d
   \<or> (\<exists>p \<in> set posts. snd (deliver_exit rid code posts d) = snd (finish_room (fst p) rid code d))"
proof (induction posts)
  case (Cons p posts)
  obtain env fate where p: "p = (env, fate)" by (cases p)
  note IH = Cons.IH [OF Cons.prems(1,2)]
  show ?case
  proof (cases "fate = PostLost")
    case True
    with p have "snd (deliver_exit rid code (p # posts) d) = snd (deliver_exit rid code posts d)"
      by (simp add: case_prod_beta)
    with IH Cons.prems(3) show ?thesis by auto
  next
    case False
    show ?thesis
    proof (cases "confirm_native_exit_txn env rid code d")
      case (Inl e)
      then have "finish_room env rid code d = (Err e, d)" by (simp add: finish_room_def then_notify_def)
      with False p have "snd (deliver_exit rid code (p # posts) d) = snd (deliver_exit rid code posts d)"
        by (cases fate) (simp_all add: case_prod_beta)
      with IH Cons.prems(3) show ?thesis by auto
    next
      case (Inr y)
      obtain x d1 where y: "y = (x, d1)" by (cases y)
      have s: "snd (finish_room env rid code d) = d1" by (simp add: finish_room_snd Inr y)
      have step: "server_step d d1" using step_request [of d "FinishRoom env rid code"] s by simp
      have "server_inv d1" "exits_ok d1" "exit_recorded rid u code d1"
        using server.inv_step [OF Cons.prems(1) step] exits_ok_step [OF Cons.prems(1,2) step]
          exit_records [OF Inr [unfolded y]] Cons.prems(3) p by auto
      with Cons.prems(3) have "snd (deliver_exit rid code posts d1) = d1" by (intro deliver_recorded) auto
      with False p s have "snd (deliver_exit rid code (p # posts) d) = d1"
        by (cases fate; cases "finish_room env rid code d") (auto split: sum.splits prod.splits)
      with s p show ?thesis by (intro disjI2 bexI [of _ p]) simp_all
    qed
  qed
qed simp

end
