(* ===== verification/Native_Tunnel.thy ===== *)
theory Native_Tunnel
  imports Relay_Service Input_Transport Server_Config Reachability "HOL-Library.Sublist"
begin

text \<open>
  The client side of the relay (\<open>packages/networking/src/relay.rs\<close>, \<open>tcp_tunnel.rs\<close>): the connection
  URL, the packet transport of a relayed probe, and the tunnel that carries the byte stream of
  one local TCP connection in bounded WebSocket frames.

  The two copying loops of a tunnel run under one \<open>select!\<close>, so a tunnel is a state machine
  over what its sockets do.  The local stream is kept as everything the emulator has written
  to it and the number of bytes read so far.  The URL parser, JSON and the sockets are parameters.
\<close>

section \<open>Connecting\<close>

datatype ws_event =
  WsBinary bytes | WsText string | WsPing bytes | WsPong bytes | WsRaw | WsClose | WsError | WsEnd

text \<open>The query of the connection URL.\<close>

definition relay_query :: "(uuid \<Rightarrow> string) \<Rightarrow> relay_ticket \<Rightarrow> (string \<times> string) list" where
  "relay_query show_uuid t =
     [(''room_id'', rt_room_id t), (''user_id'', rt_user_id t), (''expires_at'', int_str (rt_expires_at t)),
      (''capability'', capability_str (rt_capability t)), (''nonce'', show_uuid (rt_nonce t)),
      (''signature'', rt_signature t)]"

text \<open>\<open>open\<close> is \<open>connect_async\<close>; the three strings are the messages of the two callers.\<close>

definition relay_connect ::
    "(string \<Rightarrow> url option) \<Rightarrow> (uuid \<Rightarrow> string) \<Rightarrow> (url \<Rightarrow> (string \<times> string) list \<Rightarrow> 's option) \<Rightarrow> string \<times> string \<times> string \<Rightarrow>
     string \<Rightarrow> relay_ticket \<Rightarrow> transport_error + 's" where
  "relay_connect parse_url show_uuid open messages relay_url ticket =
     (case messages of (invalid, scheme, failed) \<Rightarrow>
     (case parse_url relay_url of
        None \<Rightarrow> Err (RelayError invalid)
      | Some u \<Rightarrow>
          (if url_scheme u \<noteq> ''ws'' \<and> url_scheme u \<noteq> ''wss'' then Err (RelayError scheme)
           else ok_or (open u (relay_query show_uuid ticket)) (RelayError failed))))"

definition peer_messages :: "string \<times> string \<times> string" where
  "peer_messages = (''relay URL is invalid'', ''relay URL must use ws or wss'', ''relay connection failed'')"

definition tunnel_messages :: "string \<times> string \<times> string" where
  "tunnel_messages = (''native tunnel URL is invalid'', ''native tunnel URL must use ws or wss'',
     ''native tunnel connection failed'')"

section \<open>Packets over the relay\<close>

text \<open>\<open>RelayPeer::send_packet\<close>: \<open>sent\<close> says whether the socket took the frame.\<close>

definition relay_send_packet :: "('a \<Rightarrow> string + bytes) \<Rightarrow> (ws_message \<Rightarrow> bool) \<Rightarrow> 'a \<Rightarrow> transport_error + ws_message" where
  "relay_send_packet encode sent packet =
     (case encode packet of
        Inl m \<Rightarrow> Err (Serialization m)
      | Inr b \<Rightarrow> (if sent (MsgBinary b) then Ok (MsgBinary b) else Err (RelayError ''relay send failed'')))"

text \<open>\<open>RelayPeer::receive_packet\<close> over the frames that arrive: the result, \<open>None\<close> while it waits, and the
  pongs sent; \<open>pong\<close> says whether one could be sent.\<close>

fun relay_receive_packet ::
    "(bytes \<Rightarrow> string + 'a) \<Rightarrow> (bytes \<Rightarrow> bool) \<Rightarrow> ws_event list \<Rightarrow> (transport_error + 'a) option \<times> ws_message list" where
  "relay_receive_packet decode pong [] = (None, [])"
| "relay_receive_packet decode pong (WsBinary b # evs) = (Some (map_err Serialization (decode b)), [])"
| "relay_receive_packet decode pong (WsPing b # evs) =
     (if pong b
      then (case relay_receive_packet decode pong evs of (r, sent) \<Rightarrow> (r, MsgPong b # sent))
      else (Some (Err (RelayError ''relay pong failed'')), []))"
| "relay_receive_packet decode pong (WsPong b # evs) = relay_receive_packet decode pong evs"
| "relay_receive_packet decode pong (WsRaw # evs) = relay_receive_packet decode pong evs"
| "relay_receive_packet decode pong (WsText s # evs) =
     (Some (Err (RelayError ''relay returned an unexpected text frame'')), [])"
| "relay_receive_packet decode pong (WsClose # evs) = (Some (Err (RelayError ''relay connection closed'')), [])"
| "relay_receive_packet decode pong (WsEnd # evs) = (Some (Err (RelayError ''relay connection closed'')), [])"
| "relay_receive_packet decode pong (WsError # evs) = (Some (Err (RelayError ''relay receive failed'')), [])"

section \<open>The tunnel\<close>

definition NATIVE_TUNNEL_FRAME_BYTES :: nat where "NATIVE_TUNNEL_FRAME_BYTES = 16 * 1024"

record tunnel =
  tn_arrived :: bytes
  tn_read :: nat
  tn_eof :: bool
  tn_pending :: "ws_message option"
  tn_out :: "ws_message list"
  tn_written :: bytes
  tn_result :: "(transport_error + unit) option"

definition tunnel_start :: tunnel where
  "tunnel_start = \<lparr>tn_arrived = [], tn_read = 0, tn_eof = False, tn_pending = None, tn_out = [],
     tn_written = [], tn_result = None\<rparr>"

text \<open>
  What can happen: the emulator writes to the local stream, or closes it; a read completes with
  at most the given number of bytes, or fails; the pending WebSocket send completes or fails; a frame
  arrives, and the write it leads to completes (\<open>None\<close>) or fails after some bytes.
\<close>

datatype tunnel_event =
  Arrive bytes | LocalEof | ReadReady nat | ReadFails | SendDone bool | Incoming ws_event "nat option"

definition tunnel_fail :: "string \<Rightarrow> tunnel \<Rightarrow> tunnel" where
  "tunnel_fail m t = t\<lparr>tn_result := Some (Err (RelayError m))\<rparr>"

text \<open>\<open>tcp_to_relay\<close>: one read, into a buffer of the frame size; and the send of what was read.\<close>

definition tunnel_read :: "nat \<Rightarrow> tunnel \<Rightarrow> tunnel" where
  "tunnel_read n t =
     (if tn_pending t \<noteq> None then t
      else (let count = min (Suc n) (min NATIVE_TUNNEL_FRAME_BYTES (length (tn_arrived t) - tn_read t))
        in if count > 0
           then t\<lparr>tn_read := tn_read t + count,
                  tn_pending := Some (MsgBinary (take count (drop (tn_read t) (tn_arrived t))))\<rparr>
           else if tn_eof t then t\<lparr>tn_pending := Some MsgClose\<rparr>
           else t))"

definition tunnel_sent :: "bool \<Rightarrow> tunnel \<Rightarrow> tunnel" where
  "tunnel_sent ok t =
     (case tn_pending t of
        None \<Rightarrow> t
      | Some m \<Rightarrow>
          (if \<not> ok
           then tunnel_fail (if m = MsgClose then ''native tunnel close failed'' else ''native tunnel send failed'') t
           else t\<lparr>tn_out := tn_out t @ [m], tn_pending := None,
                  tn_result := (if m = MsgClose then Some (Ok ()) else tn_result t)\<rparr>))"

text \<open>\<open>relay_to_tcp\<close>: one frame from the relay.\<close>

definition tunnel_frame :: "ws_event \<Rightarrow> nat option \<Rightarrow> tunnel \<Rightarrow> tunnel" where
  "tunnel_frame ev wr t =
     (case ev of
        WsBinary b \<Rightarrow>
          (if length b \<le> NATIVE_TUNNEL_FRAME_BYTES
           then (case wr of
               None \<Rightarrow> t\<lparr>tn_written := tn_written t @ b\<rparr>
             | Some k \<Rightarrow> tunnel_fail ''native TCP write failed'' (t\<lparr>tn_written := tn_written t @ take k b\<rparr>))
           else tunnel_fail ''native tunnel frame exceeds 16 KiB'' t)
      | WsPing _ \<Rightarrow> t
      | WsPong _ \<Rightarrow> t
      | WsClose \<Rightarrow> t\<lparr>tn_result := Some (Ok ())\<rparr>
      | WsEnd \<Rightarrow> t\<lparr>tn_result := Some (Ok ())\<rparr>
      | WsText _ \<Rightarrow> tunnel_fail ''native tunnel received an invalid frame'' t
      | WsRaw \<Rightarrow> tunnel_fail ''native tunnel received an invalid frame'' t
      | WsError \<Rightarrow> tunnel_fail ''native tunnel receive failed'' t)"

text \<open>The \<open>select!\<close>: whichever loop ends first ends the tunnel.\<close>

definition tunnel_step :: "tunnel_event \<Rightarrow> tunnel \<Rightarrow> tunnel" where
  "tunnel_step e t =
     (if tn_result t \<noteq> None then t
      else case e of
        Arrive b \<Rightarrow> (if tn_eof t then t else t\<lparr>tn_arrived := tn_arrived t @ b\<rparr>)
      | LocalEof \<Rightarrow> t\<lparr>tn_eof := True\<rparr>
      | ReadReady n \<Rightarrow> tunnel_read n t
      | ReadFails \<Rightarrow> (if tn_pending t \<noteq> None then t else tunnel_fail ''native TCP read failed'' t)
      | SendDone ok \<Rightarrow> tunnel_sent ok t
      | Incoming ev wr \<Rightarrow> tunnel_frame ev wr t)"

definition run_tunnel :: "tunnel_event list \<Rightarrow> tunnel" where
  "run_tunnel evs = fold tunnel_step evs tunnel_start"

definition run_native_tcp_tunnel ::
    "(string \<Rightarrow> url option) \<Rightarrow> (uuid \<Rightarrow> string) \<Rightarrow> (url \<Rightarrow> (string \<times> string) list \<Rightarrow> unit option) \<Rightarrow> string \<Rightarrow> relay_ticket \<Rightarrow>
     tunnel_event list \<Rightarrow> tunnel" where
  "run_native_tcp_tunnel parse_url show_uuid open relay_url ticket evs =
     (case relay_connect parse_url show_uuid open tunnel_messages relay_url ticket of
        Inl e \<Rightarrow> tunnel_start\<lparr>tn_result := Some (Err e)\<rparr>
      | Inr _ \<Rightarrow> run_tunnel evs)"

section \<open>The bytes of a stream\<close>

fun frame_bytes :: "ws_message \<Rightarrow> bytes" where
  "frame_bytes (MsgBinary b) = b"
| "frame_bytes _ = []"

definition binary_frames :: "ws_message list \<Rightarrow> bytes list" where
  "binary_frames ms = List.map_filter (\<lambda>m. case m of MsgBinary b \<Rightarrow> Some b | _ \<Rightarrow> None) ms"

text \<open>The binary frames a tunnel receives.\<close>

definition delivered_frames :: "tunnel_event list \<Rightarrow> bytes list" where
  "delivered_frames evs = List.map_filter (\<lambda>e. case e of Incoming (WsBinary b) _ \<Rightarrow> Some b | _ \<Rightarrow> None) evs"

lemma binary_frames_simps [simp]:
  "binary_frames [] = []"
  "binary_frames (MsgBinary b # ms) = b # binary_frames ms"
  "binary_frames (xs @ ys) = binary_frames xs @ binary_frames ys"
  "binary_frames (MsgClose # ms) = binary_frames ms"
  by (auto simp: binary_frames_def List.map_filter_def)

lemma delivered_frames_simps [simp]:
  "delivered_frames [] = []"
  "delivered_frames (evs @ evs') = delivered_frames evs @ delivered_frames evs'"
  by (auto simp: delivered_frames_def List.map_filter_def)

lemma delivered_frames_one:
  "delivered_frames [e] = (case e of Incoming (WsBinary b) _ \<Rightarrow> [b] | _ \<Rightarrow> [])"
  by (auto simp: delivered_frames_def List.map_filter_def split: tunnel_event.splits ws_event.splits)

text \<open>Frames that a tunnel sends are neither empty nor too long for the peer and for the relay.\<close>

definition frame_ok :: "bytes \<Rightarrow> bool" where
  "frame_ok b \<longleftrightarrow> b \<noteq> [] \<and> length b \<le> NATIVE_TUNNEL_FRAME_BYTES"

definition out_ok :: "ws_message \<Rightarrow> bool" where
  "out_ok m \<longleftrightarrow> (case m of MsgBinary b \<Rightarrow> frame_ok b | MsgClose \<Rightarrow> True | _ \<Rightarrow> False)"

definition pending_bytes :: "tunnel \<Rightarrow> bytes" where
  "pending_bytes t = (case tn_pending t of None \<Rightarrow> [] | Some m \<Rightarrow> frame_bytes m)"

definition tunnel_inv :: "tunnel \<Rightarrow> bool" where
  "tunnel_inv t \<longleftrightarrow>
     tn_read t \<le> length (tn_arrived t)
     \<and> concat (binary_frames (tn_out t)) @ pending_bytes t = take (tn_read t) (tn_arrived t)
     \<and> list_all out_ok (tn_out t)
     \<and> (case tn_pending t of None \<Rightarrow> True | Some m \<Rightarrow> out_ok m)
     \<and> ((MsgClose \<in> set (tn_out t) \<or> tn_pending t = Some MsgClose) \<longrightarrow> tn_eof t \<and> tn_read t = length (tn_arrived t))
     \<and> (MsgClose \<in> set (tn_out t) \<longrightarrow> tn_result t = Some (Ok ()) \<and> tn_pending t = None)"

lemma tunnel_inv_start: "tunnel_inv tunnel_start"
  by (simp add: tunnel_inv_def tunnel_start_def pending_bytes_def)

lemma tunnel_inv_read:
  assumes "tunnel_inv t" "tn_result t = None"
  shows "tunnel_inv (tunnel_read n t)"
proof -
  let ?rest = "length (tn_arrived t) - tn_read t"
  let ?count = "min (Suc n) (min NATIVE_TUNNEL_FRAME_BYTES ?rest)"
  show ?thesis
  proof (cases "tn_pending t \<noteq> None")
    case False
    then have none: "tn_pending t = None" by simp
    show ?thesis
    proof (cases "?count > 0")
      case True
      then have le: "tn_read t + ?count \<le> length (tn_arrived t)" by linarith
      have no_close: "MsgClose \<notin> set (tn_out t)" using assms by (auto simp: tunnel_inv_def)
      have "take (tn_read t + ?count) (tn_arrived t) =
          take (tn_read t) (tn_arrived t) @ take ?count (drop (tn_read t) (tn_arrived t))"
        by (rule take_add)
      moreover have "frame_ok (take ?count (drop (tn_read t) (tn_arrived t)))"
        using True by (auto simp: frame_ok_def)
      ultimately show ?thesis
        using assms none True le no_close
        by (simp add: tunnel_read_def Let_def tunnel_inv_def pending_bytes_def out_ok_def)
    next
      case False
      then have "tn_read t \<ge> length (tn_arrived t)" by (auto simp: NATIVE_TUNNEL_FRAME_BYTES_def)
      with assms none False show ?thesis
        by (auto simp: tunnel_read_def Let_def tunnel_inv_def pending_bytes_def out_ok_def)
    qed
  qed (use assms in \<open>simp add: tunnel_read_def\<close>)
qed

lemma tunnel_inv_fail: "tunnel_inv t \<Longrightarrow> tn_result t = None \<Longrightarrow> tunnel_inv (tunnel_fail m t)"
  by (auto simp: tunnel_inv_def tunnel_fail_def pending_bytes_def)

lemma tunnel_inv_written:
  "tunnel_inv (t\<lparr>tn_written := w\<rparr>) \<longleftrightarrow> tunnel_inv t"
  by (simp add: tunnel_inv_def pending_bytes_def)

lemma tunnel_inv_sent:
  assumes "tunnel_inv t" "tn_result t = None"
  shows "tunnel_inv (tunnel_sent ok t)"
proof (cases "tn_pending t")
  case (Some m)
  show ?thesis
  proof (cases ok)
    case True
    with assms Some show ?thesis
      by (cases m) (auto simp: tunnel_sent_def tunnel_inv_def pending_bytes_def out_ok_def)
  qed (use assms Some in \<open>simp add: tunnel_sent_def tunnel_inv_fail\<close>)
qed (use assms in \<open>simp add: tunnel_sent_def\<close>)

lemma tunnel_inv_frame:
  assumes "tunnel_inv t" "tn_result t = None"
  shows "tunnel_inv (tunnel_frame ev wr t)"
proof -
  have ended: "tunnel_inv (t\<lparr>tn_result := Some (Ok ())\<rparr>)"
    using assms by (auto simp: tunnel_inv_def pending_bytes_def)
  have failed: "tunnel_inv (tunnel_fail m (t\<lparr>tn_written := w\<rparr>))" for m w
    by (rule tunnel_inv_fail) (use assms in \<open>simp_all add: tunnel_inv_written\<close>)
  have failed': "tunnel_inv (tunnel_fail m t)" for m using assms by (rule tunnel_inv_fail)
  show ?thesis
    using assms ended failed failed'
    by (cases ev) (simp_all add: tunnel_frame_def tunnel_inv_written split: option.split)
qed

lemma tunnel_inv_arrive:
  assumes "tunnel_inv t" "tn_result t = None" "\<not> tn_eof t"
  shows "tunnel_inv (t\<lparr>tn_arrived := tn_arrived t @ b\<rparr>)"
  using assms by (auto simp: tunnel_inv_def pending_bytes_def)

lemma tunnel_inv_step: "tunnel_inv t \<Longrightarrow> tunnel_inv (tunnel_step e t)"
  by (cases "tn_result t"; cases e)
    (auto simp: tunnel_step_def tunnel_inv_read tunnel_inv_sent tunnel_inv_frame tunnel_inv_fail tunnel_inv_arrive,
     auto simp: tunnel_inv_def pending_bytes_def)

interpretation tunnels: invariant_system "\<lambda>t. t = tunnel_start" "\<lambda>t t'. \<exists>e. t' = tunnel_step e t" tunnel_inv
  by unfold_locales (auto simp: tunnel_inv_start tunnel_inv_step)

lemma tunnel_run_steps: "(\<lambda>t t'. \<exists>e. t' = tunnel_step e t)\<^sup>*\<^sup>* t (fold tunnel_step evs t)"
  by (induction evs arbitrary: t) (auto intro: converse_rtranclp_into_rtranclp)

lemma run_tunnel_inv: "tunnel_inv (run_tunnel evs)"
  unfolding run_tunnel_def by (rule tunnels.steps_inv [OF tunnel_inv_start tunnel_run_steps])

section \<open>What is written\<close>

text \<open>What a tunnel writes to its local stream is the beginning of the frames it received; all of
  them while it runs.\<close>

definition written_inv :: "bytes list \<Rightarrow> tunnel \<Rightarrow> bool" where
  "written_inv fs t \<longleftrightarrow>
     prefix (tn_written t) (concat fs) \<and> (tn_result t = None \<longrightarrow> tn_written t = concat fs)"

lemma tunnel_read_written [simp]:
  "tn_written (tunnel_read n t) = tn_written t" "tn_result (tunnel_read n t) = tn_result t"
  by (auto simp: tunnel_read_def Let_def)

lemma tunnel_sent_written [simp]: "tn_written (tunnel_sent ok t) = tn_written t"
  by (auto simp: tunnel_sent_def tunnel_fail_def split: option.splits)

lemma tunnel_sent_running: "tn_result (tunnel_sent ok t) = None \<Longrightarrow> tn_result t = None"
  by (auto simp: tunnel_sent_def tunnel_fail_def split: option.splits if_splits)

lemma written_step:
  assumes "written_inv fs t"
  shows "written_inv (fs @ delivered_frames [e]) (tunnel_step e t)"
proof (cases "tn_result t")
  case None
  then have all: "tn_written t = concat fs" using assms by (simp add: written_inv_def)
  show ?thesis
  proof (cases e)
    case (Incoming ev wr)
    then show ?thesis
      using None all
      by (cases ev) (auto simp: tunnel_step_def tunnel_frame_def written_inv_def delivered_frames_one tunnel_fail_def
          take_is_prefix split: option.splits)
  qed (use None all in \<open>auto simp: tunnel_step_def written_inv_def delivered_frames_one tunnel_fail_def
        dest: tunnel_sent_running\<close>)
next
  case (Some r)
  have "prefix (tn_written t) (concat fs @ concat (delivered_frames [e]))"
    using assms by (auto simp: written_inv_def intro: prefix_prefix)
  with Some show ?thesis by (simp add: tunnel_step_def written_inv_def)
qed

lemma written_run:
  "written_inv fs t \<Longrightarrow> written_inv (fs @ delivered_frames evs) (fold tunnel_step evs t)"
proof (induction evs arbitrary: fs t)
  case (Cons e evs)
  have "written_inv ((fs @ delivered_frames [e]) @ delivered_frames evs) (fold tunnel_step evs (tunnel_step e t))"
    by (rule Cons.IH [OF written_step [OF Cons.prems]])
  moreover have "delivered_frames (e # evs) = delivered_frames [e] @ delivered_frames evs"
    using delivered_frames_simps(2) [of "[e]" evs] by simp
  ultimately show ?case by simp
qed simp

lemma run_tunnel_written: "written_inv (delivered_frames evs) (run_tunnel evs)"
  using written_run [of "[]" tunnel_start evs] by (simp add: run_tunnel_def written_inv_def tunnel_start_def)

text \<open>Only a frame that is too long leads to the error for it.\<close>

lemma oversize_step:
  assumes "tn_result (tunnel_step e t) = Some (Err (RelayError ''native tunnel frame exceeds 16 KiB''))"
    and "tn_result t \<noteq> Some (Err (RelayError ''native tunnel frame exceeds 16 KiB''))"
  shows "\<exists>b \<in> set (delivered_frames [e]). length b > NATIVE_TUNNEL_FRAME_BYTES"
proof (cases "tn_result t")
  case None
  show ?thesis
  proof (cases e)
    case (Incoming ev wr)
    with assms None show ?thesis
      by (cases ev) (auto simp: tunnel_step_def tunnel_frame_def delivered_frames_one tunnel_fail_def
          split: option.splits if_splits)
  qed (use assms None in \<open>auto simp: tunnel_step_def tunnel_fail_def tunnel_sent_def split: option.splits if_splits\<close>)
qed (use assms in \<open>simp add: tunnel_step_def\<close>)

lemma oversize_run:
  assumes "list_all (\<lambda>b. length b \<le> NATIVE_TUNNEL_FRAME_BYTES) (delivered_frames evs)"
    and "tn_result t \<noteq> Some (Err (RelayError ''native tunnel frame exceeds 16 KiB''))"
  shows "tn_result (fold tunnel_step evs t) \<noteq> Some (Err (RelayError ''native tunnel frame exceeds 16 KiB''))"
  using assms
proof (induction evs arbitrary: t)
  case (Cons e evs)
  have split: "delivered_frames (e # evs) = delivered_frames [e] @ delivered_frames evs"
    using delivered_frames_simps(2) [of "[e]" evs] by simp
  have "tn_result (tunnel_step e t) \<noteq> Some (Err (RelayError ''native tunnel frame exceeds 16 KiB''))"
  proof
    assume "tn_result (tunnel_step e t) = Some (Err (RelayError ''native tunnel frame exceeds 16 KiB''))"
    from oversize_step [OF this Cons.prems(2)]
    obtain b where "b \<in> set (delivered_frames [e])" "length b > NATIVE_TUNNEL_FRAME_BYTES" by blast
    with Cons.prems(1) show False unfolding split list_all_append list_all_iff by (auto simp: not_less [symmetric])
  qed
  with Cons.IH Cons.prems show ?case by (simp add: split)
qed simp

section \<open>Two tunnels and the relay between them\<close>

lemma tunnel_out_prefix: "prefix (concat (binary_frames (tn_out (run_tunnel evs)))) (tn_arrived (run_tunnel evs))"
proof -
  let ?t = "run_tunnel evs"
  have "concat (binary_frames (tn_out ?t)) @ pending_bytes ?t = take (tn_read ?t) (tn_arrived ?t)"
    using run_tunnel_inv [of evs] by (simp add: tunnel_inv_def)
  then have "prefix (concat (binary_frames (tn_out ?t))) (take (tn_read ?t) (tn_arrived ?t))"
    by (metis prefixI)
  then show ?thesis using take_is_prefix prefix_order.trans by blast
qed

lemma out_ok_binary: "list_all out_ok ms \<Longrightarrow> list_all frame_ok (binary_frames ms)"
  by (induction ms) (auto simp: out_ok_def binary_frames_def List.map_filter_def split: ws_message.splits)

lemma tunnel_out_frames: "list_all frame_ok (binary_frames (tn_out (run_tunnel evs)))"
  using run_tunnel_inv [of evs] out_ok_binary by (simp add: tunnel_inv_def)

lemma prefix_frames: "list_all P ys \<Longrightarrow> prefix xs ys \<Longrightarrow> list_all P xs"
  by (auto simp: prefix_def)

lemma prefix_concat: "prefix xs ys \<Longrightarrow> prefix (concat xs) (concat ys)"
  by (auto simp: prefix_def)


definition demo_sender :: "tunnel_event list" where
  "demo_sender = [Arrive [1, 2, 3], ReadReady 1, SendDone True, ReadReady 7, SendDone True, LocalEof, ReadReady 0, SendDone True]"

definition demo_receiver :: "tunnel_event list" where
  "demo_receiver = [Incoming (WsPing []) None, Incoming (WsBinary [1, 2]) None]"

lemmas tunnel_eval = run_tunnel_def tunnel_start_def tunnel_step_def tunnel_read_def tunnel_sent_def tunnel_frame_def
  NATIVE_TUNNEL_FRAME_BYTES_def Let_def

lemma demo_sender_run:
  "run_tunnel demo_sender = \<lparr>tn_arrived = [1, 2, 3], tn_read = 3, tn_eof = True, tn_pending = None,
     tn_out = [MsgBinary [1, 2], MsgBinary [3], MsgClose], tn_written = [], tn_result = Some (Ok ())\<rparr>"
  by (simp add: demo_sender_def tunnel_eval)

lemma demo_receiver_run: "tn_written (run_tunnel demo_receiver) = [1, 2] \<and> tn_result (run_tunnel demo_receiver) = None"
  by (simp add: demo_receiver_def tunnel_eval)


text \<open>The relay on a frame of a tunnel, while the connection keeps to the rate limit: with room in
  the peer's queue it is forwarded unchanged.\<close>

lemma tunnel_frame_forwarded:
  assumes "frame_ok b" "rc_capability c = NativeTcpTunnel"
    and "exceeds_rate_limit now (of_nat (length b)) (rc_window c) = (False, w)"
    and "rs_rooms st (rc_room_key c) = [(user, rc_id c), (user', peer)]" "peer \<noteq> rc_id c"
    and "channel_try_send (rs_queues st peer) (MsgBinary b) = Ok q"
  shows "relay_receive codec now (MsgBinary b) c st =
    (Some (c\<lparr>rc_window := w\<rparr>), st\<lparr>rs_queues := (rs_queues st)(peer := q)\<rparr>)"
  using assms
  by (simp add: relay_receive_def relay_binary_def broadcast_message_def post_def frame_ok_def
      NATIVE_TUNNEL_FRAME_BYTES_def Let_def)

text \<open>When the peer's queue is full, or the peer has not joined yet, the frame is dropped: the state is as
  before, the connection goes on, and neither side is told.\<close>

lemma tunnel_frame_dropped:
  assumes "frame_ok b" "rc_capability c = NativeTcpTunnel"
    and "exceeds_rate_limit now (of_nat (length b)) (rc_window c) = (False, w)"
    and "rs_rooms st (rc_room_key c) = [(user, rc_id c)]
      \<or> (rs_rooms st (rc_room_key c) = [(user, rc_id c), (user', peer)] \<and> peer \<noteq> rc_id c
         \<and> channel_try_send (rs_queues st peer) (MsgBinary b) = Err e)"
  shows "relay_receive codec now (MsgBinary b) c st = (Some (c\<lparr>rc_window := w\<rparr>), st)"
  using assms
  by (auto simp: relay_receive_def relay_binary_def broadcast_message_def post_def frame_ok_def
      NATIVE_TUNNEL_FRAME_BYTES_def Let_def)

text \<open>After a dropped frame the receiver writes a stream that is not the sender's, without an error.\<close>

lemma tunnel_gap_corrupts:
  "subseq (delivered_frames [Incoming (WsBinary [3]) None]) (binary_frames (tn_out (run_tunnel demo_sender)))
    \<and> tn_written (run_tunnel [Incoming (WsBinary [3]) None]) = [3]
    \<and> tn_result (run_tunnel [Incoming (WsBinary [3]) None]) = None
    \<and> \<not> prefix [3] (tn_arrived (run_tunnel demo_sender))"
  by (simp add: demo_sender_run delivered_frames_one) (simp add: tunnel_eval)

text \<open>The packet transport answers pings and takes the first binary frame after them.\<close>

lemma relay_receive_packet_first:
  assumes "list_all pong bs" "decode b = Ok p"
  shows "relay_receive_packet decode pong (map WsPing bs @ WsBinary b # evs) = (Some (Ok p), map MsgPong bs)"
  using assms by (induction bs) auto

end
