(* ===== verification/Evidence_Routes.thy ===== *)
theory Evidence_Routes
  imports Alpha_Routes Campaign
begin

text \<open>
  The evidence ledger (\<open>apps/server/src/routes/alpha_evidence.rs\<close>): the submission in the steps of the
  code, which is the transition \<open>submit_evidence\<close> of the server; and the read side, the operator's
  campaign summary over the most recent rooms, and the public compatibility table with its cohort
  gate and its cache.  \<open>created\<close> is the \<open>created_at\<close> column of \<open>alpha_evidence\<close>; clock readings and
  the outcome of the operator check are arguments.
\<close>

section \<open>Submission, step by step\<close>

text \<open>\<open>decode_evidence\<close>: the decoders of the two report types, the UUID parser and the canonical JSON are
  parameters; the third component tells the kind.\<close>

record evidence_decoders =
  dc_match :: "json \<Rightarrow> match_report option"
  dc_failure :: "json \<Rightarrow> alpha_failure_report option"
  dc_uuid :: "string \<Rightarrow> uuid option"
  dc_canonical :: "evidence_payload \<Rightarrow> json"
  dc_digest :: "json \<Rightarrow> string"

definition parse_evidence_room :: "evidence_decoders \<Rightarrow> string \<Rightarrow> app_error + uuid" where
  "parse_evidence_room dc s = ok_or (dc_uuid dc s) (BadRequest ''evidence room id is invalid'')"

definition decode_evidence ::
    "evidence_decoders \<Rightarrow> json \<Rightarrow> app_error + (uuid \<times> match_report_role \<times> string \<times> evidence_payload)" where
  "decode_evidence dc v =
     (case json_get ''kind'' v of
        None \<Rightarrow>
          (case ok_or (dc_match dc v) (BadRequest ''match evidence is invalid'') of Inl e \<Rightarrow> Err e | Inr report \<Rightarrow>
          (case parse_evidence_room dc (mr_room_id (rep_room report)) of Inl e \<Rightarrow> Err e | Inr rid \<Rightarrow>
             Ok (rid, pr_role (rep_probe report), ''match'', MatchEvidence report)))
      | Some k \<Rightarrow>
          (if k = JStr ''attempt_failure''
           then (case ok_or (dc_failure dc v) (BadRequest ''failure evidence is invalid'') of Inl e \<Rightarrow> Err e | Inr report \<Rightarrow>
                (case parse_evidence_room dc (mr_room_id (fail_room report)) of Inl e \<Rightarrow> Err e | Inr rid \<Rightarrow>
                   Ok (rid, fail_role report, ''attempt_failure'', FailureEvidence report)))
           else Err (BadRequest ''evidence kind is invalid'')))"

record evidence_context =
  ec_role :: match_report_role
  ec_game_id :: string
  ec_state :: room_state

definition evidence_room_context :: "uuid \<Rightarrow> uuid \<Rightarrow> db \<Rightarrow> app_error + evidence_context" where
  "evidence_room_context rid user d =
     (case (if is_member d rid user then find_room d rid else None) of
        None \<Rightarrow> Err (Forbidden ''not a room member'')
      | Some r \<Rightarrow> Ok \<lparr>ec_role = (if r_host r = user then RoleHost else RoleGuest), ec_game_id = r_game r,
                     ec_state = r_state r\<rparr>)"

definition evidence_kind :: "evidence_payload \<Rightarrow> string" where
  "evidence_kind p = (case p of MatchEvidence _ \<Rightarrow> ''match'' | FailureEvidence _ \<Rightarrow> ''attempt_failure'')"

text \<open>\<open>INSERT \<dots> ON CONFLICT DO NOTHING\<close> under the two unique keys: the digest, and room, submitter and kind.\<close>

definition insert_evidence :: "evidence_row \<Rightarrow> db \<Rightarrow> nat \<times> db" where
  "insert_evidence row d =
     (if list_ex (\<lambda>e. e_digest e = e_digest row
          \<or> (e_room e = e_room row \<and> e_by e = e_by row \<and> evidence_kind (e_payload e) = evidence_kind (e_payload row)))
        (db_evidence d)
      then (0, d) else (1, d\<lparr>db_evidence := db_evidence d @ [row]\<rparr>))"

definition reject_conflicting_duplicate ::
    "uuid \<Rightarrow> uuid \<Rightarrow> string \<Rightarrow> string \<Rightarrow> nat \<Rightarrow> db \<Rightarrow> app_error + unit" where
  "reject_conflicting_duplicate rid user kind digest rows_affected d =
     (if rows_affected = 1 then Ok ()
      else case find (\<lambda>e. e_room e = rid \<and> e_by e = user \<and> evidence_kind (e_payload e) = kind) (db_evidence d) of
        None \<Rightarrow> Ok ()
      | Some e \<Rightarrow>
          (if e_digest e \<noteq> digest
           then Err (Conflict ''different evidence already exists for this attempt and role'') else Ok ()))"

definition evidence_game :: "json \<Rightarrow> string option" where
  "evidence_game canonical =
     (case json_get ''room'' canonical of
        None \<Rightarrow> None
      | Some room \<Rightarrow> (case json_get ''game_id'' room of Some (JStr s) \<Rightarrow> Some s | _ \<Rightarrow> None))"

definition submit_evidence_request ::
    "evidence_decoders \<Rightarrow> request_env \<Rightarrow> nat \<Rightarrow> json \<Rightarrow> db \<Rightarrow> reply outcome" where
  "submit_evidence_request dc env raw_size evidence d =
     (if raw_size > 64 * 1024 then (Err (BadRequest ''evidence exceeds the 64 KiB limit''), d)
      else case decode_evidence dc evidence of Inl e \<Rightarrow> (Err e, d) | Inr (rid, role, kind, payload) \<Rightarrow>
     (let canonical = dc_canonical dc payload in
      if contains_private_key canonical then (Err (BadRequest ''evidence contains private fields''), d)
      else case evidence_room_context rid (q_user env) d of Inl e \<Rightarrow> (Err e, d) | Inr context \<Rightarrow>
        (if role \<noteq> ec_role context
         then (Err (Forbidden ''evidence role does not match room membership''), d)
         else if evidence_game canonical \<noteq> Some (ec_game_id context)
         then (Err (BadRequest ''evidence game does not match the authoritative room''), d)
         else if kind = ''match'' \<and> ec_state context \<noteq> Finished
         then (Err (Conflict ''successful match evidence requires an authoritative finished room''), d)
         else
           (let digest = dc_digest dc canonical;
                row = \<lparr>e_digest = digest, e_room = rid, e_by = q_user env, e_role = role, e_payload = payload\<rparr>
            in case insert_evidence row d of (rows_affected, d') \<Rightarrow>
              (case reject_conflicting_duplicate rid (q_user env) kind digest rows_affected d' of
                 Inl e \<Rightarrow> (Err e, d')
               | Inr _ \<Rightarrow>
                   (Ok (if rows_affected = 0
                        then ok_reply ''alpha.evidence.accepted'' (BodyEvidence digest True)
                        else created_reply ''alpha.evidence.accepted'' (BodyEvidence digest False)), d'))))))"

text \<open>The request seen as the transition of the server: what the parameters of \<open>submit_evidence\<close> stand
  for.\<close>

definition decoded_payload :: "evidence_decoders \<Rightarrow> json \<Rightarrow> app_error + evidence_payload" where
  "decoded_payload dc v =
     (case decode_evidence dc v of Inl e \<Rightarrow> Err e | Inr (_, _, _, payload) \<Rightarrow> Ok payload)"

definition evidence_env_of :: "evidence_decoders \<Rightarrow> nat \<Rightarrow> json \<Rightarrow> evidence_env" where
  "evidence_env_of dc raw_size v =
     \<lparr>ex_raw_size = raw_size, ex_decoded = decoded_payload dc v, ex_room = dc_uuid dc,
      ex_canonical = dc_canonical dc, ex_digest = (\<lambda>p. dc_digest dc (dc_canonical dc p))\<rparr>"

lemma same_kind_iff: "same_kind a b \<longleftrightarrow> evidence_kind a = evidence_kind b"
  by (cases a; cases b) (simp_all add: same_kind_def evidence_kind_def)

lemma decode_evidence_ok:
  assumes "decode_evidence dc v = Ok (rid, role, kind, p)"
  shows "dc_uuid dc (mr_room_id (payload_room p)) = Some rid \<and> role = payload_role p \<and> kind = evidence_kind p"
  using assms
  by (auto simp: decode_evidence_def parse_evidence_room_def ok_or_def evidence_kind_def
      split: option.splits sum.splits if_splits)

text \<open>The stored row and the verdict on duplicates, as the code's three statements and as the transition states them.\<close>

lemma store_evidence:
  fixes row :: evidence_row and d :: db
  defines "dup \<equiv> list_ex (\<lambda>e. e_digest e = e_digest row
      \<or> (e_room e = e_room row \<and> e_by e = e_by row \<and> same_kind (e_payload e) (e_payload row))) (db_evidence d)"
  shows "insert_evidence row d = (if dup then (0, d) else (1, d\<lparr>db_evidence := db_evidence d @ [row]\<rparr>))"
    and "reject_conflicting_duplicate (e_room row) (e_by row) (evidence_kind (e_payload row)) (e_digest row)
           (fst (insert_evidence row d)) (snd (insert_evidence row d)) =
         (if dup \<and> (case find (\<lambda>e. e_room e = e_room row \<and> e_by e = e_by row
                \<and> same_kind (e_payload e) (e_payload row)) (db_evidence d) of
              None \<Rightarrow> False | Some e \<Rightarrow> e_digest e \<noteq> e_digest row)
          then Err (Conflict ''different evidence already exists for this attempt and role'') else Ok ())"
  by (auto simp: insert_evidence_def reject_conflicting_duplicate_def same_kind_iff dup_def split: option.splits)

lemma decode_evidence_cases:
  assumes "decoded_payload dc v = Ok p"
  obtains rid where "decode_evidence dc v = Ok (rid, payload_role p, evidence_kind p, p)"
    "dc_uuid dc (mr_room_id (payload_room p)) = Some rid"
proof -
  from assms obtain rid role kind where dec: "decode_evidence dc v = Ok (rid, role, kind, p)"
    by (cases "decode_evidence dc v") (auto simp: decoded_payload_def)
  with decode_evidence_ok [OF dec] show thesis by (intro that) simp_all
qed

lemma evidence_submission_steps:
  assumes canonical: "\<And>p. evidence_game (dc_canonical dc p) = Some (mr_game_id (payload_room p))"
  shows "submit_evidence_request dc env raw_size v d = submit_evidence env (evidence_env_of dc raw_size v) d"
proof (cases "decoded_payload dc v")
  case (Inl e)
  then have "decode_evidence dc v = Err e"
    by (auto simp: decoded_payload_def split: sum.splits prod.splits)
  with Inl show ?thesis
    by (simp add: submit_evidence_request_def submit_evidence_def evidence_env_of_def)
next
  case (Inr p)
  then obtain rid where dec: "decode_evidence dc v = Ok (rid, payload_role p, evidence_kind p, p)"
    and rid: "dc_uuid dc (mr_room_id (payload_room p)) = Some rid" by (rule decode_evidence_cases)
  define row where "row = \<lparr>e_digest = dc_digest dc (dc_canonical dc p), e_room = rid, e_by = q_user env,
      e_role = payload_role p, e_payload = p\<rparr>"
  have kind: "(evidence_kind p = ''match'') = (case p of MatchEvidence _ \<Rightarrow> True | _ \<Rightarrow> False)"
    by (cases p) (simp_all add: evidence_kind_def)
  note store = store_evidence [of row d, unfolded row_def evidence_row.simps]
  show ?thesis
  proof (cases "if is_member d rid (q_user env) then find_room d rid else None")
    case None
    with dec rid Inr show ?thesis
      by (simp add: submit_evidence_request_def submit_evidence_def evidence_env_of_def evidence_room_context_def
          Let_def)
  next
    case (Some r)
    then have ctx: "evidence_room_context rid (q_user env) d =
        Ok \<lparr>ec_role = (if r_host r = q_user env then RoleHost else RoleGuest), ec_game_id = r_game r,
            ec_state = r_state r\<rparr>"
      unfolding evidence_room_context_def by simp
    show ?thesis
      unfolding submit_evidence_request_def submit_evidence_def evidence_env_of_def evidence_env.simps
        Inr dec rid sum.case prod.case option.case Let_def canonical ctx Some kind evidence_context.simps store(1)
      using store(2) [unfolded store(1)]
      by (auto split: sum.splits option.splits if_splits)
  qed
qed

section \<open>The campaign summary\<close>

definition COHORT_LIMIT :: nat where "COHORT_LIMIT = 500"

record campaign_reply =
  cy_summary :: campaign_summary
  cy_cohort_limit :: nat
  cy_total_evidence_rooms :: nat
  cy_cohort_truncated :: bool

definition evidence_rooms :: "db \<Rightarrow> uuid list" where
  "evidence_rooms d = remdups (map e_room (db_evidence d))"

text \<open>\<open>WITH recent_rooms AS (SELECT room_id, MAX(created_at) AS latest \<dots>)\<close>.\<close>

definition latest_evidence :: "(evidence_row \<Rightarrow> instant) \<Rightarrow> db \<Rightarrow> uuid \<Rightarrow> instant" where
  "latest_evidence created d rid = Max (set (map created (filter (\<lambda>e. e_room e = rid) (db_evidence d))))"

definition recent_rooms :: "(evidence_row \<Rightarrow> instant) \<Rightarrow> db \<Rightarrow> uuid list" where
  "recent_rooms created d = take COHORT_LIMIT (sort_key (\<lambda>rid. - latest_evidence created d rid) (evidence_rooms d))"

definition recent_evidence :: "(evidence_row \<Rightarrow> instant) \<Rightarrow> db \<Rightarrow> evidence_row list" where
  "recent_evidence created d =
     sort_key (\<lambda>e. - created e) (filter (\<lambda>e. e_room e \<in> set (recent_rooms created d)) (db_evidence d))"

fun failure_payload :: "evidence_row \<Rightarrow> alpha_failure_report option" where
  "failure_payload e = (case e_payload e of MatchEvidence _ \<Rightarrow> None | FailureEvidence r \<Rightarrow> Some r)"

definition campaign_reply_of ::
    "app_error + unit \<Rightarrow> (evidence_row \<Rightarrow> instant) \<Rightarrow> db \<Rightarrow> app_error + campaign_reply" where
  "campaign_reply_of operator created d =
     (case operator of
        Inl e \<Rightarrow> Err e
      | Inr _ \<Rightarrow>
          (let rows = recent_evidence created d;
               matches = List.map_filter match_payload rows;
               failures = List.map_filter failure_payload rows;
               total_rooms = length (evidence_rooms d)
           in Ok \<lparr>cy_summary = summarize_campaign_evidence matches failures, cy_cohort_limit = COHORT_LIMIT,
                cy_total_evidence_rooms = total_rooms, cy_cohort_truncated = (total_rooms > COHORT_LIMIT)\<rparr>))"

section \<open>The public compatibility table\<close>

definition MINIMUM_COHORT_SIZE :: nat where "MINIMUM_COHORT_SIZE = 3"
definition PUBLIC_COHORT_LIMIT :: nat where "PUBLIC_COHORT_LIMIT = 500"
definition CACHE_TTL :: int where "CACHE_TTL = seconds 30"

text \<open>Game, platform, adapter, emulator version, transport, native route.\<close>

type_synonym cohort_key = "string \<times> string \<times> string \<times> string option \<times> string \<times> native_route_capability"

record public_cohort =
  pc_key :: cohort_key
  pc_attempts :: u32
  pc_verified :: u32

record public_payload =
  pp_schema_version :: u8
  pp_generated_at :: instant
  pp_minimum_cohort_size :: u8
  pp_cohorts :: "public_cohort list"

text \<open>\<open>room_status\<close> with the conjunction \<open>verified\<close> of the samples: all the evidence of the room.\<close>

definition room_status_verified :: "db \<Rightarrow> uuid \<Rightarrow> bool" where
  "room_status_verified d rid \<longleftrightarrow>
     (let group = filter (\<lambda>e. e_room e = rid) (db_evidence d);
          matches = filter (\<lambda>e. match_payload e \<noteq> None) group;
          reports = List.map_filter match_payload group
      in length matches = 2 \<and> length group - length matches = 0
         \<and> count_distinct (map rep_compatibility reports) = 1
         \<and> count_distinct (map rep_native_route reports) = 1
         \<and> length (remdups (map e_role matches)) = 2
         \<and> length (remdups (map (\<lambda>r. pr_transcript_checksum (rep_probe r)) reports)) = 1
         \<and> length (filter complete_report reports) = 2)"

text \<open>The columns of a sample; a report without compatibility data or native route has none.\<close>

definition report_key :: "match_report \<Rightarrow> cohort_key option" where
  "report_key r =
     (case rep_compatibility r of
        None \<Rightarrow> None
      | Some c \<Rightarrow>
          (case rep_native_route r of
             None \<Rightarrow> None
           | Some route \<Rightarrow>
               Some (mr_game_id (rep_room r), cl_platform (rep_client r), co_adapter c, co_emulator_version c,
                 transport_label (pr_transport (rep_probe r)), route)))"

definition evidence_key :: "evidence_row \<Rightarrow> cohort_key option" where
  "evidence_key e = (case match_payload e of None \<Rightarrow> None | Some r \<Rightarrow> report_key r)"

definition samples :: "db \<Rightarrow> (uuid \<times> cohort_key) list" where
  "samples d = remdups (List.map_filter (\<lambda>e. map_option (Pair (e_room e)) (evidence_key e)) (db_evidence d))"

definition cohort_rooms :: "db \<Rightarrow> cohort_key \<Rightarrow> uuid list" where
  "cohort_rooms d k = remdups (map fst (filter (\<lambda>(rid, k'). k' = k) (samples d)))"

text \<open>The \<open>ORDER BY\<close> of the query: a missing version sorts last, a route by its label.\<close>

fun cohort_order :: "cohort_key \<Rightarrow> string \<times> string \<times> string \<times> (bool \<times> string) \<times> string \<times> bool" where
  "cohort_order (game, platform, adapter, version, transport, route) =
     (game, platform, adapter, (case version of None \<Rightarrow> (True, []) | Some v \<Rightarrow> (False, v)), transport, route = TcpTunnel)"

definition cohort_row :: "db \<Rightarrow> cohort_key \<Rightarrow> public_cohort" where
  "cohort_row d k =
     \<lparr>pc_key = k, pc_attempts = u32_of_nat (length (cohort_rooms d k)),
      pc_verified = u32_of_nat (length (filter (room_status_verified d) (cohort_rooms d k)))\<rparr>"

definition public_cohorts :: "db \<Rightarrow> public_cohort list" where
  "public_cohorts d =
     (let keys = filter (\<lambda>k. length (cohort_rooms d k) \<ge> MINIMUM_COHORT_SIZE) (remdups (map snd (samples d)))
      in map (cohort_row d) (take PUBLIC_COHORT_LIMIT (sort_key cohort_order keys)))"

text \<open>\<open>clock\<close> is the monotonic \<open>Instant\<close>, \<open>now\<close> is \<open>Utc::now()\<close>.\<close>

definition public_compatibility ::
    "instant \<Rightarrow> instant \<Rightarrow> db \<Rightarrow> (instant \<times> public_payload) option \<Rightarrow>
     public_payload \<times> (instant \<times> public_payload) option" where
  "public_compatibility clock now d cache =
     (case (case cache of None \<Rightarrow> None
            | Some (created_at, payload) \<Rightarrow> (if clock - created_at < CACHE_TTL then Some payload else None)) of
        Some payload \<Rightarrow> (payload, cache)
      | None \<Rightarrow>
          (let payload = \<lparr>pp_schema_version = 1, pp_generated_at = now, pp_minimum_cohort_size = 3,
                 pp_cohorts = public_cohorts d\<rparr>
           in (payload, Some (clock, payload))))"

section \<open>The summary covers the ledger\<close>

lemma map_filter_filter_mset: "mset (List.map_filter f xs) = image_mset (\<lambda>x. the (f x)) (filter_mset (\<lambda>x. f x \<noteq> None) (mset xs))"
  by (induction xs) (auto simp: map_filter_simps)

lemma map_filter_cong_mset: "mset xs = mset ys \<Longrightarrow> mset (List.map_filter f xs) = mset (List.map_filter f ys)"
  by (simp add: map_filter_filter_mset)

lemma recent_all:
  assumes "length (evidence_rooms d) \<le> COHORT_LIMIT"
  shows "mset (recent_evidence created d) = mset (db_evidence d)"
proof -
  have "set (recent_rooms created d) = set (evidence_rooms d)"
    using assms by (simp add: recent_rooms_def)
  then have "filter (\<lambda>e. e_room e \<in> set (recent_rooms created d)) (db_evidence d) = db_evidence d"
    by (auto simp: evidence_rooms_def intro!: filter_True)
  then show ?thesis by (simp add: recent_evidence_def)
qed

lemma recent_bounded: "length (recent_rooms created d) \<le> COHORT_LIMIT"
  by (simp add: recent_rooms_def)

text \<open>While the ledger has no more rooms than the limit, the operator's counts are those of the whole
  ledger, in whatever order the rows come back; beyond it the reply says that it is truncated.\<close>

lemma campaign_reply_complete:
  assumes "campaign_reply_of (Ok ()) created d = Ok y" "\<not> cy_cohort_truncated y"
  shows "(let s = summarize_campaign_evidence (List.map_filter match_payload (db_evidence d))
            (List.map_filter failure_payload (db_evidence d))
      in su_attempts (cy_summary y) = su_attempts s \<and> su_verified (cy_summary y) = su_verified s)"
proof -
  have "length (evidence_rooms d) \<le> COHORT_LIMIT"
    using assms by (auto simp: campaign_reply_of_def Let_def)
  note same = recent_all [OF this, of created, THEN map_filter_cong_mset]
  have y: "cy_summary y = summarize_campaign_evidence (List.map_filter match_payload (recent_evidence created d))
      (List.map_filter failure_payload (recent_evidence created d))"
    using assms(1) by (auto simp: campaign_reply_of_def Let_def)
  show ?thesis
    unfolding y Let_def summary_fields
    using attempt_verified_mset [OF same same] campaign_rooms_cong [OF same [THEN mset_eq_setD] same [THEN mset_eq_setD]]
    by simp
qed

section \<open>The cohorts\<close>

lemma set_map_filter': "set (List.map_filter f xs) = {y. \<exists>x \<in> set xs. f x = Some y}"
  by (auto simp: List.map_filter_def image_iff) force+

lemma map_option_Pair: "map_option (Pair a) x = Some (b, k) \<longleftrightarrow> b = a \<and> x = Some k"
  by (cases x) auto

lemma samples_iff: "(rid, k) \<in> set (samples d) \<longleftrightarrow> (\<exists>e \<in> set (db_evidence d). e_room e = rid \<and> evidence_key e = Some k)"
  unfolding samples_def set_remdups set_map_filter' mem_Collect_eq map_option_Pair by blast

lemma cohort_rooms_iff: "rid \<in> set (cohort_rooms d k) \<longleftrightarrow> (rid, k) \<in> set (samples d)"
  unfolding cohort_rooms_def set_remdups set_map set_filter by force

lemma cohort_rooms_set:
  "set (cohort_rooms d k) = e_room ` {e \<in> set (db_evidence d). evidence_key e = Some k}"
  unfolding set_eq_iff cohort_rooms_iff samples_iff by blast

lemma cohort_rooms_card:
  "length (cohort_rooms d k) = card (e_room ` {e \<in> set (db_evidence d). evidence_key e = Some k})"
  unfolding cohort_rooms_set [symmetric] by (rule distinct_card [symmetric]) (unfold cohort_rooms_def, rule distinct_remdups)

lemma u32_of_nat_mono: "a \<le> b \<Longrightarrow> u32_of_nat a \<le> u32_of_nat b"
  by (auto simp: u32_of_nat_def word_le_nat_alt unat_max_word unat_of_nat)

lemma cohort_rooms_nonempty:
  assumes "length (cohort_rooms d k) \<ge> 3"
  shows "k \<in> snd ` set (samples d)"
proof -
  obtain rid where "rid \<in> set (cohort_rooms d k)" using assms by (cases "cohort_rooms d k") auto
  then show ?thesis unfolding cohort_rooms_iff by (rule rev_image_eqI) simp
qed

lemma public_keys:
  "set (map pc_key (public_cohorts d)) \<subseteq> {k. length (cohort_rooms d k) \<ge> 3}"
  "distinct (map pc_key (public_cohorts d))"
  "length (public_cohorts d) \<le> PUBLIC_COHORT_LIMIT"
  "length (public_cohorts d) < PUBLIC_COHORT_LIMIT \<Longrightarrow>
     {k. length (cohort_rooms d k) \<ge> 3} \<subseteq> set (map pc_key (public_cohorts d))"
proof -
  define keys where "keys = filter (\<lambda>k. length (cohort_rooms d k) \<ge> MINIMUM_COHORT_SIZE) (remdups (map snd (samples d)))"
  define shown where "shown = take PUBLIC_COHORT_LIMIT (sort_key cohort_order keys)"
  have rows: "public_cohorts d = map (cohort_row d) shown"
    by (simp add: public_cohorts_def keys_def shown_def)
  have ks: "map pc_key (public_cohorts d) = shown"
    by (simp add: rows comp_def cohort_row_def)
  have sub: "set shown \<subseteq> set keys"
    unfolding shown_def using set_take_subset [of PUBLIC_COHORT_LIMIT "sort_key cohort_order keys"] by simp
  show "set (map pc_key (public_cohorts d)) \<subseteq> {k. length (cohort_rooms d k) \<ge> 3}"
    using sub unfolding ks by (auto simp: keys_def MINIMUM_COHORT_SIZE_def)
  show "distinct (map pc_key (public_cohorts d))"
    unfolding ks by (simp add: shown_def keys_def distinct_take)
  show "length (public_cohorts d) \<le> PUBLIC_COHORT_LIMIT"
    by (simp add: rows shown_def)
  show "{k. length (cohort_rooms d k) \<ge> 3} \<subseteq> set (map pc_key (public_cohorts d))"
    if "length (public_cohorts d) < PUBLIC_COHORT_LIMIT"
  proof -
    have "length keys < PUBLIC_COHORT_LIMIT" using that by (simp add: rows shown_def min_def split: if_splits)
    then have "set shown = set keys" by (simp add: shown_def)
    then show ?thesis
      unfolding ks using cohort_rooms_nonempty by (auto simp: keys_def MINIMUM_COHORT_SIZE_def)
  qed
qed

text \<open>C40 The public compatibility table is exact and gated: every published row counts the rooms with a
  match report of its game, platform, adapter, version, transport and route, at least three of
  them, and those among them that were verified, never more; no row is published twice, there are at
  most 500, and while there are fewer every combination seen in three rooms has its row.  A
  reply is computed from the ledger as it is, or is one that is less than 30 seconds old.\<close>

theorem public_table_exact:
  assumes "public_compatibility clock now d cache = (p, cache')" "length (db_evidence d) < 2 ^ 32"
  shows "(pp_cohorts p = public_cohorts d \<and> cache' = Some (clock, p)
      \<or> (\<exists>t. cache = Some (t, p) \<and> clock - t < seconds 30 \<and> cache' = cache))
    \<and> (\<forall>c \<in> set (public_cohorts d).
         let rooms = e_room ` {e \<in> set (db_evidence d). evidence_key e = Some (pc_key c)} in
         unat (pc_attempts c) = card rooms \<and> card rooms \<ge> 3
         \<and> unat (pc_verified c) = card {rid \<in> rooms. room_status_verified d rid} \<and> pc_verified c \<le> pc_attempts c)
    \<and> distinct (map pc_key (public_cohorts d)) \<and> length (public_cohorts d) \<le> 500
    \<and> (length (public_cohorts d) < 500 \<longrightarrow>
         (\<forall>k. card (e_room ` {e \<in> set (db_evidence d). evidence_key e = Some k}) \<ge> 3 \<longrightarrow>
            k \<in> set (map pc_key (public_cohorts d))))"
proof (intro conjI ballI impI allI)
  show "pp_cohorts p = public_cohorts d \<and> cache' = Some (clock, p)
      \<or> (\<exists>t. cache = Some (t, p) \<and> clock - t < seconds 30 \<and> cache' = cache)"
    using assms(1) by (auto simp: public_compatibility_def CACHE_TTL_def Let_def split: option.splits if_splits)
  show "distinct (map pc_key (public_cohorts d))" by (rule public_keys)
  show "length (public_cohorts d) \<le> 500" using public_keys(3) [of d] by (simp add: PUBLIC_COHORT_LIMIT_def)
  show "k \<in> set (map pc_key (public_cohorts d))"
    if "length (public_cohorts d) < 500" "card (e_room ` {e \<in> set (db_evidence d). evidence_key e = Some k}) \<ge> 3" for k
    using public_keys(4) [of d] that unfolding PUBLIC_COHORT_LIMIT_def cohort_rooms_card [symmetric] by blast
next
  fix c assume c: "c \<in> set (public_cohorts d)"
  let ?rooms = "cohort_rooms d (pc_key c)"
  have row: "c = cohort_row d (pc_key c)" using c by (auto simp: public_cohorts_def cohort_row_def Let_def)
  have three: "length ?rooms \<ge> 3" using c public_keys(1) [of d] by auto
  have "length ?rooms \<le> length (db_evidence d)"
    unfolding cohort_rooms_card
    by (rule order_trans [OF card_image_le order_trans [OF card_mono card_length]]) auto
  then have small: "length ?rooms < 2 ^ 32" using assms(2) by linarith
  have le: "length (filter (room_status_verified d) ?rooms) \<le> length ?rooms" by simp
  have verified: "length (filter (room_status_verified d) ?rooms) = card {rid \<in> set ?rooms. room_status_verified d rid}"
  proof -
    have "distinct (filter (room_status_verified d) ?rooms)"
      by (rule distinct_filter) (unfold cohort_rooms_def, rule distinct_remdups)
    from distinct_card [OF this] show ?thesis by (simp only: set_filter)
  qed
  have att: "unat (pc_attempts c) = length ?rooms"
    by (subst row) (simp only: cohort_row_def public_cohort.simps unat_u32_of_nat [OF small])
  have ver: "unat (pc_verified c) = length (filter (room_status_verified d) ?rooms)"
    by (subst row) (simp only: cohort_row_def public_cohort.simps unat_u32_of_nat [OF le_less_trans [OF le small]])
  have "pc_verified c \<le> pc_attempts c" using le by (simp only: word_le_nat_alt att ver)
  then show "let rooms = e_room ` {e \<in> set (db_evidence d). evidence_key e = Some (pc_key c)} in
      unat (pc_attempts c) = card rooms \<and> card rooms \<ge> 3
      \<and> unat (pc_verified c) = card {rid \<in> rooms. room_status_verified d rid} \<and> pc_verified c \<le> pc_attempts c"
    using three unfolding Let_def cohort_rooms_set [symmetric] att ver verified cohort_rooms_card [symmetric]
    by (simp only: cohort_rooms_set cohort_rooms_card simp_thms)
qed

text \<open>Three rooms played by the same user: the table publishes the combination, so a cohort of three
  rooms can be the history of a single player.\<close>

definition demo_row_report :: "nat \<Rightarrow> match_report" where
  "demo_row_report n =
     (demo_report RoleHost)\<lparr>rep_compatibility := Some \<lparr>co_adapter = ''fbneo'', co_emulator_version = None,
        co_executable_sha256 = [], co_core_sha256 = [], co_content_sha256 = []\<rparr>,
      rep_native_route := Some DirectLan\<rparr>"

definition demo_ledger_row :: "nat \<Rightarrow> evidence_row" where
  "demo_ledger_row n = \<lparr>e_digest = nat_str n, e_room = Uuid (of_nat n), e_by = Uuid 0, e_role = RoleHost,
     e_payload = MatchEvidence (demo_row_report n)\<rparr>"

definition demo_ledger :: db where
  "demo_ledger = \<lparr>db_users = [Uuid 0], db_games = [], db_rooms = [], db_members = [], db_challenges = [],
     db_attempts = [], db_events = [], db_matches = [], db_runtime = [], db_grants = [], db_invites = [],
     db_preflights = [], db_barriers = [], db_evidence = map demo_ledger_row [1, 2, 3], db_receipts = [],
     db_commands = [], db_rooms_created = 0\<rparr>"

definition demo_key :: cohort_key where
  "demo_key = (''sfiii3'', ''linux'', ''fbneo'', None, ''direct_udp'', DirectLan)"

lemma demo_ledger_key: "evidence_key (demo_ledger_row n) = Some demo_key"
  by (simp add: evidence_key_def demo_ledger_row_def demo_row_report_def demo_report_def report_key_def demo_key_def)

lemma public_table_exact_witness:
  "demo_key \<in> set (map pc_key (pp_cohorts (fst (public_compatibility 5 9 demo_ledger None))))
    \<and> e_by ` set (db_evidence demo_ledger) = {Uuid 0}"
proof -
  let ?d = demo_ledger
  obtain p cache' where run: "public_compatibility 5 9 ?d None = (p, cache')" by (cases "public_compatibility 5 9 ?d None")
  have len: "length (db_evidence ?d) < 2 ^ 32" by (simp add: demo_ledger_def)
  have set_rows: "set (db_evidence ?d) = demo_ledger_row ` {1, 2, 3}" by (simp add: demo_ledger_def)
  have rooms: "e_room ` {e \<in> set (db_evidence ?d). evidence_key e = Some demo_key} = {Uuid 1, Uuid 2, Uuid 3}"
  proof -
    have "{e \<in> set (db_evidence ?d). evidence_key e = Some demo_key} = demo_ledger_row ` {1, 2, 3}"
      unfolding set_rows using demo_ledger_key by blast
    then show ?thesis by (simp add: demo_ledger_row_def)
  qed
  have card: "card (e_room ` {e \<in> set (db_evidence ?d). evidence_key e = Some demo_key}) \<ge> 3"
    unfolding rooms by simp
  have short: "length (public_cohorts ?d) < 500"
  proof -
    have "set (map pc_key (public_cohorts ?d)) \<subseteq> {demo_key}"
    proof
      fix k assume "k \<in> set (map pc_key (public_cohorts ?d))"
      with public_keys(1) [of ?d] have "k \<in> snd ` set (samples ?d)" using cohort_rooms_nonempty by blast
      then obtain rid where "(rid, k) \<in> set (samples ?d)" by force
      then obtain e where "e \<in> set (db_evidence ?d)" "evidence_key e = Some k" unfolding samples_iff by blast
      then show "k \<in> {demo_key}" unfolding set_rows using demo_ledger_key by auto
    qed
    then have "card (set (map pc_key (public_cohorts ?d))) \<le> card {demo_key}" by (intro card_mono) simp_all
    then show ?thesis using distinct_card [OF public_keys(2) [of ?d]] by simp
  qed
  have by_user: "e_by ` set (db_evidence ?d) = {Uuid 0}" unfolding set_rows by (auto simp: demo_ledger_row_def)
  note exact = public_table_exact [OF run len]
  have "demo_key \<in> set (map pc_key (public_cohorts ?d))"
    using exact [THEN conjunct2, THEN conjunct2, THEN conjunct2, THEN conjunct2, THEN mp, OF short] card by blast
  moreover have "pp_cohorts p = public_cohorts ?d" using exact [THEN conjunct1] by blast
  ultimately show ?thesis using run by_user by simp
qed

end
