(* ===== verification/Game_Definitions.thy ===== *)
theory Game_Definitions
  imports Adapters "HOL-Library.Sublist"
begin

text \<open>
  Game definitions (\<open>packages/game-definitions/src/loader.rs\<close>): the checks on a definition, the rendering of
  its launch arguments, and the loading of one file and of a whole directory.  The TOML
  decoder, the file system and the display of a path are parameters.
\<close>

section \<open>Definitions and their checks\<close>

datatype game_def_error = DefIo string string | DefToml string string | DefValidation string string

record launch_config =
  lc_args :: "string list"

record validation_config =
  vc_required_files :: "string list"
  vc_bios :: "string option"

record game_metadata =
  gm_year :: "u32 option"
  gm_developer :: "string option"
  gm_players :: "u32 option"

record game_definition =
  gd_schema_version :: u32
  gd_id :: string
  gd_name :: string
  gd_emulator :: string
  gd_launch :: launch_config
  gd_validation :: validation_config
  gd_metadata :: game_metadata

definition ROM_PLACEHOLDER :: string where "ROM_PLACEHOLDER = ''{rom}''"

definition ALLOWED_EMULATORS :: "string list" where
  "ALLOWED_EMULATORS = [''fbneo'', ''flycast'', ''snes9x'', ''retroarch_test'']"

definition game_id_char :: "char \<Rightarrow> bool" where
  "game_id_char c \<longleftrightarrow> is_ascii_lowercase c \<or> is_ascii_digit c \<or> c = CHR ''_'' \<or> c = CHR ''-''"

text \<open>\<open>str::contains\<close>.\<close>

fun contains_str :: "string \<Rightarrow> string \<Rightarrow> bool" where
  "contains_str pat [] \<longleftrightarrow> pat = []"
| "contains_str pat (c # cs) \<longleftrightarrow> take (length pat) (c # cs) = pat \<or> contains_str pat cs"

definition quoted :: "string \<Rightarrow> string" where
  "quoted s = CHR 0x27 # s @ [CHR 0x27]"

definition definition_validate :: "string \<Rightarrow> game_definition \<Rightarrow> game_def_error + unit" where
  "definition_validate path g =
     (if gd_schema_version g \<noteq> 1
      then Err (DefValidation path (''unsupported schema_version '' @ nat_str (unat (gd_schema_version g)) @ '', expected 1''))
      else if \<not> (3 \<le> length (gd_id g) \<and> length (gd_id g) \<le> 20 \<and> list_all game_id_char (gd_id g))
      then Err (DefValidation path (''id '' @ quoted (gd_id g) @ '' must match ^[a-z0-9_-]{3,20}$''))
      else if is_blank (gd_name g) then Err (DefValidation path ''name must not be empty'')
      else if gd_emulator g \<notin> set ALLOWED_EMULATORS
      then Err (DefValidation path (''emulator '' @ quoted (gd_emulator g) @
             '' must be one of [\"fbneo\", \"flycast\", \"snes9x\", \"retroarch_test\"]''))
      else if lc_args (gd_launch g) = [] then Err (DefValidation path ''launch.args must not be empty'')
      else if \<not> list_ex (contains_str ROM_PLACEHOLDER) (lc_args (gd_launch g))
      then Err (DefValidation path ''launch.args must contain {rom} placeholder'')
      else Ok ())"

section \<open>Rendering\<close>

text \<open>\<open>str::replace\<close> for a pattern that is not empty: left to right, without overlap.\<close>

fun replace_str :: "string \<Rightarrow> string \<Rightarrow> string \<Rightarrow> string" where
  "replace_str pat new [] = []"
| "replace_str pat new (c # cs) =
     (if take (length pat) (c # cs) = pat then new @ replace_str pat new (drop (length pat - 1) cs)
      else c # replace_str pat new cs)"

definition render_args :: "string \<Rightarrow> game_definition \<Rightarrow> string list" where
  "render_args rom g = map (replace_str ROM_PLACEHOLDER rom) (lc_args (gd_launch g))"

section \<open>Loading\<close>

definition load_from_str ::
    "(string \<Rightarrow> string + game_definition) \<Rightarrow> string \<Rightarrow> string \<Rightarrow> game_def_error + game_definition" where
  "load_from_str decode content path =
     (case decode content of
        Inl e \<Rightarrow> Err (DefToml path e)
      | Inr g \<Rightarrow> (case definition_validate path g of Inl e \<Rightarrow> Err e | Inr _ \<Rightarrow> Ok g))"

definition load_from_path ::
    "(path \<Rightarrow> string) \<Rightarrow> (path \<Rightarrow> string + string) \<Rightarrow> (string \<Rightarrow> string + game_definition) \<Rightarrow> path \<Rightarrow>
     game_def_error + game_definition" where
  "load_from_path display read decode path =
     (case read path of
        Inl e \<Rightarrow> Err (DefIo (display path) e)
      | Inr content \<Rightarrow> load_from_str decode content (display path))"

text \<open>The entries of the directory in the order they are read, up to the first that cannot be.\<close>

fun toml_paths :: "string \<Rightarrow> (string + path) list \<Rightarrow> game_def_error + path list" where
  "toml_paths dir [] = Ok []"
| "toml_paths dir (Inl e # es) = Err (DefIo dir e)"
| "toml_paths dir (Inr p # es) =
     (case toml_paths dir es of
        Inl e \<Rightarrow> Err e
      | Inr ps \<Rightarrow> Ok (if path_extension p = Some ''toml'' then p # ps else ps))"

fun load_paths :: "(path \<Rightarrow> game_def_error + game_definition) \<Rightarrow> path list \<Rightarrow> game_def_error + game_definition list" where
  "load_paths load [] = Ok []"
| "load_paths load (p # ps) =
     (case load p of
        Inl e \<Rightarrow> Err e
      | Inr g \<Rightarrow> (case load_paths load ps of Inl e \<Rightarrow> Err e | Inr gs \<Rightarrow> Ok (g # gs)))"

fun first_duplicate :: "string list \<Rightarrow> game_definition list \<Rightarrow> string option" where
  "first_duplicate seen [] = None"
| "first_duplicate seen (g # gs) =
     (if gd_id g \<in> set seen then Some (gd_id g) else first_duplicate (gd_id g # seen) gs)"

definition load_all_from_dir ::
    "(path \<Rightarrow> string) \<Rightarrow> (path \<Rightarrow> string + string) \<Rightarrow> (string \<Rightarrow> string + game_definition) \<Rightarrow> path \<Rightarrow>
     string + (string + path) list \<Rightarrow> game_def_error + game_definition list" where
  "load_all_from_dir display read decode dir entries =
     (case entries of Inl e \<Rightarrow> Err (DefIo (display dir) e) | Inr es \<Rightarrow>
     (case toml_paths (display dir) es of Inl e \<Rightarrow> Err e | Inr ps \<Rightarrow>
     (case load_paths (load_from_path display read decode) (sort ps) of Inl e \<Rightarrow> Err e | Inr out \<Rightarrow>
        (if out = [] then Err (DefValidation (display dir) ''no .toml game definitions found'')
         else case first_duplicate [] out of
           Some i \<Rightarrow> Err (DefValidation (display dir) (''duplicate game id '' @ quoted i))
         | None \<Rightarrow> Ok out))))"

section \<open>What replacing does\<close>

lemma take_prefix: "take (length pat) s = pat \<longleftrightarrow> prefix pat s"
  by (metis append_eq_conv_conj prefix_def append_take_drop_id)

lemma contains_str_iff: "contains_str pat s \<longleftrightarrow> sublist pat s"
proof (induction s)
  case (Cons c cs)
  then show ?case by (simp only: contains_str.simps take_prefix sublist_Cons_right)
qed simp

text \<open>Text without the pattern stays as it is; the first occurrence is replaced and the rest of the text is
  treated alike.\<close>

lemma replace_absent: "\<not> contains_str pat s \<Longrightarrow> replace_str pat new s = s"
  by (induction s) auto

lemma replace_here: "pat \<noteq> [] \<Longrightarrow> replace_str pat new (pat @ rest) = new @ replace_str pat new rest"
  by (cases pat) simp_all

lemma replace_first:
  assumes "pat \<noteq> []" "\<And>i. i < length pre \<Longrightarrow> \<not> prefix pat (drop i (pre @ pat @ rest))"
  shows "replace_str pat new (pre @ pat @ rest) = pre @ new @ replace_str pat new rest"
  using assms(2)
proof (induction pre)
  case (Cons c pre)
  have "\<not> prefix pat (c # pre @ pat @ rest)" using Cons.prems [of 0] by simp
  moreover have "\<not> prefix pat (drop i (pre @ pat @ rest))" if "i < length pre" for i
    using Cons.prems [of "Suc i"] that by simp
  ultimately show ?case
    using Cons.IH by (simp add: take_prefix [of pat "c # pre @ pat @ rest", simplified])
qed (simp add: replace_here assms(1))

lemma replace_keeps_new: "pat \<noteq> [] \<Longrightarrow> contains_str pat s \<Longrightarrow> sublist new (replace_str pat new s)"
proof (induction pat new s rule: replace_str.induct)
  case (2 pat new c cs)
  then show ?case by (auto simp: sublist_Cons_right intro: sublist_appendI sublist_append_rightI)
qed auto

text \<open>The whole of it: the text between successive occurrences, joined by the new text.\<close>

inductive replaced :: "string \<Rightarrow> string \<Rightarrow> string \<Rightarrow> string \<Rightarrow> bool" for pat new where
  replaced_none: "\<not> sublist pat s \<Longrightarrow> replaced pat new s s"
| replaced_first: "(\<And>i. i < length pre \<Longrightarrow> \<not> prefix pat (drop i (pre @ pat @ rest))) \<Longrightarrow>
     replaced pat new rest res \<Longrightarrow> replaced pat new (pre @ pat @ rest) (pre @ new @ res)"

lemma replaced_Cons:
  assumes "replaced pat new cs r" "\<not> prefix pat (c # cs)"
  shows "replaced pat new (c # cs) (c # r)"
  using assms(1)
proof cases
  case replaced_none
  then have "\<not> sublist pat (c # cs)" using assms(2) by (simp add: sublist_Cons_right)
  with replaced_none show ?thesis by (auto intro: replaced.replaced_none)
next
  case (replaced_first pre rest res)
  have "replaced pat new ((c # pre) @ pat @ rest) ((c # pre) @ new @ res)"
  proof (rule replaced.replaced_first)
    show "\<not> prefix pat (drop i ((c # pre) @ pat @ rest))" if "i < length (c # pre)" for i
      using that replaced_first(3) assms(2) replaced_first(1) by (cases i) auto
  qed (rule replaced_first)
  with replaced_first show ?thesis by simp
qed

lemma replace_str_replaced: "pat \<noteq> [] \<Longrightarrow> replaced pat new s (replace_str pat new s)"
proof (induction pat new s rule: replace_str.induct)
  case (1 pat new)
  then show ?case by (auto intro: replaced_none)
next
  case (2 pat new c cs)
  show ?case
  proof (cases "take (length pat) (c # cs) = pat")
    case True
    then have split: "c # cs = pat @ drop (length pat - 1) cs"
      using "2.prems" append_take_drop_id [of "length pat" "c # cs"] by (cases pat) simp_all
    have "replaced pat new ([] @ pat @ drop (length pat - 1) cs) ([] @ new @ replace_str pat new (drop (length pat - 1) cs))"
      by (rule replaced_first) (use "2.IH"(1) [OF True "2.prems"] in simp_all)
    then show ?thesis by (simp only: split replace_here [OF "2.prems"] append_Nil)
  next
    case False
    with "2.IH"(2) [OF False "2.prems"] show ?thesis by (simp add: replaced_Cons take_prefix)
  qed
qed

lemma replaced_unique: "replaced pat new s r \<Longrightarrow> pat \<noteq> [] \<Longrightarrow> r = replace_str pat new s"
  by (induction rule: replaced.induct) (simp_all add: replace_absent contains_str_iff replace_first)

section \<open>What is loaded\<close>

definition definition_ok :: "game_definition \<Rightarrow> bool" where
  "definition_ok g \<longleftrightarrow> gd_schema_version g = 1 \<and> 3 \<le> length (gd_id g) \<and> length (gd_id g) \<le> 20
     \<and> list_all game_id_char (gd_id g) \<and> \<not> is_blank (gd_name g) \<and> gd_emulator g \<in> set ALLOWED_EMULATORS
     \<and> list_ex (contains_str ROM_PLACEHOLDER) (lc_args (gd_launch g))"

lemma definition_validate_ok: "definition_validate path g = Ok () \<longleftrightarrow> definition_ok g"
  by (auto simp: definition_validate_def definition_ok_def)

lemma load_from_str_ok: "load_from_str decode content path = Ok g \<longleftrightarrow> decode content = Ok g \<and> definition_ok g"
  using definition_validate_ok [of path g] by (auto simp: load_from_str_def split: sum.splits)

lemma toml_paths_ok: "toml_paths dir es = Ok ps \<Longrightarrow> list_all is_ok es \<and> ps = filter (\<lambda>p. path_extension p = Some ''toml'') (map projr es)"
  by (induction dir es arbitrary: ps rule: toml_paths.induct) (auto split: sum.splits)

lemma load_paths_ok: "load_paths load ps = Ok gs \<Longrightarrow> list_all2 (\<lambda>p g. load p = Ok g) ps gs"
  by (induction ps arbitrary: gs) (auto split: sum.splits)

lemma first_duplicate_none:
  "first_duplicate seen gs = None \<longleftrightarrow> distinct (map gd_id gs) \<and> set seen \<inter> set (map gd_id gs) = {}"
  by (induction gs arbitrary: seen) auto

lemma load_from_path_ok:
  "load_from_path display read decode p = Ok g \<longleftrightarrow>
     (\<exists>content. read p = Ok content \<and> decode content = Ok g \<and> definition_ok g)"
  by (auto simp: load_from_path_def load_from_str_ok split: sum.splits)

text \<open>Loading a directory: the definitions are those of its \<open>.toml\<close> files in the order of their paths,
  each of them valid, there is at least one, and no two share an id.\<close>

lemma load_all_from_dir_ok:
  assumes "load_all_from_dir display read decode dir (Ok es) = Ok gs"
  shows "list_all is_ok es
    \<and> list_all2 (\<lambda>p g. \<exists>content. read p = Ok content \<and> decode content = Ok g \<and> definition_ok g)
        (sort (filter (\<lambda>p. path_extension p = Some ''toml'') (map projr es))) gs
    \<and> gs \<noteq> [] \<and> distinct (map gd_id gs)"
proof -
  obtain ps where ps: "toml_paths (display dir) es = Ok ps"
    and gs: "load_paths (load_from_path display read decode) (sort ps) = Ok gs"
    and rest: "gs \<noteq> []" "first_duplicate [] gs = None"
    using assms by (auto simp: load_all_from_dir_def split: sum.splits if_splits option.splits)
  from toml_paths_ok [OF ps] load_paths_ok [OF gs] rest show ?thesis
    by (simp add: first_duplicate_none load_from_path_ok)
qed

text \<open>Rendering the arguments of a loaded definition: an argument without the placeholder is passed on as it
  is, every other one with exactly its placeholders replaced, from left to right, and the path of
  the ROM reaches the command line.\<close>

theorem rendered_arguments:
  assumes "load_from_str decode content path = Ok g"
  shows "list_all2 (replaced ROM_PLACEHOLDER rom) (lc_args (gd_launch g)) (render_args rom g)
    \<and> (\<exists>a \<in> set (render_args rom g). sublist rom a)
    \<and> list_all2 (\<lambda>a r. sublist ROM_PLACEHOLDER a \<or> r = a) (lc_args (gd_launch g)) (render_args rom g)"
proof (intro conjI)
  have nonempty: "ROM_PLACEHOLDER \<noteq> []" by (simp add: ROM_PLACEHOLDER_def)
  show "list_all2 (replaced ROM_PLACEHOLDER rom) (lc_args (gd_launch g)) (render_args rom g)"
    by (simp add: render_args_def list_all2_conv_all_nth replace_str_replaced nonempty)
  show "list_all2 (\<lambda>a r. sublist ROM_PLACEHOLDER a \<or> r = a) (lc_args (gd_launch g)) (render_args rom g)"
    using replace_absent by (fastforce simp: render_args_def list_all2_conv_all_nth contains_str_iff)
  from assms obtain a where "a \<in> set (lc_args (gd_launch g))" "contains_str ROM_PLACEHOLDER a"
    by (auto simp: load_from_str_ok definition_ok_def list_ex_iff)
  with replace_keeps_new [OF nonempty] show "\<exists>a \<in> set (render_args rom g). sublist rom a"
    by (auto simp: render_args_def)
qed

lemma rendered_arguments_witness:
  "render_args ''/roms/a.zip'' \<lparr>gd_schema_version = 1, gd_id = ''sfiii3'', gd_name = ''SF'', gd_emulator = ''fbneo'',
      gd_launch = \<lparr>lc_args = [''-rom'', ''x{rom}{rom''] \<rparr>, gd_validation = \<lparr>vc_required_files = [], vc_bios = None\<rparr>,
      gd_metadata = \<lparr>gm_year = None, gm_developer = None, gm_players = None\<rparr>\<rparr> = [''-rom'', ''x/roms/a.zip{rom'']"
  by (simp add: render_args_def ROM_PLACEHOLDER_def)

end
