(* ===== verification/Command_Line.thy ===== *)
theory Command_Line
  imports Match_Probe Campaign Proof_Of_Match Adapters Std_Text
begin

text \<open>
  The command line tools: \<open>opencade-match-probe\<close>, \<open>opencade-match-verify\<close> and
  \<open>opencade-alpha-summary\<close> (\<open>packages/networking/src/bin\<close>) and \<open>opencade-proof-of-match\<close>
  (\<open>crates/proof-of-match/src/bin\<close>).  The arguments are those after the program's name.  JSON, the
  file system, the clock, the sockets and the platform's name are parameters; what a tool prints is kept as
  the value it serialises, with its exit code.
\<close>

section \<open>Messages\<close>

fun read_error_str :: "report_read_error \<Rightarrow> string" where
  "read_error_str Unreadable = ''report could not be read''"
| "read_error_str TooLarge = ''report exceeds 64 KiB''"
| "read_error_str InvalidReport = ''report is not canonical OpenCade alpha evidence''"

fun verification_error_str :: "report_verification_error \<Rightarrow> string" where
  "verification_error_str (PairSize n) = ''room has '' @ nat_str n @ '' reports; exactly two are required''"
| "verification_error_str (UnsupportedSchema r v) =
     r @ '' report uses unsupported schema version '' @ nat_str (unat v)"
| "verification_error_str (RoomNotFinished r) = r @ '' report does not describe a finished room''"
| "verification_error_str (EmptyCorrelation r) = r @ '' report has an empty room or game identifier''"
| "verification_error_str (IncompleteTranscript r) =
     r @ '' report must contain exactly '' @ nat_str (unat ALPHA_MATCH_FRAMES) @ '' received frames''"
| "verification_error_str (InvalidFrameCounts r) = r @ '' report sent fewer frames than it received''"
| "verification_error_str (InvalidChecksum r) =
     r @ '' report checksum must be 16 lowercase hexadecimal characters''"
| "verification_error_str RoomMismatch = ''reports describe different rooms''"
| "verification_error_str GameMismatch = ''reports describe different games''"
| "verification_error_str RoleMismatch = ''reports must come from opposite host and guest roles''"
| "verification_error_str ChecksumMismatch = ''reports contain different transcript checksums''"
| "verification_error_str TransportMismatch = ''reports describe different transports''"
| "verification_error_str CompatibilityMismatch =
     ''reports contain different native emulator compatibility fingerprints''"
| "verification_error_str (CompatibilityMissing r) =
     r @ '' report is missing native emulator compatibility evidence''"
| "verification_error_str (InvalidCompatibility r) =
     r @ '' report contains invalid native emulator compatibility evidence''"

fun proof_error_str :: "proof_error \<Rightarrow> string" where
  "proof_error_str (Preparation m) = ''match preparation failed: '' @ m"
| "proof_error_str (TransportFailed m) = ''transport failed: '' @ m"
| "proof_error_str (FrameInvalid m) = ''invalid input frame: '' @ m"
| "proof_error_str (VerificationRejected code m) =
     ''verification rejected the evidence: '' @ code @ '': '' @ m"

section \<open>\<open>opencade-match-verify\<close>\<close>

record verify_failure =
  vf_verified :: bool
  vf_code :: string
  vf_message :: string

definition verify_failure_new :: "string \<Rightarrow> string \<Rightarrow> verify_failure" where
  "verify_failure_new code message = \<lparr>vf_verified = False, vf_code = code, vf_message = message\<rparr>"

definition usage_failure :: "verify_failure \<times> nat" where
  "usage_failure =
     (verify_failure_new ''usage''
        ''usage: opencade-match-verify [--require-compatibility] FIRST_REPORT.json SECOND_REPORT.json'', 2)"

definition read_report ::
    "(bytes \<Rightarrow> match_report option) \<Rightarrow> (string \<Rightarrow> bytes option) \<Rightarrow> string \<Rightarrow> string \<Rightarrow>
     (verify_failure \<times> nat) + match_report" where
  "read_report decode files path label =
     map_err (\<lambda>e. (verify_failure_new (read_error_code e) (label @ '' '' @ read_error_str e), 2))
       (read_match_report decode (files path))"

definition match_verify_run ::
    "(bytes \<Rightarrow> match_report option) \<Rightarrow> (match_verification \<Rightarrow> string option) \<Rightarrow> (string \<Rightarrow> bytes option) \<Rightarrow>
     string list \<Rightarrow> (verify_failure \<times> nat) + string" where
  "match_verify_run decode encode files args =
     (case args of [] \<Rightarrow> Err usage_failure | first_arg # rest \<Rightarrow>
     (case (if first_arg = ''--require-compatibility''
            then (case rest of [] \<Rightarrow> Err usage_failure | p # r \<Rightarrow> Ok (True, p, r))
            else Ok (False, first_arg, rest)) of
        Inl e \<Rightarrow> Err e
      | Inr (strict, first_path, rest1) \<Rightarrow>
     (case rest1 of [] \<Rightarrow> Err usage_failure | second_path # rest2 \<Rightarrow>
     (if rest2 \<noteq> [] then Err usage_failure else
      case read_report decode files first_path ''first'' of Inl e \<Rightarrow> Err e | Inr first \<Rightarrow>
     (case read_report decode files second_path ''second'' of Inl e \<Rightarrow> Err e | Inr second \<Rightarrow>
     (case (if strict then verify_playable_match_reports first second else verify_match_reports first second) of
        Inl e \<Rightarrow> Err (verify_failure_new (verification_error_code e) (verification_error_str e), 1)
      | Inr verification \<Rightarrow>
          ok_or (encode verification)
            (verify_failure_new ''internal_error'' ''failed to serialize verification result'', 2)))))))"

text \<open>\<open>main\<close>: the line on standard output or on standard error, and the exit code.\<close>

definition match_verify_main ::
    "(verify_failure \<Rightarrow> string option) \<Rightarrow> (verify_failure \<times> nat) + string \<Rightarrow> nat \<times> string \<times> string" where
  "match_verify_main encode_failure result =
     (case result of
        Inr output \<Rightarrow> (0, output @ [CHR 0x0A], [])
      | Inl (failure, exit_code) \<Rightarrow>
          (exit_code, [],
           (case encode_failure failure of
              Some t \<Rightarrow> t
            | None \<Rightarrow> ''{\"verified\":false,\"code\":\"internal_error\",\"message\":\"failed to serialize error\"}'')
           @ [CHR 0x0A]))"

section \<open>\<open>opencade-alpha-summary\<close>\<close>

definition MAX_CAMPAIGN_REPORTS :: nat where "MAX_CAMPAIGN_REPORTS = 100"

definition summary_usage :: string where
  "summary_usage = ''usage: opencade-alpha-summary REPORT_DIRECTORY''"

text \<open>\<open>report_paths\<close>: the entries of the directory as they are read; \<open>None\<close> is an entry that cannot be
  read.\<close>

fun json_paths :: "(path \<Rightarrow> bool) \<Rightarrow> path option list \<Rightarrow> string + path list" where
  "json_paths is_file [] = Ok []"
| "json_paths is_file (None # es) = Err ''campaign directory is unreadable''"
| "json_paths is_file (Some p # es) =
     (case json_paths is_file es of
        Inl e \<Rightarrow> Err e
      | Inr ps \<Rightarrow> Ok (if is_file p \<and> path_extension p = Some ''json'' then p # ps else ps))"

definition report_paths :: "(path \<Rightarrow> bool) \<Rightarrow> path option list option \<Rightarrow> string + path list" where
  "report_paths is_file entries =
     (case entries of
        None \<Rightarrow> Err ''campaign directory is unreadable''
      | Some es \<Rightarrow> json_paths is_file es)"

definition path_label :: "path \<Rightarrow> string" where
  "path_label p = (if p = [] then ''<invalid filename>'' else last p)"

fun read_all_evidence ::
    "(path \<Rightarrow> report_read_error + campaign_evidence) \<Rightarrow> match_report list \<times> alpha_failure_report list \<Rightarrow>
     path list \<Rightarrow> string + (match_report list \<times> alpha_failure_report list)" where
  "read_all_evidence read acc [] = Ok acc"
| "read_all_evidence read (reports, failures) (p # ps) =
     (case read p of
        Inl e \<Rightarrow> Err (path_label p @ '': '' @ read_error_str e @ '' ('' @ read_error_code e @ '')'')
      | Inr (EvidenceMatch r) \<Rightarrow> read_all_evidence read (reports @ [r], failures) ps
      | Inr (EvidenceFailure f) \<Rightarrow> read_all_evidence read (reports, failures @ [f]) ps)"

text \<open>The directory argument selects what \<open>fs::read_dir\<close> gives; the result is the summary printed.\<close>

definition alpha_summary_run ::
    "(path \<Rightarrow> bool) \<Rightarrow> (path \<Rightarrow> report_read_error + campaign_evidence) \<Rightarrow> (string \<Rightarrow> path option list option) \<Rightarrow>
     string list \<Rightarrow> string + campaign_summary" where
  "alpha_summary_run is_file read directory args =
     (case args of
        [dir] \<Rightarrow>
          (case report_paths is_file (directory dir) of Inl e \<Rightarrow> Err e | Inr found \<Rightarrow>
           (let paths = sort found in
            if length paths > MAX_CAMPAIGN_REPORTS
            then Err (''campaign contains '' @ nat_str (length paths) @ '' JSON reports; maximum is ''
                   @ nat_str MAX_CAMPAIGN_REPORTS)
            else map_sum id (\<lambda>(reports, failures). summarize_campaign_evidence reports failures)
                   (read_all_evidence read ([], []) paths)))
      | _ \<Rightarrow> Err summary_usage)"

definition alpha_summary_exit :: "string + campaign_summary \<Rightarrow> nat" where
  "alpha_summary_exit result =
     (case result of Inr s \<Rightarrow> (if su_gate_passed s then 0 else 1) | Inl _ \<Rightarrow> 2)"

section \<open>\<open>opencade-match-probe\<close>\<close>

record probe_arguments =
  pa_local :: socket_addr
  pa_peer :: socket_addr
  pa_room_id :: string
  pa_game_id :: string
  pa_local_user_id :: string
  pa_peer_user_id :: string
  pa_role :: peer_role
  pa_session_key :: string
  pa_frames :: u64
  pa_timeout :: int

definition probe_usage :: string where
  "probe_usage = ''usage: opencade-match-probe --local IP:PORT --peer IP:PORT --room ID --game ID --local-user ID --peer-user ID --role host|guest --session-key KEY --frames N --timeout-ms N''"

text \<open>The closure \<open>value\<close>: the next two arguments are the flag and its value.\<close>

definition flag_value :: "string \<Rightarrow> string list \<Rightarrow> string + (string \<times> string list)" where
  "flag_value flag args =
     (case args of
        [] \<Rightarrow> Err (''missing '' @ flag @ ''; '' @ probe_usage)
      | actual # rest \<Rightarrow>
          (if actual \<noteq> flag
           then Err (''expected '' @ flag @ '', found '' @ actual @ ''; '' @ probe_usage)
           else case rest of
             [] \<Rightarrow> Err (''missing value for '' @ flag @ ''; '' @ probe_usage)
           | v # rest' \<Rightarrow> Ok (v, rest')))"

definition parse_addr :: "string \<Rightarrow> socket_addr option" where
  "parse_addr s =
     map_option (\<lambda>(ip, _, port). SocketAddr ip (of_nat port)) (parse_socket_addr s)"

definition parse_role :: "string \<Rightarrow> peer_role option" where
  "parse_role s = (if s = ''host'' then Some Host else if s = ''guest'' then Some Guest else None)"

definition arguments_parse :: "string list \<Rightarrow> string + probe_arguments" where
  "arguments_parse a0 =
     (case flag_value ''--local'' a0 of Inl e \<Rightarrow> Err e | Inr (l, a1) \<Rightarrow>
     (case parse_addr l of None \<Rightarrow> Err ''--local must be a socket address'' | Some local_addr \<Rightarrow>
     (case flag_value ''--peer'' a1 of Inl e \<Rightarrow> Err e | Inr (p, a2) \<Rightarrow>
     (case parse_addr p of None \<Rightarrow> Err ''--peer must be a socket address'' | Some peer \<Rightarrow>
     (case flag_value ''--room'' a2 of Inl e \<Rightarrow> Err e | Inr (room_id, a3) \<Rightarrow>
     (case flag_value ''--game'' a3 of Inl e \<Rightarrow> Err e | Inr (game_id, a4) \<Rightarrow>
     (case flag_value ''--local-user'' a4 of Inl e \<Rightarrow> Err e | Inr (local_user_id, a5) \<Rightarrow>
     (case flag_value ''--peer-user'' a5 of Inl e \<Rightarrow> Err e | Inr (peer_user_id, a6) \<Rightarrow>
     (case flag_value ''--role'' a6 of Inl e \<Rightarrow> Err e | Inr (r, a7) \<Rightarrow>
     (case parse_role r of None \<Rightarrow> Err ''--role must be host or guest'' | Some role \<Rightarrow>
     (case flag_value ''--session-key'' a7 of Inl e \<Rightarrow> Err e | Inr (session_key, a8) \<Rightarrow>
     (case flag_value ''--frames'' a8 of Inl e \<Rightarrow> Err e | Inr (n, a9) \<Rightarrow>
     (case parse_unsigned (2 ^ 64) n of None \<Rightarrow> Err ''--frames must be an integer'' | Some frames \<Rightarrow>
     (case flag_value ''--timeout-ms'' a9 of Inl e \<Rightarrow> Err e | Inr (t, a10) \<Rightarrow>
     (case parse_unsigned (2 ^ 64) t of None \<Rightarrow> Err ''--timeout-ms must be an integer'' | Some timeout_ms \<Rightarrow>
     (case a10 of
        extra # _ \<Rightarrow> Err (''unexpected argument '' @ extra @ ''; '' @ probe_usage)
      | [] \<Rightarrow> Ok \<lparr>pa_local = local_addr, pa_peer = peer, pa_room_id = room_id, pa_game_id = game_id,
                pa_local_user_id = local_user_id, pa_peer_user_id = peer_user_id, pa_role = role,
                pa_session_key = session_key, pa_frames = of_nat frames,
                pa_timeout = int timeout_ms * 1000000\<rparr>))))))))))))))))"

definition arguments_descriptor :: "probe_arguments \<Rightarrow> match_descriptor" where
  "arguments_descriptor a =
     \<lparr>md_room_id = pa_room_id a, md_game_id = pa_game_id a, md_local_user_id = pa_local_user_id a,
      md_peer_user_id = pa_peer_user_id a, md_role = pa_role a, md_transport = DirectUdp,
      md_local_endpoint = pa_local a, md_peer_endpoint = pa_peer a, md_input_delay_frames = 2\<rparr>"

definition arguments_config :: "probe_arguments \<Rightarrow> transport_error + match_probe_config" where
  "arguments_config a =
     match_probe_config_new (arguments_descriptor a) (pa_session_key a) (pa_frames a) (pa_timeout a)"

text \<open>\<open>u32::try_from(n).unwrap_or(u32::MAX)\<close>.\<close>

definition clamp_u32 :: "nat \<Rightarrow> u32" where
  "clamp_u32 n = (if n < 2 ^ 32 then of_nat n else - 1)"

record probe_tool_env =
  pt_now :: instant
  pt_platform :: string
  pt_version :: string

definition probe_tool_report :: "probe_tool_env \<Rightarrow> probe_arguments \<Rightarrow> match_probe_report \<Rightarrow> match_report" where
  "probe_tool_report env a p =
     \<lparr>rep_schema_version = MATCH_REPORT_SCHEMA_VERSION, rep_exported_at = pt_now env,
      rep_room = \<lparr>mr_room_id = pa_room_id a, mr_game_id = pa_game_id a, mr_state = Finished\<rparr>,
      rep_probe =
        \<lparr>pr_role = (case mp_role p of Host \<Rightarrow> RoleHost | Guest \<Rightarrow> RoleGuest),
         pr_transport = TransportDirectUdp,
         pr_frames_sent = clamp_u32 (unat (mp_frames_sent p)),
         pr_frames_received = clamp_u32 (unat (mp_frames_received p)),
         pr_transcript_checksum = mp_transcript_checksum p,
         pr_elapsed_ms = clamp_u32 (mp_elapsed_ms p),
         pr_nat = Some (mp_nat p), pr_candidate = Some (mp_candidate p),
         pr_punch_attempts = Some (mp_punch_attempts p)\<rparr>,
      rep_client = \<lparr>cl_platform = pt_platform env, cl_user_agent = ''opencade-match-probe/'' @ pt_version env\<rparr>,
      rep_compatibility = None, rep_native_route = None\<rparr>"

datatype probe_tool_error = InvalidInput string | ProbeTransport transport_error | ReportEncoding

text \<open>\<open>main\<close>: \<open>bind_peer\<close> stands for \<open>UdpPeer::bind\<close> and \<open>run\<close> for the probe of that configuration over
  the socket; the value is the line on standard output.\<close>

definition match_probe_main ::
    "probe_tool_env \<Rightarrow> (socket_addr \<Rightarrow> socket_addr \<Rightarrow> transport_error + unit) \<Rightarrow>
     (match_probe_config \<Rightarrow> transport_error + match_probe_report) \<Rightarrow> (match_report \<Rightarrow> bytes option) \<Rightarrow>
     string list \<Rightarrow> probe_tool_error + bytes" where
  "match_probe_main env bind_peer run encode args =
     (case arguments_parse args of Inl m \<Rightarrow> Err (InvalidInput m) | Inr a \<Rightarrow>
     (case arguments_config a of Inl e \<Rightarrow> Err (ProbeTransport e) | Inr config \<Rightarrow>
     (case bind_peer (pa_local a) (pa_peer a) of Inl e \<Rightarrow> Err (ProbeTransport e) | Inr _ \<Rightarrow>
     (case run config of Inl e \<Rightarrow> Err (ProbeTransport e) | Inr p \<Rightarrow>
        ok_or (map_option (\<lambda>b. b @ [0x0A]) (encode (probe_tool_report env a p))) ReportEncoding))))"

section \<open>\<open>opencade-proof-of-match\<close>\<close>

record proof_args =
  ar_room :: "string option"
  ar_game :: "string option"
  ar_host_user :: "string option"
  ar_guest_user :: "string option"
  ar_platform :: "string option"
  ar_out :: "string option"
  ar_help :: bool

definition default_args :: proof_args where
  "default_args =
     \<lparr>ar_room = None, ar_game = None, ar_host_user = None, ar_guest_user = None, ar_platform = None,
      ar_out = None, ar_help = False\<rparr>"

text \<open>\<open>iter.next()\<close>: the head of the rest, which may be missing, and what is left.\<close>

definition next_arg :: "string list \<Rightarrow> string option" where
  "next_arg rest = (case rest of [] \<Rightarrow> None | v # _ \<Rightarrow> Some v)"

function parse_args :: "proof_args \<Rightarrow> string list \<Rightarrow> string + proof_args" where
  "parse_args a [] = Ok a"
| "parse_args a (flag # rest) =
     (if flag = ''--room'' then parse_args (a\<lparr>ar_room := next_arg rest\<rparr>) (drop 1 rest)
      else if flag = ''--game'' then parse_args (a\<lparr>ar_game := next_arg rest\<rparr>) (drop 1 rest)
      else if flag = ''--host-user'' then parse_args (a\<lparr>ar_host_user := next_arg rest\<rparr>) (drop 1 rest)
      else if flag = ''--guest-user'' then parse_args (a\<lparr>ar_guest_user := next_arg rest\<rparr>) (drop 1 rest)
      else if flag = ''--platform'' then parse_args (a\<lparr>ar_platform := next_arg rest\<rparr>) (drop 1 rest)
      else if flag = ''--out'' then parse_args (a\<lparr>ar_out := next_arg rest\<rparr>) (drop 1 rest)
      else if flag = ''--help'' \<or> flag = ''-h'' then parse_args (a\<lparr>ar_help := True\<rparr>) rest
      else Err (''unknown flag: '' @ flag))"
  by pat_completeness auto
termination by (relation "measure (\<lambda>(_, args). length args)") auto

definition require_flag :: "string \<Rightarrow> string option \<Rightarrow> string + string" where
  "require_flag flag v = ok_or v (''missing required flag: '' @ flag)"

definition parse_endpoint :: "string \<Rightarrow> string + socket_addr" where
  "parse_endpoint s = ok_or (parse_addr s) (''invalid endpoint '' @ s @ '': invalid socket address syntax'')"

definition build_config :: "proof_args \<Rightarrow> string + (proof_config \<times> string option)" where
  "build_config a =
     (case parse_endpoint ''127.0.0.1:41000'' of
        Inl e \<Rightarrow> Err (''default host endpoint invalid: '' @ e) | Inr host_endpoint \<Rightarrow>
     (case parse_endpoint ''127.0.0.1:41001'' of
        Inl e \<Rightarrow> Err (''default guest endpoint invalid: '' @ e) | Inr guest_endpoint \<Rightarrow>
     (case require_flag ''--room'' (ar_room a) of Inl e \<Rightarrow> Err e | Inr room_id \<Rightarrow>
     (case require_flag ''--game'' (ar_game a) of Inl e \<Rightarrow> Err e | Inr game_id \<Rightarrow>
     (case require_flag ''--host-user'' (ar_host_user a) of Inl e \<Rightarrow> Err e | Inr host_user_id \<Rightarrow>
     (case require_flag ''--guest-user'' (ar_guest_user a) of Inl e \<Rightarrow> Err e | Inr guest_user_id \<Rightarrow>
     (case require_flag ''--platform'' (ar_platform a) of Inl e \<Rightarrow> Err e | Inr platform \<Rightarrow>
        Ok (\<lparr>po_room_id = room_id, po_game_id = game_id, po_host_user_id = host_user_id,
             po_guest_user_id = guest_user_id, po_host_endpoint = host_endpoint,
             po_guest_endpoint = guest_endpoint, po_input_delay_frames = 0, po_platform = platform\<rparr>,
            ar_out a))))))))"

datatype proof_output = HelpText | EvidenceTo "string option" string | Complaint string

text \<open>\<open>main\<close>: the exit code and what was printed or written.  \<open>run\<close> is \<open>run_proof\<close>, \<open>encode\<close> the JSON
  encoding of the two reports and their verification, \<open>save\<close> the outcome of \<open>fs::write\<close>, and
  \<open>runtime\<close> that of starting the runtime.\<close>

definition proof_main ::
    "(proof_config \<Rightarrow> proof_error + proof_report) \<Rightarrow> (proof_report \<Rightarrow> string + string) \<Rightarrow>
     (string \<Rightarrow> string \<Rightarrow> string + unit) \<Rightarrow> string + unit \<Rightarrow> string list \<Rightarrow> nat \<times> proof_output" where
  "proof_main run encode save runtime argv =
     (case parse_args default_args argv of Inl e \<Rightarrow> (1, Complaint (''error: '' @ e)) | Inr args \<Rightarrow>
     (if ar_help args then (0, HelpText) else
      case build_config args of Inl e \<Rightarrow> (1, Complaint (''error: '' @ e)) | Inr (config, out) \<Rightarrow>
     (case runtime of Inl e \<Rightarrow> (1, Complaint (''error: failed to start runtime: '' @ e)) | Inr _ \<Rightarrow>
     (case run config of
        Inl e \<Rightarrow> (1, Complaint (''error: '' @ proof_error_code e @ '': '' @ proof_error_str e))
      | Inr report \<Rightarrow>
     (case encode report of
        Inl e \<Rightarrow> (1, Complaint (''error: failed to serialize evidence: '' @ e))
      | Inr pretty \<Rightarrow>
     (case out of
        None \<Rightarrow> (0, EvidenceTo None pretty)
      | Some path \<Rightarrow>
          (case save path pretty of
             Inl e \<Rightarrow> (1, Complaint (''error: failed to write '' @ path @ '': '' @ e))
           | Inr _ \<Rightarrow> (0, EvidenceTo (Some path) pretty))))))))"

section \<open>What the exit codes mean\<close>

definition verify_request :: "string list \<Rightarrow> (bool \<times> string \<times> string) option" where
  "verify_request args =
     (case args of
        [p, q] \<Rightarrow> (if p = ''--require-compatibility'' then None else Some (False, p, q))
      | [f, p, q] \<Rightarrow> (if f = ''--require-compatibility'' then Some (True, p, q) else None)
      | _ \<Rightarrow> None)"

lemma match_verify_run_request:
  "match_verify_run decode encode files args =
     (case verify_request args of None \<Rightarrow> Err usage_failure | Some (strict, p, q) \<Rightarrow>
     (case read_report decode files p ''first'' of Inl e \<Rightarrow> Err e | Inr first \<Rightarrow>
     (case read_report decode files q ''second'' of Inl e \<Rightarrow> Err e | Inr second \<Rightarrow>
     (case (if strict then verify_playable_match_reports first second else verify_match_reports first second) of
        Inl e \<Rightarrow> Err (verify_failure_new (verification_error_code e) (verification_error_str e), 1)
      | Inr v \<Rightarrow> ok_or (encode v)
            (verify_failure_new ''internal_error'' ''failed to serialize verification result'', 2)))))"
  by (simp add: match_verify_run_def verify_request_def split: list.split)

lemma verify_either_cases:
  "(if strict then verify_playable_match_reports a b else verify_match_reports a b) = Ok (verification_of a)
     \<and> valid_report a \<and> valid_report b \<and> corresponding a b \<and> (if strict then rep_compatibility a \<noteq> None else True)
   \<or> (\<exists>e. (if strict then verify_playable_match_reports a b else verify_match_reports a b) = Err e)
     \<and> \<not> (valid_report a \<and> valid_report b \<and> corresponding a b
            \<and> (if strict then rep_compatibility a \<noteq> None else True))"
proof (cases "if strict then verify_playable_match_reports a b else verify_match_reports a b")
  case (Inl e)
  then have "\<not> (valid_report a \<and> valid_report b \<and> corresponding a b
      \<and> (if strict then rep_compatibility a \<noteq> None else True))"
    using verify_ok_iff [of a b "verification_of a"] playable_ok_iff [of a b "verification_of a"]
    by (auto split: if_splits)
  with Inl show ?thesis by blast
next
  case (Inr v)
  then show ?thesis
    using verify_ok_iff [of a b v] playable_ok_iff [of a b v] by (auto split: if_splits)
qed

text \<open>The verdict of \<open>opencade-match-verify\<close>: it exits with 0 exactly when both files hold valid reports
  that correspond to each other (and, with \<open>--require-compatibility\<close>, carry an emulator
  fingerprint), with 1 exactly when both could be read and this is not so, and with 2 in every
  other case: wrong arguments, a file that cannot be read or decoded, a result that cannot be
  encoded.\<close>

theorem verify_tool_exit:
  "fst (match_verify_main encode_failure (match_verify_run decode encode files args)) =
     (case verify_request args of None \<Rightarrow> 2 | Some (strict, p, q) \<Rightarrow>
     (case read_match_report decode (files p) of Inl _ \<Rightarrow> 2 | Inr a \<Rightarrow>
     (case read_match_report decode (files q) of Inl _ \<Rightarrow> 2 | Inr b \<Rightarrow>
        (if valid_report a \<and> valid_report b \<and> corresponding a b
            \<and> (if strict then rep_compatibility a \<noteq> None else True)
         then (if encode (verification_of a) = None then 2 else 0) else 1))))"
proof (cases "verify_request args")
  case None
  then show ?thesis by (simp add: match_verify_run_request match_verify_main_def usage_failure_def)
next
  case (Some r)
  obtain strict p q where r: "r = (strict, p, q)" by (cases r)
  show ?thesis
  proof (cases "read_match_report decode (files p)")
    case (Inl e)
    with Some r show ?thesis
      by (simp add: match_verify_run_request match_verify_main_def read_report_def)
  next
    case a: (Inr a)
    show ?thesis
    proof (cases "read_match_report decode (files q)")
      case (Inl e)
      with Some r a show ?thesis
        by (simp add: match_verify_run_request match_verify_main_def read_report_def)
    next
      case (Inr b)
      with verify_either_cases [of strict a b] Some r a show ?thesis
        by (cases "encode (verification_of a)")
           (auto simp: match_verify_run_request match_verify_main_def read_report_def)
    qed
  qed
qed

text \<open>The order in which the directory lists its entries never matters to the summary.\<close>

lemma json_paths_filter:
  "json_paths is_file es =
     (if None \<in> set es then Err ''campaign directory is unreadable''
      else Ok (filter (\<lambda>p. is_file p \<and> path_extension p = Some ''json'') (map the es)))"
  by (induction is_file es rule: json_paths.induct) auto

lemma sort_mset_eq: "mset xs = mset ys \<Longrightarrow> sort xs = sort ys"
  by (metis sorted_list_of_multiset_mset)

lemma summary_listing_order:
  assumes "mset es = mset es'"
  shows "alpha_summary_run is_file read (\<lambda>_. Some es) args = alpha_summary_run is_file read (\<lambda>_. Some es') args"
proof -
  have "set es = set es'" using assms by (rule mset_eq_setD)
  moreover have "sort (filter P (map the es)) = sort (filter P (map the es'))" for P :: "path \<Rightarrow> bool"
    using assms by (intro sort_mset_eq) (simp add: mset_filter mset_map)
  ultimately show ?thesis
    unfolding alpha_summary_run_def report_paths_def by (simp add: json_paths_filter Let_def split: list.split)
qed

lemma alpha_summary_exit_zero:
  "alpha_summary_exit (alpha_summary_run is_file read directory args) = 0 \<longleftrightarrow>
     (\<exists>s. alpha_summary_run is_file read directory args = Ok s \<and> su_gate_passed s)"
  by (simp add: alpha_summary_exit_def split: sum.splits)

text \<open>Arguments of the proof tool: the default endpoints are well formed, so a configuration is built exactly when the
  five required flags have values.\<close>

lemma default_endpoints:
  "parse_endpoint ''127.0.0.1:41000'' = Ok (SocketAddr (V4 [127, 0, 0, 1]) 41000)"
  "parse_endpoint ''127.0.0.1:41001'' = Ok (SocketAddr (V4 [127, 0, 0, 1]) 41001)"
  by (simp_all add: parse_endpoint_def parse_addr_def parse_socket_addr_def read_port_def read_char_def
      number_eval ip_eval)

lemma build_config_ok:
  "is_ok (build_config a) \<longleftrightarrow>
     None \<notin> {ar_room a, ar_game a, ar_host_user a, ar_guest_user a, ar_platform a}"
  by (auto simp: build_config_def default_endpoints require_flag_def ok_or_def is_ok_iff split: option.splits)

end
