(* ===== verification/Probe_Evidence.thy ===== *)
theory Probe_Evidence
  imports Command_Line Probe_Liveness
begin

text \<open>
  From the wire to the verdict: two \<open>opencade-match-probe\<close> processes over an unreliable network, the
  reports they print, and \<open>opencade-match-verify\<close> over the two files.  What is missing for that from
  the transcript agreement of the two loops is the number of frames each side counts as sent,
  which is a wrapping counter of the code and is bounded here by the number of steps of the run.
\<close>

section \<open>Counting the frames sent\<close>

text \<open>After \<open>n\<close> sends at most: a side that is still exchanging has sent one frame more than it has completed
  rounds, a side that is fin at least as many.\<close>

definition counted :: "nat \<Rightarrow> probe_state \<Rightarrow> bool" where
  "counted n s \<longleftrightarrow> unat (ps_frames_sent s) \<le> n
     \<and> (ps_phase s = Exchanging \<longrightarrow> rounds s < unat (ps_frames_sent s))
     \<and> (ps_phase s \<in> {Lingering, Completed} \<longrightarrow> rounds s \<le> unat (ps_frames_sent s))"

lemma transmit_counts:
  assumes "transmit c r k s = (s', out)"
  shows "(\<exists>e. ps_phase s' = Failed e \<and> ps_frames_sent s' = ps_frames_sent s)
    \<or> s' = s\<lparr>ps_frames_sent := ps_frames_sent s + 1\<rparr>"
  using assms by (fastforce simp: transmit_def split: sum.splits)

lemma unat_succ: "unat (x :: u64) \<le> n \<Longrightarrow> Suc n < 2 ^ 64 \<Longrightarrow> unat (x + 1) = Suc (unat x)"
  by (subst unat_add_lem [THEN iffD1]) simp_all

lemma unat_succ_le: "unat ((x :: u64) + 1) \<le> Suc (unat x)"
  by (simp add: unat_word_ariths)

lemma transmit_counted:
  assumes "transmit c r k s = (s', out)" "counted n s" "Suc n < 2 ^ 64"
  shows "counted (Suc n) s'"
proof -
  have "unat (ps_frames_sent s + 1) = Suc (unat (ps_frames_sent s))"
    using assms(2,3) by (intro unat_succ) (simp_all add: counted_def)
  with transmit_counts [OF assms(1)] assms(2) show ?thesis
    by (auto simp: counted_def rounds_def)
qed

lemma begin_frame_counted:
  assumes "begin_frame c r s = (s', out)" "ps_phase s = Exchanging" "Suc n < 2 ^ 64"
    and "unat (ps_frames_sent s) \<le> n" "rounds s \<le> unat (ps_frames_sent s)"
  shows "counted (Suc n) s'"
proof (cases "ps_frame s < pc_frame_count c")
  case True
  have "unat (ps_frames_sent s + 1) = Suc (unat (ps_frames_sent s))"
    using assms(3,4) by (intro unat_succ) simp_all
  moreover have "transmit c r (ps_frame s) s = (s', out)" using assms(1) True by (simp add: begin_frame_def)
  ultimately show ?thesis
    using transmit_counts [of c r "ps_frame s" s s' out] assms(2,4,5)
    by (auto simp: counted_def rounds_def)
next
  case False
  with assms show ?thesis by (auto simp: begin_frame_def counted_def rounds_def split: sum.splits)
qed

lemma counted_mono: "counted n s \<Longrightarrow> counted (Suc n) s"
  by (simp add: counted_def)

lemma counted_failed: "counted n s \<Longrightarrow> counted (Suc n) (s\<lparr>ps_phase := Failed e\<rparr>)"
  by (simp add: counted_def)

lemma exchange_counted:
  assumes "exchange_step c ev r s = (s', out)" "ps_phase s = Exchanging" "counted n s" "Suc n < 2 ^ 64"
  shows "counted (Suc n) s'"
proof -
  note kept = transmit_counted [OF _ assms(3,4)] counted_mono [OF assms(3)] counted_failed [OF assms(3)]
  have advance: "counted (Suc n) s'"
    if "begin_frame c r (s\<lparr>ps_frame := ps_frame s + 1, ps_checksum := x\<rparr>) = (s', out)" for x
  proof (rule begin_frame_counted [OF that _ assms(4)])
    show "ps_phase (s\<lparr>ps_frame := ps_frame s + 1, ps_checksum := x\<rparr>) = Exchanging" using assms(2) by simp
    show "unat (ps_frames_sent (s\<lparr>ps_frame := ps_frame s + 1, ps_checksum := x\<rparr>)) \<le> n"
      using assms(3) by (simp add: counted_def)
    show "rounds (s\<lparr>ps_frame := ps_frame s + 1, ps_checksum := x\<rparr>)
        \<le> unat (ps_frames_sent (s\<lparr>ps_frame := ps_frame s + 1, ps_checksum := x\<rparr>))"
      using assms(2,3) unat_succ_le [of "ps_frame s"] by (simp add: counted_def rounds_def)
  qed
  from assms(1) kept(2) show ?thesis
    unfolding exchange_step_def
    by (auto split: probe_event.splits sum.splits option.splits if_splits intro: kept advance)
qed

lemma linger_counted:
  assumes "linger_step c ev r s = (s', out)" "ps_phase s = Lingering" "counted n s" "Suc n < 2 ^ 64"
  shows "counted (Suc n) s'"
proof -
  note kept = transmit_counted [OF _ assms(3,4)] counted_mono [OF assms(3)] counted_failed [OF assms(3)]
  have "counted (Suc n) (s\<lparr>ps_phase := Completed\<rparr>)"
    using assms(2,3) by (simp add: counted_def rounds_def)
  with assms(1) kept(2) show ?thesis
    unfolding linger_step_def Let_def
    by (auto split: probe_event.splits sum.splits option.splits if_splits intro: kept)
qed

lemma probe_step_counted:
  assumes "probe_step c ev r s = (s', out)" "counted n s" "Suc n < 2 ^ 64"
  shows "counted (Suc n) s'"
proof (cases "ps_phase s")
  case Exchanging
  with assms exchange_counted [of c ev r s s' out n] show ?thesis by (simp add: probe_step_def)
next
  case Lingering
  with assms linger_counted [of c ev r s s' out n] show ?thesis by (simp add: probe_step_def)
next
  case Completed
  with assms counted_mono [of n s] show ?thesis by (simp add: probe_step_def)
next
  case (Failed e)
  with assms counted_mono [of n s] show ?thesis by (simp add: probe_step_def)
qed

lemma probe_start_counted: "probe_start c r = (s, out) \<Longrightarrow> counted 1 s"
  unfolding probe_start_def
  by (drule begin_frame_counted [where n = 0]) (simp_all add: rounds_def)

section \<open>Runs of a given length\<close>

text \<open>The states of the two peers after \<open>n\<close> steps of either.\<close>

inductive probe_run :: "match_probe_config \<Rightarrow> match_probe_config \<Rightarrow> nat \<Rightarrow> probe_net \<Rightarrow> bool"
  for hc gc :: match_probe_config where
  run_start: "paired hc gc \<Longrightarrow> net_init hc gc s \<Longrightarrow> probe_run hc gc 0 s"
| run_step: "probe_run hc gc n s \<Longrightarrow> net_step hc gc s s' \<Longrightarrow> probe_run hc gc (Suc n) s'"

lemma probe_run_reachable: "probe_run hc gc n s \<Longrightarrow> probe_reachable hc gc s"
  unfolding probe_reachable_def
  by (induction rule: probe_run.induct) (auto intro: reach_init reach_step)

lemma reachable_probe_run: "probe_reachable hc gc s \<Longrightarrow> \<exists>n. probe_run hc gc n s"
  unfolding probe_reachable_def
  by (induction rule: reachable.induct) (auto intro: probe_run.intros)

lemma probe_run_counted:
  "probe_run hc gc n s \<Longrightarrow> Suc n < 2 ^ 64 \<Longrightarrow> counted (Suc n) (host_state s) \<and> counted (Suc n) (guest_state s)"
proof (induction rule: probe_run.induct)
  case (run_start s)
  from run_start(2) obtain r q where
    "(host_state s, host_wire s) = map_prod id set (probe_start hc r)"
    "(guest_state s, guest_wire s) = map_prod id set (probe_start gc q)"
    by (auto simp: net_init_def)
  moreover obtain h hw g gw where "probe_start hc r = (h, hw)" "probe_start gc q = (g, gw)"
    by (metis surj_pair)
  ultimately show ?case
    using probe_start_counted [of hc r h hw] probe_start_counted [of gc q g gw] by simp
next
  case (run_step n s s')
  then have prev: "counted (Suc n) (host_state s)" "counted (Suc n) (guest_state s)" by simp_all
  from run_step(2) show ?case
  proof cases
    case (host_step ev r h out)
    with probe_step_counted [OF host_step(4) prev(1) run_step(4)] counted_mono [OF prev(2)] show ?thesis by simp
  next
    case (guest_step ev r g out)
    with probe_step_counted [OF guest_step(4) prev(2) run_step(4)] counted_mono [OF prev(1)] show ?thesis by simp
  qed
qed

section \<open>From arguments to reports\<close>

text \<open>The two command lines of one match.\<close>

definition matching_arguments :: "probe_arguments \<Rightarrow> probe_arguments \<Rightarrow> bool" where
  "matching_arguments ha ga \<longleftrightarrow> pa_role ha = Host \<and> pa_role ga = Guest
     \<and> pa_room_id ha = pa_room_id ga \<and> pa_game_id ha = pa_game_id ga
     \<and> pa_session_key ha = pa_session_key ga \<and> pa_frames ha = pa_frames ga
     \<and> pa_local_user_id ha = pa_peer_user_id ga \<and> pa_peer_user_id ha = pa_local_user_id ga"

lemma arguments_config_fields:
  assumes "arguments_config a = Ok c"
  shows "wf_config c \<and> pc_descriptor c = arguments_descriptor a \<and> pc_session_key c = pa_session_key a
    \<and> pc_frame_count c = pa_frames a"
  using assms match_probe_config_new_wf [OF assms [unfolded arguments_config_def]]
  by (auto simp: arguments_config_def match_probe_config_new_def split: sum.splits if_splits)

lemma matching_paired:
  assumes "matching_arguments ha ga" "arguments_config ha = Ok hc" "arguments_config ga = Ok gc"
  shows "paired hc gc"
  using assms(1) arguments_config_fields [OF assms(2)] arguments_config_fields [OF assms(3)]
  by (simp add: paired_def matching_arguments_def arguments_descriptor_def)

lemma clamp_u32_60: "60 \<le> n \<Longrightarrow> (60 :: u32) \<le> clamp_u32 n"
  by (simp add: clamp_u32_def word_le_nat_alt unat_of_nat take_bit_nat_eq_self unat_max_word)

lemma hex16_list_all: "list_all is_lower_hex (hex16 w)"
  using hex16_lower_hex by (auto simp: list_all_iff)

text \<open>The report of a side that completed sixty rounds is one the verifier accepts.\<close>

lemma tool_report_valid:
  assumes "arguments_config a = Ok c" "pa_frames a = 60"
    and "side_ok c s wire" "counted n s" "probe_result c t s = Some (Ok p)"
  shows "valid_report (probe_tool_report env a p)
    \<and> pr_transcript_checksum (rep_probe (probe_tool_report env a p)) = hex16 (transcript 60)
    \<and> pr_role (rep_probe (probe_tool_report env a p)) = (case pa_role a of Host \<Rightarrow> RoleHost | Guest \<Rightarrow> RoleGuest)"
proof -
  note c = arguments_config_fields [OF assms(1)]
  then have "descriptor_validate (arguments_descriptor a) = Ok ()" by (auto simp: wf_config_def)
  then have ids: "\<not> is_blank (pa_room_id a)" "\<not> is_blank (pa_game_id a)"
    by (simp_all add: descriptor_validate_ok arguments_descriptor_def)
  have fin: "ps_phase s = Completed" using assms(5) by (simp add: probe_result_def split: probe_phase.splits)
  have "rounds s = 60" using assms(2,3) fin c by (simp add: side_ok_def total_def)
  with fin assms(3,4) have agg: "ps_checksum s = transcript 60" "60 \<le> unat (ps_frames_sent s)"
    by (auto simp: side_ok_def counted_def)
  have p: "mp_frames_sent p = ps_frames_sent s" "mp_frames_received p = 60"
    "mp_transcript_checksum p = hex16 (transcript 60)" "mp_role p = pa_role a"
    using assms(2,5) fin c agg by (auto simp: probe_result_def arguments_descriptor_def)
  have "valid_report (probe_tool_report env a p)"
    unfolding valid_report_iff using p agg ids
    by (simp add: probe_tool_report_def MATCH_REPORT_SCHEMA_VERSION_def hex16_list_all clamp_u32_60)
       (simp add: clamp_u32_def)
  with p show ?thesis by (simp add: probe_tool_report_def)
qed

text \<open>What the tool printed, when it printed something.\<close>

lemma match_probe_main_ok:
  assumes "match_probe_main env bind_peer run encode args = Ok out"
  shows "\<exists>a c p b. arguments_parse args = Ok a \<and> arguments_config a = Ok c \<and> run c = Ok p
    \<and> encode (probe_tool_report env a p) = Some b \<and> out = b @ [0x0A]"
  using assms
  by (auto simp: match_probe_main_def ok_or_def split: sum.splits option.splits)

text \<open>The verifier over two files that hold corresponding reports without a compatibility record.\<close>

lemma verify_two_files:
  assumes "read_match_report decode (files p) = Ok a" "read_match_report decode (files q) = Ok b"
    and "verify_match_reports a b = Ok v" "render v = Some out" "p \<noteq> ''--require-compatibility''"
    and "rep_compatibility a = None"
  shows "match_verify_main ef (match_verify_run decode render files [p, q]) = (0, out @ [CHR 0x0A], [])
    \<and> fst (match_verify_main ef (match_verify_run decode render files [''--require-compatibility'', p, q])) = 1"
  using assms
  by (simp add: match_verify_run_def match_verify_main_def read_report_def verify_playable_match_reports_def)

section \<open>The property\<close>

definition agreed_verification :: "probe_arguments \<Rightarrow> match_verification" where
  "agreed_verification a =
     \<lparr>mv_schema_version = 1, mv_verified = True, mv_room_id = pa_room_id a, mv_game_id = pa_game_id a,
      mv_transport = TransportDirectUdp, mv_frames_received = 60,
      mv_transcript_checksum = ''80896395aaa3d09d''\<rparr>"

lemma printed_reports_verify:
  assumes args: "matching_arguments ha ga" "pa_frames ha = 60"
    and c: "arguments_config ha = Ok hc" "arguments_config ga = Ok gc"
    and run: "probe_run hc gc n s" "Suc n < 2 ^ 64"
    and res: "probe_result hc t (host_state s) = Some (Ok hp)" "probe_result gc u (guest_state s) = Some (Ok gp)"
  shows "verify_match_reports (probe_tool_report henv ha hp) (probe_tool_report genv ga gp)
    = Ok (agreed_verification ha)"
proof -
  have inv: "net_inv hc gc s" using probe_run_reachable [OF run(1)] by (rule probe_reachable_inv)
  have cnt: "counted (Suc n) (host_state s)" "counted (Suc n) (guest_state s)"
    using probe_run_counted [OF run] by auto
  have g60: "pa_frames ga = 60" using args by (simp add: matching_arguments_def)
  from inv have side: "side_ok hc (host_state s) (host_wire s)" "side_ok gc (guest_state s) (guest_wire s)"
    by (simp_all add: net_inv_def)
  note h = tool_report_valid [OF c(1) args(2) side(1) cnt(1) res(1), of henv]
  note g = tool_report_valid [OF c(2) g60 side(2) cnt(2) res(2), of genv]
  from h g args(1) show ?thesis
    unfolding verify_ok_iff corresponding_def
    by (auto simp: matching_arguments_def verification_of_def agreed_verification_def probe_tool_report_def
        transcript_of_sixty_rounds)
qed

text \<open>C3 From the wire to the verdict: let two \<open>opencade-match-probe\<close> processes be started with matching
  arguments (opposite roles, the same room, game, session key and sixty frames, crossed user
  ids) and exchange their datagrams over a network that loses, duplicates, reorders and delays
  them at will.  If both print a report (the file of each holds at most 64 KiB and decodes to the
  report that was encoded), then \<open>opencade-match-verify\<close> over the two files, in either order, exits
  with 0 and prints the verification of that room and game with the checksum of exactly sixty
  rounds; with \<open>--require-compatibility\<close> it exits with 1, since the probe tool records no
  emulator fingerprint.\<close>

theorem probe_reports_verify:
  assumes "arguments_parse hargs = Ok ha" "arguments_parse gargs = Ok ga"
    and "matching_arguments ha ga" "pa_frames ha = 60"
    and "arguments_config ha = Ok hc" "arguments_config ga = Ok gc"
    and "probe_run hc gc n s" "Suc n < 2 ^ 64"
    and "probe_result hc t (host_state s) = Some (hrun hc)" "probe_result gc u (guest_state s) = Some (grun gc)"
    and "match_probe_main henv hbind hrun encode hargs = Ok hfile"
    and "match_probe_main genv gbind grun encode gargs = Ok gfile"
    and "\<And>r b. encode r = Some b \<Longrightarrow> decode (b @ [0x0A]) = Some r"
    and "files p = Some hfile" "files q = Some gfile" "length hfile \<le> 64 * 1024" "length gfile \<le> 64 * 1024"
    and "p \<noteq> ''--require-compatibility''" "q \<noteq> ''--require-compatibility''"
    and "render (agreed_verification ha) = Some out"
  shows "match_verify_main ef (match_verify_run decode render files [p, q]) = (0, out @ [CHR 0x0A], [])
    \<and> match_verify_main ef (match_verify_run decode render files [q, p]) = (0, out @ [CHR 0x0A], [])
    \<and> fst (match_verify_main ef (match_verify_run decode render files [''--require-compatibility'', p, q])) = 1"
proof -
  from match_probe_main_ok [OF assms(11)] assms(1,5,13) obtain hp where
    hp: "hrun hc = Ok hp" "decode hfile = Some (probe_tool_report henv ha hp)" by auto
  from match_probe_main_ok [OF assms(12)] assms(2,6,13) obtain gp where
    gp: "grun gc = Ok gp" "decode gfile = Some (probe_tool_report genv ga gp)" by auto
  have v: "verify_match_reports (probe_tool_report henv ha hp) (probe_tool_report genv ga gp)
      = Ok (agreed_verification ha)"
    using assms(9,10) hp(1) gp(1) by (intro printed_reports_verify [OF assms(3-8)]) simp_all
  have files: "read_match_report decode (files p) = Ok (probe_tool_report henv ha hp)"
    "read_match_report decode (files q) = Ok (probe_tool_report genv ga gp)"
    using hp(2) gp(2) assms(14-17)
    by (simp_all add: read_match_report_def read_bounded_bytes_def MAX_REPORT_BYTES_def)
  show ?thesis
    using verify_two_files [where files = files and p = p and q = q and render = render and v = "agreed_verification ha",
         OF files v assms(20,18)]
      verify_two_files [where files = files and p = q and q = p and render = render and v = "agreed_verification ha",
         OF files(2,1) verify_sym [OF v] assms(20,19)]
    by (simp add: probe_tool_report_def)
qed

definition demo_arguments :: "string \<Rightarrow> string \<Rightarrow> string \<Rightarrow> string \<Rightarrow> string \<Rightarrow> string list" where
  "demo_arguments here there me you role =
     [''--local'', here, ''--peer'', there, ''--room'', ''room-1'', ''--game'', ''sfiii3'',
      ''--local-user'', me, ''--peer-user'', you, ''--role'', role, ''--session-key'', ''session-1'',
      ''--frames'', ''60'', ''--timeout-ms'', ''5000'']"

definition demo_parsed :: "u16 \<Rightarrow> u16 \<Rightarrow> string \<Rightarrow> string \<Rightarrow> peer_role \<Rightarrow> probe_arguments" where
  "demo_parsed here there me you role =
     \<lparr>pa_local = SocketAddr (V4 [127, 0, 0, 1]) here, pa_peer = SocketAddr (V4 [127, 0, 0, 1]) there,
      pa_room_id = ''room-1'', pa_game_id = ''sfiii3'', pa_local_user_id = me, pa_peer_user_id = you,
      pa_role = role, pa_session_key = ''session-1'', pa_frames = 60, pa_timeout = 5000000000\<rparr>"

abbreviation "demo_hargs \<equiv> demo_arguments ''127.0.0.1:41000'' ''127.0.0.1:41001'' ''host'' ''guest'' ''host''"
abbreviation "demo_gargs \<equiv> demo_arguments ''127.0.0.1:41001'' ''127.0.0.1:41000'' ''guest'' ''host'' ''guest''"
abbreviation "demo_ha \<equiv> demo_parsed 41000 41001 ''host'' ''guest'' Host"
abbreviation "demo_ga \<equiv> demo_parsed 41001 41000 ''guest'' ''host'' Guest"

lemma demo_addresses:
  "parse_addr ''127.0.0.1:41000'' = Some (SocketAddr (V4 [127, 0, 0, 1]) 41000)"
  "parse_addr ''127.0.0.1:41001'' = Some (SocketAddr (V4 [127, 0, 0, 1]) 41001)"
  by (simp_all add: parse_addr_def parse_socket_addr_def read_port_def read_char_def number_eval ip_eval)

lemma demo_numbers: "parse_unsigned 18446744073709551616 ''60'' = Some 60" "parse_unsigned 18446744073709551616 ''5000'' = Some 5000"
  by (simp_all add: parse_unsigned_def number_eval)

lemma demo_parse:
  "arguments_parse demo_hargs = Ok demo_ha" "arguments_parse demo_gargs = Ok demo_ga"
  by (simp_all add: arguments_parse_def demo_arguments_def demo_parsed_def flag_value_def demo_addresses
      demo_numbers parse_role_def)

lemma demo_configs:
  "arguments_config demo_ha \<noteq> Err e" "arguments_config demo_ga \<noteq> Err e"
  by (simp_all add: arguments_config_def match_probe_config_new_def arguments_descriptor_def demo_parsed_def
      descriptor_validate_def is_blank_graphic graphic_def MAX_PROBE_FRAMES_def)

text \<open>The shortest run: in every round each side receives the other's frame once, which takes two steps
  a round and one more for each side to end its grace period.\<close>

definition lockstep :: "match_probe_config \<Rightarrow> match_probe_config \<Rightarrow> nat \<Rightarrow> probe_net \<Rightarrow> bool" where
  "lockstep hc gc k s \<longleftrightarrow> probe_run hc gc (2 * k) s
     \<and> active (host_state s) \<and> active (guest_state s)
     \<and> rounds (host_state s) = k \<and> rounds (guest_state s) = k
     \<and> (k < total hc \<longrightarrow> own_packet hc k \<in> host_wire s \<and> own_packet gc k \<in> guest_wire s)"

lemma lockstep_start:
  assumes "paired hc gc"
  shows "\<exists>s. lockstep hc gc 0 s"
proof -
  have wf: "wf_config hc" "wf_config gc" using assms by (simp_all add: paired_def)
  obtain h hw where h: "probe_start hc (Ok ()) = (h, hw)" by fastforce
  obtain g gw where g: "probe_start gc (Ok ()) = (g, gw)" by fastforce
  let ?s = "\<lparr>host_state = h, guest_state = g, host_wire = set hw, guest_wire = set gw\<rparr>"
  have "net_init hc gc ?s"
    unfolding net_init_def using h g by (intro exI [of _ "Ok ()"]) (simp add: possible_outcome_def)
  with assms have "probe_run hc gc 0 ?s" by (rule run_start)
  moreover have "active h \<and> rounds h = 0 \<and> own_packet hc 0 \<in> set hw"
    using h transmit_success [OF wf(1), of 0] total_bounds [OF wf(1)]
    by (auto simp: probe_start_def begin_frame_def active_def rounds_def total_def word_less_nat_alt)
  moreover have "active g \<and> rounds g = 0 \<and> own_packet gc 0 \<in> set gw"
    using g transmit_success [OF wf(2), of 0] total_bounds [OF wf(2)]
    by (auto simp: probe_start_def begin_frame_def active_def rounds_def total_def word_less_nat_alt)
  ultimately show ?thesis by (intro exI [of _ ?s]) (simp add: lockstep_def)
qed

lemma lockstep_next:
  assumes l: "lockstep hc gc k s" and k: "k < total hc"
  shows "\<exists>s'. lockstep hc gc (Suc k) s'"
proof -
  have run: "probe_run hc gc (2 * k) s" using l by (simp add: lockstep_def)
  have inv: "net_inv hc gc s" using probe_run_reachable [OF run] by (rule probe_reachable_inv)
  then have opp: "opposite hc gc" "opposite gc hc" and t: "total gc = total hc"
    and h: "side_ok hc (host_state s) (host_wire s)" and g: "side_ok gc (guest_state s) (guest_wire s)"
    by (auto simp: net_inv_def opposite_def paired_def total_def)
  have ph: "ps_phase (host_state s) = Exchanging" "ps_phase (guest_state s) = Exchanging"
    using l k t h g by (auto simp: lockstep_def active_def side_ok_def)
  obtain h' hout where hs: "probe_step hc (ReceivePacket (Inr (own_packet gc k))) (Ok ()) (host_state s) = (h', hout)"
    by fastforce
  obtain g' gout where gs: "probe_step gc (ReceivePacket (Inr (own_packet hc k))) (Ok ()) (guest_state s) = (g', gout)"
    by fastforce
  let ?a = "s\<lparr>host_state := h', host_wire := host_wire s \<union> set hout\<rparr>"
  let ?b = "?a\<lparr>guest_state := g', guest_wire := guest_wire ?a \<union> set gout\<rparr>"
  have pe: "possible_event (guest_wire s) (ReceivePacket (Inr (own_packet gc k)))"
    "possible_event (host_wire ?a) (ReceivePacket (Inr (own_packet hc k)))"
    using l k by (auto simp: possible_event_def own_packet_def probe_packet_of_def lockstep_def)
  have "net_step hc gc s ?a"
    by (rule net_step.host_step [OF pe(1) _ hs]) (simp add: possible_outcome_def)
  moreover have "net_step hc gc ?a ?b"
    by (rule net_step.guest_step [OF pe(2)]) (use gs in \<open>simp_all add: possible_outcome_def\<close>)
  ultimately have "probe_run hc gc (Suc (Suc (2 * k))) ?b"
    using run by (blast intro: run_step)
  moreover have "active h' \<and> rounds h' = Suc k \<and> (Suc k < total hc \<longrightarrow> set hout = {own_packet hc (Suc k)})"
    using complete_round [OF opp(1) h ph(1)] hs l by (simp add: lockstep_def)
  moreover have "active g' \<and> rounds g' = Suc k \<and> (Suc k < total gc \<longrightarrow> set gout = {own_packet gc (Suc k)})"
    using complete_round [OF opp(2) g ph(2)] gs l by (simp add: lockstep_def)
  ultimately show ?thesis
    using t by (intro exI [of _ ?b]) (simp add: lockstep_def)
qed

lemma lockstep_all: "paired hc gc \<Longrightarrow> k \<le> total hc \<Longrightarrow> \<exists>s. lockstep hc gc k s"
  by (induction k) (use lockstep_start lockstep_next Suc_le_lessD less_imp_le in blast)+

lemma shortest_run:
  assumes "paired hc gc"
  shows "\<exists>s hr gr. probe_run hc gc (2 * total hc + 2) s
    \<and> probe_result hc t (host_state s) = Some (Ok hr) \<and> probe_result gc u (guest_state s) = Some (Ok gr)"
proof -
  from lockstep_all [OF assms order_refl] obtain s where l: "lockstep hc gc (total hc) s" by blast
  then have run: "probe_run hc gc (2 * total hc) s" by (simp add: lockstep_def)
  have inv: "net_inv hc gc s" using probe_run_reachable [OF run] by (rule probe_reachable_inv)
  have ph: "ps_phase (host_state s) = Lingering" "ps_phase (guest_state s) = Lingering"
    using l inv by (auto simp: lockstep_def net_inv_def side_ok_def active_def paired_def total_def)
  let ?a = "s\<lparr>host_state := (host_state s)\<lparr>ps_phase := Completed\<rparr>, host_wire := host_wire s \<union> set []\<rparr>"
  let ?b = "?a\<lparr>guest_state := (guest_state s)\<lparr>ps_phase := Completed\<rparr>, guest_wire := guest_wire ?a \<union> set []\<rparr>"
  have "net_step hc gc s ?a"
    by (rule net_step.host_step [where ev = DeadlinePassed and r = "Ok ()"])
       (simp_all add: possible_event_def possible_outcome_def probe_step_def linger_step_def ph)
  moreover have "net_step hc gc ?a ?b"
    by (rule net_step.guest_step [where ev = DeadlinePassed and r = "Ok ()"])
       (simp_all add: possible_event_def possible_outcome_def probe_step_def linger_step_def ph)
  ultimately have "probe_run hc gc (2 * total hc + 2) ?b"
    unfolding add_2_eq_Suc' using run by (blast intro: run_step)
  then show ?thesis by (intro exI [of _ ?b]) (simp add: probe_result_def)
qed

text \<open>A match of sixty frames played in lockstep, both reports printed, written and verified.\<close>

definition demo_tool_env :: probe_tool_env where
  "demo_tool_env = \<lparr>pt_now = 0, pt_platform = ''linux'', pt_version = ''0.1.0''\<rparr>"

lemma matching_demo: "matching_arguments demo_ha demo_ga" "pa_frames demo_ha = 60"
  by (simp_all add: matching_arguments_def demo_parsed_def)

theorem probe_reports_verify_witness:
  "\<exists>hfile gfile files decode.
     match_verify_main (\<lambda>_. None) (match_verify_run decode (\<lambda>v. Some (mv_transcript_checksum v)) files [''a'', ''b''])
       = (0, ''80896395aaa3d09d'' @ [CHR 0x0A], [])
     \<and> files ''a'' = Some hfile \<and> files ''b'' = Some gfile \<and> hfile \<noteq> gfile"
proof -
  from demo_configs obtain hc gc where c: "arguments_config demo_ha = Ok hc" "arguments_config demo_ga = Ok gc"
    by (metis sum.exhaust_sel)
  from shortest_run [OF matching_paired [OF matching_demo(1) c], of 5 7] obtain s hp gp where
    s: "probe_run hc gc (2 * total hc + 2) s" "probe_result hc 5 (host_state s) = Some (Ok hp)"
      "probe_result gc 7 (guest_state s) = Some (Ok gp)" by blast
  have "total hc = 60" using arguments_config_fields [OF c(1)] by (simp add: total_def demo_parsed_def)
  then have n: "Suc (2 * total hc + 2) < 2 ^ 64" by simp
  let ?h = "probe_tool_report demo_tool_env demo_ha hp" and ?g = "probe_tool_report demo_tool_env demo_ga gp"
  have roles: "mp_role hp = Host" "mp_role gp = Guest"
    using s(2,3) arguments_config_fields [OF c(1)] arguments_config_fields [OF c(2)]
    by (auto simp: probe_result_def arguments_descriptor_def demo_parsed_def split: probe_phase.splits)
  have "pr_role (rep_probe ?h) \<noteq> pr_role (rep_probe ?g)" using roles by (simp add: probe_tool_report_def)
  then have ne: "?h \<noteq> ?g" by metis
  let ?encode = "\<lambda>r. if r = ?h then Some [0 :: u8] else if r = ?g then Some [1] else None"
  let ?decode = "\<lambda>b :: bytes. if b = [0, 0x0A] then Some ?h else if b = [1, 0x0A] then Some ?g else None"
  let ?files = "\<lambda>f. if f = ''a'' then Some [0, 0x0A :: u8] else if f = ''b'' then Some [1, 0x0A] else None"
  have mains: "match_probe_main demo_tool_env (\<lambda>_ _. Ok ()) (\<lambda>_. Ok hp) ?encode demo_hargs = Ok [0, 0x0A]"
    "match_probe_main demo_tool_env (\<lambda>_ _. Ok ()) (\<lambda>_. Ok gp) ?encode demo_gargs = Ok [1, 0x0A]"
    using c ne by (simp_all add: match_probe_main_def demo_parse)
  have "match_verify_main (\<lambda>_. None)
      (match_verify_run ?decode (\<lambda>v. Some (mv_transcript_checksum v)) ?files [''a'', ''b''])
    = (0, ''80896395aaa3d09d'' @ [CHR 0x0A], [])"
    by (rule probe_reports_verify [OF demo_parse matching_demo c s(1) n s(2,3) mains, THEN conjunct1])
       (auto simp: agreed_verification_def split: if_splits)
  then show ?thesis
    by (intro exI [of _ "[0, 0x0A]"] exI [of _ "[1, 0x0A]"] exI [of _ ?files] exI [of _ ?decode]) simp
qed

end
