(* ===== verification/Service_Surface.thy ===== *)
theory Service_Surface
  imports Server_DB Accounts Server_Config Stun_Client
begin

text \<open>
  What the services show to the outside around their core: the route table of the API server and who
  may call which route (\<open>apps/server/src/lib.rs\<close>), the HTTP counters and the metrics page, health and
  readiness, the directory of games, lobbies and servers (\<open>routes/games.rs\<close>, \<open>lobbies.rs\<close>,
  \<open>servers.rs\<close>), and the environment of the relay service.  The collation of the database, the display of
  UUIDs and of the one floating-point number of the metrics page are parameters.
\<close>

section \<open>The route table\<close>

datatype endpoint =
    EpHealth | EpReady | EpMetrics | EpRegister | EpLogin | EpLogout | EpMe | EpListGames | EpGetGame
  | EpListServers | EpListIncoming | EpCreateChallenge | EpAcceptChallenge | EpDeclineChallenge
  | EpCancelChallenge | EpGetLobby | EpCreateRoom | EpGetRoom | EpCreateInvite | EpJoinInvite
  | EpSubmitPreflight | EpRoomSnapshot | EpReadyToLaunch | EpCreateReceipt | EpSubmitEvidence
  | EpCampaignSummary | EpPublicCompatibility | EpRecordEvent | EpActivationSummary | EpAcceptRoom
  | EpDeclineRoom | EpCancelRoom | EpStartRoom | EpRelayTicket | EpNativeTunnelTicket
  | EpCreateLaunchGrant | EpConsumeLaunchGrant | EpFinishRoom | EpWs

definition app_routes :: "(string \<times> string \<times> endpoint) list" where
  "app_routes =
    [(''GET'', ''/health'', EpHealth),
     (''GET'', ''/ready'', EpReady),
     (''GET'', ''/metrics'', EpMetrics),
     (''POST'', ''/api/v1/auth/register'', EpRegister),
     (''POST'', ''/api/v1/auth/login'', EpLogin),
     (''POST'', ''/api/v1/auth/logout'', EpLogout),
     (''GET'', ''/api/v1/auth/me'', EpMe),
     (''GET'', ''/api/v1/games'', EpListGames),
     (''GET'', ''/api/v1/games/{id}'', EpGetGame),
     (''GET'', ''/api/v1/servers'', EpListServers),
     (''GET'', ''/api/v1/challenges'', EpListIncoming),
     (''POST'', ''/api/v1/challenges'', EpCreateChallenge),
     (''POST'', ''/api/v1/challenges/{id}/accept'', EpAcceptChallenge),
     (''POST'', ''/api/v1/challenges/{id}/decline'', EpDeclineChallenge),
     (''POST'', ''/api/v1/challenges/{id}/cancel'', EpCancelChallenge),
     (''GET'', ''/api/v1/lobbies/{game_id}'', EpGetLobby),
     (''POST'', ''/api/v1/rooms'', EpCreateRoom),
     (''GET'', ''/api/v1/rooms/{id}'', EpGetRoom),
     (''POST'', ''/api/v1/rooms/{id}/invite'', EpCreateInvite),
     (''POST'', ''/api/v1/invites/join'', EpJoinInvite),
     (''POST'', ''/api/v1/rooms/{id}/preflight'', EpSubmitPreflight),
     (''GET'', ''/api/v1/rooms/{id}/snapshot'', EpRoomSnapshot),
     (''POST'', ''/api/v1/rooms/{id}/ready'', EpReadyToLaunch),
     (''POST'', ''/api/v1/rooms/{id}/receipt'', EpCreateReceipt),
     (''POST'', ''/api/v1/alpha/evidence'', EpSubmitEvidence),
     (''GET'', ''/api/v1/alpha/campaign'', EpCampaignSummary),
     (''GET'', ''/api/v1/public/compatibility'', EpPublicCompatibility),
     (''POST'', ''/api/v1/telemetry/events'', EpRecordEvent),
     (''GET'', ''/api/v1/telemetry/activation'', EpActivationSummary),
     (''POST'', ''/api/v1/rooms/{id}/accept'', EpAcceptRoom),
     (''POST'', ''/api/v1/rooms/{id}/decline'', EpDeclineRoom),
     (''POST'', ''/api/v1/rooms/{id}/cancel'', EpCancelRoom),
     (''POST'', ''/api/v1/rooms/{id}/start'', EpStartRoom),
     (''POST'', ''/api/v1/rooms/{id}/relay-ticket'', EpRelayTicket),
     (''POST'', ''/api/v1/rooms/{id}/native-tunnel-ticket'', EpNativeTunnelTicket),
     (''POST'', ''/api/v1/rooms/{id}/launch-grant'', EpCreateLaunchGrant),
     (''POST'', ''/api/v1/match-launch-grants/consume'', EpConsumeLaunchGrant),
     (''POST'', ''/api/v1/rooms/{id}/finish'', EpFinishRoom),
     (''GET'', ''/ws'', EpWs)]"

text \<open>What a handler asks of its caller, by its arguments: nothing, an operator token, a session
  (\<open>AuthUser\<close>), or a session and an operator token.  \<open>ws_handler\<close> takes its session from the
  subprotocol header.\<close>

datatype access = Open | OperatorToken | Session | SessionAndOperator | SocketSession

fun endpoint_access :: "endpoint \<Rightarrow> access" where
  "endpoint_access EpHealth = Open"
| "endpoint_access EpReady = Open"
| "endpoint_access EpRegister = Open"
| "endpoint_access EpLogin = Open"
| "endpoint_access EpPublicCompatibility = Open"
| "endpoint_access EpMetrics = OperatorToken"
| "endpoint_access EpCampaignSummary = SessionAndOperator"
| "endpoint_access EpActivationSummary = SessionAndOperator"
| "endpoint_access EpWs = SocketSession"
| "endpoint_access _ = Session"

text \<open>The guards of a handler in the order they run: the \<open>AuthUser\<close> extractor, then the operator token.\<close>

definition admit ::
    "auth_env \<Rightarrow> (string \<Rightarrow> bytes) \<Rightarrow> string \<Rightarrow> string option \<Rightarrow> string option \<Rightarrow> endpoint \<Rightarrow> accounts \<Rightarrow>
     app_error + auth_user option" where
  "admit env sha256 operator_token authorization operator_header ep st =
     (let session = authenticate_header env authorization st;
          operator = require_operator sha256 operator_token operator_header
      in case endpoint_access ep of
           Session \<Rightarrow> map_sum id Some session
         | SessionAndOperator \<Rightarrow>
             (case session of Inl e \<Rightarrow> Err e | Inr u \<Rightarrow>
               (case operator of Inl e \<Rightarrow> Err e | Inr _ \<Rightarrow> Ok (Some u)))
         | OperatorToken \<Rightarrow> (case operator of Inl e \<Rightarrow> Err e | Inr _ \<Rightarrow> Ok None)
         | _ \<Rightarrow> Ok None)"

definition cors_origins :: "(string \<Rightarrow> 'h option) \<Rightarrow> config \<Rightarrow> 'h list" where
  "cors_origins header_value c = List.map_filter header_value (cfg_allowed_origins c)"

record 'h cors_policy =
  co_origins :: "'h list"
  co_methods :: "string list"
  co_headers :: "string list"

definition cors_layer :: "(string \<Rightarrow> 'h option) \<Rightarrow> config \<Rightarrow> 'h cors_policy" where
  "cors_layer header_value c =
     \<lparr>co_origins = cors_origins header_value c, co_methods = [''GET'', ''POST''],
      co_headers = [''authorization'', ''content-type'', ''x-operator-token'']\<rparr>"

text \<open>Every method of the route table is allowed to the configured origins, and only an origin that was
  configured and is a header value is.\<close>

theorem cors_covers_routes:
  "fst ` set app_routes \<subseteq> set (co_methods (cors_layer header_value c))
   \<and> set (co_origins (cors_layer header_value c)) = {h. \<exists>origin \<in> set (cfg_allowed_origins c). header_value origin = Some h}"
proof
  show "fst ` set app_routes \<subseteq> set (co_methods (cors_layer header_value c))"
    by (simp add: app_routes_def cors_layer_def)
  show "set (co_origins (cors_layer header_value c))
      = {h. \<exists>origin \<in> set (cfg_allowed_origins c). header_value origin = Some h}"
    by (force simp: cors_layer_def cors_origins_def List.map_filter_def)
qed

section \<open>Counters\<close>

record metrics =
  mt_requests_total :: u64
  mt_duration_micros :: u64
  mt_responses_4xx :: u64
  mt_responses_5xx :: u64
  mt_rooms_created :: u64

definition metrics_default :: metrics where
  "metrics_default =
     \<lparr>mt_requests_total = 0, mt_duration_micros = 0, mt_responses_4xx = 0, mt_responses_5xx = 0,
      mt_rooms_created = 0\<rparr>"

text \<open>\<open>track_http\<close> in its two atomic parts: before the request is passed on and after the response; a request whose
  future is dropped in between never reaches the second one.\<close>

definition track_begin :: "metrics \<Rightarrow> metrics" where
  "track_begin m = m\<lparr>mt_requests_total := mt_requests_total m + 1\<rparr>"

definition track_end :: "nat \<Rightarrow> nat \<Rightarrow> metrics \<Rightarrow> metrics" where
  "track_end elapsed_micros status m =
     (let m1 = m\<lparr>mt_duration_micros := mt_duration_micros m + of_nat (min elapsed_micros (2 ^ 64 - 1))\<rparr> in
      if 400 \<le> status \<and> status \<le> 499 then m1\<lparr>mt_responses_4xx := mt_responses_4xx m1 + 1\<rparr>
      else if 500 \<le> status \<and> status \<le> 599 then m1\<lparr>mt_responses_5xx := mt_responses_5xx m1 + 1\<rparr>
      else m1)"

definition metrics_body :: "(nat \<Rightarrow> string) \<Rightarrow> nat \<Rightarrow> metrics \<Rightarrow> string" where
  "metrics_body show_seconds ws m =
     (let nl = [CHR 0x0A]; total = nat_str (unat (mt_requests_total m)) in
      ''# HELP http_requests_total Total HTTP requests'' @ nl
      @ ''# TYPE http_requests_total counter'' @ nl
      @ ''http_requests_total '' @ total @ nl
      @ ''# HELP http_responses_total HTTP responses by status class'' @ nl
      @ ''# TYPE http_responses_total counter'' @ nl
      @ ''http_responses_total{class=\"4xx\"} '' @ nat_str (unat (mt_responses_4xx m)) @ nl
      @ ''http_responses_total{class=\"5xx\"} '' @ nat_str (unat (mt_responses_5xx m)) @ nl
      @ ''# HELP ws_connections Current WebSocket connections'' @ nl
      @ ''# TYPE ws_connections gauge'' @ nl
      @ ''ws_connections '' @ nat_str ws @ nl
      @ ''# HELP rooms_created Total rooms created'' @ nl
      @ ''# TYPE rooms_created counter'' @ nl
      @ ''rooms_created '' @ nat_str (unat (mt_rooms_created m)) @ nl
      @ ''# HELP http_request_duration_seconds Cumulative HTTP request duration'' @ nl
      @ ''# TYPE http_request_duration_seconds summary'' @ nl
      @ ''http_request_duration_seconds_sum '' @ show_seconds (unat (mt_duration_micros m)) @ nl
      @ ''http_request_duration_seconds_count '' @ total @ nl)"

definition metrics_page ::
    "(string \<Rightarrow> bytes) \<Rightarrow> string \<Rightarrow> (nat \<Rightarrow> string) \<Rightarrow> string option \<Rightarrow> nat \<Rightarrow> metrics \<Rightarrow> app_error + (nat \<times> string \<times> string)" where
  "metrics_page sha256 operator_token show_seconds header ws m =
     (case require_operator sha256 operator_token header of
        Inl e \<Rightarrow> Err e
      | Inr _ \<Rightarrow> Ok (200, ''text/plain; version=0.0.4'', metrics_body show_seconds ws m))"

section \<open>Health\<close>

definition health :: "string \<Rightarrow> instant \<Rightarrow> nat \<times> json envelope" where
  "health rid now =
     (200, envelope_new rid now ''health.ok''
        (JObj [(''status'', JStr ''ok''), (''version'', JStr PROTOCOL_VERSION)]))"

definition ready :: "string \<Rightarrow> instant \<Rightarrow> bool \<Rightarrow> nat \<times> json envelope" where
  "ready rid now database_answers =
     (if database_answers
      then (200, envelope_new rid now ''ready.ok''
              (JObj [(''status'', JStr ''ready''), (''database'', JStr ''connected'')]))
      else (503, envelope_new rid now ''ready.error''
              (JObj [(''status'', JStr ''not_ready''), (''database'', JStr ''unavailable'')])))"

section \<open>The directory\<close>

record game_row =
  g_id :: string
  g_name :: string
  g_emulator :: string

record game_version_row =
  gv_game :: string
  gv_version :: string
  gv_default :: bool

record server_row =
  sv_id :: uuid
  sv_name :: string
  sv_region :: string
  sv_host :: string
  sv_port :: int

record game_entry =
  ge_id :: string
  ge_name :: string
  ge_emulator :: string
  ge_default_version :: "string option"

text \<open>\<open>games LEFT JOIN game_versions ON \<dots> AND is_default\<close>.\<close>

definition with_versions :: "game_version_row list \<Rightarrow> game_row \<Rightarrow> game_entry list" where
  "with_versions versions g =
     (let entry = (\<lambda>v. \<lparr>ge_id = g_id g, ge_name = g_name g, ge_emulator = g_emulator g, ge_default_version = v\<rparr>);
          found = filter (\<lambda>v. gv_game v = g_id g \<and> gv_default v) versions
      in if found = [] then [entry None] else map (\<lambda>v. entry (Some (gv_version v))) found)"

definition list_games :: "(string \<Rightarrow> string) \<Rightarrow> game_row list \<Rightarrow> game_version_row list \<Rightarrow> game_entry list" where
  "list_games collate games versions =
     take 500 (sort_key (collate \<circ> ge_name) (concat (map (with_versions versions) games)))"

definition get_game :: "game_row list \<Rightarrow> game_version_row list \<Rightarrow> string \<Rightarrow> app_error + game_entry" where
  "get_game games versions gid =
     (if is_blank gid then Err (BadRequest ''game id must not be empty'')
      else case concat (map (with_versions versions) (filter (\<lambda>g. g_id g = gid) games)) of
        [] \<Rightarrow> Err (NotFound (''game not found: '' @ gid))
      | e # _ \<Rightarrow> Ok e)"

text \<open>The members of the rooms of a game that are still open; \<open>SELECT DISTINCT \<dots> ORDER BY users.username\<close>.\<close>

definition in_lobby :: "room_state \<Rightarrow> bool" where
  "in_lobby s \<longleftrightarrow> s = Waiting \<or> s = Challenging \<or> s = Connecting \<or> s = Playing"

record lobby_member =
  lm_user_id :: string
  lm_username :: string

definition lobby_users :: "db \<Rightarrow> user_row list \<Rightarrow> string \<Rightarrow> (uuid \<times> string) list" where
  "lobby_users d users gid =
     remdups (concat (map (\<lambda>m. concat (map (\<lambda>r.
         if r_id r = m_room m \<and> r_game r = gid \<and> in_lobby (r_state r)
         then map (\<lambda>u. (u_id u, u_username u)) (filter (\<lambda>u. u_id u = m_user m) users)
         else []) (db_rooms d))) (db_members d)))"

definition get_lobby ::
    "(string \<Rightarrow> string) \<Rightarrow> (uuid \<Rightarrow> string) \<Rightarrow> user_row list \<Rightarrow> db \<Rightarrow> string \<Rightarrow> app_error + lobby_member list" where
  "get_lobby collate show_uuid users d gid =
     (if gid \<notin> set (db_games d) then Err (NotFound (''game not found: '' @ gid))
      else Ok (map (\<lambda>(i, name). \<lparr>lm_user_id = show_uuid i, lm_username = name\<rparr>)
                 (take 500 (sort_key (collate \<circ> snd) (lobby_users d users gid)))))"

record server_entry =
  se_id :: string
  se_name :: string
  se_region :: string
  se_host :: string
  se_port :: int
  se_stun :: "string option"

definition stun_hint :: "config \<Rightarrow> string option" where
  "stun_hint c =
     (if cfg_stun_host c = [] then None else Some (cfg_stun_host c @ '':'' @ nat_str (cfg_stun_port c)))"

definition list_servers ::
    "(string \<Rightarrow> string) \<Rightarrow> (uuid \<Rightarrow> string) \<Rightarrow> config \<Rightarrow> server_row list \<Rightarrow> server_entry list" where
  "list_servers collate show_uuid c servers =
     map (\<lambda>s. \<lparr>se_id = show_uuid (sv_id s), se_name = sv_name s, se_region = sv_region s, se_host = sv_host s,
               se_port = sv_port s, se_stun = stun_hint c\<rparr>)
       (take 100 (sort_key (\<lambda>s. (collate (sv_region s), collate (sv_name s))) servers))"

section \<open>The relay's environment\<close>

record relay_config =
  rc_port :: nat
  rc_rust_log :: string
  rc_auth_secret :: string

datatype env_var = NotPresent | NotUnicode | Present string

definition env_ok :: "env_var \<Rightarrow> string option" where
  "env_ok v = (case v of Present s \<Rightarrow> Some s | _ \<Rightarrow> None)"

definition relay_from_env :: "(string \<Rightarrow> env_var) \<Rightarrow> string + relay_config" where
  "relay_from_env var =
     (case (case var ''PORT'' of
              Present value \<Rightarrow> ok_or (parse_unsigned (2 ^ 16) value) ''PORT must be a valid TCP port''
            | NotPresent \<Rightarrow> Ok 8081
            | NotUnicode \<Rightarrow> Err ''PORT must be valid Unicode'') of
        Inl e \<Rightarrow> Err e
      | Inr port \<Rightarrow>
     (let rust_log = (case env_ok (var ''RUST_LOG'') of Some l \<Rightarrow> l | None \<Rightarrow> ''info'') in
      case env_ok (var ''RELAY_AUTH_SECRET'') of
        None \<Rightarrow> Err ''RELAY_AUTH_SECRET is required''
      | Some auth_secret \<Rightarrow>
          (if length auth_secret < 32
           then Err ''RELAY_AUTH_SECRET must contain at least 32 characters''
           else Ok \<lparr>rc_port = port, rc_rust_log = rust_log, rc_auth_secret = auth_secret\<rparr>)))"

definition relay_health :: "nat \<times> json" where
  "relay_health = (200, JObj [(''status'', JStr ''ok''), (''version'', JStr ''0.1.0'')])"

definition relay_ready :: "nat \<times> json" where
  "relay_ready = (200, JObj [(''status'', JStr ''ok'')])"

section \<open>Facts\<close>

text \<open>The route table: no method and path twice, no endpoint twice, and what can be called without a session.\<close>

lemma routes_distinct: "distinct (map (\<lambda>(m, p, _). (m, p)) app_routes)" "distinct (map (\<lambda>(_, _, e). e) app_routes)"
  by (simp_all add: app_routes_def)

lemma routes_without_session:
  "map (\<lambda>(_, p, _). p) (filter (\<lambda>(_, _, e). endpoint_access e \<in> {Open, OperatorToken}) app_routes) =
     [''/health'', ''/ready'', ''/metrics'', ''/api/v1/auth/register'', ''/api/v1/auth/login'',
      ''/api/v1/public/compatibility'']"
  by (simp add: app_routes_def)

text \<open>Who gets through: a caller without a session reaches only the open endpoints, the socket (which
  authenticates by itself) and, with the operator token, the metrics page.\<close>

lemma admit_without_session:
  assumes "admit env sha256 tok None op ep st = Ok u"
  shows "u = None \<and> (endpoint_access ep \<in> {Open, SocketSession}
    \<or> endpoint_access ep = OperatorToken \<and> require_operator sha256 tok op = Ok ())"
  using assms
  by (auto simp: admit_def authenticate_header_def bearer_token_def Let_def split: access.splits sum.splits)

lemma map_sum_Some_ok: "map_sum id Some r = Ok (Some u) \<longleftrightarrow> r = Ok u"
  by (cases r) auto

lemma admit_session:
  assumes "admit env sha256 tok auth op ep st = Ok (Some u)"
  shows "\<exists>t. bearer_token auth = Ok t \<and> authenticate_token env t st = Ok u
    \<and> (endpoint_access ep = SessionAndOperator \<longrightarrow> require_operator sha256 tok op = Ok ())"
  using assms
  by (auto simp: admit_def authenticate_header_def Let_def map_sum_Some_ok split: access.splits sum.splits)

text \<open>The counters over any interleaving of requests: the begun and the finished ones.\<close>

datatype http_event = HttpBegin | HttpEnd nat nat

fun track :: "http_event \<Rightarrow> metrics \<Rightarrow> metrics" where
  "track HttpBegin = track_begin"
| "track (HttpEnd micros status) = track_end micros status"

definition ended_in :: "nat \<Rightarrow> http_event list \<Rightarrow> nat" where
  "ended_in lo es = length (filter (\<lambda>e. case e of HttpEnd _ s \<Rightarrow> lo \<le> s \<and> s \<le> lo + 99 | _ \<Rightarrow> False) es)"

lemma http_counters:
  "mt_requests_total (fold track es metrics_default) = of_nat (length (filter (\<lambda>e. e = HttpBegin) es))
   \<and> mt_responses_4xx (fold track es metrics_default) = of_nat (ended_in 400 es)
   \<and> mt_responses_5xx (fold track es metrics_default) = of_nat (ended_in 500 es)"
proof (induction es rule: rev_induct)
  case Nil
  then show ?case by (simp add: metrics_default_def ended_in_def)
next
  case (snoc e es)
  then show ?case
    by (cases e) (simp_all add: track_begin_def track_end_def ended_in_def Let_def)
qed

lemma relay_from_env_ok:
  "relay_from_env var = Ok c \<Longrightarrow> rc_port c < 2 ^ 16 \<and> length (rc_auth_secret c) \<ge> 32"
  by (auto simp: relay_from_env_def ok_or_def dest: parse_unsigned_bound
      split: env_var.splits option.splits if_splits sum.splits)

lemma in_lobby_users:
  "(i, name) \<in> set (lobby_users d users gid) \<longleftrightarrow>
     (\<exists>m \<in> set (db_members d). \<exists>r \<in> set (db_rooms d). \<exists>u \<in> set users.
        r_id r = m_room m \<and> r_game r = gid \<and> in_lobby (r_state r)
        \<and> u_id u = m_user m \<and> u_id u = i \<and> u_username u = name)"
  by (auto simp: lobby_users_def)

text \<open>The lobby of a game.  \<open>plays d users gid i name\<close>: the user of that id and name is a member of a room of the game that
  has not ended.\<close>

definition plays :: "db \<Rightarrow> user_row list \<Rightarrow> string \<Rightarrow> uuid \<Rightarrow> string \<Rightarrow> bool" where
  "plays d users gid i name \<longleftrightarrow> (i, name) \<in> set (lobby_users d users gid)"

lemma lobby_users_ids:
  assumes "distinct (map u_id users)"
  shows "distinct (map fst (lobby_users d users gid))"
proof -
  have "inj_on fst (set (lobby_users d users gid))"
  proof (rule inj_onI)
    fix x y assume x: "x \<in> set (lobby_users d users gid)" and y: "y \<in> set (lobby_users d users gid)"
      and eq: "fst x = fst y"
    obtain i n where x': "x = (i, n)" by (cases x)
    obtain j k where y': "y = (j, k)" by (cases y)
    from x x' obtain u where u: "u \<in> set users" "u_id u = i" "u_username u = n"
      by (auto simp: in_lobby_users)
    from y y' obtain v where v: "v \<in> set users" "u_id v = j" "u_username v = k"
      by (auto simp: in_lobby_users)
    from u v eq x' y' assms have "u = v" by (simp add: distinct_key_unique)
    with u v x' y' show "x = y" by simp
  qed
  then show ?thesis by (simp add: distinct_map lobby_users_def)
qed

lemma take_sort_sublist:
  "distinct (map f xs) \<Longrightarrow> distinct (map f (take n (sort_key k xs)))"
  "set (take n (sort_key k xs)) \<subseteq> set xs"
  "length xs \<le> n \<Longrightarrow> set (take n (sort_key k xs)) = set xs"
proof -
  assume "distinct (map f xs)"
  then have "distinct (map f (sort_key k xs))" by (simp add: distinct_map)
  then show "distinct (map f (take n (sort_key k xs)))" by (metis distinct_take take_map)
next
  show "set (take n (sort_key k xs)) \<subseteq> set xs" using set_take_subset by fastforce
next
  assume "length xs \<le> n"
  then show "set (take n (sort_key k xs)) = set xs" by simp
qed

lemma sorted_take_names: "sorted (map k (take n (sort_key k xs)))"
  by (metis sorted_sort_key sorted_wrt_take take_map)

lemma lobby_exact:
  assumes "distinct (map u_id users)" "inj show_uuid"
    and "get_lobby collate show_uuid users d gid = Ok ms"
  shows "distinct (map lm_user_id ms) \<and> length ms \<le> 500
    \<and> sorted (map (collate \<circ> lm_username) ms)
    \<and> (\<forall>m \<in> set ms. \<exists>i. lm_user_id m = show_uuid i \<and> plays d users gid i (lm_username m))
    \<and> (length (lobby_users d users gid) \<le> 500 \<longrightarrow>
        (\<forall>i name. plays d users gid i name \<longrightarrow> \<lparr>lm_user_id = show_uuid i, lm_username = name\<rparr> \<in> set ms))"
proof -
  let ?us = "take 500 (sort_key (collate \<circ> snd) (lobby_users d users gid))"
  let ?f = "\<lambda>(i, name). \<lparr>lm_user_id = show_uuid i, lm_username = name\<rparr>"
  have ms: "ms = map ?f ?us" using assms(3) by (simp add: get_lobby_def split: if_splits)
  have ids: "map lm_user_id ms = map show_uuid (map fst ?us)" "map (collate \<circ> lm_username) ms = map (collate \<circ> snd) ?us"
    by (simp_all add: ms split_def)
  have "distinct (map fst ?us)" by (rule take_sort_sublist(1) [OF lobby_users_ids [OF assms(1)]])
  with assms(2) have "distinct (map lm_user_id ms)"
    unfolding ids by (subst distinct_map) (metis inj_on_subset subset_UNIV)
  moreover have "sorted (map (collate \<circ> lm_username) ms)" unfolding ids by (rule sorted_take_names)
  moreover have "\<forall>m \<in> set ms. \<exists>i. lm_user_id m = show_uuid i \<and> plays d users gid i (lm_username m)"
    using take_sort_sublist(2) [of 500 "collate \<circ> snd" "lobby_users d users gid"]
    by (auto simp: ms plays_def) blast
  moreover have "length (lobby_users d users gid) \<le> 500 \<Longrightarrow> plays d users gid i name \<Longrightarrow>
      \<lparr>lm_user_id = show_uuid i, lm_username = name\<rparr> \<in> set ms" for i name
    using take_sort_sublist(3) [of "lobby_users d users gid" 500 "collate \<circ> snd"]
    by (force simp: ms plays_def)
  ultimately show ?thesis by (simp add: ms)
qed

end
