(* ===== verification/Client_Diag.thy ===== *)
theory Client_Diag
  imports Complex_Main Client_Native Stun_Client
begin

text \<open>
  The remaining commands of the desktop client: the network test (\<open>commands/diag.rs\<close>) and the scan for
  the test game with its search for the fixture directory (\<open>commands/fs.rs\<close>).  Name resolution, the
  sockets, the clock, the environment and the file system are parameters.
\<close>

section \<open>The network test\<close>

record network_diagnostics =
  nd_nat :: string
  nd_rtt_ms :: "nat option"
  nd_loss :: rat
  nd_jitter_ms :: rat
  nd_relay_reachable :: bool
  nd_stun_reachable :: bool

definition configured_stun_server ::
    "(string \<Rightarrow> string option) \<Rightarrow> (string \<Rightarrow> socket_addr list option) \<Rightarrow> socket_addr option" where
  "configured_stun_server var lookup_host =
     (case (case var ''OPENCADE_STUN_SERVER'' of
              Some endpoint \<Rightarrow> Some endpoint
            | None \<Rightarrow>
                (case var ''STUN_HOST'' of
                   None \<Rightarrow> None
                 | Some host \<Rightarrow>
                     (let port = (case var ''STUN_PORT'' of
                                    None \<Rightarrow> 3478
                                  | Some v \<Rightarrow> (case parse_unsigned (2 ^ 16) v of None \<Rightarrow> 3478 | Some p \<Rightarrow> p))
                      in Some (host @ '':'' @ nat_str port)))) of
        None \<Rightarrow> None
      | Some endpoint \<Rightarrow>
          (case lookup_host endpoint of Some (a # _) \<Rightarrow> Some a | _ \<Rightarrow> None))"

text \<open>What the environment does: whether the connection to an address succeeds within a second and how long
  that took, the binding of the socket, the discovery over it and how long that took.\<close>

record diag_env =
  de_var :: "string \<Rightarrow> string option"
  de_lookup_host :: "string \<Rightarrow> socket_addr list option"
  de_connect :: "string \<Rightarrow> bool"
  de_connect_ms :: nat
  de_bind :: "transport_error + unit"
  de_discover :: "socket_addr \<Rightarrow> transport_error + stun_observation"
  de_stun_ms :: nat

definition as_millis_u64 :: "nat \<Rightarrow> nat" where
  "as_millis_u64 n = (if n < 2 ^ 64 then n else 2 ^ 64 - 1)"

definition network_test :: "diag_env \<Rightarrow> network_diagnostics" where
  "network_test env =
     (let server = or_default (de_var env ''OPENCADE_SERVER_ADDR'') ''127.0.0.1:8080'';
          relay_reachable = de_connect env server;
          (nat_label, stun_rtt_ms, stun_reachable) =
            (case configured_stun_server (de_var env) (de_lookup_host env) of
               None \<Rightarrow> (''unknown'', None, False)
             | Some stun_server \<Rightarrow>
                 (case de_bind env of
                    Inl _ \<Rightarrow> (''blocked'', None, False)
                  | Inr _ \<Rightarrow>
                      (case de_discover env stun_server of
                         Inl _ \<Rightarrow> (''blocked'', None, False)
                       | Inr observation \<Rightarrow>
                           (case so_mapping observation of
                              NatMappingOpen \<Rightarrow> ''open'' | NatMappingMapped \<Rightarrow> ''mapped'',
                            Some (as_millis_u64 (de_stun_ms env)), True))));
          relay_rtt_ms = (if relay_reachable then Some (as_millis_u64 (de_connect_ms env + de_stun_ms env)) else None)
      in \<lparr>nd_nat = nat_label,
          nd_rtt_ms = (case stun_rtt_ms of Some r \<Rightarrow> Some r | None \<Rightarrow> relay_rtt_ms),
          nd_loss = 0, nd_jitter_ms = 0, nd_relay_reachable = relay_reachable,
          nd_stun_reachable = stun_reachable\<rparr>)"

section \<open>Scanning for the test game\<close>

definition parent :: "path \<Rightarrow> path option" where
  "parent p = (if p = [] then None else Some (butlast p))"

definition FIXTURE :: path where "FIXTURE = [''fixtures'', ''libretro'', ''opencade-test-core'']"

text \<open>The inner loop: at most five directories, from the base upwards.\<close>

fun search_up :: "(path \<Rightarrow> bool) \<Rightarrow> nat \<Rightarrow> path \<Rightarrow> path option" where
  "search_up is_dir 0 cur = None"
| "search_up is_dir (Suc n) cur =
     (if is_dir (cur @ FIXTURE) then Some (cur @ FIXTURE)
      else case parent cur of None \<Rightarrow> None | Some up \<Rightarrow> search_up is_dir n up)"

fun first_some :: "('a \<Rightarrow> 'b option) \<Rightarrow> 'a list \<Rightarrow> 'b option" where
  "first_some f [] = None"
| "first_some f (x # xs) = (case f x of Some y \<Rightarrow> Some y | None \<Rightarrow> first_some f xs)"

definition retroarch_test_root ::
    "(path \<Rightarrow> bool) \<Rightarrow> (path \<Rightarrow> bool) \<Rightarrow> path option \<Rightarrow> path option \<Rightarrow> path option \<Rightarrow> path \<Rightarrow> string + path" where
  "retroarch_test_root absolute is_dir override_root resource_dir current_dir manifest_dir =
     (case override_root of
        Some p \<Rightarrow> (if absolute p then Ok p else Err ''OPENCADE_RETROARCH_ROOT must be an absolute path'')
      | None \<Rightarrow>
     (case resource_dir of
        None \<Rightarrow> Err ''application resource directory is unavailable''
      | Some r \<Rightarrow>
          (let resource_root = r @ [''emulator'', ''retroarch''];
               bases = (case current_dir of None \<Rightarrow> [] | Some d \<Rightarrow> [d]) @ [manifest_dir @ [''..'', ''..'', ''..'']]
           in if is_dir resource_root then Ok resource_root
              else case first_some (search_up is_dir 5) bases of Some c \<Rightarrow> Ok c | None \<Rightarrow> Ok resource_root)))"

text \<open>\<open>scan_game\<close>: the two roots are what the functions above and \<open>fbneo_root\<close> give.\<close>

definition scan_game ::
    "file_system \<Rightarrow> platform \<Rightarrow> (path \<Rightarrow> string) \<Rightarrow> string + path \<Rightarrow> string + path \<Rightarrow> string \<Rightarrow>
     string + game_availability" where
  "scan_game fs os display test_root fbneo game_id =
     (if game_id = TEST_GAME_ID
      then (case test_root of Inl e \<Rightarrow> Err e | Inr game_root \<Rightarrow>
              (if is_available_for_game fs os game_root game_id
               then Ok \<lparr>ga_game_id = game_id, ga_available = True, ga_warnings = []\<rparr>
               else Ok \<lparr>ga_game_id = game_id, ga_available = False,
                       ga_warnings = [''test content not found below '' @ display game_root]\<rparr>))
      else (case fbneo of Inl e \<Rightarrow> Err e | Inr game_root \<Rightarrow> scan_fbneo_rom fs game_root game_id))"

section \<open>Facts\<close>

text \<open>The label and the flags of the report: a mapping is reported exactly when the STUN server answered.\<close>

lemma network_test_stun:
  "nd_stun_reachable (network_test env) \<longleftrightarrow>
     (\<exists>s o1. configured_stun_server (de_var env) (de_lookup_host env) = Some s \<and> is_ok (de_bind env)
        \<and> de_discover env s = Ok o1)"
  "nd_stun_reachable (network_test env) \<longleftrightarrow> nd_nat (network_test env) \<in> {''open'', ''mapped''}"
  "nd_rtt_ms (network_test env) = None \<longleftrightarrow>
     \<not> nd_stun_reachable (network_test env) \<and> \<not> nd_relay_reachable (network_test env)"
  by (auto simp: network_test_def Let_def is_ok_iff split: option.splits sum.splits nat_mapping.splits)

text \<open>When STUN fails, the reported round trip of the reachable server contains the time spent waiting for
  STUN.\<close>

lemma relay_rtt_includes_stun_wait:
  assumes "nd_relay_reachable (network_test env)" "\<not> nd_stun_reachable (network_test env)"
  shows "nd_rtt_ms (network_test env) = Some (as_millis_u64 (de_connect_ms env + de_stun_ms env))"
  using assms by (auto simp: network_test_def Let_def split: option.splits sum.splits)

text \<open>The search gives up after five directories and only ever names an existing fixture directory.\<close>

lemma search_up_sound: "search_up is_dir n cur = Some p \<Longrightarrow> is_dir p \<and> (\<exists>k < n. p = take (length cur - k) cur @ FIXTURE)"
proof (induction is_dir n cur rule: search_up.induct)
  case (2 is_dir n cur)
  show ?case
  proof (cases "is_dir (cur @ FIXTURE)")
    case True
    with 2 show ?thesis by auto
  next
    case False
    with 2(2) have up: "cur \<noteq> []" "search_up is_dir n (butlast cur) = Some p"
      by (auto simp: parent_def split: if_splits)
    with 2(1) [OF False, of "butlast cur"] obtain k where k: "is_dir p" "k < n"
      "p = take (length (butlast cur) - k) (butlast cur) @ FIXTURE"
      by (auto simp: parent_def)
    then have "p = take (length cur - Suc k) cur @ FIXTURE" by (simp add: take_butlast butlast_conv_take min_def)
    with k show ?thesis by (intro conjI exI [of _ "Suc k"]) auto
  qed
qed simp

text \<open>With no override the test root is the bundled directory, or an existing fixture directory above the
  working directory or the sources, or the bundled directory again when there is none.\<close>

lemma first_some_SomeD: "first_some f xs = Some y \<Longrightarrow> \<exists>x \<in> set xs. f x = Some y"
  by (induction xs) (auto split: option.splits)

lemma test_root_exists_or_bundled:
  assumes "retroarch_test_root absolute is_dir None (Some r) cwd manifest = Ok p"
  shows "is_dir p \<or> p = r @ [''emulator'', ''retroarch'']"
  using assms
  by (auto simp: retroarch_test_root_def Let_def split: if_splits option.splits
      dest!: first_some_SomeD search_up_sound)

text \<open>The scan can find the test game in a fixture directory that launching, which knows only the override
  and the bundled directory, never looks at.\<close>

lemma scan_and_launch_roots_differ:
  "\<exists>is_dir. retroarch_test_root absolute is_dir None (Some [''app'']) (Some [''home'', ''dev'']) [''src'']
       = Ok ([''home''] @ FIXTURE)
     \<and> retroarch_root absolute None (Some [''app'']) = Ok [''app'', ''emulator'', ''retroarch'']"
  by (intro exI [of _ "\<lambda>p. p = [''home''] @ FIXTURE"])
     (simp add: retroarch_test_root_def retroarch_root_def FIXTURE_def parent_def eval_nat_numeral)

end
