(* ===== verification/Latency.thy ===== *)
theory Latency
  imports Complex_Main OC_Prelude
begin

text \<open>
  Link quality metrics (\<open>packages/networking/src/latency.rs\<close>).  The arithmetic of \<open>f64\<close> and \<open>f32\<close> is a parameter, a record of
  the operations the code uses, so that the definitions say nothing about rounding; the facts about values are
  stated for exact arithmetic, those about the ring of samples for any.
\<close>

record 'f float_ops =
  fl_of_nat :: "nat \<Rightarrow> 'f"
  fl_literal :: "rat \<Rightarrow> 'f"
  fl_add :: "'f \<Rightarrow> 'f \<Rightarrow> 'f"
  fl_sub :: "'f \<Rightarrow> 'f \<Rightarrow> 'f"
  fl_mul :: "'f \<Rightarrow> 'f \<Rightarrow> 'f"
  fl_div :: "'f \<Rightarrow> 'f \<Rightarrow> 'f"
  fl_clamp :: "'f \<Rightarrow> 'f \<Rightarrow> 'f \<Rightarrow> 'f"
  fl_eq :: "'f \<Rightarrow> 'f \<Rightarrow> bool"
  fl_round_u64 :: "'f \<Rightarrow> nat"

definition ALPHA :: rat where "ALPHA = 2 / 10"
definition RING_CAP :: nat where "RING_CAP = 30"

record ('d, 's) latency_metrics =
  lt_rtt_ms :: "'d option"
  lt_loss :: 's
  lt_jitter_ms :: 's
  lt_samples :: "nat list"

definition latency_new :: "'s float_ops \<Rightarrow> ('d, 's) latency_metrics" where
  "latency_new f32 =
     \<lparr>lt_rtt_ms = None, lt_loss = fl_literal f32 0, lt_jitter_ms = fl_literal f32 0, lt_samples = []\<rparr>"

definition record_rtt :: "'d float_ops \<Rightarrow> nat \<Rightarrow> ('d, 's) latency_metrics \<Rightarrow> ('d, 's) latency_metrics" where
  "record_rtt f64 sample_ms m =
     (let sample = fl_of_nat f64 sample_ms;
          alpha = fl_literal f64 ALPHA;
          rtt = (case lt_rtt_ms m of
                   Some prev \<Rightarrow> fl_add f64 (fl_mul f64 prev (fl_sub f64 (fl_literal f64 1) alpha)) (fl_mul f64 sample alpha)
                 | None \<Rightarrow> sample);
          kept = (if length (lt_samples m) = RING_CAP then drop 1 (lt_samples m) else lt_samples m)
      in m\<lparr>lt_rtt_ms := Some rtt, lt_samples := kept @ [sample_ms]\<rparr>)"

definition record_loss :: "'s float_ops \<Rightarrow> u32 \<Rightarrow> u32 \<Rightarrow> ('d, 's) latency_metrics \<Rightarrow> ('d, 's) latency_metrics" where
  "record_loss f32 sent acked m =
     (if sent = 0 then m\<lparr>lt_loss := fl_literal f32 0\<rparr>
      else let lost = unat sent - unat acked;
               fraction = fl_div f32 (fl_of_nat f32 lost) (fl_of_nat f32 (unat sent))
           in m\<lparr>lt_loss := fl_clamp f32 (fl_literal f32 0) (fl_literal f32 1) fraction\<rparr>)"

definition record_jitter :: "'s float_ops \<Rightarrow> nat \<Rightarrow> ('d, 's) latency_metrics \<Rightarrow> ('d, 's) latency_metrics" where
  "record_jitter f32 inter_arrival_ms m =
     (let sample = fl_of_nat f32 inter_arrival_ms in
      if fl_eq f32 (lt_jitter_ms m) (fl_literal f32 0) then m\<lparr>lt_jitter_ms := sample\<rparr>
      else m\<lparr>lt_jitter_ms := fl_add f32 (fl_mul f32 (lt_jitter_ms m) (fl_literal f32 (8 / 10)))
                                (fl_mul f32 sample (fl_literal f32 (2 / 10)))\<rparr>)"

definition snapshot :: "'d float_ops \<Rightarrow> ('d, 's) latency_metrics \<Rightarrow> nat option \<times> 's \<times> 's" where
  "snapshot f64 m = (map_option (fl_round_u64 f64) (lt_rtt_ms m), lt_loss m, lt_jitter_ms m)"

section \<open>The ring\<close>

lemma record_rtt_samples:
  "lt_samples (record_rtt f64 s m) = (if length (lt_samples m) = RING_CAP then drop 1 (lt_samples m) else lt_samples m) @ [s]"
  by (simp add: record_rtt_def Let_def)

text \<open>After any sequence of samples the ring holds the last thirty of them, in order.\<close>

lemma drop_snoc_window:
  "length xs = n + k \<Longrightarrow> drop (Suc k) (xs @ [x]) = drop 1 (drop k xs) @ [x]" if "n > 0"
  using that by simp

lemma ring_keeps_last:
  "lt_samples (fold (record_rtt f64) ss (latency_new f32)) = drop (length ss - RING_CAP) ss"
proof (induction ss rule: rev_induct)
  case Nil
  then show ?case by (simp add: latency_new_def)
next
  case (snoc s ss)
  show ?case
  proof (cases "length ss < RING_CAP")
    case True
    with snoc show ?thesis by (simp add: record_rtt_samples)
  next
    case False
    then obtain k where k: "length ss = RING_CAP + k" by (metis le_iff_add linorder_not_less)
    have pos: "RING_CAP > 0" by (simp add: RING_CAP_def)
    from k snoc have "lt_samples (fold (record_rtt f64) ss (latency_new f32)) = drop k ss" by simp
    moreover have "length (drop k ss) = RING_CAP" using k by simp
    moreover have "length (ss @ [s]) - RING_CAP = Suc k" using k by simp
    ultimately show ?thesis
      using drop_snoc_window [OF pos k, of s] by (simp add: record_rtt_samples)
  qed
qed

section \<open>Values in exact arithmetic\<close>

definition exact_ops :: "rat float_ops" where
  "exact_ops =
     \<lparr>fl_of_nat = of_nat, fl_literal = id, fl_add = (+), fl_sub = (-), fl_mul = (*), fl_div = (/),
      fl_clamp = (\<lambda>lo hi x. max lo (min hi x)), fl_eq = (=), fl_round_u64 = (\<lambda>x. nat \<lfloor>x + 1 / 2\<rfloor>)\<rparr>"

text \<open>The average never leaves the range of the samples.\<close>

lemma weighted_bounds:
  fixes a x lo hi :: rat
  assumes "lo \<le> a" "a \<le> hi" "lo \<le> x" "x \<le> hi"
  shows "lo \<le> a * (1 - 2 / 10) + x * (2 / 10)" "a * (1 - 2 / 10) + x * (2 / 10) \<le> hi"
  using assms by (simp_all add: field_simps)

lemma record_rtt_exact:
  "lt_rtt_ms (record_rtt exact_ops s m) = Some (case lt_rtt_ms m of
     Some prev \<Rightarrow> prev * (1 - 2 / 10) + of_nat s * (2 / 10) | None \<Rightarrow> of_nat s)"
  by (simp add: record_rtt_def Let_def exact_ops_def ALPHA_def split: option.split)

lemma rtt_within_samples:
  assumes "lt_rtt_ms (fold (record_rtt exact_ops) ss (latency_new f32)) = Some r"
    and "list_all (\<lambda>s. lo \<le> s \<and> s \<le> hi) ss"
  shows "of_nat lo \<le> r \<and> r \<le> of_nat hi"
  using assms
proof (induction ss arbitrary: r rule: rev_induct)
  case Nil
  then show ?case by (simp add: latency_new_def)
next
  case (snoc s ss)
  then have s: "(of_nat lo :: rat) \<le> of_nat s" "(of_nat s :: rat) \<le> of_nat hi" by simp_all
  show ?case
  proof (cases "lt_rtt_ms (fold (record_rtt exact_ops) ss (latency_new f32))")
    case None
    with snoc(2) s show ?thesis by (auto simp: record_rtt_exact)
  next
    case (Some prev)
    with snoc have "of_nat lo \<le> prev \<and> prev \<le> of_nat hi" by simp
    moreover have "r = prev * (1 - 2 / 10) + of_nat s * (2 / 10)"
      using snoc(2) Some by (simp add: record_rtt_exact)
    ultimately show ?thesis using weighted_bounds [of "of_nat lo" prev "of_nat hi" "of_nat s"] s by blast
  qed
qed

lemma loss_fraction:
  "0 \<le> lt_loss (record_loss exact_ops sent acked m) \<and> lt_loss (record_loss exact_ops sent acked m) \<le> 1"
  by (simp add: record_loss_def exact_ops_def Let_def)

lemma loss_exact:
  assumes "0 < sent" "acked \<le> sent"
  shows "lt_loss (record_loss exact_ops sent acked m) * of_nat (unat sent) = of_nat (unat sent - unat acked)"
proof -
  define n where "n = unat sent"
  define k where "k = n - unat acked"
  have nz: "sent \<noteq> 0" using assms(1) by auto
  have n: "0 < n" "k \<le> n" using assms(1) by (simp_all add: n_def k_def word_neq_0_conv unat_gt_0)
  then have "(of_nat k :: rat) / of_nat n \<le> 1" by (simp add: divide_le_eq_1)
  moreover have "lt_loss (record_loss exact_ops sent acked m) = max 0 (min 1 (of_nat k / of_nat n))"
    using nz unfolding record_loss_def Let_def n_def [symmetric] k_def [symmetric]
    by (simp add: exact_ops_def)
  ultimately show ?thesis using n unfolding n_def [symmetric] k_def [symmetric] by (simp add: min_def)
qed

end
