(* ===== verification/Server_Evidence.thy ===== *)
theory Server_Evidence
  imports Server_Refinement Server_Demo_Match Evidence_Routes
begin

text \<open>
  The evidence ledger in the reachable states of the server, and what its readers make of it: who
  can have written a row, how many rows a room can have, when the public table and the tunnel gate
  count a room as verified, and how that compares with the verifier of the campaign summary.
\<close>

section \<open>Only submissions write the ledger\<close>

lemma evidence_frame:
  "db_evidence (log_event rid a u ty p d) = db_evidence d"
  "db_evidence (log_room_event rid v ty p d) = db_evidence d"
  "db_evidence (set_room_state rid s t d) = db_evidence d"
  "db_evidence (update_rooms rp rf d) = db_evidence d"
  "db_evidence (update_attempts ap af d) = db_evidence d"
  "db_evidence (update_challenges cp cf d) = db_evidence d"
  "db_evidence (update_matches mp mf d) = db_evidence d"
  "db_evidence (update_runtime pp pf d) = db_evidence d"
  "db_evidence (update_room_attempt rid af d) = db_evidence d"
  "db_evidence (update_active_attempt rid af d) = db_evidence d"
  "db_evidence (insert_match env rid d) = db_evidence d"
  "db_evidence (cancel_waiting env game d) = db_evidence d"
  "db_evidence (expire_pending env d) = db_evidence d"
  "db_evidence (cancel_other_waiting env game rid d) = db_evidence d"
  "db_evidence (start_playing env rid s d) = db_evidence d"
  "db_evidence (record_exit env rid code d) = db_evidence d"
  "db_evidence (fail_before_start env rid s d) = db_evidence d"
  "db_evidence (finish_match env rid s d) = db_evidence d"
  "db_evidence (expire_challenge_batch now busy d) = db_evidence d"
  "db_evidence (cancel_expired now rs d) = db_evidence d"
  by (simp_all add: log_event_def log_room_event_def set_room_state_def update_rooms_def update_attempts_def
      update_challenges_def update_matches_def update_runtime_def update_room_attempt_def update_active_attempt_def
      insert_match_def cancel_waiting_def expire_pending_def cancel_other_waiting_def start_playing_def
      record_exit_def fail_before_start_def finish_match_def expire_challenge_batch_def cancel_expired_def Let_def
      split: option.splits)

lemma evidence_frame_log [simp]: "db_evidence (log_expired rs d) = db_evidence d"
  unfolding log_expired_def by (induction rs arbitrary: d) (auto simp: evidence_frame)

text \<open>The row is about a room of the submitter, in the role and for the game of the room.\<close>

definition row_authentic :: "db \<Rightarrow> evidence_row \<Rightarrow> bool" where
  "row_authentic d e \<longleftrightarrow> (\<exists>r \<in> set (db_rooms d). r_id r = e_room e \<and> e_by e \<in> set (members_of d (e_room e))
     \<and> e_role e = (if r_host r = e_by e then RoleHost else RoleGuest)
     \<and> payload_role (e_payload e) = e_role e \<and> mr_game_id (payload_room (e_payload e)) = r_game r)"

definition ledger_key :: "evidence_row \<Rightarrow> uuid \<times> uuid \<times> string" where
  "ledger_key e = (e_room e, e_by e, evidence_kind (e_payload e))"

definition ledger_step :: "db \<Rightarrow> db \<Rightarrow> bool" where
  "ledger_step d d' \<longleftrightarrow> db_evidence d' = db_evidence d
     \<or> (\<exists>e. db_evidence d' = db_evidence d @ [e] \<and> row_authentic d' e \<and> ledger_key e \<notin> ledger_key ` set (db_evidence d))"

lemma ledger_same: "db_evidence d' = db_evidence d \<Longrightarrow> ledger_step d d'"
  by (simp add: ledger_step_def)

lemma submission_stores:
  assumes "db_evidence (snd (submit_evidence env ex d)) \<noteq> db_evidence d"
  shows "\<exists>p rid r. is_member d rid (q_user env) \<and> find_room d rid = Some r
    \<and> payload_role p = (if r_host r = q_user env then RoleHost else RoleGuest)
    \<and> mr_game_id (payload_room p) = r_game r
    \<and> \<not> list_ex (\<lambda>e. e_digest e = ex_digest ex p
        \<or> (e_room e = rid \<and> e_by e = q_user env \<and> same_kind (e_payload e) p)) (db_evidence d)
    \<and> snd (submit_evidence env ex d) = d\<lparr>db_evidence := db_evidence d @
        [\<lparr>e_digest = ex_digest ex p, e_room = rid, e_by = q_user env, e_role = payload_role p, e_payload = p\<rparr>]\<rparr>"
proof (cases "ex_decoded ex")
  case (Inl e)
  with assms show ?thesis by (simp add: submit_evidence_def split: if_splits)
next
  case (Inr p)
  show ?thesis
  proof (cases "ex_room ex (mr_room_id (payload_room p))")
    case None
    with assms Inr show ?thesis by (simp add: submit_evidence_def split: if_splits)
  next
    case (Some rid)
    show ?thesis
    proof (cases "if is_member d rid (q_user env) then find_room d rid else None")
      case None
      have "snd (submit_evidence env ex d) = d"
        unfolding submit_evidence_def Inr Some sum.case option.case None by simp
      with assms show ?thesis by simp
    next
      case room: (Some r)
      let ?dup = "list_ex (\<lambda>e. e_digest e = ex_digest ex p
        \<or> (e_room e = rid \<and> e_by e = q_user env \<and> same_kind (e_payload e) p)) (db_evidence d)"
      have m: "is_member d rid (q_user env)" and r: "find_room d rid = Some r"
        using room by (simp_all split: if_splits)
      note eval = submit_evidence_def Inr Some m r Let_def
      have nd: "\<not> ?dup"
      proof
        assume ?dup
        then have "db_evidence (snd (submit_evidence env ex d)) = db_evidence d" by (simp add: eval)
        with assms show False by simp
      qed
      have role: "payload_role p = (if r_host r = q_user env then RoleHost else RoleGuest)"
      proof (rule ccontr)
        assume "\<not> ?thesis"
        then have "db_evidence (snd (submit_evidence env ex d)) = db_evidence d" by (simp add: eval)
        with assms show False by simp
      qed
      have game: "mr_game_id (payload_room p) = r_game r"
      proof (rule ccontr)
        assume "\<not> ?thesis"
        then have "db_evidence (snd (submit_evidence env ex d)) = db_evidence d" by (simp add: eval)
        with assms show False by simp
      qed
      let ?d = "d\<lparr>db_evidence := db_evidence d @
          [\<lparr>e_digest = ex_digest ex p, e_room = rid, e_by = q_user env, e_role = payload_role p, e_payload = p\<rparr>]\<rparr>"
      have "snd (submit_evidence env ex d) = d \<or> snd (submit_evidence env ex d) = ?d"
        by (simp add: eval nd)
      with assms have "snd (submit_evidence env ex d) = ?d" by auto
      with m r nd role game show ?thesis by (intro exI conjI)
    qed
  qed
qed

lemma ledger_submit: "ledger_step d (snd (submit_evidence env ex d))"
proof (cases "db_evidence (snd (submit_evidence env ex d)) = db_evidence d")
  case False
  from submission_stores [OF this] obtain p rid r where m: "is_member d rid (q_user env)" and r: "find_room d rid = Some r"
    and role: "payload_role p = (if r_host r = q_user env then RoleHost else RoleGuest)"
    and game: "mr_game_id (payload_room p) = r_game r"
    and fresh: "\<not> list_ex (\<lambda>e. e_digest e = ex_digest ex p
        \<or> (e_room e = rid \<and> e_by e = q_user env \<and> same_kind (e_payload e) p)) (db_evidence d)"
    and d': "snd (submit_evidence env ex d) = d\<lparr>db_evidence := db_evidence d @
        [\<lparr>e_digest = ex_digest ex p, e_room = rid, e_by = q_user env, e_role = payload_role p, e_payload = p\<rparr>]\<rparr>"
    by blast
  let ?e = "\<lparr>e_digest = ex_digest ex p, e_room = rid, e_by = q_user env, e_role = payload_role p, e_payload = p\<rparr>"
  have "row_authentic (snd (submit_evidence env ex d)) ?e"
    using find_roomD [OF r] m role game
    by (auto simp: row_authentic_def d' is_member_iff members_of_def intro!: bexI [of _ r])
  moreover have "ledger_key ?e \<notin> ledger_key ` set (db_evidence d)"
    using fresh by (auto simp: ledger_key_def list_ex_iff same_kind_iff)
  ultimately show ?thesis by (auto simp: ledger_step_def d')
qed (rule ledger_same)

interpretation ledger: request_relation ledger_step
proof
  show "ledger_step d d" for d by (simp add: ledger_same)
  show "ledger_step d d' \<Longrightarrow> ledger_step d (d'\<lparr>db_rooms_created := n\<rparr>)" for d d' n
    by (simp add: ledger_step_def row_authentic_def members_of_def)
  show "ledger_step d (snd (submit_evidence env ex d))" for env ex d by (rule ledger_submit)
  show "join_invite_txn env h d = Ok (rid, d') \<Longrightarrow> ledger_step d d'" for env h d rid d'
    by (rule ledger_same)
       (auto simp: join_invite_txn_def Let_def insert_memberD evidence_frame split: option.splits if_splits sum.splits)
  show "create_receipt_txn env al ids source key d = Ok (r, d') \<Longrightarrow> ledger_step d d'"
    for env al ids source key d r d'
    by (rule ledger_same)
       (auto simp: create_receipt_txn_def continue_match_def Let_def insert_roomD insert_memberD insert_attemptD
          insert_invite_def insert_receipt_def insert_command_def evidence_frame split: option.splits if_splits sum.splits)
  show "create_challenge_txn env creq rid aid cid d = Ok (x, d') \<Longrightarrow> ledger_step d d'"
    for env creq rid aid cid d x d'
    by (rule ledger_same)
       (auto simp: create_challenge_txn_def Let_def insert_room_def insert_memberD insert_attemptD insert_challenge_def
          evidence_frame split: if_splits sum.splits option.splits)
  show "confirm_native_launch_txn env rid d = Ok (x, d') \<Longrightarrow> ledger_step d d'" for env rid d x d'
    by (rule ledger_same)
       (auto simp: confirm_native_launch_txn_def Let_def evidence_frame split: if_splits sum.splits option.splits)
  show "confirm_native_exit_txn env rid code d = Ok (x, d') \<Longrightarrow> ledger_step d d'" for env rid code d x d'
    by (rule ledger_same) (auto simp: confirm_native_exit_txn_def Let_def evidence_frame split: if_splits sum.splits)
  show "change_room_state_txn env rid ev host_only d = Ok (x, d') \<Longrightarrow> ledger_step d d'" for env rid ev host_only d x d'
    by (rule ledger_same) (auto simp: change_room_state_txn_def Let_def evidence_frame split: if_splits sum.splits)
  show "accept_challenge_txn env cid d = Ok (y, d') \<Longrightarrow> ledger_step d d'" for env cid d y d'
    by (rule ledger_same)
       (auto simp: accept_challenge_txn_def Let_def insert_memberD evidence_frame split: if_splits sum.splits)
  show "accept_room_txn env rid d = Ok (b, d') \<Longrightarrow> ledger_step d d'" for env rid d b d'
    by (rule ledger_same)
       (auto simp: accept_room_txn_def Let_def insert_memberD evidence_frame split: if_splits sum.splits)
  show "create_room_txn env req rid aid d = Ok (b, d') \<Longrightarrow> ledger_step d d'" for env req rid aid d b d'
    by (rule ledger_same)
       (auto simp: create_room_txn_def Let_def insert_room_def insert_memberD insert_attemptD evidence_frame
          split: if_splits sum.splits)
  show "submit_preflight_txn env rid p d = Ok (x, d') \<Longrightarrow> ledger_step d d'" for env rid p d x d'
    by (rule ledger_same)
       (auto simp: submit_preflight_txn_def Let_def upsert_preflight_def evidence_frame split: if_splits sum.splits)
  show "ready_to_launch_txn env rid d = Ok (x, d') \<Longrightarrow> ledger_step d d'" for env rid d x d'
    by (rule ledger_same)
       (auto simp: ready_to_launch_txn_def Let_def upsert_barrier_def evidence_frame split: if_splits sum.splits prod.splits)
  show "create_launch_grant_txn env gx rid local peer lreq d = Ok (x, d') \<Longrightarrow> ledger_step d d'"
    for env gx rid local peer lreq d x d'
    by (rule ledger_same)
       (auto simp: create_launch_grant_txn_def insert_grant_def evidence_frame split: if_splits sum.splits option.splits)
  show "ledger_step d (snd (create_invite env al fresh rid d))" for env al fresh rid d
    by (rule ledger_same) (auto simp: create_invite_def Let_def insert_invite_def evidence_frame split: sum.splits)
qed (auto simp: consume_launch_grant_def resolve_challenge_txn_def reconcile_expired_def Let_def evidence_frame
      intro!: ledger_same split: if_splits sum.splits option.splits)

section \<open>The ledger is authentic\<close>

definition ledger_ok :: "db \<Rightarrow> bool" where
  "ledger_ok d \<longleftrightarrow> (\<forall>e \<in> set (db_evidence d). row_authentic d e) \<and> distinct (map ledger_key (db_evidence d))"

lemma row_authentic_step:
  assumes inv: "server_inv d" and step: "server_step d d'" and e: "row_authentic d e"
  shows "row_authentic d' e"
proof -
  from e obtain r where r: "r \<in> set (db_rooms d)" "r_id r = e_room e" and m: "e_by e \<in> set (members_of d (e_room e))"
    and rest: "e_role e = (if r_host r = e_by e then RoleHost else RoleGuest)"
      "payload_role (e_payload e) = e_role e" "mr_game_id (payload_room (e_payload e)) = r_game r"
    unfolding row_authentic_def by blast
  from step_moves [OF inv step] r(1) obtain r' where "r' \<in> set (db_rooms d')" "same_identity r r'"
    unfolding evolves_def by blast
  moreover have "e_by e \<in> set (members_of d' (e_room e))"
    using membership.of_step [OF inv step] m unfolding grows_def by (auto simp: members_of_def)
  ultimately show ?thesis
    using r(2) rest unfolding row_authentic_def same_identity_def by (intro bexI [of _ r']) simp_all
qed

lemma ledger_ok_step:
  assumes "server_inv d" "ledger_ok d" "server_step d d'"
  shows "ledger_ok d'"
  using ledger.of_step [OF assms(1,3)] assms(2) row_authentic_step [OF assms(1,3)]
  unfolding ledger_step_def ledger_ok_def by auto

lemma ledger_ok_init: "server_init d \<Longrightarrow> ledger_ok d"
  by (auto simp: server_init_def ledger_ok_def empty_db_def)

interpretation ledgers: invariant_system server_init server_step "\<lambda>d. server_inv d \<and> ledger_ok d"
  by unfold_locales (auto intro: server.inv_init server.inv_step ledger_ok_init ledger_ok_step)

section \<open>The rows of a room\<close>

lemma match_rows_of_role:
  assumes inv: "server_inv d" "ledger_ok d" and ab: "a \<in> set (db_evidence d)" "b \<in> set (db_evidence d)"
    and room: "e_room a = e_room b" and role: "e_role a = e_role b"
    and kind: "match_payload a \<noteq> None" "match_payload b \<noteq> None"
  shows "a = b"
proof -
  from inv(2) ab have "row_authentic d a" "row_authentic d b" by (simp_all add: ledger_ok_def)
  then obtain r q where r: "r \<in> set (db_rooms d)" "r_id r = e_room a" "e_by a \<in> set (members_of d (e_room a))"
      "e_role a = (if r_host r = e_by a then RoleHost else RoleGuest)"
    and q: "q \<in> set (db_rooms d)" "r_id q = e_room b" "e_by b \<in> set (members_of d (e_room b))"
      "e_role b = (if r_host q = e_by b then RoleHost else RoleGuest)"
    unfolding row_authentic_def by blast
  have "q = r"
    using tables_invD(1) [OF inv(1) [unfolded server_inv_def]] r(1,2) q(1,2) room
    by (simp add: distinct_map inj_on_def)
  note m = room_members(1-3) [OF inv(1) r(1), unfolded r(2)]
  have "e_by a = e_by b"
  proof (rule ccontr)
    assume ne: "e_by a \<noteq> e_by b"
    with r(4) q(4) role \<open>q = r\<close> have "r_host r \<noteq> e_by a" "r_host r \<noteq> e_by b" by (auto split: if_splits)
    with ne have "card {r_host r, e_by a, e_by b} = 3" by simp
    moreover have "{r_host r, e_by a, e_by b} \<subseteq> set (members_of d (e_room a))" using m(2) r(3) q(3) room by simp
    ultimately have "3 \<le> card (set (members_of d (e_room a)))" by (metis card_mono List.finite_set)
    with m(3) show False using card_length [of "members_of d (e_room a)"] by linarith
  qed
  with room kind have "ledger_key a = ledger_key b"
    by (auto simp: ledger_key_def evidence_kind_def split: evidence_payload.splits)
  with inv(2) ab show ?thesis by (simp add: ledger_ok_def distinct_map inj_on_def)
qed

lemma pair_list: "distinct xs \<Longrightarrow> set xs = {a, b} \<Longrightarrow> a \<noteq> b \<Longrightarrow> xs = [a, b] \<or> xs = [b, a]"
proof -
  assume d: "distinct xs" and s: "set xs = {a, b}" and ne: "a \<noteq> b"
  then have "length xs = 2" using distinct_card [OF d] by simp
  then obtain x y where "xs = [x, y]" by (auto simp: length_Suc_conv numeral_2_eq_2)
  with s ne show ?thesis by (auto simp: doubleton_eq_iff)
qed

text \<open>\<open>COUNT(DISTINCT x) = 1\<close> over two rows: SQL does not count a missing value.\<close>

definition one_value :: "'a option \<Rightarrow> 'a option \<Rightarrow> bool" where
  "one_value x y \<longleftrightarrow> (x \<noteq> None \<or> y \<noteq> None) \<and> (x = None \<or> y = None \<or> x = y)"

lemma count_distinct_two: "count_distinct [x, y] = 1 \<longleftrightarrow> one_value x y"
  by (cases x; cases y) (auto simp: count_distinct_def one_value_def List.map_filter_def)

lemma one_value_sym: "one_value x y \<longleftrightarrow> one_value y x"
  by (auto simp: one_value_def)

definition reports_agree :: "match_report \<Rightarrow> match_report \<Rightarrow> bool" where
  "reports_agree r q \<longleftrightarrow> one_value (rep_compatibility r) (rep_compatibility q)
     \<and> pr_transcript_checksum (rep_probe r) = pr_transcript_checksum (rep_probe q)
     \<and> complete_report r \<and> complete_report q"

lemma reports_agree_sym: "reports_agree r q \<longleftrightarrow> reports_agree q r"
  by (auto simp: reports_agree_def one_value_sym)

lemma room_verified_pair:
  assumes "filter (\<lambda>e. e_room e = rid) rows = [x, y]" "e_payload x = MatchEvidence r" "e_payload y = MatchEvidence q"
    and "e_role x \<noteq> e_role y"
  shows "room_verified rows rid \<longleftrightarrow> reports_agree r q"
  unfolding room_verified_def Let_def assms(1) reports_agree_def
  using assms(2-4) count_distinct_two [of "rep_compatibility r" "rep_compatibility q"]
  by (auto simp: List.map_filter_def)

lemma room_status_pair:
  assumes "filter (\<lambda>e. e_room e = rid) (db_evidence d) = [x, y]" "e_payload x = MatchEvidence r"
    "e_payload y = MatchEvidence q" "e_role x \<noteq> e_role y"
  shows "room_status_verified d rid \<longleftrightarrow> reports_agree r q \<and> one_value (rep_native_route r) (rep_native_route q)"
  unfolding room_status_verified_def Let_def assms(1) reports_agree_def
  using assms(2-4) count_distinct_two [of "rep_compatibility r" "rep_compatibility q"]
    count_distinct_two [of "rep_native_route r" "rep_native_route q"]
  by (auto simp: List.map_filter_def)

text \<open>Two match reports of opposite roles and nothing else.\<close>

definition played_by :: "db \<Rightarrow> uuid \<Rightarrow> match_report \<Rightarrow> match_report \<Rightarrow> bool" where
  "played_by d rid host guest \<longleftrightarrow>
     (\<exists>a \<in> set (db_evidence d). \<exists>b \<in> set (db_evidence d).
        e_room a = rid \<and> e_role a = RoleHost \<and> e_payload a = MatchEvidence host
      \<and> e_room b = rid \<and> e_role b = RoleGuest \<and> e_payload b = MatchEvidence guest
      \<and> (\<forall>e \<in> set (db_evidence d). e_room e = rid \<longrightarrow> e = a \<or> e = b))"

lemma played_rows:
  assumes ok: "ledger_ok d" and p: "played_by d rid host guest"
  shows "\<exists>a b. e_role a = RoleHost \<and> e_payload a = MatchEvidence host \<and> e_role b = RoleGuest
    \<and> e_payload b = MatchEvidence guest \<and> e_room a = rid \<and> a \<in> set (db_evidence d)
    \<and> (filter (\<lambda>e. e_room e = rid) (db_evidence d) = [a, b] \<or> filter (\<lambda>e. e_room e = rid) (db_evidence d) = [b, a])"
proof -
  from p obtain a b where a: "a \<in> set (db_evidence d)" "e_room a = rid" "e_role a = RoleHost" "e_payload a = MatchEvidence host"
    and b: "b \<in> set (db_evidence d)" "e_room b = rid" "e_role b = RoleGuest" "e_payload b = MatchEvidence guest"
    and all: "\<forall>e \<in> set (db_evidence d). e_room e = rid \<longrightarrow> e = a \<or> e = b"
    unfolding played_by_def by blast
  have "distinct (db_evidence d)" using ok by (simp add: ledger_ok_def distinct_map)
  then have "distinct (filter (\<lambda>e. e_room e = rid) (db_evidence d))" by simp
  moreover have "set (filter (\<lambda>e. e_room e = rid) (db_evidence d)) = {a, b}" using a b all by auto
  moreover have "a \<noteq> b" using a(3) b(3) by auto
  ultimately have "filter (\<lambda>e. e_room e = rid) (db_evidence d) = [a, b]
      \<or> filter (\<lambda>e. e_room e = rid) (db_evidence d) = [b, a]" by (rule pair_list)
  with a b show ?thesis by blast
qed

lemma only_rows:
  assumes "filter P xs = [a, b] \<or> filter P xs = [b, a]" "x \<in> set xs" "P x"
  shows "x = a \<or> x = b"
proof -
  have "x \<in> set (filter P xs)" using assms(2,3) by simp
  with assms(1) show ?thesis by (elim disjE) (simp_all only: list.set insert_iff empty_iff, blast+)
qed

text \<open>Conversely, two match reports and no failure are one report of each role.\<close>

lemma pair_played:
  assumes inv: "server_inv d" "ledger_ok d" and len: "length (filter (\<lambda>e. e_room e = rid) (db_evidence d)) = 2"
    and reports: "\<forall>e \<in> set (filter (\<lambda>e. e_room e = rid) (db_evidence d)). match_payload e \<noteq> None"
  shows "\<exists>host guest. played_by d rid host guest"
proof -
  from len obtain x y where xy: "filter (\<lambda>e. e_room e = rid) (db_evidence d) = [x, y]"
    by (auto simp: length_Suc_conv numeral_2_eq_2)
  have "set (filter (\<lambda>e. e_room e = rid) (db_evidence d)) = {x, y}" unfolding xy by simp
  then have mem: "x \<in> set (db_evidence d)" "y \<in> set (db_evidence d)" "e_room x = rid" "e_room y = rid"
    and only: "\<And>e. e \<in> set (db_evidence d) \<Longrightarrow> e_room e = rid \<Longrightarrow> e = x \<or> e = y" by auto
  have "distinct (filter (\<lambda>e. e_room e = rid) (db_evidence d))" using inv(2) by (simp add: ledger_ok_def distinct_map)
  with xy have "x \<noteq> y" by simp
  have p: "match_payload x \<noteq> None" "match_payload y \<noteq> None" using reports unfolding xy by auto
  then obtain r q where rq: "e_payload x = MatchEvidence r" "e_payload y = MatchEvidence q"
    by (auto split: evidence_payload.splits)
  have "e_role x \<noteq> e_role y" using match_rows_of_role [OF inv mem(1,2) _ _ p] mem(3,4) \<open>x \<noteq> y\<close> by auto
  then consider "e_role x = RoleHost" "e_role y = RoleGuest" | "e_role x = RoleGuest" "e_role y = RoleHost"
    by (cases "e_role x"; cases "e_role y") auto
  then show ?thesis
  proof cases
    case 1
    with mem rq only have "played_by d rid r q" unfolding played_by_def by (intro bexI [of _ x] bexI [of _ y]) auto
    then show ?thesis by blast
  next
    case 2
    with mem rq only have "played_by d rid q r" unfolding played_by_def by (intro bexI [of _ y] bexI [of _ x]) auto
    then show ?thesis by blast
  qed
qed

lemma all_reports:
  assumes "length (filter P xs) = n" "length xs - length (filter P xs) = 0"
  shows "length xs = n" "\<forall>x \<in> set xs. P x"
proof -
  show n: "length xs = n" using assms length_filter_le [of P xs] by linarith
  show "\<forall>x \<in> set xs. P x"
  proof (rule ccontr)
    assume "\<not> ?thesis"
    then obtain x where "x \<in> set xs" "\<not> P x" by blast
    from length_filter_less [of x xs P, OF this] assms n show False by simp
  qed
qed

lemma played_status:
  assumes ok: "ledger_ok d" and p: "played_by d rid host guest"
  shows "room_status_verified d rid \<longleftrightarrow>
    reports_agree host guest \<and> one_value (rep_native_route host) (rep_native_route guest)"
proof -
  from played_rows [OF ok p] obtain a b where ab: "e_role a \<noteq> e_role b" "e_payload a = MatchEvidence host"
      "e_payload b = MatchEvidence guest"
    and rows: "filter (\<lambda>e. e_room e = rid) (db_evidence d) = [a, b] \<or> filter (\<lambda>e. e_room e = rid) (db_evidence d) = [b, a]"
    by (metis match_report_role.distinct(1))
  then show ?thesis
    using room_status_pair [OF _ ab(2,3,1)] room_status_pair [OF _ ab(3,2) ab(1) [symmetric]]
      reports_agree_sym one_value_sym by metis
qed

lemma status_verified_iff:
  assumes inv: "server_inv d" "ledger_ok d"
  shows "room_status_verified d rid \<longleftrightarrow>
    (\<exists>host guest. played_by d rid host guest \<and> reports_agree host guest
       \<and> one_value (rep_native_route host) (rep_native_route guest))" (is "_ \<longleftrightarrow> ?pair")
proof
  assume v: "room_status_verified d rid"
  then have "length (filter (\<lambda>e. match_payload e \<noteq> None) (filter (\<lambda>e. e_room e = rid) (db_evidence d))) = 2"
    "length (filter (\<lambda>e. e_room e = rid) (db_evidence d))
       - length (filter (\<lambda>e. match_payload e \<noteq> None) (filter (\<lambda>e. e_room e = rid) (db_evidence d))) = 0"
    unfolding room_status_verified_def Let_def by blast+
  from pair_played [OF inv all_reports [OF this]] obtain host guest where "played_by d rid host guest" by blast
  with played_status [OF inv(2) this] v show ?pair by blast
next
  assume ?pair
  with played_status [OF inv(2)] show "room_status_verified d rid" by blast
qed

text \<open>The pair of a receipt: the query sorts by role, so the guest's report comes first.\<close>

lemma parse_route_label: "parse_native_route (map_option native_route_label v) = Ok route \<longleftrightarrow> v = Some route"
  by (cases v rule: option.exhaust; cases route)
     (auto simp: parse_native_route_def native_route_label_def split: native_route_capability.splits)

lemma role_order: "role_label RoleGuest < role_label RoleHost"
  by simp

lemma room_match_reports_pair:
  assumes "ledger_ok d" "played_by d rid host guest"
  shows "room_match_reports d rid = [guest, host]" "Alpha_Routes.room_failures d rid = 0"
proof -
  from played_rows [OF assms] obtain a b where ab: "e_role a = RoleHost" "e_role b = RoleGuest"
      "e_payload a = MatchEvidence host" "e_payload b = MatchEvidence guest"
    and rows: "filter (\<lambda>e. e_room e = rid) (db_evidence d) = [a, b] \<or> filter (\<lambda>e. e_room e = rid) (db_evidence d) = [b, a]"
    by blast
  have "sort_key (\<lambda>e. role_label (e_role e)) (filter (\<lambda>e. e_room e = rid) (db_evidence d)) = [b, a]"
    using rows role_order ab by (auto simp: not_le)
  with ab show "room_match_reports d rid = [guest, host]" by (simp add: room_match_reports_def List.map_filter_def)
  have "match_payload e \<noteq> None" if "e \<in> set (db_evidence d)" "e_room e = rid" for e
    using only_rows [OF rows that(1)] that(2) ab by auto
  then show "Alpha_Routes.room_failures d rid = 0" by (simp add: Alpha_Routes.room_failures_def filter_empty_conv)
qed

lemma verified_route_played:
  assumes inv: "server_inv d" "ledger_ok d" and v: "verified_route d rid = Ok route"
  shows "\<exists>host guest. played_by d rid host guest"
proof (rule pair_played [OF inv])
  let ?group = "filter (\<lambda>e. e_room e = rid) (db_evidence d)"
  have f: "Alpha_Routes.room_failures d rid = 0" and r: "length (room_match_reports d rid) = 2"
    using v by (auto simp: verified_route_def split: list.splits if_splits)
  show all: "\<forall>e \<in> set ?group. match_payload e \<noteq> None"
    using f by (auto simp: Alpha_Routes.room_failures_def filter_empty_conv)
  have "List.map_filter match_payload xs = map (\<lambda>e. the (match_payload e)) xs" if "\<forall>e \<in> set xs. match_payload e \<noteq> None" for xs
    using that by (induction xs) (auto simp: List.map_filter_def)
  with all r show "length ?group = 2" by (simp add: room_match_reports_def)
qed

lemma verified_route_iff:
  assumes inv: "server_inv d" "ledger_ok d"
  shows "verified_route d rid = Ok route \<longleftrightarrow>
    (\<exists>host guest v. played_by d rid host guest \<and> verify_playable_match_reports guest host = Ok v
       \<and> rep_native_route host = Some route \<and> rep_native_route guest = Some route)" (is "_ \<longleftrightarrow> ?pair")
proof
  assume v: "verified_route d rid = Ok route"
  from verified_route_played [OF inv v] obtain host guest where p: "played_by d rid host guest" by blast
  from v have "\<exists>v. verify_playable_match_reports guest host = Ok v \<and> rep_native_route host = Some route
      \<and> rep_native_route guest = Some route"
    unfolding verified_route_def room_match_reports_pair [OF inv(2) p]
    by (auto simp: parse_route_label split: sum.splits if_splits)
  with p show ?pair by blast
next
  assume ?pair
  then obtain host guest v where "played_by d rid host guest" "verify_playable_match_reports guest host = Ok v"
    "rep_native_route host = Some route" "rep_native_route guest = Some route" by blast
  then show "verified_route d rid = Ok route"
    unfolding verified_route_def room_match_reports_pair [OF inv(2) \<open>played_by d rid host guest\<close>]
    by (simp add: parse_route_label [of "Some route", simplified])
qed

lemma verified_agree:
  assumes "verify_playable_match_reports r q = Ok v"
  shows "reports_agree r q"
  using assms unfolding playable_ok_iff verify_ok_iff reports_agree_def valid_report_iff corresponding_def
  by (elim conjE) (simp add: one_value_def complete_report_def)

lemma verified_route_counts:
  assumes inv: "server_inv d" "ledger_ok d" and v: "verified_route d rid = Ok route"
  shows "room_status_verified d rid"
proof -
  from v [unfolded verified_route_iff [OF inv]] obtain host guest v where p: "played_by d rid host guest"
    and ok: "verify_playable_match_reports guest host = Ok v"
    and r: "rep_native_route host = Some route" "rep_native_route guest = Some route" by blast
  from verified_agree [OF ok] have "reports_agree host guest" by (simp add: reports_agree_sym)
  moreover have "one_value (rep_native_route host) (rep_native_route guest)" using r by (simp add: one_value_def)
  ultimately show ?thesis using p unfolding status_verified_iff [OF inv] by blast
qed

text \<open>The gate reads the rows of one game that report the tunnel.\<close>

lemma verified_tunnel_counts:
  assumes inv: "server_inv d" "ledger_ok d" and v: "verified_route d rid = Ok TcpTunnel" and r: "find_room d rid = Some r"
  shows "room_verified (route_rows (r_game r) d) rid"
proof -
  from v [unfolded verified_route_iff [OF inv]] obtain host guest v where p: "played_by d rid host guest"
    and ok: "verify_playable_match_reports guest host = Ok v"
    and route: "rep_native_route host = Some TcpTunnel" "rep_native_route guest = Some TcpTunnel" by blast
  from played_rows [OF inv(2) p] obtain a b where ab: "e_role a = RoleHost" "e_role b = RoleGuest"
      "e_payload a = MatchEvidence host" "e_payload b = MatchEvidence guest" "e_room a = rid" "a \<in> set (db_evidence d)"
    and rows: "filter (\<lambda>e. e_room e = rid) (db_evidence d) = [a, b] \<or> filter (\<lambda>e. e_room e = rid) (db_evidence d) = [b, a]"
    by blast
  from ok have same: "mr_game_id (rep_room guest) = mr_game_id (rep_room host)"
    by (simp add: playable_ok_iff verify_ok_iff corresponding_def)
  from inv(2) ab(6) have "row_authentic d a" by (simp add: ledger_ok_def)
  then obtain q where q: "q \<in> set (db_rooms d)" "r_id q = rid" "mr_game_id (rep_room host) = r_game q"
    using ab(3,5) unfolding row_authentic_def by auto
  have "q = r"
    using tables_invD(1) [OF inv(1) [unfolded server_inv_def]] find_roomD [OF r] q
    by (auto simp: distinct_map dest: inj_onD)
  have "payload_route (e_payload e) = Some TcpTunnel \<and> mr_game_id (payload_room (e_payload e)) = r_game r"
    if "e \<in> set (db_evidence d)" "e_room e = rid" for e
    using only_rows [OF rows that(1)] that(2) ab(3,4) route same q(3) \<open>q = r\<close> by auto
  then have game: "filter (\<lambda>e. e_room e = rid) (route_rows (r_game r) d) = filter (\<lambda>e. e_room e = rid) (db_evidence d)"
    unfolding route_rows_def filter_filter by (intro filter_cong refl) blast
  show ?thesis
    using rows room_verified_pair [of rid "route_rows (r_game r) d", unfolded game, OF _ ab(3,4)] 
      room_verified_pair [of rid "route_rows (r_game r) d", unfolded game, OF _ ab(4,3)]
      verified_agree [OF ok] ab(1,2) by (auto simp: reports_agree_sym)
qed

section \<open>What the two counts mean\<close>



text \<open>The converse fails: the SQL counts distinct values, and a missing value is none. A room whose guest reports
  no compatibility data is counted as verified in the public table and by the tunnel gate, and its receipt is refused.\<close>

definition half_report :: match_report where
  "half_report = (Server_Demo_Match.demo_report RoleGuest)\<lparr>rep_compatibility := None\<rparr>"

definition half_evidence_row :: evidence_row where
  "half_evidence_row = (demo_evidence_row 2 RoleGuest)\<lparr>e_payload := MatchEvidence half_report\<rparr>"

lemma half_submitted: "reaches (demo_finished [] [demo_evidence_row 1 RoleHost, half_evidence_row])"
  by (rule demo_next [OF demo_9, where req = "SubmitEvidence (demo_env 2)
        ((demo_evidence_env RoleGuest)\<lparr>ex_decoded := Ok (MatchEvidence half_report)\<rparr>)"])
     (simp add: demo_rows demo_finished_def demo_evidence_row_def half_evidence_row_def half_report_def demo_evidence_eval)

theorem public_count_weaker:
  "\<exists>d. reachable server_init server_step d \<and> room_status_verified d (Uuid 10)
     \<and> room_verified (route_rows ''sf'' d) (Uuid 10)
     \<and> verified_route d (Uuid 10) = Err (Conflict ''match evidence pair did not verify'')"
proof -
  from half_submitted obtain ev where r: "reachable server_init server_step
      (demo_finished [] [demo_evidence_row 1 RoleHost, half_evidence_row] ev)" (is "reachable _ _ ?d") by blast
  note rows = demo_finished_def demo_db_def half_evidence_row_def half_report_def demo_evidence_row_def
    Server_Demo_Match.demo_report_def demo_tunnel_report_def List.map_filter_def Let_def
  have "room_status_verified ?d (Uuid 10)"
    by (simp add: room_status_verified_def rows count_distinct_def complete_report_def)
  moreover have "room_verified (route_rows ''sf'' ?d) (Uuid 10)"
    by (simp add: room_verified_def route_rows_def rows count_distinct_def complete_report_def)
  moreover have "room_match_reports ?d (Uuid 10) = [half_report, Server_Demo_Match.demo_report RoleHost]"
    using demo_role_order by (simp add: room_match_reports_def rows not_le)
  moreover have "Alpha_Routes.room_failures ?d (Uuid 10) = 0"
    by (simp add: Alpha_Routes.room_failures_def rows)
  moreover have "\<exists>e. verify_playable_match_reports half_report (Server_Demo_Match.demo_report RoleHost) = Err e"
    by (cases "verify_playable_match_reports half_report (Server_Demo_Match.demo_report RoleHost)")
       (auto simp: playable_ok_iff half_report_def)
  ultimately have "verified_route ?d (Uuid 10) = Err (Conflict ''match evidence pair did not verify'')"
    by (auto simp: verified_route_def)
  with r show ?thesis
    using \<open>room_status_verified ?d (Uuid 10)\<close> \<open>room_verified (route_rows ''sf'' ?d) (Uuid 10)\<close> by blast
qed

end
