(* ===== verification/Server_Campaign.thy ===== *)
theory Server_Campaign
  imports Server_Evidence
begin

text \<open>
  The operator's campaign page over the ledger of a reachable server: the rows the query selects, the
  grouping by the room's text inside the reports, and what the verifier makes of each group.
\<close>

section \<open>Selecting and grouping\<close>

text \<open>Every report names its room the way \<open>show_room\<close> writes it.\<close>

definition spelled :: "(uuid \<Rightarrow> string) \<Rightarrow> db \<Rightarrow> bool" where
  "spelled show_room d \<longleftrightarrow> (\<forall>e \<in> set (db_evidence d). mr_room_id (payload_room (e_payload e)) = show_room (e_room e))"

lemma filter_map_filter:
  assumes "\<And>x y. x \<in> set xs \<Longrightarrow> f x = Some y \<Longrightarrow> P y = Q x"
  shows "filter P (List.map_filter f xs) = List.map_filter f (filter Q xs)"
  using assms
proof (induction xs)
  case (Cons x xs)
  then have "filter P (List.map_filter f xs) = List.map_filter f (filter Q xs)" by simp
  with Cons.prems [of x] show ?case by (cases "f x") (auto simp: List.map_filter_def)
qed (simp add: List.map_filter_def)

lemma length_map_filter_total: "\<forall>x \<in> set xs. f x \<noteq> None \<Longrightarrow> length (List.map_filter f xs) = length xs"
  by (induction xs) (auto simp: List.map_filter_def)

lemma mset_map_filter: "mset xs = mset ys \<Longrightarrow> mset (List.map_filter f xs) = mset (List.map_filter f ys)"
  by (simp add: List.map_filter_def)

lemma set_map_filter_iff: "y \<in> set (List.map_filter f xs) \<longleftrightarrow> (\<exists>x \<in> set xs. f x = Some y)"
  by (force simp: List.map_filter_def)

lemma recent_rooms_distinct: "distinct (recent_rooms created d)"
  by (simp add: recent_rooms_def evidence_rooms_def)

lemma recent_rooms_evidence: "rid \<in> set (recent_rooms created d) \<Longrightarrow> \<exists>e \<in> set (db_evidence d). e_room e = rid"
  unfolding recent_rooms_def evidence_rooms_def by (auto dest!: in_set_takeD)

lemma set_recent_evidence:
  "set (recent_evidence created d) = {e \<in> set (db_evidence d). e_room e \<in> set (recent_rooms created d)}"
  by (simp add: recent_evidence_def)

lemma recent_group:
  assumes "rid \<in> set (recent_rooms created d)"
  shows "mset (filter (\<lambda>e. e_room e = rid) (recent_evidence created d)) = mset (filter (\<lambda>e. e_room e = rid) (db_evidence d))"
proof -
  have "filter (\<lambda>e. e_room e = rid \<and> e_room e \<in> set (recent_rooms created d)) (db_evidence d)
      = filter (\<lambda>e. e_room e = rid) (db_evidence d)"
    using assms by (intro filter_cong) auto
  then show ?thesis
    unfolding recent_evidence_def filter_sort filter_filter by (simp add: conj_commute)
qed

lemma payload_texts:
  assumes "spelled show_room d" "e \<in> set (db_evidence d)"
  shows "match_payload e = Some r \<Longrightarrow> report_room r = show_room (e_room e)"
    "failure_payload e = Some q \<Longrightarrow> failure_room q = show_room (e_room e)"
  using assms by (auto simp: spelled_def split: evidence_payload.splits)

lemma one_payload: "match_payload e \<noteq> None \<or> failure_payload e \<noteq> None"
  by (cases "e_payload e") auto

text \<open>The rooms of the summary are the recent rooms.\<close>

lemma campaign_room_texts:
  assumes s: "spelled show_room d"
  shows "report_room ` set (List.map_filter match_payload (recent_evidence created d))
       \<union> failure_room ` set (List.map_filter failure_payload (recent_evidence created d))
     = show_room ` set (recent_rooms created d)" (is "?L = ?R")
proof
  show "?L \<subseteq> ?R"
  proof
    fix i assume "i \<in> ?L"
    then obtain e where "e \<in> set (recent_evidence created d)"
      "(\<exists>r. match_payload e = Some r \<and> i = report_room r) \<or> (\<exists>q. failure_payload e = Some q \<and> i = failure_room q)"
      unfolding Un_iff image_iff by (elim disjE bexE) (auto simp only: set_map_filter_iff)
    then show "i \<in> ?R" using payload_texts [OF s] unfolding set_recent_evidence by blast
  qed
  show "?R \<subseteq> ?L"
  proof
    fix i assume "i \<in> ?R"
    then obtain rid where rid: "i = show_room rid" "rid \<in> set (recent_rooms created d)" by blast
    from recent_rooms_evidence [OF rid(2)] obtain e where e: "e \<in> set (db_evidence d)" "e_room e = rid" by blast
    with rid(2) have "e \<in> set (recent_evidence created d)" by (simp add: set_recent_evidence)
    note row = set_map_filter_iff [THEN iffD2, OF bexI, OF _ this]
    from one_payload [of e] consider r where "match_payload e = Some r" | q where "failure_payload e = Some q" by blast
    then show "i \<in> ?L"
    proof cases
      case (1 r)
      from row [of match_payload, OF 1] payload_texts(1) [OF s e(1) 1] rid(1) e(2) show ?thesis
        by (intro UnI1 image_eqI [where x = r]) simp_all
    next
      case (2 q)
      from row [of failure_payload, OF 2] payload_texts(2) [OF s e(1) 2] rid(1) e(2) show ?thesis
        by (intro UnI2 image_eqI [where x = q]) simp_all
    qed
  qed
qed

lemma group_attempt:
  assumes s: "spelled show_room d" and inj: "inj show_room" and rid: "rid \<in> set (recent_rooms created d)"
  shows "attempt_verified (List.map_filter match_payload (recent_evidence created d))
       (List.map_filter failure_payload (recent_evidence created d)) (show_room rid)
     \<longleftrightarrow> (\<forall>e \<in> set (db_evidence d). e_room e = rid \<longrightarrow> match_payload e \<noteq> None)
       \<and> playable.basic.pair_verifies (List.map_filter match_payload (filter (\<lambda>e. e_room e = rid) (db_evidence d)))"
proof -
  let ?rows = "recent_evidence created d"
  have spelt: "(report_room r = show_room rid) = (e_room e = rid)" if "e \<in> set ?rows" "match_payload e = Some r" for e r
    using payload_texts(1) [OF s _ that(2)] that(1) inj by (auto simp: set_recent_evidence dest: injD)
  have ftext: "(failure_room r = show_room rid) = (e_room e = rid)" if "e \<in> set ?rows" "failure_payload e = Some r" for e r
    using payload_texts(2) [OF s _ that(2)] that(1) inj by (auto simp: set_recent_evidence dest: injD)
  have "room_reports (List.map_filter match_payload ?rows) (show_room rid)
      = List.map_filter match_payload (filter (\<lambda>e. e_room e = rid) ?rows)"
    unfolding room_reports_def by (rule filter_map_filter) (rule spelt)
  moreover have "playable.basic.pair_verifies (List.map_filter match_payload (filter (\<lambda>e. e_room e = rid) ?rows))
      = playable.basic.pair_verifies (List.map_filter match_payload (filter (\<lambda>e. e_room e = rid) (db_evidence d)))"
    by (intro playable.basic.pair_verifies_mset mset_map_filter recent_group [OF rid])
  moreover have "Campaign.room_failures (List.map_filter failure_payload ?rows) (show_room rid)
      = List.map_filter failure_payload (filter (\<lambda>e. e_room e = rid) ?rows)"
    unfolding Campaign.room_failures_def by (rule filter_map_filter) (rule ftext)
  moreover have "List.map_filter failure_payload (filter (\<lambda>e. e_room e = rid) ?rows) = []
      \<longleftrightarrow> (\<forall>e \<in> set (db_evidence d). e_room e = rid \<longrightarrow> match_payload e \<noteq> None)"
  proof -
    have "List.map_filter failure_payload xs = [] \<longleftrightarrow> (\<forall>e \<in> set xs. match_payload e \<noteq> None)" for xs
      by (induction xs) (auto simp: List.map_filter_def split: evidence_payload.splits)
    then show ?thesis using rid by (auto simp: set_recent_evidence)
  qed
  ultimately show ?thesis by (simp only: attempt_verified_def)
qed

section \<open>What is counted\<close>

lemma played_pair_verifies:
  assumes inv: "server_inv d" "ledger_ok d"
  shows "(\<forall>e \<in> set (db_evidence d). e_room e = rid \<longrightarrow> match_payload e \<noteq> None)
      \<and> playable.basic.pair_verifies (List.map_filter match_payload (filter (\<lambda>e. e_room e = rid) (db_evidence d)))
    \<longleftrightarrow> (\<exists>host guest v. played_by d rid host guest \<and> verify_match_reports host guest = Ok v)" (is "?A \<and> ?B \<longleftrightarrow> ?C")
proof
  let ?group = "filter (\<lambda>e. e_room e = rid) (db_evidence d)"
  assume ab: "?A \<and> ?B"
  then have all: "\<forall>e \<in> set ?group. match_payload e \<noteq> None" by (simp del: match_payload.simps)
  from ab have "length (List.map_filter match_payload ?group) = 2" by (auto simp only: playable.basic.pair_verifies_def list.size)
  then have "length ?group = 2" unfolding length_map_filter_total [OF all] .
  from pair_played [OF inv this all] obtain host guest where p: "played_by d rid host guest" by blast
  from played_rows [OF inv(2) p] obtain a b where "e_payload a = MatchEvidence host" "e_payload b = MatchEvidence guest"
    "?group = [a, b] \<or> ?group = [b, a]" by blast
  then have "List.map_filter match_payload ?group = [host, guest] \<or> List.map_filter match_payload ?group = [guest, host]"
    by (elim disjE) (simp_all add: List.map_filter_def del: filter_filter)
  with ab playable.basic.ok_sym [of host guest] have "is_ok (verify_match_reports host guest)"
    by (auto simp: playable.basic.pair_verifies_def)
  with p show ?C by (auto simp: is_ok_iff)
next
  let ?group = "filter (\<lambda>e. e_room e = rid) (db_evidence d)"
  assume ?C
  then obtain host guest v where p: "played_by d rid host guest" and v: "verify_match_reports host guest = Ok v" by blast
  from played_rows [OF inv(2) p] obtain a b where ab: "e_payload a = MatchEvidence host" "e_payload b = MatchEvidence guest"
    and rows: "?group = [a, b] \<or> ?group = [b, a]" by blast
  have ?A using only_rows [OF rows] ab by fastforce
  moreover have "List.map_filter match_payload ?group = [host, guest] \<or> List.map_filter match_payload ?group = [guest, host]"
    using rows ab by (elim disjE) (simp_all add: List.map_filter_def)
  then have ?B using v verify_sym [OF v] by (auto simp: playable.basic.pair_verifies_def is_ok_iff)
  ultimately show "?A \<and> ?B" by blast
qed

lemma campaign_counts:
  assumes inv: "server_inv d" "ledger_ok d" and s: "spelled show_room d" and inj: "inj show_room"
    and y: "campaign_reply_of (Ok ()) created d = Ok y"
  shows "su_attempts (cy_summary y) = length (recent_rooms created d)"
    "su_verified (cy_summary y) = card {rid \<in> set (recent_rooms created d).
       \<exists>host guest v. played_by d rid host guest \<and> verify_match_reports host guest = Ok v}"
proof -
  let ?reports = "List.map_filter match_payload (recent_evidence created d)"
  let ?fs = "List.map_filter failure_payload (recent_evidence created d)"
  let ?rooms = "recent_rooms created d"
  have sum: "cy_summary y = summarize_campaign_evidence ?reports ?fs"
    using y by (simp add: campaign_reply_of_def Let_def) (metis campaign_reply.select_convs(1))
  have rooms: "set (campaign_rooms ?reports ?fs) = show_room ` set ?rooms"
    unfolding set_campaign_rooms by (rule campaign_room_texts [OF s])
  have inj': "inj_on show_room A" for A using inj by (rule inj_on_subset) simp
  have "length (campaign_rooms ?reports ?fs) = card (show_room ` set ?rooms)"
    unfolding rooms [symmetric] by (simp add: distinct_card rooms_distinct)
  then show "su_attempts (cy_summary y) = length ?rooms"
    by (simp add: sum summary_fields(1) card_image [OF inj'] distinct_card recent_rooms_distinct)
  have "su_verified (cy_summary y) = card {i \<in> show_room ` set ?rooms. attempt_verified ?reports ?fs i}"
    unfolding sum summary_fields(2) count_rooms_card [OF rooms_distinct] rooms ..
  also have "{i \<in> show_room ` set ?rooms. attempt_verified ?reports ?fs i}
      = show_room ` {rid \<in> set ?rooms. attempt_verified ?reports ?fs (show_room rid)}" by blast
  also have "{rid \<in> set ?rooms. attempt_verified ?reports ?fs (show_room rid)}
      = {rid \<in> set ?rooms. \<exists>host guest v. played_by d rid host guest \<and> verify_match_reports host guest = Ok v}"
    using group_attempt [OF s inj, of _ created] played_pair_verifies [OF inv] by blast
  finally show "su_verified (cy_summary y) = card {rid \<in> set ?rooms.
       \<exists>host guest v. played_by d rid host guest \<and> verify_match_reports host guest = Ok v}"
    by (simp add: card_image [OF inj'])
qed

text \<open>C25 In every reachable state, where every report spells its room the same way, the operator's campaign page
  (of the 500 most recent rooms with evidence) counts one attempt per room and as verified exactly the rooms whose
  ledger is one report of the host and one of the guest, nothing else, that the verifier accepts; every recent room
  that can have a receipt is among them; and such a room counts in the public table exactly if it has compatibility
  data and a native route that the two sides do not contradict each other about.\<close>

theorem campaign_page_exact:
  assumes "reachable server_init server_step d" "spelled show_room d" "inj show_room"
    and "campaign_reply_of (Ok ()) created d = Ok y"
  shows "su_attempts (cy_summary y) = length (recent_rooms created d)
    \<and> su_verified (cy_summary y) = card {rid \<in> set (recent_rooms created d).
         \<exists>host guest v. played_by d rid host guest \<and> verify_match_reports host guest = Ok v}
    \<and> (verified_route d rid = Ok route \<longrightarrow>
         (\<exists>host guest v. played_by d rid host guest \<and> verify_match_reports host guest = Ok v))
    \<and> (played_by d rid host guest \<and> verify_match_reports host guest = Ok v \<longrightarrow>
         room_status_verified d rid = (rep_compatibility host \<noteq> None
           \<and> one_value (rep_native_route host) (rep_native_route guest)))"
proof (intro conjI impI)
  from ledgers.reachable_inv [OF assms(1)] have inv: "server_inv d" "ledger_ok d" by simp_all
  note campaign_counts [OF inv assms(2-4)]
  then show "su_attempts (cy_summary y) = length (recent_rooms created d)"
    "su_verified (cy_summary y) = card {rid \<in> set (recent_rooms created d).
       \<exists>host guest v. played_by d rid host guest \<and> verify_match_reports host guest = Ok v}" by blast+
  show "\<exists>host guest v. played_by d rid host guest \<and> verify_match_reports host guest = Ok v"
    if "verified_route d rid = Ok route"
    using that unfolding verified_route_iff [OF inv] playable_ok_iff by (blast dest: verify_sym)
  show "room_status_verified d rid = (rep_compatibility host \<noteq> None \<and> one_value (rep_native_route host) (rep_native_route guest))"
    if "played_by d rid host guest \<and> verify_match_reports host guest = Ok v"
    using that unfolding played_status [OF inv(2) conjunct1 [OF that]]
    by (auto simp: reports_agree_def one_value_def complete_report_def verify_ok_iff corresponding_def valid_report_iff)
qed

text \<open>The reports of the concrete run call their room \<open>r\<close>; a spelling that does.\<close>

definition demo_spelling :: "uuid \<Rightarrow> string" where
  "demo_spelling u = (if u = Uuid 10 then ''r'' else CHR ''s'' # nat_str (unat (uuid_bits u)))"

theorem campaign_page_exact_witness:
  "\<exists>d y. reachable server_init server_step d \<and> campaign_reply_of (Ok ()) (\<lambda>_. 0) d = Ok y
     \<and> su_attempts (cy_summary y) = 1 \<and> su_verified (cy_summary y) = 1"
proof -
  from demo_10 obtain ev where r: "reachable server_init server_step
      (demo_finished [] [demo_evidence_row 1 RoleHost, demo_evidence_row 2 RoleGuest] ev)" (is "reachable _ _ ?d")
    by blast
  have s: "spelled demo_spelling ?d"
    by (simp add: spelled_def demo_finished_def demo_db_def demo_evidence_row_def demo_spelling_def
        Server_Demo_Match.demo_report_def demo_tunnel_report_def)
  have i: "inj demo_spelling"
  proof (rule injI)
    fix u w assume eq: "demo_spelling u = demo_spelling w"
    show "u = w"
    proof (cases "u = Uuid 10 \<or> w = Uuid 10")
      case False
      with eq have "unat (uuid_bits u) = unat (uuid_bits w)" by (auto simp: demo_spelling_def dest: nat_str_inj)
      then show ?thesis by (simp add: uuid.expand word_unat_eq_iff)
    qed (use eq in \<open>auto simp: demo_spelling_def split: if_splits\<close>)
  qed
  obtain y where y: "campaign_reply_of (Ok ()) (\<lambda>_. 0) ?d = Ok y" by (simp add: campaign_reply_of_def Let_def)
  have rooms: "recent_rooms (\<lambda>_. 0) ?d = [Uuid 10]"
    by (simp add: recent_rooms_def evidence_rooms_def demo_finished_def demo_db_def demo_evidence_row_def COHORT_LIMIT_def)
  note exact = campaign_page_exact [OF r s i y, of "Uuid 10" TcpTunnel]
  with demo_route have "\<exists>host guest v. played_by ?d (Uuid 10) host guest \<and> verify_match_reports host guest = Ok v" by blast
  then have "{rid \<in> set [Uuid 10]. \<exists>host guest v. played_by ?d rid host guest \<and> verify_match_reports host guest = Ok v} = {Uuid 10}"
    by auto
  with exact [unfolded rooms] have "su_attempts (cy_summary y) = 1" "su_verified (cy_summary y) = 1" by simp_all
  with r y show ?thesis by blast
qed

end
