(* ===== verification/Password_Work.thy ===== *)
theory Password_Work
  imports Accounts Reachability
begin

text \<open>
  The gate in front of Argon2 (\<open>password_semaphore\<close> of \<open>apps/server/src/state.rs\<close>, its use in
  \<open>register\<close> and \<open>run_password_verification\<close> of \<open>routes/auth.rs\<close>): four permits, one held by every
  request that hashes or verifies a password.  The permit belongs to the handler, the work to a blocking
  task that nobody can stop; when a client goes away its handler is dropped at the await, the permit with it,
  and the task goes on.
\<close>

section \<open>The permits\<close>

definition PASSWORD_PERMITS :: nat where "PASSWORD_PERMITS = 4"

record password_gate =
  pw_permits :: nat
  pw_holders :: "nat list"
  pw_jobs :: "nat list"

definition password_gate_new :: password_gate where
  "password_gate_new = \<lparr>pw_permits = PASSWORD_PERMITS, pw_holders = [], pw_jobs = []\<rparr>"

text \<open>\<open>acquire_owned\<close> and \<open>spawn_blocking\<close>, with no await between them; \<open>None\<close> waits for a permit.\<close>

definition start_password_job :: "nat \<Rightarrow> password_gate \<Rightarrow> password_gate option" where
  "start_password_job r g =
     (if pw_permits g = 0 then None
      else Some \<lparr>pw_permits = pw_permits g - 1, pw_holders = r # pw_holders g, pw_jobs = r # pw_jobs g\<rparr>)"

definition drop_permit :: "nat \<Rightarrow> password_gate \<Rightarrow> password_gate" where
  "drop_permit r g =
     (if r \<in> set (pw_holders g)
      then g\<lparr>pw_permits := pw_permits g + 1, pw_holders := remove1 r (pw_holders g)\<rparr> else g)"

text \<open>The task ends, well or with a panic, and the handler that still waits for it drops its permit.\<close>

definition finish_password_job :: "nat \<Rightarrow> password_gate \<Rightarrow> password_gate" where
  "finish_password_job r g = drop_permit r (g\<lparr>pw_jobs := remove1 r (pw_jobs g)\<rparr>)"

section \<open>The work\<close>

text \<open>What the blocking task of \<open>register\<close> and of the verification computes; the outer \<open>None\<close> is a closed
  semaphore, the inner a task that panicked.\<close>

definition password_worker :: "('a option) option \<Rightarrow> app_error + 'a" where
  "password_worker answer =
     (case answer of
        None \<Rightarrow> Err (Internal ''password worker unavailable'')
      | Some None \<Rightarrow> Err (Internal ''password worker failed'')
      | Some (Some v) \<Rightarrow> Ok v)"

definition hash_new_password :: "(string option) option option \<Rightarrow> app_error + string" where
  "hash_new_password answer =
     (case password_worker answer of
        Inl e \<Rightarrow> Err e
      | Inr None \<Rightarrow> Err (Internal ''password hashing failed'')
      | Inr (Some hash) \<Rightarrow> Ok hash)"

record argon2 =
  ar_parse :: "string \<Rightarrow> string option"
  ar_verify :: "string \<Rightarrow> string \<Rightarrow> bool"
  ar_salt :: "string \<Rightarrow> string option"
  ar_hash :: "string \<Rightarrow> string \<Rightarrow> bool"

definition verify_work :: "argon2 \<Rightarrow> string \<Rightarrow> string option \<Rightarrow> bool" where
  "verify_work ar password stored =
     (case stored of
        Some stored_hash \<Rightarrow>
          (case ar_parse ar stored_hash of None \<Rightarrow> False | Some parsed \<Rightarrow> ar_verify ar password parsed)
      | None \<Rightarrow>
          (case ar_salt ar ''opencade-dummy-salt'' of Some salt \<Rightarrow> ar_hash ar password salt | None \<Rightarrow> False))"

text \<open>\<open>reached\<close>: the semaphore was open, and the task did not panic.\<close>

definition run_password_verification ::
    "argon2 \<Rightarrow> bool \<Rightarrow> bool \<Rightarrow> string \<Rightarrow> string option \<Rightarrow> app_error + bool" where
  "run_password_verification ar open_semaphore no_panic password stored =
     password_worker
       (if \<not> open_semaphore then None
        else if \<not> no_panic then Some None else Some (Some (verify_work ar password stored)))"

text \<open>An unknown user costs one hash like a known one, and a stored hash that cannot be read lets nobody in.\<close>

lemma verify_unreadable_hash: "ar_parse ar h = None \<Longrightarrow> run_password_verification ar o1 o2 p (Some h) \<noteq> Ok True"
  by (simp add: run_password_verification_def password_worker_def verify_work_def)

lemma verification_internal:
  "run_password_verification ar o1 o2 p stored = Err e \<longleftrightarrow>
     (\<not> o1 \<and> e = Internal ''password worker unavailable'') \<or> (o1 \<and> \<not> o2 \<and> e = Internal ''password worker failed'')"
  by (auto simp: run_password_verification_def password_worker_def)

section \<open>How much runs at once\<close>

inductive patient_step :: "password_gate \<Rightarrow> password_gate \<Rightarrow> bool" where
  patient_start: "r \<notin> set (pw_jobs g) \<Longrightarrow> start_password_job r g = Some g' \<Longrightarrow> patient_step g g'"
| patient_finish: "patient_step g (finish_password_job r g)"

inductive password_step :: "password_gate \<Rightarrow> password_gate \<Rightarrow> bool" where
  step_patient: "patient_step g g' \<Longrightarrow> password_step g g'"
| step_abandon: "password_step g (drop_permit r g)"

definition gate_init :: "password_gate \<Rightarrow> bool" where
  "gate_init g \<longleftrightarrow> g = password_gate_new"

definition gate_inv :: "password_gate \<Rightarrow> bool" where
  "gate_inv g \<longleftrightarrow> pw_permits g + length (pw_holders g) = PASSWORD_PERMITS \<and> distinct (pw_holders g)
     \<and> distinct (pw_jobs g) \<and> set (pw_holders g) \<subseteq> set (pw_jobs g)"

lemma start_jobD:
  "start_password_job r g = Some g' \<Longrightarrow> 0 < pw_permits g \<and>
     g' = \<lparr>pw_permits = pw_permits g - 1, pw_holders = r # pw_holders g, pw_jobs = r # pw_jobs g\<rparr>"
  by (simp add: start_password_job_def split: if_splits)

lemma length_remove1_Suc: "x \<in> set xs \<Longrightarrow> Suc (length (remove1 x xs)) = length xs"
  by (induction xs) auto

lemma drop_permit_inv:
  assumes "gate_inv g"
  shows "gate_inv (drop_permit r g)"
  using assms length_remove1_Suc [of r "pw_holders g"] set_remove1_subset [of r "pw_holders g"]
  by (cases "r \<in> set (pw_holders g)") (auto simp: gate_inv_def drop_permit_def)

lemma finish_job_inv:
  assumes "gate_inv g"
  shows "gate_inv (finish_password_job r g)"
  using assms length_remove1_Suc [of r "pw_holders g"]
  by (cases "r \<in> set (pw_holders g)") (auto simp: gate_inv_def finish_password_job_def drop_permit_def)

lemma patient_step_inv:
  assumes "patient_step g g'" "gate_inv g"
  shows "gate_inv g'"
  using assms
proof cases
  case (patient_start r)
  with assms(2) start_jobD [OF patient_start(2)] show ?thesis by (auto simp: gate_inv_def)
next
  case (patient_finish r)
  with assms(2) show ?thesis by (simp add: finish_job_inv)
qed

interpretation gate: invariant_system gate_init password_step gate_inv
proof
  show "gate_init g \<Longrightarrow> gate_inv g" for g by (simp add: gate_init_def password_gate_new_def gate_inv_def)
  show "gate_inv g'" if "gate_inv g" "password_step g g'" for g g'
    using that(2,1) by cases (auto intro: patient_step_inv drop_permit_inv)
qed

text \<open>While every handler waits for its task, the holders are the jobs.\<close>

interpretation patient: invariant_system gate_init patient_step
  "\<lambda>g. gate_inv g \<and> set (pw_holders g) = set (pw_jobs g)"
proof
  show "gate_init g \<Longrightarrow> gate_inv g \<and> set (pw_holders g) = set (pw_jobs g)" for g
    by (simp add: gate_init_def password_gate_new_def gate_inv_def)
  show "gate_inv g' \<and> set (pw_holders g') = set (pw_jobs g')"
    if inv: "gate_inv g \<and> set (pw_holders g) = set (pw_jobs g)" and step: "patient_step g g'" for g g'
  proof
    show "gate_inv g'" using patient_step_inv [OF step] inv by blast
    show "set (pw_holders g') = set (pw_jobs g')"
      using step
    proof cases
      case (patient_start r)
      with inv start_jobD [OF patient_start(2)] show ?thesis by simp
    next
      case (patient_finish r)
      with inv show ?thesis by (auto simp: finish_password_job_def drop_permit_def gate_inv_def set_remove1_eq)
    qed
  qed
qed

text \<open>At most four permits are out whatever happens; at most four passwords are worked on while no client
  goes away, and any number when clients go away at the right moment.\<close>

theorem patient_work_bounded:
  "reachable gate_init patient_step g \<Longrightarrow> length (pw_jobs g) \<le> 4"
proof -
  assume r: "reachable gate_init patient_step g"
  from patient.reachable_inv [OF r] have inv: "gate_inv g" "set (pw_holders g) = set (pw_jobs g)" by simp_all
  then have "length (pw_jobs g) = length (pw_holders g)"
    using distinct_card [of "pw_jobs g"] distinct_card [of "pw_holders g"] by (simp add: gate_inv_def)
  with inv(1) show ?thesis by (simp add: gate_inv_def PASSWORD_PERMITS_def)
qed

lemma abandoned_jobs:
  "\<exists>g. reachable gate_init password_step g \<and> pw_jobs g = rev [0..<n] \<and> pw_holders g = [] \<and> pw_permits g = PASSWORD_PERMITS"
proof (induction n)
  case 0
  show ?case
    by (rule exI [of _ password_gate_new], intro conjI reach_init) (simp_all add: gate_init_def password_gate_new_def)
next
  case (Suc n)
  then obtain g where g: "reachable gate_init password_step g" "pw_jobs g = rev [0..<n]" "pw_holders g = []"
      "pw_permits g = PASSWORD_PERMITS" by blast
  let ?g = "\<lparr>pw_permits = pw_permits g - 1, pw_holders = [n], pw_jobs = n # pw_jobs g\<rparr>"
  have "start_password_job n g = Some ?g" using g by (simp add: start_password_job_def PASSWORD_PERMITS_def)
  moreover have "n \<notin> set (pw_jobs g)" using g(2) by simp
  ultimately have "password_step g ?g" by (intro step_patient patient_start)
  from reach_step [OF reach_step [OF g(1) this] step_abandon [of _ n]]
  have "reachable gate_init password_step (drop_permit n ?g)" .
  moreover have "pw_jobs (drop_permit n ?g) = rev [0..<Suc n]" "pw_holders (drop_permit n ?g) = []"
    "pw_permits (drop_permit n ?g) = PASSWORD_PERMITS"
    using g by (simp_all add: drop_permit_def PASSWORD_PERMITS_def)
  ultimately show ?case by blast
qed

theorem abandoned_work_unbounded:
  "\<exists>g. reachable gate_init password_step g \<and> length (pw_jobs g) = n"
  using abandoned_jobs [of n] by (metis length_rev length_upt minus_nat.diff_0)

end
