(* ===== verification/Process_Start.thy ===== *)
theory Process_Start
  imports Service_Surface Signaling Lifecycle Relay_Service Password_Work
begin

text \<open>
  How the two services start and stop (\<open>apps/server/src/main.rs\<close>, \<open>state.rs\<close>, \<open>shutdown_signal\<close> of
  \<open>lib.rs\<close>, the timers of \<open>lifecycle.rs\<close>, \<open>main\<close> of \<open>services/relay/src/main.rs\<close>), what their debug
  output of the configuration contains, and the way of a WebSocket request to its session.  Logging, the
  database pool, the listener and the signals of the operating system answer as arguments.
\<close>

section \<open>Debug output of the configurations\<close>

datatype debug_value = DbgStr string | DbgNat nat | DbgBool bool | DbgStrs "string list" | DbgOpt "string option"

definition debug_config :: "config \<Rightarrow> (string \<times> debug_value) list" where
  "debug_config c =
     [(''database_url'', DbgStr ''<redacted>''),
      (''session_secret'', DbgStr ''<redacted>''),
      (''rust_log'', DbgStr (cfg_rust_log c)),
      (''port'', DbgNat (cfg_port c)),
      (''production'', DbgBool (cfg_production c)),
      (''allowed_origins'', DbgStrs (cfg_allowed_origins c)),
      (''stun_host'', DbgStr (cfg_stun_host c)),
      (''stun_port'', DbgNat (cfg_stun_port c)),
      (''relay_url'', DbgOpt (cfg_relay_url c)),
      (''relay_secret'', DbgOpt (map_option (\<lambda>_. ''<redacted>'') (cfg_relay_secret c))),
      (''operator_token'', DbgStr ''<redacted>''),
      (''evidence_tcp_tunnel_enabled'', DbgBool (cfg_evidence_tcp_tunnel_enabled c)),
      (''route_policy_min_attempts'', DbgNat (cfg_route_policy_min_attempts c))]"

definition debug_relay_config :: "relay_config \<Rightarrow> (string \<times> debug_value) list" where
  "debug_relay_config c =
     [(''port'', DbgNat (rc_port c)), (''rust_log'', DbgStr (rc_rust_log c)), (''auth_secret'', DbgStr ''<redacted>'')]"

text \<open>Two configurations that differ in their secrets only are printed alike.\<close>

theorem debug_hides_secrets:
  "debug_config (c\<lparr>cfg_database_url := u, cfg_session_secret := s, cfg_operator_token := t\<rparr>) = debug_config c
   \<and> debug_config (c\<lparr>cfg_relay_secret := Some x\<rparr>) = debug_config (c\<lparr>cfg_relay_secret := Some y\<rparr>)
   \<and> debug_relay_config (rc\<lparr>rc_auth_secret := x\<rparr>) = debug_relay_config rc"
  by (simp add: debug_config_def debug_relay_config_def)

section \<open>Shared state\<close>

record ('pool, 'cache) app_state =
  ap_pool :: 'pool
  ap_config :: config
  ap_hub :: "uuid \<Rightarrow> uuid option"
  ap_metrics :: metrics
  ap_limiter :: auth_rate_limiter
  ap_passwords :: password_gate
  ap_cache :: "'cache option"

definition app_state_new :: "'pool \<Rightarrow> config \<Rightarrow> ('pool, 'cache) app_state" where
  "app_state_new pool c =
     \<lparr>ap_pool = pool, ap_config = c, ap_hub = (\<lambda>_. None), ap_metrics = metrics_default, ap_limiter = [],
      ap_passwords = password_gate_new, ap_cache = None\<rparr>"

section \<open>The signal that ends a service\<close>

text \<open>What installing a handler led to: an error, or a handler whose signal has come or not.\<close>

datatype signal_handler = NotInstalled | Installed bool

fun signal_came :: "signal_handler \<Rightarrow> bool" where
  "signal_came NotInstalled = False"
| "signal_came (Installed came) = came"

text \<open>In the server a Ctrl+C handler that cannot be installed ends the wait, a terminate handler that cannot
  be installed waits for ever; in the relay both panic (\<open>None\<close>).\<close>

definition shutdown_signal :: "bool \<Rightarrow> signal_handler \<Rightarrow> signal_handler \<Rightarrow> bool" where
  "shutdown_signal unix ctrl_c terminate \<longleftrightarrow>
     (ctrl_c = NotInstalled \<or> signal_came ctrl_c) \<or> (unix \<and> terminate \<noteq> NotInstalled \<and> signal_came terminate)"

definition relay_shutdown_signal :: "bool \<Rightarrow> signal_handler \<Rightarrow> signal_handler \<Rightarrow> bool option" where
  "relay_shutdown_signal unix ctrl_c terminate =
     (if ctrl_c = NotInstalled \<or> (unix \<and> terminate = NotInstalled) then None
      else Some (signal_came ctrl_c \<or> (unix \<and> signal_came terminate)))"

text \<open>With both handlers installed the two services stop on the same signals; without the Ctrl+C handler the
  server stops at once although no signal came.\<close>

lemma shutdown_agree:
  "relay_shutdown_signal unix (Installed a) (Installed b) = Some (shutdown_signal unix (Installed a) (Installed b))"
  by (simp add: relay_shutdown_signal_def shutdown_signal_def)

theorem shutdown_without_signal: "shutdown_signal unix NotInstalled (Installed False)"
  by (simp add: shutdown_signal_def)

section \<open>Start of the server\<close>

datatype ('pool, 'cache) start_effect =
    LogsJson string | LogsCompact string
  | Connected string
  | Migrated
  | Listening u16
  | ReconcilerStarted | RetentionStarted
  | Served "('pool, 'cache) app_state"

datatype start_error =
    StartConfig config_error | StartDatabase string | StartMigration string | StartBind string | StartServe string

record 'pool server_host =
  sh_env_filter :: "string option"
  sh_connect :: "string \<Rightarrow> string + 'pool"
  sh_args :: "string list"
  sh_migrate :: "'pool \<Rightarrow> string + unit"
  sh_bind :: "u16 \<Rightarrow> string + unit"
  sh_serve :: "string + unit"

definition log_filter :: "string option \<Rightarrow> string \<Rightarrow> string" where
  "log_filter from_env rust_log = (case from_env of Some f \<Rightarrow> f | None \<Rightarrow> rust_log)"

definition server_main ::
    "(string \<Rightarrow> url option) \<Rightarrow> (string \<Rightarrow> string option) \<Rightarrow> 'pool server_host \<Rightarrow>
     (start_error + unit) \<times> ('pool, 'cache) start_effect list" where
  "server_main parse_url lookup host =
     (case from_lookup parse_url lookup of
        Inl e \<Rightarrow> (Err (StartConfig e), [])
      | Inr c \<Rightarrow>
          (let filter_text = log_filter (sh_env_filter host) (cfg_rust_log c);
               logs = (if cfg_production c then LogsJson filter_text else LogsCompact filter_text)
           in case sh_connect host (cfg_database_url c) of
                Inl e \<Rightarrow> (Err (StartDatabase e), [logs])
              | Inr pool \<Rightarrow>
                  (let begun = [logs, Connected (cfg_database_url c)] in
                   if ''--migrate'' \<in> set (sh_args host)
                   then (case sh_migrate host pool of
                           Inl e \<Rightarrow> (Err (StartMigration e), begun)
                         | Inr _ \<Rightarrow> (Ok (), begun @ [Migrated]))
                   else (case sh_bind host (of_nat (cfg_port c)) of
                           Inl e \<Rightarrow> (Err (StartBind e), begun)
                         | Inr _ \<Rightarrow>
                             (let running = begun @ [Listening (of_nat (cfg_port c)), ReconcilerStarted, RetentionStarted,
                                                     Served (app_state_new pool c)]
                              in case sh_serve host of
                                   Inl e \<Rightarrow> (Err (StartServe e), running)
                                 | Inr _ \<Rightarrow> (Ok (), running))))))"

text \<open>Whatever is served, is served with a configuration that \<open>from_lookup\<close> accepted, on its port, with empty
  shared state, after both timers were started; a run that migrates opens no port.\<close>

theorem server_start_order:
  assumes "Served st \<in> set (snd (server_main parse_url lookup host))"
  shows "\<exists>c pool. from_lookup parse_url lookup = Ok c \<and> sh_connect host (cfg_database_url c) = Ok pool
    \<and> sh_bind host (of_nat (cfg_port c)) = Ok () \<and> ''--migrate'' \<notin> set (sh_args host)
    \<and> st = app_state_new pool c
    \<and> (\<exists>before. snd (server_main parse_url lookup host) = before @ [ReconcilerStarted, RetentionStarted, Served st])"
proof (cases "from_lookup parse_url lookup")
  case (Inl e)
  with assms show ?thesis by (simp add: server_main_def)
next
  case c: (Inr c)
  show ?thesis
  proof (cases "sh_connect host (cfg_database_url c)")
    case (Inl e)
    with assms c show ?thesis by (auto simp: server_main_def Let_def split: if_splits)
  next
    case (Inr pool)
    with assms c show ?thesis
      by (cases "sh_bind host (of_nat (cfg_port c))"; cases "sh_serve host")
         (auto simp: server_main_def Let_def split: if_splits sum.splits)
  qed
qed

theorem migration_opens_no_port:
  "''--migrate'' \<in> set (sh_args host) \<Longrightarrow> Listening p \<notin> set (snd (server_main parse_url lookup host))"
  by (auto simp: server_main_def Let_def split: sum.splits if_splits)

section \<open>The timers\<close>

text \<open>One tick of either timer: an error of the database is logged and the loop goes on.\<close>

datatype tick_log = ReconcileFailed app_error | RetentionFailed app_error | TelemetryRemoved nat

definition reconciler_tick :: "app_error option \<Rightarrow> instant \<Rightarrow> uuid list \<Rightarrow> db \<Rightarrow> db \<times> tick_log list" where
  "reconciler_tick failure now busy d =
     (case failure of Some e \<Rightarrow> (d, [ReconcileFailed e]) | None \<Rightarrow> (fst (reconcile_expired now busy d), []))"

definition retention_tick ::
    "app_error option \<Rightarrow> instant \<Rightarrow> product_event_row list \<Rightarrow> product_event_row list \<times> tick_log list" where
  "retention_tick failure now es =
     (case failure of
        Some e \<Rightarrow> (es, [RetentionFailed e])
      | None \<Rightarrow>
          (case reconcile_telemetry_retention now es of
             (kept, removed) \<Rightarrow> (kept, if removed > 0 then [TelemetryRemoved removed] else [])))"

section \<open>The WebSocket handler\<close>

text \<open>The token of the subprotocol header, the session, and the socket of its user, once the client has
  completed the upgrade.\<close>

definition ws_handler ::
    "auth_env \<Rightarrow> ws_codec \<Rightarrow> instant \<Rightarrow> uuid \<Rightarrow> string option \<Rightarrow> accounts \<Rightarrow> hub \<Rightarrow>
     (app_error + auth_user \<times> ws_session option) \<times> hub" where
  "ws_handler env codec now cid header st h =
     (case ok_or (websocket_token header) (Unauthorized ''websocket authentication required'') of
        Inl e \<Rightarrow> (Err e, h)
      | Inr token \<Rightarrow>
          (case authenticate_token env token st of
             Inl e \<Rightarrow> (Err e, h)
           | Inr user \<Rightarrow>
               (case open_socket codec now cid (au_id user) h of (session, h') \<Rightarrow> (Ok (user, session), h'))))"

text \<open>A socket belongs to the user of a live session whose token the client sent, and a refused request leaves the
  hub alone.\<close>

theorem ws_handler_authentic:
  "case ws_handler env codec now cid header st h of
     (Inl e, h') \<Rightarrow> h' = h
   | (Inr (user, session), h') \<Rightarrow>
       (\<exists>token. websocket_token header = Some token \<and> authenticate_token env token st = Ok user)
     \<and> (case session of None \<Rightarrow> True | Some s \<Rightarrow> wx_user s = au_id user \<and> wx_id s = cid)"
proof (cases "websocket_token header")
  case (Some token)
  show ?thesis
  proof (cases "authenticate_token env token st")
    case (Inr user)
    with Some show ?thesis
      by (auto simp: ws_handler_def ok_or_def open_socket_def Let_def split: prod.splits bool.splits option.splits)
  qed (simp add: ws_handler_def ok_or_def Some)
qed (simp add: ws_handler_def ok_or_def)

section \<open>The relay\<close>

datatype relay_endpoint = RelayHealth | RelayReady | RelayUpgrade

definition relay_routes :: "(string \<times> string \<times> relay_endpoint) list" where
  "relay_routes = [(''GET'', ''/health'', RelayHealth), (''GET'', ''/ready'', RelayReady), (''GET'', ''/relay'', RelayUpgrade)]"

datatype relay_effect =
    RelayLogsJson string | RelayLogsPretty string
  | CleanupStarted
  | RelayListening u16
  | RelayServed relay_state

definition relay_init_tracing :: "string option \<Rightarrow> env_var \<Rightarrow> string \<Rightarrow> relay_effect" where
  "relay_init_tracing from_env opencade_env rust_log =
     (let filter_text = log_filter from_env rust_log;
          is_prod = (case env_ok opencade_env of Some v \<Rightarrow> to_ascii_lowercase v = ''production'' | None \<Rightarrow> False)
      in if is_prod then RelayLogsJson filter_text else RelayLogsPretty filter_text)"

definition relay_state_new :: "relay_config \<Rightarrow> relay_state" where
  "relay_state_new c =
     \<lparr>rs_auth_secret = rc_auth_secret c, rs_rooms = (\<lambda>_. []), rs_used_tickets = (\<lambda>_. None),
      rs_queues = (\<lambda>_. channel_new RELAY_QUEUE), rs_cancelled = (\<lambda>_. False)\<rparr>"

definition relay_main ::
    "(string \<Rightarrow> env_var) \<Rightarrow> string option \<Rightarrow> (u16 \<Rightarrow> string + unit) \<Rightarrow> string + unit \<Rightarrow>
     (string + unit) \<times> relay_effect list" where
  "relay_main var env_filter bind_port serve =
     (case relay_from_env var of
        Inl e \<Rightarrow> (Err e, [])
      | Inr c \<Rightarrow>
          (let begun = [relay_init_tracing env_filter (var ''OPENCADE_ENV'') (rc_rust_log c), CleanupStarted] in
           case bind_port (of_nat (rc_port c)) of
             Inl e \<Rightarrow> (Err e, begun)
           | Inr _ \<Rightarrow>
               (case serve of
                  Inl e \<Rightarrow> (Err e, begun @ [RelayListening (of_nat (rc_port c)), RelayServed (relay_state_new c)])
                | Inr _ \<Rightarrow> (Ok (), begun @ [RelayListening (of_nat (rc_port c)), RelayServed (relay_state_new c)]))))"

text \<open>The relay serves with a secret of at least 32 bytes only, with no room and no redeemed ticket, and with the
  cleanup of the tickets running.\<close>

theorem relay_start:
  assumes "RelayServed st \<in> set (snd (relay_main var env_filter bind_port serve))"
  shows "32 \<le> length (rs_auth_secret st) \<and> rs_rooms st room = [] \<and> rs_used_tickets st nonce = None
    \<and> CleanupStarted \<in> set (snd (relay_main var env_filter bind_port serve))"
proof (cases "relay_from_env var")
  case (Inr c)
  then have "32 \<le> length (rc_auth_secret c)"
    by (auto simp: relay_from_env_def Let_def split: sum.splits option.splits if_splits)
  with assms Inr show ?thesis
    by (auto simp: relay_main_def relay_state_new_def relay_init_tracing_def Let_def split: sum.splits if_splits)
qed (use assms in \<open>simp add: relay_main_def\<close>)

end
