(* ===== verification/Client_Start.thy ===== *)
theory Client_Start
  imports Client_Native Client_Probe
begin

text \<open>
  The desktop application around its commands (\<open>apps/client/src-tauri/src/main.rs\<close>): the settings it will
  not start without, the commands the user interface can call, and what the end of the application does to
  the games, tunnels and probes that still run.
\<close>

section \<open>The commands\<close>

datatype client_command =
    ScanGame | LaunchGame | LaunchRetroarchMatch | RetroarchPreflight | StopGame | NetworkTest
  | ReserveMatchProbe | RunReservedMatchProbe | RunRelayMatchProbe | CancelMatchProbe | RuntimeConfigCommand
  | StoreSessionToken | LoadSessionToken | ClearSessionToken | StartNativeTcpTunnel | StopNativeTcpTunnel

definition invoke_handler :: "(string \<times> client_command) list" where
  "invoke_handler =
     [(''scan_game'', ScanGame),
      (''launch_game'', LaunchGame),
      (''launch_retroarch_match'', LaunchRetroarchMatch),
      (''retroarch_preflight'', RetroarchPreflight),
      (''stop_game'', StopGame),
      (''network_test'', NetworkTest),
      (''reserve_match_probe'', ReserveMatchProbe),
      (''run_reserved_match_probe'', RunReservedMatchProbe),
      (''run_relay_match_probe_command'', RunRelayMatchProbe),
      (''cancel_match_probe'', CancelMatchProbe),
      (''runtime_config'', RuntimeConfigCommand),
      (''store_session_token'', StoreSessionToken),
      (''load_session_token'', LoadSessionToken),
      (''clear_session_token'', ClearSessionToken),
      (''start_native_tcp_tunnel'', StartNativeTcpTunnel),
      (''stop_native_tcp_tunnel'', StopNativeTcpTunnel)]"

lemma invoke_handler_distinct: "distinct (map fst invoke_handler)" "distinct (map snd invoke_handler)"
  by (simp_all add: invoke_handler_def)

section \<open>Managed state\<close>

record client_state =
  dk_runtime :: runtime_config
  dk_children :: process_registry
  dk_probes :: probe_registry
  dk_tunnels :: tunnel_registry

definition client_state_new :: "runtime_config \<Rightarrow> client_state" where
  "client_state_new runtime =
     \<lparr>dk_runtime = runtime, dk_children = \<lparr>cr_children = [], cr_killed = []\<rparr>,
      dk_probes = \<lparr>pg_slots = [], pg_cancelled = []\<rparr>, dk_tunnels = \<lparr>tg_tasks = [], tg_aborted = []\<rparr>\<rparr>"

text \<open>The state the window opens with; \<open>None\<close> is the panic of \<open>expect\<close>.\<close>

definition client_main ::
    "(string \<Rightarrow> url option) \<Rightarrow> (string \<Rightarrow> string option) \<Rightarrow> string + unit \<Rightarrow> client_state option" where
  "client_main parse_url lookup build =
     (case runtime_from_env parse_url lookup of
        Inl _ \<Rightarrow> None
      | Inr runtime \<Rightarrow> (case build of Inl _ \<Rightarrow> None | Inr _ \<Rightarrow> Some (client_state_new runtime)))"

section \<open>The end of the application\<close>

datatype run_event = RunExit | RunExitRequested | RunOther

text \<open>\<open>locked\<close>: a command holds the lock of the probes at this moment, so \<open>try_lock\<close> fails.\<close>

definition on_run_event :: "bool \<Rightarrow> run_event \<Rightarrow> client_state \<Rightarrow> client_state" where
  "on_run_event locked event st =
     (if event = RunExit \<or> event = RunExitRequested
      then st\<lparr>dk_children := shutdown_children (dk_children st),
             dk_tunnels := shutdown_tunnels (dk_tunnels st),
             dk_probes := shutdown_probes locked (dk_probes st)\<rparr>
      else st)"

lemma running_cancelled:
  "(room, Running r) \<in> set slots \<Longrightarrow>
     r \<in> set (List.map_filter (\<lambda>(_, slot). case slot of Running r \<Rightarrow> Some r | Prepared _ \<Rightarrow> None) slots)"
  by (induction slots) (auto simp: List.map_filter_def)

text \<open>No game, tunnel or probe survives the end, and each that ran was stopped.\<close>

theorem exit_stops_everything:
  assumes "event \<noteq> RunOther"
  shows "cr_children (dk_children (on_run_event locked event st)) = []
    \<and> snd ` set (cr_children (dk_children st)) \<subseteq> set (cr_killed (dk_children (on_run_event locked event st)))
    \<and> tg_tasks (dk_tunnels (on_run_event locked event st)) = []
    \<and> snd ` set (tg_tasks (dk_tunnels st)) \<subseteq> set (tg_aborted (dk_tunnels (on_run_event locked event st)))
    \<and> (locked \<or> (pg_slots (dk_probes (on_run_event locked event st)) = []
         \<and> (\<forall>room r. (room, Running r) \<in> set (pg_slots (dk_probes st)) \<longrightarrow>
              r \<in> set (pg_cancelled (dk_probes (on_run_event locked event st))))))"
proof -
  have "on_run_event locked event st = st\<lparr>dk_children := shutdown_children (dk_children st),
      dk_tunnels := shutdown_tunnels (dk_tunnels st), dk_probes := shutdown_probes locked (dk_probes st)\<rparr>"
    using assms by (cases event) (simp_all add: on_run_event_def)
  then show ?thesis
    using running_cancelled by (auto simp: shutdown_children_def shutdown_tunnels_def shutdown_probes_def)
qed

text \<open>A second exit event changes nothing: there is nothing left to stop.\<close>

theorem exit_idempotent:
  "on_run_event False e (on_run_event False RunExitRequested st) = on_run_event False RunExitRequested st"
  by (simp add: on_run_event_def shutdown_children_def shutdown_tunnels_def shutdown_probes_def List.map_filter_def)

end
