(* ===== verification/Spec2Isabelle.thy ===== *)
theory Spec2Isabelle
  imports Room_State Nat_Policy Stun_Correct Probe_Liveness Campaign Proof_Of_Match Proof_Liveness Relay_Correct
    Rate_Limits Server_Refinement Server_Progress Server_Records Server_Launch Server_Exit
    Signaling_Correct Server_Config Accounts_Correct Telemetry Hole_Punch Adapters
    Client_Probe Client_Native Client_Exit Native_Tunnel Evidence_Routes Game_Definitions Probe_Evidence
    Service_Surface Client_Diag Latency Server_Campaign Process_Start Client_Start
begin

text \<open>
  OpenCade is a matchmaking service for emulated arcade games: an API server with a PostgreSQL
  database, a relay, a desktop client that probes the path between two players and starts the
  emulator, command line tools that produce and check evidence of a match, and the crates they
  share.  This library models the Rust implementation; the directories named below are under
  \<open>src/\<close>.

  \<^bold>\<open>How the parts interact.\<close>
  Two clients log in and open a WebSocket; one creates a room and the other joins it by acceptance, challenge
  or invite.  The server forwards their signalling frames, the clients gather candidates (STUN), punch a
  hole and run the match probe over UDP, or over the relay with a ticket the server signed.  Both
  submit their reports; the server, the campaign summary and the tools accept a match only when the two
  reports correspond.  Launch grants and a barrier then let both start the emulator, directly or through a
  native TCP tunnel over the relay; a reconciler cancels what is overdue.

  \<^bold>\<open>Shared layer.\<close>
  \<open>OC_Prelude\<close>: fixed-width integers, results as sums, strings as UTF-8 byte sequences with \<open>str::trim\<close>,
  ordered maps, UUIDs, JSON values, table updates, and the collections \<open>string_simps\<close> and friends.
  \<open>Std_Text\<close>: the number and address parsers of the Rust standard library.  The interfaces are locales, each
  interpreted on the model's own definitions: \<open>invariant_system\<close> (\<open>Reachability\<close>; probe pair, proof run,
  relay, server, sockets, telemetry, accounts, client registry, tunnel), \<open>bounded_fifo\<close> (\<open>Channel\<close>), \<open>label_codec\<close>
  (\<open>Label_Codec\<close>), \<open>sliding_window\<close> and \<open>fixed_window\<close> (\<open>Rate_Limits\<close>, \<open>Relay_Correct\<close>),
  \<open>report_verifier\<close> and \<open>stricter_verifier\<close> (\<open>Report_Verifier\<close>), \<open>run_registry\<close> (\<open>Run_Registry\<close>),
  \<open>request_relation\<close> (\<open>Server_Relations\<close>), \<open>emulator_adapter\<close> (\<open>Adapters\<close>).

  \<^bold>\<open>Theories and code.\<close>
  \<^item> \<open>Protocol\<close>: \<open>packages/protocol/src/lib.rs\<close>, the envelope and the payload types.
  \<^item> \<open>Room_State\<close>: \<open>apps/server/src/room_state.rs\<close>, states, events, labels.
  \<^item> \<open>Emulator_SDK\<close>, \<open>Adapters\<close>, \<open>Game_Definitions\<close>: \<open>packages/emulator-sdk\<close>, \<open>adapters/retroarch\<close>,
    \<open>adapters/fbneo\<close>, \<open>packages/game-definitions\<close>.
  \<^item> \<open>Nat_Policy\<close>, \<open>Input_Transport\<close>, \<open>Stun_Client\<close>, \<open>Stun_Correct\<close>, \<open>Hole_Punch\<close>, \<open>Native_Tunnel\<close>, \<open>Latency\<close>:
    \<open>packages/networking/src\<close>, the files \<open>nat.rs\<close>, \<open>lib.rs\<close>, \<open>stun.rs\<close>, \<open>traversal.rs\<close>, \<open>relay.rs\<close> with
    \<open>tcp_tunnel.rs\<close>, and \<open>latency.rs\<close>.
  \<^item> \<open>Match_Probe\<close>, \<open>Probe_Network\<close>, \<open>Probe_Liveness\<close>: \<open>probe.rs\<close>, the loop as a step function, two of them over a
    network that loses, duplicates and reorders, agreement and progress.
  \<^item> \<open>Report_Verifier\<close>, \<open>Campaign\<close>: \<open>report.rs\<close>.  \<open>Proof_Of_Match\<close>,
    \<open>Proof_Liveness\<close>: \<open>crates/proof-of-match\<close>.
  \<^item> \<open>Command_Line\<close>, \<open>Probe_Evidence\<close>: the four tools under \<open>src/bin\<close> of the two crates, and the composition of probe,
    report and verifier.
  \<^item> \<open>Relay_Ticket\<close>, \<open>Relay_Service\<close>, \<open>Relay_Correct\<close>: \<open>packages/shared/src/lib.rs\<close>, \<open>services/relay/src/main.rs\<close>.
  \<^item> \<open>Rate_Limits\<close>: the limiters of \<open>ws.rs\<close> and \<open>auth_rate_limit.rs\<close>.
  \<^item> \<open>Server_DB\<close>: errors and tables (\<open>error.rs\<close>, \<open>migrations/\<close>).  \<open>Room_Routes\<close>, \<open>Launch_Routes\<close>,
    \<open>Challenge_Routes\<close>, \<open>Alpha_Routes\<close>, \<open>Evidence_Routes\<close>: the handlers of \<open>routes/rooms.rs\<close>, \<open>challenges.rs\<close>,
    \<open>alpha.rs\<close>, \<open>alpha_evidence.rs\<close>.  \<open>Route_Policy\<close>, \<open>Lifecycle\<close>: \<open>route_policy.rs\<close>, \<open>lifecycle.rs\<close>.
  \<^item> \<open>Server_Invariant\<close>, \<open>Server_Steps\<close>, \<open>Server_Correct\<close>, \<open>Server_Relations\<close>, \<open>Server_History\<close>, \<open>Server_Refinement\<close>,
    \<open>Server_Progress\<close>, \<open>Server_Records\<close>, \<open>Server_Launch\<close>,
    \<open>Server_Exit\<close>, \<open>Server_Evidence\<close>, \<open>Server_Campaign\<close>: the server as one transition system; \<open>Server_Demo\<close> and
    \<open>Server_Demo_Match\<close> are a concrete run.
  \<^item> \<open>Accounts\<close>, \<open>Accounts_Correct\<close>: \<open>routes/auth.rs\<close>, \<open>authn.rs\<close>.  \<open>Telemetry\<close>: \<open>routes/telemetry.rs\<close>.
    \<open>Server_Config\<close>: \<open>config.rs\<close>.  \<open>Signaling\<close>, \<open>Signaling_Correct\<close>: \<open>ws.rs\<close>.  \<open>Service_Surface\<close>: the route table,
    CORS policy, counters, health, the directory routes and the relay's environment.  \<open>Password_Work\<close>: the permits in front
    of Argon2.  \<open>Process_Start\<close>: \<open>main.rs\<close>, \<open>state.rs\<close>, timers, signals and debug output of the services.
  \<^item> \<open>Run_Registry\<close>, \<open>Client_Probe\<close>, \<open>Client_Native\<close>, \<open>Client_Exit\<close>, \<open>Client_Diag\<close>: the commands of
    \<open>apps/client/src-tauri/src/commands\<close>.  \<open>Client_Start\<close>: \<open>src-tauri/src/main.rs\<close>.

  \<^bold>\<open>How state and operations correspond.\<close>
  A struct is a record with the fields of the struct under a prefix, an enum a datatype.  A handler is a function from the
  environment of the request, its arguments and the database (a record of tables, each a list of
  rows) to a result and the new database; a transaction is atomic and rolls back on an error, so
  concurrent requests are sequences of transactions.  A loop over a socket is a step function on events that say
  what the await returned.  Locks and atomics are steps of the state they guard.  Integers are words
  where the code's width can be met, else the integers the code bounds first.

  \<^bold>\<open>What the groups of theorems show.\<close>
  The properties are the theorems whose text begins with C and a number.  Probe and evidence: transcripts
  agree whatever the network does, the exchange can always be finished, and what two tools print is what
  the verifier accepts; the verifier, the campaign ledger and the proof runner decide exactly by the
  rules of the alpha contract.  Server: rooms move only along the state machine, every table stays consistent in every
  reachable state, errors change nothing, the room protocol refines a small abstract one, invites, grants and
  receipts are used once, repeated exit reports and receipts change nothing, the reconciler works off everything
  overdue, and what the public table, the tunnel gate, the campaign page and a receipt count as a
  verified room is one pair of reports.  Sessions, signalling and relay: who
  receives what, single use of tickets, bounds on rooms, queues and rates.  Client: one probe per room, no launch
  without a redeemed grant, no file outside the installation.  Parsers and settings: totality, round trips,
  validity of what is accepted.

  \<^bold>\<open>Bounds and fuel.\<close>
  No definition needs fuel: the recursions are structural, over event lists, or over a decreasing list (the trimming
  functions, \<open>parse_args\<close>).  The drive loop of the proof of match is proved to end after exactly 120
  effective receives when no timer fires, from an invariant on both channels' contents.  \<open>fallback_chain\<close> ends at the relay.  Bounds in statements are those of the
  code's integers: fewer than \<open>2^64\<close> steps where a 64-bit counter of sent frames must not wrap, fewer than
  \<open>2^32\<close> where it is stored in 32 bits, and 42,949,672 rooms below which the percentages of the route policy
  do not saturate.

  \<^bold>\<open>Parameters.\<close>
  JSON, TOML, regular expressions and URLs, HMAC, SHA-256, Argon2, random numbers, clocks, the file system, processes, sockets, the
  credential store, the environment, and the collation and \<open>lower\<close> of PostgreSQL are arguments of the definitions that
  use them.  What a theorem needs of them is among its hypotheses (for instance that a decoder reads back
  what the encoder wrote, or that two claims with one signature are a collision of the MAC).
  Floating-point arithmetic is a parameter in \<open>Latency\<close>; the success rates of the summaries are exact quotients.

  \<^bold>\<open>Not modelled.\<close>
  What the frameworks do between the modelled functions: the installation of log subscribers, listeners and pools, the
  statements of the migrations (their tables are the records of \<open>Server_DB\<close>), the Tauri window.  The matching of
  request paths, the writing of CORS headers and the extraction of bodies belong to the web framework;
  \<open>Service_Surface\<close> has the route table and the CORS policy.  The output drains of child processes do not change state.  SQL is
  modelled by its effect on the tables, not as a language: plans, locks and isolation anomalies below serialisable
  transactions are outside.  Tests, examples, \<open>build.rs\<close>, the TypeScript front end and the C fixture core are
  not part of the Rust implementation that runs.
\<close>

end
